(* ===== verification/Prelude.thy ===== *)
theory Prelude
  imports Main "HOL-Library.Word" "HOL-Library.Char_ord" "HOL-Library.List_Lexorder"
    "HOL-Library.Monad_Syntax"
begin

text \<open>
  Shared by every component of the communicator model: the names of the machine types the
  C++ code uses, little-endian layout of packed structs, the decimal output of
  \<^verbatim>\<open>operator <<\<close> on integers, and the collections of rewrite rules the component proofs use.

  The code is modelled for the platform its build files target: x86-64 Linux, so
  \<^verbatim>\<open>unsigned\<close> and \<^verbatim>\<open>int\<close> have 32 bits, \<^verbatim>\<open>size_t\<close> has 64, and structs under
  \<^verbatim>\<open>#pragma pack(1)\<close> are laid out little-endian with no padding.
\<close>

unbundle bit_operations_syntax

type_synonym byte = "8 word"
type_synonym u16 = "16 word"
type_synonym u32 = "32 word"
type_synonym u64 = "64 word"

named_theorems wire_simps "layout of packed structs"
named_theorems frame_simps "parts of a state an operation leaves alone"

section \<open>Exceptions and undefined behaviour\<close>

text \<open>
  The C++ exceptions the code throws, with their messages. A call that can throw returns an
  \<open>outcome\<close>. \<open>Undefined\<close> is a read outside the memory the code may touch: C++ gives it no
  meaning, so the model stops there instead of inventing a value.
\<close>

datatype exn =
    Length_error string
  | Overflow_error string
  | Runtime_error string
  | Invalid_argument string
  | Sql_exception string
  | Std_exception string
  | Thread_interrupted
  | Other_exception

datatype 'a outcome = Return 'a | Throw exn | Undefined

fun and_then :: "'a outcome \<Rightarrow> ('a \<Rightarrow> 'b outcome) \<Rightarrow> 'b outcome" where
  "and_then (Return a) f = f a"
| "and_then (Throw e) f = Throw e"
| "and_then Undefined f = Undefined"

text \<open>A read that may be out of bounds, used where the code reads without a check.\<close>

fun read_or_undefined :: "'a option \<Rightarrow> 'a outcome" where
  "read_or_undefined None = Undefined"
| "read_or_undefined (Some a) = Return a"

lemma and_then_Return: "and_then m f = Return b \<longleftrightarrow> (\<exists>a. m = Return a \<and> f a = Return b)"
  by (cases m) auto

lemma read_or_undefined_Return [simp]: "read_or_undefined r = Return a \<longleftrightarrow> r = Some a"
  by (cases r) auto

section \<open>Lists\<close>

lemma foldl_fixed_point: "(\<And>x. x \<in> set xs \<Longrightarrow> f a x = a) \<Longrightarrow> foldl f a xs = a"
  by (induction xs) simp_all

lemma list_all_appendI [intro]: "list_all P xs \<Longrightarrow> list_all P ys \<Longrightarrow> list_all P (xs @ ys)"
  by simp

lemma dropWhile_length_le: "length (dropWhile P xs) \<le> length xs"
  by (rule length_dropWhile_le)

lemma nth_concat_pairs:
  "i < length xs \<Longrightarrow> concat (map (\<lambda>x. [f x, g x]) xs) ! (2 * i) = f (xs ! i)"
  "i < length xs \<Longrightarrow> concat (map (\<lambda>x. [f x, g x]) xs) ! (2 * i + 1) = g (xs ! i)"
proof (induction xs arbitrary: i)
  case (Cons a xs)
  {
    case 1
    with Cons.IH(1) show ?case by (cases i) (auto simp: nth_Cons')
  next
    case 2
    with Cons.IH(2) show ?case by (cases i) (auto simp: nth_Cons')
  }
qed simp_all

section \<open>Words\<close>

lemma mask_8_word: "(0xFF :: 'a::len word) = mask 8"
  by (simp add: mask_eq_exp_minus_1)

section \<open>Little-endian layout\<close>

definition le16 :: "u16 \<Rightarrow> byte list" where
  "le16 x = [ucast x, ucast (drop_bit 8 x)]"

definition le32 :: "u32 \<Rightarrow> byte list" where
  "le32 x = [ucast x, ucast (drop_bit 8 x), ucast (drop_bit 16 x), ucast (drop_bit 24 x)]"

text \<open>
  A read of a little-endian field at an offset of a block of memory. Reading past the block
  is undefined behaviour in C++; here it is the value \<open>None\<close>, which no definition of the
  model turns back into a number.
\<close>

definition rd8 :: "byte list \<Rightarrow> nat \<Rightarrow> byte option" where
  "rd8 mem i = (if i < length mem then Some (mem ! i) else None)"

definition rd16 :: "byte list \<Rightarrow> nat \<Rightarrow> u16 option" where
  "rd16 mem i =
     (if i + 1 < length mem
      then Some (ucast (mem ! i) OR push_bit 8 (ucast (mem ! (i + 1)))) else None)"

definition rd32 :: "byte list \<Rightarrow> nat \<Rightarrow> u32 option" where
  "rd32 mem i =
     (if i + 3 < length mem
      then Some (ucast (mem ! i) OR push_bit 8 (ucast (mem ! (i + 1)))
        OR push_bit 16 (ucast (mem ! (i + 2))) OR push_bit 24 (ucast (mem ! (i + 3))))
      else None)"

lemma length_le16 [simp]: "length (le16 x) = 2"
  by (simp add: le16_def)

lemma length_le32 [simp]: "length (le32 x) = 4"
  by (simp add: le32_def)

lemma join_le16: "ucast (ucast x :: byte) OR push_bit 8 (ucast (ucast (drop_bit 8 x) :: byte)) = (x :: u16)"
  by (rule bit_word_eqI) (auto simp: bit_simps)

lemma join_le32:
  "ucast (ucast x :: byte) OR push_bit 8 (ucast (ucast (drop_bit 8 x) :: byte))
     OR push_bit 16 (ucast (ucast (drop_bit 16 x) :: byte))
     OR push_bit 24 (ucast (ucast (drop_bit 24 x) :: byte)) = (x :: u32)"
proof (rule bit_word_eqI)
  fix n assume "n < LENGTH(32)"
  then consider "n < 8" | "8 \<le> n \<and> n < 16" | "16 \<le> n \<and> n < 24" | "24 \<le> n \<and> n < 32"
    by auto linarith
  then show "bit (ucast (ucast x :: byte) OR push_bit 8 (ucast (ucast (drop_bit 8 x) :: byte))
     OR push_bit 16 (ucast (ucast (drop_bit 16 x) :: byte))
     OR push_bit 24 (ucast (ucast (drop_bit 24 x) :: byte)) :: u32) n = bit x n"
    by cases (auto simp: bit_simps)
qed

lemma nth_append_offset:
  "i = length pre + j \<Longrightarrow> j < length mid \<Longrightarrow> (pre @ mid @ post) ! i = mid ! j"
  by (simp add: nth_append)

lemma rd16_le16 [wire_simps]: "rd16 (pre @ le16 x @ post) (length pre) = Some x"
  unfolding rd16_def le16_def using join_le16 by (simp add: nth_append)

lemma rd32_le32 [wire_simps]: "rd32 (pre @ le32 x @ post) (length pre) = Some x"
  unfolding rd32_def le32_def using join_le32 by (simp add: nth_append)

lemma rd8_drop [simp]: "rd8 (drop n mem) i = rd8 mem (n + i)"
  by (auto simp: rd8_def)

lemma rd8_append1 [wire_simps]: "i < length a \<Longrightarrow> rd8 (a @ b) i = rd8 a i"
  by (simp add: rd8_def nth_append)

lemma rd16_append1 [wire_simps]: "i + 1 < length a \<Longrightarrow> rd16 (a @ b) i = rd16 a i"
  by (simp add: rd16_def nth_append)

lemma rd32_append1 [wire_simps]: "i + 3 < length a \<Longrightarrow> rd32 (a @ b) i = rd32 a i"
  by (simp add: rd32_def nth_append)

section \<open>Decimal output of integers\<close>

text \<open>\<^verbatim>\<open>operator <<\<close> of an \<^verbatim>\<open>ostringstream\<close> with default flags, on unsigned and signed values.\<close>

definition digit :: "nat \<Rightarrow> char" where
  "digit d = char_of (48 + d)"

fun dec_nat :: "nat \<Rightarrow> string" where
  "dec_nat n = (if n < 10 then [digit n] else dec_nat (n div 10) @ [digit (n mod 10)])"

declare dec_nat.simps [simp del]

definition dec_int :: "int \<Rightarrow> string" where
  "dec_int i = (if i < 0 then CHR ''-'' # dec_nat (nat (- i)) else dec_nat (nat i))"

definition dec_u32 :: "u32 \<Rightarrow> string" where
  "dec_u32 x = dec_nat (unat x)"

definition dec_i32 :: "u32 \<Rightarrow> string" where
  "dec_i32 x = dec_int (sint x)"

text \<open>\<^verbatim>\<open>setw(w)\<close> with the fill character \<^verbatim>\<open>'0'\<close>.\<close>

definition pad0 :: "nat \<Rightarrow> string \<Rightarrow> string" where
  "pad0 w s = replicate (w - length s) (CHR ''0'') @ s"

definition undigit :: "char \<Rightarrow> nat" where
  "undigit c = of_char c - 48"

fun read_nat :: "nat \<Rightarrow> string \<Rightarrow> nat" where
  "read_nat acc [] = acc"
| "read_nat acc (c # cs) = read_nat (10 * acc + undigit c) cs"

definition is_digit :: "char \<Rightarrow> bool" where
  "is_digit c \<longleftrightarrow> 48 \<le> (of_char c :: nat) \<and> (of_char c :: nat) \<le> 57"

lemma of_char_digit: "d < 10 \<Longrightarrow> (of_char (digit d) :: nat) = 48 + d"
  by (simp add: digit_def of_char_of)

lemma undigit_digit [simp]: "d < 10 \<Longrightarrow> undigit (digit d) = d"
  by (simp add: undigit_def of_char_digit)

lemma is_digit_digit [simp]: "d < 10 \<Longrightarrow> is_digit (digit d)"
  by (simp add: is_digit_def of_char_digit)

lemma read_nat_append: "read_nat acc (xs @ ys) = read_nat (read_nat acc xs) ys"
  by (induction xs arbitrary: acc) auto

lemma read_dec_nat: "read_nat 0 (dec_nat n) = n"
proof (induction n rule: dec_nat.induct)
  case (1 n)
  then show ?case
    by (subst dec_nat.simps) (simp add: read_nat_append)
qed

lemma dec_nat_digits: "c \<in> set (dec_nat n) \<Longrightarrow> is_digit c"
proof (induction n rule: dec_nat.induct)
  case (1 n)
  then show ?case
    by (subst (asm) dec_nat.simps) (auto split: if_splits)
qed

lemma dec_nat_inj: "dec_nat m = dec_nat n \<longleftrightarrow> m = n"
  by (metis read_dec_nat)

lemma dec_i32_small:
  assumes "unat x < 2 ^ 31"
  shows "dec_i32 x = dec_u32 x"
proof -
  have "int (unat x) < int (2 ^ 31)" using assms by (simp only: of_nat_less_iff)
  then have "uint x < 2 ^ 31" by simp
  moreover have "- (2 ^ 31) \<le> uint x" by (rule order_trans [OF _ uint_ge_0]) simp
  ultimately have "signed_take_bit 31 (uint x) = uint x"
    by (intro signed_take_bit_int_eq_self)
  then have "sint x = uint x" by (simp add: sint_uint)
  then show ?thesis by (simp add: dec_i32_def dec_u32_def dec_int_def)
qed

lemma dec_nat_nonempty [simp]: "dec_nat n \<noteq> []"
  by (subst dec_nat.simps) simp

end
