(* ===== verification/Pb_Runtime.thy ===== *)
theory Pb_Runtime
  imports Prelude
begin

text \<open>
  What the generated message classes (\<^verbatim>\<open>omnicomm/message.pb.h\<close>, \<^verbatim>\<open>omnicomm/message.pb.cc\<close>) share.
  The protobuf runtime itself (\<^verbatim>\<open>CodedInputStream\<close>, \<^verbatim>\<open>WireFormatLite\<close>, \<^verbatim>\<open>UnknownFieldSet\<close>) is
  not part of the repository: it is the parameter \<open>rt\<close>, a record of the calls the generated code
  makes, over an abstract stream \<open>'s\<close> and an abstract set of unknown fields \<open>'u\<close>.

  A generated parser is a loop over \<^verbatim>\<open>ReadTag\<close> with a \<^verbatim>\<open>switch\<close> whose cases jump straight into
  the next case when \<^verbatim>\<open>ExpectTag\<close> finds the next field's tag. A case is modelled by the body
  behind its label, and what it does next by a value of \<open>flow\<close>.
\<close>

section \<open>The runtime\<close>

datatype wire_type =
    WIRETYPE_VARINT | WIRETYPE_FIXED64 | WIRETYPE_LENGTH_DELIMITED
  | WIRETYPE_START_GROUP | WIRETYPE_END_GROUP | WIRETYPE_FIXED32 | WIRETYPE_OTHER

text \<open>
  A read returns whether it succeeded, the stream after it, and the new value of the variable it
  was given. \<^verbatim>\<open>ReadGroupNoVirtual\<close> runs the group's own parser between \<open>enter_group\<close> and
  \<open>leave_group\<close>.
\<close>

record ('s, 'u) runtime =
  rt_tag_field :: "u32 \<Rightarrow> nat"
  rt_tag_wire :: "u32 \<Rightarrow> wire_type"
  rt_read_tag :: "'s \<Rightarrow> u32 \<times> 's"
  rt_expect_tag :: "u32 \<Rightarrow> 's \<Rightarrow> bool \<times> 's"
  rt_expect_at_end :: "'s \<Rightarrow> bool \<times> 's"
  rt_read_uint32 :: "'s \<Rightarrow> u32 \<Rightarrow> bool \<times> 's \<times> u32"
  rt_read_sint32 :: "'s \<Rightarrow> u32 \<Rightarrow> bool \<times> 's \<times> u32"
  rt_read_bytes :: "'s \<Rightarrow> string \<Rightarrow> bool \<times> 's \<times> string"
  rt_read_packed :: "'s \<Rightarrow> u32 list \<Rightarrow> bool \<times> 's \<times> u32 list"
  rt_read_repeated :: "u32 \<Rightarrow> 's \<Rightarrow> u32 list \<Rightarrow> bool \<times> 's \<times> u32 list"
  rt_skip_field :: "u32 \<Rightarrow> 's \<Rightarrow> 'u \<Rightarrow> bool \<times> 's \<times> 'u"
  rt_enter_group :: "'s \<Rightarrow> bool \<times> 's"
  rt_leave_group :: "nat \<Rightarrow> 's \<Rightarrow> bool \<times> 's"
  rt_unknown_empty :: 'u
  rt_unknown_merge :: "'u \<Rightarrow> 'u \<Rightarrow> 'u"

section \<open>The parsing loop\<close>

datatype ('s, 'm) flow =
    Break 's 'm              \<comment> \<open>leave the switch: back to \<^verbatim>\<open>ReadTag\<close>\<close>
  | Goto nat 's 'm           \<comment> \<open>jump to the label of the field with this number\<close>
  | Done bool 's 'm          \<comment> \<open>\<^verbatim>\<open>return\<close> of this value\<close>
  | Out_of_fuel

fun parse_loop ::
  "nat \<Rightarrow> ('s \<Rightarrow> u32 \<times> 's) \<Rightarrow> (u32 \<Rightarrow> 's \<Rightarrow> 'm \<Rightarrow> ('s, 'm) flow)
    \<Rightarrow> (nat \<Rightarrow> 's \<Rightarrow> 'm \<Rightarrow> ('s, 'm) flow) \<Rightarrow> ('s, 'm) flow \<Rightarrow> (bool \<times> 's \<times> 'm) option"
where
  "parse_loop fuel rd sw lab (Done ok s m) = Some (ok, s, m)"
| "parse_loop fuel rd sw lab Out_of_fuel = None"
| "parse_loop 0 rd sw lab (Break s m) = None"
| "parse_loop 0 rd sw lab (Goto k s m) = None"
| "parse_loop (Suc fuel) rd sw lab (Break s m) =
     (case rd s of (tag, s') \<Rightarrow>
        if tag = 0 then Some (True, s', m) else parse_loop fuel rd sw lab (sw tag s' m))"
| "parse_loop (Suc fuel) rd sw lab (Goto k s m) = parse_loop fuel rd sw lab (lab k s m)"

text \<open>
  A field that \<^verbatim>\<open>ReadPrimitive\<close> fills: the variable is written through its pointer, and the has-bit
  is set after the read succeeded.
\<close>

definition read_scalar ::
  "('s \<Rightarrow> 'v \<Rightarrow> bool \<times> 's \<times> 'v) \<Rightarrow> ('m \<Rightarrow> 'v) \<Rightarrow> ('v \<Rightarrow> 'm \<Rightarrow> 'm) \<Rightarrow> ('m \<Rightarrow> 'm) \<Rightarrow> 's \<Rightarrow> 'm
    \<Rightarrow> bool \<times> 's \<times> 'm" where
  "read_scalar rd get put mark s m =
     (case rd s (get m) of (ok, s', v) \<Rightarrow>
        if ok then (True, s', mark (put v m)) else (False, s', put v m))"

text \<open>A field read through its \<^verbatim>\<open>mutable_\<close> accessor: the has-bit is set before the read.\<close>

definition read_mutable ::
  "('s \<Rightarrow> 'v \<Rightarrow> bool \<times> 's \<times> 'v) \<Rightarrow> ('m \<Rightarrow> 'v) \<Rightarrow> ('v \<Rightarrow> 'm \<Rightarrow> 'm) \<Rightarrow> ('m \<Rightarrow> 'm) \<Rightarrow> 's \<Rightarrow> 'm
    \<Rightarrow> bool \<times> 's \<times> 'm" where
  "read_mutable rd get put mark s m =
     (case rd s (get (mark m)) of (ok, s', v) \<Rightarrow> (ok, s', put v (mark m)))"

text \<open>The two ends of a case: \<^verbatim>\<open>if (input->ExpectTag(t)) goto parse_k; break;\<close> and \<^verbatim>\<open>ExpectAtEnd\<close>.\<close>

definition then_expect :: "('s, 'u) runtime \<Rightarrow> u32 \<Rightarrow> nat \<Rightarrow> bool \<times> 's \<times> 'm \<Rightarrow> ('s, 'm) flow" where
  "then_expect rt t k r =
     (case r of (ok, s, m) \<Rightarrow>
        if \<not> ok then Done False s m
        else (case rt_expect_tag rt t s of (hit, s') \<Rightarrow> if hit then Goto k s' m else Break s' m))"

definition then_end :: "('s, 'u) runtime \<Rightarrow> bool \<times> 's \<times> 'm \<Rightarrow> ('s, 'm) flow" where
  "then_end rt r =
     (case r of (ok, s, m) \<Rightarrow>
        if \<not> ok then Done False s m
        else (case rt_expect_at_end rt s of (hit, s') \<Rightarrow> if hit then Done True s' m else Break s' m))"

text \<open>\<^verbatim>\<open>handle_uninterpreted\<close>: an end-group tag ends the message, any other field is kept as unknown.\<close>

definition handle_uninterpreted ::
  "('s, 'u) runtime \<Rightarrow> ('m \<Rightarrow> 'u) \<Rightarrow> ('u \<Rightarrow> 'm \<Rightarrow> 'm) \<Rightarrow> u32 \<Rightarrow> 's \<Rightarrow> 'm \<Rightarrow> ('s, 'm) flow" where
  "handle_uninterpreted rt get put tag s m =
     (if rt_tag_wire rt tag = WIRETYPE_END_GROUP then Done True s m
      else (case rt_skip_field rt tag s (get m) of (ok, s', u) \<Rightarrow>
              if ok then Break s' (put u m) else Done False s' (put u m)))"

section \<open>Has-bits\<close>

text \<open>
  A message keeps one bit per field in \<^verbatim>\<open>_has_bits_[0]\<close>. The generated code tests and sets them
  with literal masks, and skips whole groups of fields with \<^verbatim>\<open>0xffu << k\<close>. The collection
  \<open>has_bit_simps\<close> turns every mask into the bit it stands for.
\<close>

named_theorems has_bit_simps "has-bits of the generated messages"

lemma and_one_bit: "(w :: u32) AND push_bit k 1 \<noteq> 0 \<longleftrightarrow> bit w k"
proof -
  have "w AND push_bit k 1 \<noteq> 0 \<longleftrightarrow> (\<exists>n. bit (w AND push_bit k 1) n)"
    using bit_eqI [of "w AND push_bit k 1" 0] by auto
  also have "\<dots> \<longleftrightarrow> bit w k"
  proof
    assume "bit w k"
    then have "bit (w AND push_bit k 1) k"
      using bit_imp_le_length [of w k] by (simp add: bit_simps)
    then show "\<exists>n. bit (w AND push_bit k 1) n" ..
  qed (auto simp: bit_simps)
  finally show ?thesis .
qed

lemma or_one_bit: "k < 32 \<Longrightarrow> bit ((w :: u32) OR push_bit k 1) n \<longleftrightarrow> bit w n \<or> n = k"
  by (auto simp: bit_simps)

definition group_guard :: "u32 \<Rightarrow> nat \<Rightarrow> bool" where
  "group_guard hb k \<longleftrightarrow> hb AND push_bit k 0xFF \<noteq> 0"

lemma group_guard_off: "\<not> group_guard hb k \<Longrightarrow> k \<le> n \<Longrightarrow> n < k + 8 \<Longrightarrow> \<not> bit hb n"
proof
  assume off: "\<not> group_guard hb k" and n: "k \<le> n" "n < k + 8" and set: "bit hb n"
  have "bit (hb AND push_bit k 0xFF) n"
    using n set bit_imp_le_length [OF set] by (auto simp: mask_8_word bit_simps)
  with off show False by (simp add: group_guard_def)
qed

section \<open>Fields as a map\<close>

text \<open>
  The abstract view of a message: a map from field numbers to the values that are set.
  \<open>put_opt\<close> writes a field if there is a value for it.
\<close>

datatype pval = PU u32 | PB string

definition put_opt :: "nat \<Rightarrow> pval option \<Rightarrow> (nat \<rightharpoonup> pval) \<Rightarrow> (nat \<rightharpoonup> pval)" where
  "put_opt k v M = (case v of None \<Rightarrow> M | Some x \<Rightarrow> M(k \<mapsto> x))"

definition when_has :: "bool \<Rightarrow> 'v \<Rightarrow> 'v option" where
  "when_has h v = (if h then Some v else None)"

lemma when_has_simps [simp]: "when_has True v = Some v" "when_has False v = None"
  by (simp_all add: when_has_def)

text \<open>One step of \<^verbatim>\<open>MergeFrom\<close>: \<^verbatim>\<open>if (from.has_f()) set_f(from.f());\<close>\<close>

definition merge_field :: "('m \<Rightarrow> bool) \<Rightarrow> ('m \<Rightarrow> 'v) \<Rightarrow> ('v \<Rightarrow> 'm \<Rightarrow> 'm) \<Rightarrow> 'm \<Rightarrow> 'm \<Rightarrow> 'm" where
  "merge_field has get put from m = (if has from then put (get from) m else m)"

lemma put_opt_fold:
  "foldl (\<lambda>M k. put_opt k (A k) M) M ks = M ++ (A |` set ks)"
proof (induction ks rule: rev_induct)
  case (snoc k ks)
  then show ?case
    by (auto simp: fun_eq_iff map_add_def restrict_map_def put_opt_def split: option.splits)
qed simp

lemma put_opt_fold_none: "(\<And>k. k \<in> set ks \<Longrightarrow> A k = None) \<Longrightarrow> foldl (\<lambda>M k. put_opt k (A k) M) M ks = M"
  by (induction ks arbitrary: M) (simp_all add: put_opt_def)

lemma restrict_dom: "dom A \<subseteq> set ks \<Longrightarrow> A |` set ks = A"
  by (rule ext) (metis domIff restrict_map_def subsetD)

end
