(* ===== verification/Pb_Wire.thy ===== *)
theory Pb_Wire
  imports Pb_Runtime
begin

text \<open>
  What the generated parsers and serialisers rely on in the protobuf runtime, as two locales. The
  first says that reading consumes input; it gives termination on any input. The second, which
  extends it, says that what the writer puts out is read back; it gives the round trip of a message.
  The lemmas of this theory are about the loop that all generated parsers share; the theories of the
  message classes supply the labels. \<open>Pb_Stream\<close> interprets both locales.
\<close>

section \<open>Tags\<close>

text \<open>A tag is the field number and the wire type in the low three bits.\<close>

fun wire_code :: "wire_type \<Rightarrow> nat" where
  "wire_code WIRETYPE_VARINT = 0"
| "wire_code WIRETYPE_FIXED64 = 1"
| "wire_code WIRETYPE_LENGTH_DELIMITED = 2"
| "wire_code WIRETYPE_START_GROUP = 3"
| "wire_code WIRETYPE_END_GROUP = 4"
| "wire_code WIRETYPE_FIXED32 = 5"
| "wire_code WIRETYPE_OTHER = 6"

definition make_tag :: "nat \<Rightarrow> wire_type \<Rightarrow> u32" where
  "make_tag k w = of_nat (8 * k + wire_code w)"

definition tag_field :: "u32 \<Rightarrow> nat" where
  "tag_field tag = unat tag div 8"

definition tag_wire :: "u32 \<Rightarrow> wire_type" where
  "tag_wire tag =
     (let c = unat tag mod 8
      in if c = 0 then WIRETYPE_VARINT else if c = 1 then WIRETYPE_FIXED64
         else if c = 2 then WIRETYPE_LENGTH_DELIMITED else if c = 3 then WIRETYPE_START_GROUP
         else if c = 4 then WIRETYPE_END_GROUP else if c = 5 then WIRETYPE_FIXED32 else WIRETYPE_OTHER)"

lemma unat_make_tag:
  assumes "k < 2 ^ 29"
  shows "unat (make_tag k w) = 8 * k + wire_code w"
proof -
  have "wire_code w < 8" by (cases w) simp_all
  with assms have "8 * k + wire_code w < 2 ^ 32" by simp
  then show ?thesis unfolding make_tag_def by (subst unat_of_nat) simp
qed

lemma tag_field_make: "k < 2 ^ 29 \<Longrightarrow> tag_field (make_tag k w) = k"
  by (cases w) (simp_all add: tag_field_def unat_make_tag)

lemma tag_wire_make: "k < 2 ^ 29 \<Longrightarrow> tag_wire (make_tag k w) = w"
proof -
  assume k: "k < 2 ^ 29"
  have "wire_code w < 8" by (cases w) simp_all
  then have "(8 * k + wire_code w) mod 8 = wire_code w" by simp
  then have "unat (make_tag k w) mod 8 = wire_code w" using unat_make_tag [OF k] by simp
  then show ?thesis by (cases w) (simp_all add: tag_wire_def Let_def)
qed

lemma make_tag_nonzero:
  assumes "0 < k" and "k < 2 ^ 29"
  shows "make_tag k w \<noteq> 0"
proof
  assume "make_tag k w = 0"
  with unat_make_tag [OF assms(2), of w] assms(1) show False by simp
qed

section \<open>Reading consumes input\<close>

text \<open>
  \<open>size\<close> is the number of bytes that remain. A tag that is read or expected has at least one byte;
  no call gives input back.
\<close>

locale input_stream =
  fixes rt :: "('s, 'u) runtime"
    and remaining :: "'s \<Rightarrow> nat"
  assumes read_tag_size: "rt_read_tag rt s = (t, s') \<Longrightarrow> remaining s' \<le> remaining s \<and> (t \<noteq> 0 \<longrightarrow> remaining s' < remaining s)"
    and expect_tag_size: "rt_expect_tag rt t s = (hit, s') \<Longrightarrow> remaining s' \<le> remaining s \<and> (hit \<longrightarrow> remaining s' < remaining s)"
    and expect_at_end_size: "rt_expect_at_end rt s = (hit, s') \<Longrightarrow> remaining s' \<le> remaining s"
    and read_uint32_size: "rt_read_uint32 rt s v = (ok, s', v') \<Longrightarrow> remaining s' \<le> remaining s"
    and read_sint32_size: "rt_read_sint32 rt s v = (ok, s', v') \<Longrightarrow> remaining s' \<le> remaining s"
    and read_bytes_size: "rt_read_bytes rt s b = (ok, s', b') \<Longrightarrow> remaining s' \<le> remaining s"
    and read_packed_size: "rt_read_packed rt s vs = (ok, s', vs') \<Longrightarrow> remaining s' \<le> remaining s"
    and read_repeated_size: "rt_read_repeated rt t s vs = (ok, s', vs') \<Longrightarrow> remaining s' \<le> remaining s"
    and skip_field_size: "rt_skip_field rt t s u = (ok, s', u') \<Longrightarrow> remaining s' \<le> remaining s"
    and enter_group_size: "rt_enter_group rt s = (ok, s') \<Longrightarrow> remaining s' \<le> remaining s"
    and leave_group_size: "rt_leave_group rt n s = (ok, s') \<Longrightarrow> remaining s' \<le> remaining s"
begin

text \<open>
  A case of the switch, entered with \<open>n\<close> bytes left, goes on with at most \<open>n\<close>, and with fewer when it
  jumps, because the next field's tag has been read; it jumps to labels of \<open>L\<close> only.
\<close>

definition flow_within :: "nat set \<Rightarrow> nat \<Rightarrow> ('s, 'm) flow \<Rightarrow> bool" where
  "flow_within L n f \<longleftrightarrow>
     (case f of Done ok s m \<Rightarrow> remaining s \<le> n | Break s m \<Rightarrow> remaining s \<le> n
      | Goto k s m \<Rightarrow> k \<in> L \<and> remaining s < n | Out_of_fuel \<Rightarrow> False)"

lemma flow_within_simps:
  "flow_within L n (Done ok s m) \<longleftrightarrow> remaining s \<le> n"
  "flow_within L n (Break s m) \<longleftrightarrow> remaining s \<le> n"
  "flow_within L n (Goto k s m) \<longleftrightarrow> k \<in> L \<and> remaining s < n"
  by (simp_all add: flow_within_def)

lemma flow_within_mono: "flow_within L n f \<Longrightarrow> n \<le> n' \<Longrightarrow> flow_within L n' f"
  by (auto simp: flow_within_def split: flow.splits)

lemma flow_within_if:
  "flow_within L n a \<Longrightarrow> flow_within L n b \<Longrightarrow> flow_within L n (if c then a else b)"
  by simp

lemma flow_within_chain:
  "k \<in> insert a K \<Longrightarrow> flow_within L n x \<Longrightarrow> (k \<in> K \<Longrightarrow> flow_within L n y) \<Longrightarrow>
   flow_within L n (if k = a then x else y)"
  by auto

lemma read_scalar_within:
  assumes "\<And>v ok s' v'. rd s v = (ok, s', v') \<Longrightarrow> remaining s' \<le> n"
  shows "remaining (fst (snd (read_scalar rd get put mark s m))) \<le> n"
  using assms by (auto simp: read_scalar_def split: prod.split)

lemma read_mutable_within:
  assumes "\<And>v ok s' v'. rd s v = (ok, s', v') \<Longrightarrow> remaining s' \<le> n"
  shows "remaining (fst (snd (read_mutable rd get put mark s m))) \<le> n"
  using assms by (auto simp: read_mutable_def split: prod.split)

lemma then_expect_within:
  assumes "remaining (fst (snd r)) \<le> n" and "k \<in> L"
  shows "flow_within L n (then_expect rt t k r)"
proof -
  obtain ok s m where r: "r = (ok, s, m)" by (metis prod_cases3)
  obtain hit s' where e: "rt_expect_tag rt t s = (hit, s')" by fastforce
  from expect_tag_size [OF e] assms r e show ?thesis
    by (auto simp: then_expect_def flow_within_def)
qed

lemma then_end_within:
  assumes "remaining (fst (snd r)) \<le> n"
  shows "flow_within L n (then_end rt r)"
proof -
  obtain ok s m where r: "r = (ok, s, m)" by (metis prod_cases3)
  obtain hit s' where e: "rt_expect_at_end rt s = (hit, s')" by fastforce
  from expect_at_end_size [OF e] assms r e show ?thesis
    by (auto simp: then_end_def flow_within_def)
qed

lemma handle_uninterpreted_within: "flow_within L (remaining s) (handle_uninterpreted rt get put tag s m)"
  by (auto simp: handle_uninterpreted_def flow_within_def split: prod.splits dest: skip_field_size)

lemmas within_intros = then_expect_within then_end_within read_scalar_within read_mutable_within

lemmas size_dests = read_uint32_size read_sint32_size read_bytes_size read_packed_size read_repeated_size

text \<open>The fuel that is enough.\<close>

fun fuel_for :: "('s, 'm) flow \<Rightarrow> nat" where
  "fuel_for (Break s m) = remaining s + 1"
| "fuel_for (Goto k s m) = remaining s + 2"
| "fuel_for _ = 0"

lemma parse_loop_returns_below:
  assumes "\<And>tag s m. remaining s < N \<Longrightarrow> flow_within L (remaining s) (sw tag s m)"
    and "\<And>k s m. k \<in> L \<Longrightarrow> remaining s < N \<Longrightarrow> flow_within L (remaining s) (lab k s m)"
    and "flow_within L n f" and "n < N" and "fuel_for f \<le> fuel"
  shows "\<exists>ok s' m'. parse_loop fuel (rt_read_tag rt) sw lab f = Some (ok, s', m') \<and> remaining s' \<le> n"
  using assms(3,5)
proof (induction fuel arbitrary: f)
  case 0
  then show ?case by (cases f) (auto simp: flow_within_def)
next
  case (Suc fuel)
  show ?case
  proof (cases f)
    case (Break s m)
    obtain tag s1 where rd: "rt_read_tag rt s = (tag, s1)" by fastforce
    have n: "remaining s \<le> n" using Suc.prems(1) Break by (simp add: flow_within_def)
    show ?thesis
    proof (cases "tag = 0")
      case True
      with Break rd read_tag_size [OF rd] n show ?thesis by auto
    next
      case False
      have less: "remaining s1 < remaining s" using read_tag_size [OF rd] False by simp
      have sw: "flow_within L (remaining s1) (sw tag s1 m)" by (rule assms(1)) (use less n assms(4) in simp)
      have "fuel_for (sw tag s1 m) \<le> fuel"
        using sw less Suc.prems(2) Break by (cases "sw tag s1 m") (auto simp: flow_within_def)
      moreover have "flow_within L n (sw tag s1 m)"
        using flow_within_mono [OF sw] less n by simp
      ultimately show ?thesis using Suc.IH Break rd False by simp
    qed
  next
    case (Goto k s m)
    have n: "k \<in> L" "remaining s < n" using Suc.prems(1) Goto by (simp_all add: flow_within_def)
    have lab: "flow_within L (remaining s) (lab k s m)"
      by (rule assms(2)) (use n assms(4) in simp_all)
    have "fuel_for (lab k s m) \<le> fuel"
      using lab Suc.prems(2) Goto by (cases "lab k s m") (auto simp: flow_within_def)
    moreover have "flow_within L n (lab k s m)"
      using flow_within_mono [OF lab] n by simp
    ultimately show ?thesis using Suc.IH Goto by simp
  qed (use Suc.prems in \<open>auto simp: flow_within_def\<close>)
qed

lemma parse_loop_returns:
  assumes "\<And>tag s m. flow_within L (remaining s) (sw tag s m)"
    and "\<And>k s m. k \<in> L \<Longrightarrow> flow_within L (remaining s) (lab k s m)"
    and "flow_within L n f" and "fuel_for f \<le> fuel"
  shows "\<exists>ok s' m'. parse_loop fuel (rt_read_tag rt) sw lab f = Some (ok, s', m') \<and> remaining s' \<le> n"
  by (rule parse_loop_returns_below [where L = L and N = "Suc n"]) (use assms in simp_all)

end

section \<open>Writing\<close>

text \<open>
  What \<^verbatim>\<open>CodedOutputStream\<close> and \<^verbatim>\<open>WireFormatLite\<close> write, as bytes, and the sizes they compute. A
  \<^verbatim>\<open>Write\<close> function with a field number writes the tag and then the value.
\<close>

record 'u writer =
  wr_tag :: "u32 \<Rightarrow> byte list"
  wr_varint32 :: "u32 \<Rightarrow> byte list"
  wr_uint32 :: "u32 \<Rightarrow> byte list"
  wr_sint32 :: "u32 \<Rightarrow> byte list"
  wr_bytes :: "string \<Rightarrow> byte list"
  wr_unknown :: "'u \<Rightarrow> byte list"
  sz_int32 :: "nat \<Rightarrow> nat"
  sz_uint32 :: "u32 \<Rightarrow> nat"
  sz_sint32 :: "u32 \<Rightarrow> nat"
  sz_bytes :: "string \<Rightarrow> nat"
  sz_unknown :: "'u \<Rightarrow> nat"

definition write_uint32 :: "'u writer \<Rightarrow> nat \<Rightarrow> u32 \<Rightarrow> byte list" where
  "write_uint32 wr n v = wr_tag wr (make_tag n WIRETYPE_VARINT) @ wr_uint32 wr v"

definition write_sint32 :: "'u writer \<Rightarrow> nat \<Rightarrow> u32 \<Rightarrow> byte list" where
  "write_sint32 wr n v = wr_tag wr (make_tag n WIRETYPE_VARINT) @ wr_sint32 wr v"

definition write_bytes :: "'u writer \<Rightarrow> nat \<Rightarrow> string \<Rightarrow> byte list" where
  "write_bytes wr n v = wr_tag wr (make_tag n WIRETYPE_LENGTH_DELIMITED) @ wr_bytes wr v"

definition write_group :: "'u writer \<Rightarrow> nat \<Rightarrow> byte list \<Rightarrow> byte list" where
  "write_group wr n body =
     wr_tag wr (make_tag n WIRETYPE_START_GROUP) @ body @ wr_tag wr (make_tag n WIRETYPE_END_GROUP)"

text \<open>A packed field, as the generated code writes it: the tag, the size it has cached, the values.\<close>

definition packed_size :: "'u writer \<Rightarrow> u32 list \<Rightarrow> nat" where
  "packed_size wr vs = sum_list (map (sz_uint32 wr) vs)"

definition write_packed :: "'u writer \<Rightarrow> nat \<Rightarrow> u32 list \<Rightarrow> byte list" where
  "write_packed wr n vs =
     (if vs \<noteq> []
      then wr_tag wr (make_tag n WIRETYPE_LENGTH_DELIMITED) @ wr_varint32 wr (of_nat (packed_size wr vs)) else [])
     @ concat (map (wr_uint32 wr) vs)"

section \<open>A message as a list of items\<close>

text \<open>
  An item is a field that is set: its number, the bytes after its tag, and what reading it does to
  the message.
\<close>

definition item :: "bool \<Rightarrow> nat \<Rightarrow> byte list \<Rightarrow> ('m \<Rightarrow> 'm) \<Rightarrow> (nat \<times> byte list \<times> ('m \<Rightarrow> 'm)) list" where
  "item h k bs upd = (if h then [(k, bs, upd)] else [])"

definition item_bytes :: "'u writer \<Rightarrow> (nat \<Rightarrow> u32) \<Rightarrow> nat \<times> byte list \<times> ('m \<Rightarrow> 'm) \<Rightarrow> byte list" where
  "item_bytes wr tag i = (case i of (k, bs, upd) \<Rightarrow> wr_tag wr (tag k) @ bs)"

definition item_upd :: "nat \<times> byte list \<times> ('m \<Rightarrow> 'm) \<Rightarrow> 'm \<Rightarrow> 'm" where
  "item_upd i = snd (snd i)"

definition upd_if :: "bool \<Rightarrow> ('m \<Rightarrow> 'm) \<Rightarrow> 'm \<Rightarrow> 'm" where
  "upd_if h upd m = (if h then upd m else m)"

lemma fold_item: "fold item_upd (item h k bs upd) m = upd_if h upd m"
  by (simp add: item_def item_upd_def upd_if_def)

lemma concat_item: "concat (map (item_bytes wr tag) (item h k bs upd)) = (if h then wr_tag wr (tag k) @ bs else [])"
  by (simp add: item_def item_bytes_def)

lemma ball_item: "(\<forall>i \<in> set (item h k bs upd). P i) \<longleftrightarrow> (h \<longrightarrow> P (k, bs, upd))"
  by (simp add: item_def)

lemma fold_items_keep:
  "\<forall>i \<in> set items. \<forall>m. P m \<longrightarrow> P (item_upd i m) \<Longrightarrow> P m \<Longrightarrow> P (fold item_upd items m)"
  by (induction items arbitrary: m) auto

section \<open>Fields that agree\<close>

text \<open>A set of has-bits, and when two messages are equal.\<close>

definition bits_within :: "u32 \<Rightarrow> nat list \<Rightarrow> bool" where
  "bits_within w ns \<longleftrightarrow> list_all (\<lambda>n. bit w n \<longrightarrow> n \<in> set ns) [0..<32]"

lemma bits_withinD: "bits_within w ns \<Longrightarrow> bit w n \<Longrightarrow> n \<in> set ns"
  using bit_imp_le_length [of w n] by (auto simp: bits_within_def list_all_iff)

lemma bits_within_0 [simp]: "bits_within 0 ns"
  by (simp add: bits_within_def list_all_iff)

lemma bits_within_insert:
  assumes "bits_within w ns" and "\<And>n. bit w' n \<longleftrightarrow> bit w n \<or> n = k" and "k \<in> set ns"
  shows "bits_within w' ns"
  using assms by (auto simp: bits_within_def list_all_iff)

lemma bits_within_eqI:
  assumes "bits_within w ns" and "bits_within w' ns" and "\<forall>n \<in> set ns. bit w n = bit w' n"
  shows "w = w'"
  by (rule bit_eqI) (use assms bits_withinD in blast)

lemma field_eq:
  "when_has h (PU x) = when_has h' (PU x') \<Longrightarrow> (\<not> h \<longrightarrow> x = 0) \<Longrightarrow> (\<not> h' \<longrightarrow> x' = 0) \<Longrightarrow> h = h' \<and> x = x'"
  "when_has h (PB b) = when_has h' (PB b') \<Longrightarrow> (\<not> h \<longrightarrow> b = []) \<Longrightarrow> (\<not> h' \<longrightarrow> b' = []) \<Longrightarrow> h = h' \<and> b = b'"
  by (auto simp: when_has_def split: if_splits)

section \<open>What is written is read\<close>

text \<open>
  The bytes that remain are \<open>rem s\<close>; \<open>tag_was s t\<close> says that \<open>t\<close> was the last tag, which the end of a
  group checks. \<^verbatim>\<open>ExpectTag\<close> and \<^verbatim>\<open>ExpectAtEnd\<close> may miss what is there, but never see what is not. The
  stream is one whose recursion limit is not reached (groups here do not nest).
\<close>

locale wire_format = input_stream rt "\<lambda>s. length (rem s)"
  for rt :: "('s, 'u) runtime" and rem :: "'s \<Rightarrow> byte list" +
  fixes wr :: "'u writer" and tag_was :: "'s \<Rightarrow> u32 \<Rightarrow> bool"
  assumes tag_field: "rt_tag_field rt = tag_field"
    and tag_wire: "rt_tag_wire rt = tag_wire"
    and read_tag_written: "rem s = wr_tag wr t @ rest \<Longrightarrow> t \<noteq> 0 \<Longrightarrow>
      \<exists>s'. rt_read_tag rt s = (t, s') \<and> rem s' = rest \<and> tag_was s' t"
    and read_tag_empty: "rem s = [] \<Longrightarrow> \<exists>s'. rt_read_tag rt s = (0, s') \<and> rem s' = []"
    and expect_tag_hit: "rt_expect_tag rt t s = (True, s') \<Longrightarrow> rem s = wr_tag wr t @ rem s'"
    and expect_tag_miss: "rt_expect_tag rt t s = (False, s') \<Longrightarrow> rem s' = rem s"
    and expect_at_end_hit: "rt_expect_at_end rt s = (True, s') \<Longrightarrow> rem s = [] \<and> rem s' = []"
    and expect_at_end_miss: "rt_expect_at_end rt s = (False, s') \<Longrightarrow> rem s' = rem s"
    and read_uint32_written: "rem s = wr_uint32 wr v @ rest \<Longrightarrow>
      \<exists>s'. rt_read_uint32 rt s w = (True, s', v) \<and> rem s' = rest"
    and read_sint32_written: "rem s = wr_sint32 wr v @ rest \<Longrightarrow>
      \<exists>s'. rt_read_sint32 rt s w = (True, s', v) \<and> rem s' = rest"
    and read_bytes_written: "rem s = wr_bytes wr b @ rest \<Longrightarrow> length b < 2 ^ 31 \<Longrightarrow>
      \<exists>s'. rt_read_bytes rt s c = (True, s', b) \<and> rem s' = rest"
    and read_packed_written: "rem s = wr_varint32 wr (of_nat (packed_size wr vs)) @ concat (map (wr_uint32 wr) vs) @ rest \<Longrightarrow>
      packed_size wr vs < 2 ^ 31 \<Longrightarrow> \<exists>s'. rt_read_packed rt s ws = (True, s', ws @ vs) \<and> rem s' = rest"
    and enter_group_ok: "\<exists>s'. rt_enter_group rt s = (True, s') \<and> rem s' = rem s"
    and leave_group_ok: "tag_was s (make_tag n WIRETYPE_END_GROUP) \<Longrightarrow>
      \<exists>s'. rt_leave_group rt n s = (True, s') \<and> rem s' = rem s"
    and wr_uint32_nonempty: "wr_uint32 wr v \<noteq> []"
    and wr_tag_nonempty: "t \<noteq> 0 \<Longrightarrow> wr_tag wr t \<noteq> []"
    and wr_tag_prefix: "wr_tag wr t @ r = wr_tag wr t' @ r' \<Longrightarrow> t = t'"
    and wr_unknown_empty: "wr_unknown wr (rt_unknown_empty rt) = []"
    and tag_size: "t < 0x80 \<Longrightarrow> length (wr_tag wr t) = 1" "0x80 \<le> t \<Longrightarrow> t < 0x4000 \<Longrightarrow> length (wr_tag wr t) = 2"
    and value_size: "sz_uint32 wr v = length (wr_uint32 wr v)" "sz_sint32 wr v = length (wr_sint32 wr v)"
      "sz_bytes wr b = length (wr_bytes wr b)" "sz_unknown wr u = length (wr_unknown wr u)"
      "sz_int32 wr n = length (wr_varint32 wr (of_nat n))"
begin

text \<open>
  \<open>after\<close> says that a case has read its item and stands before \<open>rest\<close>, possibly behind its first tag.
\<close>

definition after :: "nat set \<Rightarrow> (nat \<Rightarrow> u32) \<Rightarrow> byte list \<Rightarrow> 'm \<Rightarrow> ('s, 'm) flow \<Rightarrow> bool" where
  "after K tag rest m f \<longleftrightarrow>
     (case f of
        Break s m' \<Rightarrow> m' = m \<and> rem s = rest
      | Goto k s m' \<Rightarrow> m' = m \<and> k \<in> K \<and> rest = wr_tag wr (tag k) @ rem s
      | Done ok s m' \<Rightarrow> ok \<and> m' = m \<and> rest = [] \<and> rem s = []
      | Out_of_fuel \<Rightarrow> False)"

definition reads :: "nat set \<Rightarrow> (nat \<Rightarrow> u32) \<Rightarrow> ('s \<Rightarrow> 'm \<Rightarrow> ('s, 'm) flow) \<Rightarrow> byte list \<Rightarrow> ('m \<Rightarrow> 'm) \<Rightarrow> bool" where
  "reads K tag body bs upd \<longleftrightarrow> (\<forall>s m rest. rem s = bs @ rest \<longrightarrow> after K tag rest (upd m) (body s m))"

text \<open>A message ends at the end of the input, or before the tag that ends its group.\<close>

definition stop_bytes :: "(u32 \<times> byte list) option \<Rightarrow> byte list" where
  "stop_bytes stop = (case stop of None \<Rightarrow> [] | Some (t, rest) \<Rightarrow> wr_tag wr t @ rest)"

definition group_stop :: "(u32 \<times> byte list) option \<Rightarrow> bool" where
  "group_stop stop \<longleftrightarrow> (case stop of None \<Rightarrow> True | Some (t, rest) \<Rightarrow> tag_wire t = WIRETYPE_END_GROUP)"

lemma group_stopD: "group_stop stop \<Longrightarrow> stop = Some (t, r) \<Longrightarrow> tag_wire t = WIRETYPE_END_GROUP"
  by (simp add: group_stop_def)

definition stopped :: "(u32 \<times> byte list) option \<Rightarrow> 's \<Rightarrow> bool" where
  "stopped stop s \<longleftrightarrow> (case stop of None \<Rightarrow> rem s = [] | Some (t, rest) \<Rightarrow> rem s = rest \<and> tag_was s t)"

lemma parse_items:
  assumes labels: "\<And>k s m. k \<in> K \<Longrightarrow> tag k \<noteq> 0 \<and> sw (tag k) s m = lab k s m" and inj: "inj_on tag K"
    and stop: "\<And>t r. stop = Some (t, r) \<Longrightarrow> t \<noteq> 0 \<and> t \<notin> tag ` K \<and> (\<forall>s m. sw t s m = Done True s m)"
    and items: "\<forall>(k, bs, upd) \<in> set items. k \<in> K \<and> reads K tag (lab k) bs upd"
    and start: "after K tag (concat (map (item_bytes wr tag) items) @ stop_bytes stop) m f"
    and fuel: "length items + 1 \<le> fuel"
  shows "\<exists>s'. parse_loop fuel (rt_read_tag rt) sw lab f = Some (True, s', fold item_upd items m) \<and> stopped stop s'"
  using items start fuel
proof (induction items arbitrary: f m fuel)
  case Nil
  obtain fuel' where fuel': "fuel = Suc fuel'" using Nil.prems(3) by (cases fuel) auto
  have no_goto: False if "k \<in> K" "stop_bytes stop = wr_tag wr (tag k) @ r" for k r
    using that labels [OF that(1)] stop wr_tag_nonempty wr_tag_prefix
    by (cases stop) (fastforce simp: stop_bytes_def)+
  show ?case
  proof (cases stop)
    case None
    with Nil.prems(2) no_goto fuel' read_tag_empty show ?thesis
      by (cases f) (fastforce simp: after_def stop_bytes_def stopped_def)+
  next
    case (Some tr)
    obtain t r where tr: "tr = (t, r)" by fastforce
    have t: "t \<noteq> 0" "\<And>s m. sw t s m = Done True s m" using stop Some tr by blast+
    show ?thesis
    proof (cases f)
      case (Break s m')
      then have "rem s = wr_tag wr t @ r" and m': "m' = m"
        using Nil.prems(2) Some tr by (simp_all add: after_def stop_bytes_def)
      from read_tag_written [OF this(1) t(1)] obtain s' where
        "rt_read_tag rt s = (t, s')" "rem s' = r" "tag_was s' t" by blast
      with Break m' t fuel' Some tr show ?thesis by (simp add: stopped_def)
    next
      case (Done ok s m')
      with Nil.prems(2) Some tr wr_tag_nonempty [OF t(1)] show ?thesis
        by (simp add: after_def stop_bytes_def)
    qed (use Nil.prems(2) no_goto in \<open>auto simp: after_def\<close>)
  qed
next
  case (Cons i items)
  obtain k bs upd where i: "i = (k, bs, upd)" by (metis prod_cases3)
  have k: "k \<in> K" "reads K tag (lab k) bs upd" using Cons.prems(1) i by auto
  let ?rest = "concat (map (item_bytes wr tag) items) @ stop_bytes stop"
  obtain fuel' where fuel': "fuel = Suc fuel'" "length items + 1 \<le> fuel'" using Cons.prems(3) by (cases fuel) auto
  have go: "\<exists>s'. parse_loop fuel' (rt_read_tag rt) sw lab (lab k s m) =
      Some (True, s', fold item_upd (i # items) m) \<and> stopped stop s'" if "rem s = bs @ ?rest" for s
  proof -
    have "after K tag ?rest (upd m) (lab k s m)" using k(2) that by (simp add: reads_def)
    have "\<forall>(k, bs, upd) \<in> set items. k \<in> K \<and> reads K tag (lab k) bs upd" using Cons.prems(1) by simp
    from Cons.IH [OF this \<open>after K tag ?rest (upd m) (lab k s m)\<close> fuel'(2)]
    show ?thesis by (simp add: i item_upd_def [of "(k, bs, upd)"])
  qed
  have all: "concat (map (item_bytes wr tag) (i # items)) @ stop_bytes stop = wr_tag wr (tag k) @ bs @ ?rest"
    by (simp add: i item_bytes_def)
  show ?case
  proof (cases f)
    case (Break s m')
    then have "rem s = wr_tag wr (tag k) @ bs @ ?rest" and m': "m' = m"
      using Cons.prems(2) all by (simp_all add: after_def)
    from read_tag_written [OF this(1)] labels [OF k(1)] obtain s' where
      "rt_read_tag rt s = (tag k, s')" "rem s' = bs @ ?rest" by blast
    with go labels [OF k(1)] Break m' fuel'(1) show ?thesis by simp
  next
    case (Goto k' s m')
    then have "wr_tag wr (tag k) @ bs @ ?rest = wr_tag wr (tag k') @ rem s" and k': "k' \<in> K" and m': "m' = m"
      using Cons.prems(2) all by (simp_all add: after_def)
    from wr_tag_prefix [OF this(1)] inj k(1) k' have "k' = k" by (auto dest: inj_onD)
    moreover from this have "rem s = bs @ ?rest"
      using \<open>wr_tag wr (tag k) @ bs @ ?rest = wr_tag wr (tag k') @ rem s\<close> by simp
    ultimately show ?thesis using go Goto m' fuel'(1) by simp
  next
    case (Done ok s m')
    then have "wr_tag wr (tag k) = []" using Cons.prems(2) all by (simp add: after_def)
    with wr_tag_nonempty labels [OF k(1)] show ?thesis by blast
  qed (use Cons.prems(2) in \<open>auto simp: after_def\<close>)
qed

section \<open>One field\<close>

text \<open>A case whose reader takes the item and which then looks for the tag of another field, or the end.\<close>

definition takes :: "('s \<Rightarrow> 'm \<Rightarrow> bool \<times> 's \<times> 'm) \<Rightarrow> byte list \<Rightarrow> ('m \<Rightarrow> 'm) \<Rightarrow> bool" where
  "takes rd bs upd \<longleftrightarrow> (\<forall>s m rest. rem s = bs @ rest \<longrightarrow> (\<exists>s'. rd s m = (True, s', upd m) \<and> rem s' = rest))"

lemma takesD: "takes rd bs upd \<Longrightarrow> rem s = bs @ rest \<Longrightarrow> \<exists>s'. rd s m = (True, s', upd m) \<and> rem s' = rest"
  unfolding takes_def by blast

lemma takesI:
  "(\<And>s m rest. rem s = bs @ rest \<Longrightarrow> \<exists>s'. rd s m = (True, s', upd m) \<and> rem s' = rest) \<Longrightarrow> takes rd bs upd"
  unfolding takes_def by blast

lemma reads_expect:
  assumes "takes rd bs upd" and "k \<in> K" and "t = tag k"
  shows "reads K tag (\<lambda>s m. then_expect rt t k (rd s m)) bs upd"
  unfolding reads_def
proof (intro allI impI)
  fix s m rest assume "rem s = bs @ rest"
  then obtain s' where rd: "rd s m = (True, s', upd m)" "rem s' = rest" using takesD [OF assms(1)] by blast
  obtain hit s'' where e: "rt_expect_tag rt t s' = (hit, s'')" by fastforce
  with rd assms(2,3) expect_tag_hit [of t s' s''] expect_tag_miss [of t s' s'']
  show "after K tag rest (upd m) (then_expect rt t k (rd s m))"
    by (cases hit) (simp_all add: then_expect_def after_def)
qed

lemma reads_end:
  assumes "takes rd bs upd"
  shows "reads K tag (\<lambda>s m. then_end rt (rd s m)) bs upd"
  unfolding reads_def
proof (intro allI impI)
  fix s m rest assume "rem s = bs @ rest"
  then obtain s' where rd: "rd s m = (True, s', upd m)" "rem s' = rest" using takesD [OF assms] by blast
  obtain hit s'' where e: "rt_expect_at_end rt s' = (hit, s'')" by fastforce
  with rd expect_at_end_hit [of s' s''] expect_at_end_miss [of s' s'']
  show "after K tag rest (upd m) (then_end rt (rd s m))"
    by (cases hit) (simp_all add: then_end_def after_def)
qed

lemma takes_uint32:
  assumes "\<And>m. mark (put v m) = upd m"
  shows "takes (read_scalar (rt_read_uint32 rt) get put mark) (wr_uint32 wr v) upd"
proof (rule takesI)
  fix s m rest assume "rem s = wr_uint32 wr v @ rest"
  from read_uint32_written [OF this, of "get m"] show "\<exists>s'. read_scalar (rt_read_uint32 rt) get put mark s m = (True, s', upd m) \<and> rem s' = rest"
    by (auto simp: read_scalar_def assms)
qed

lemma takes_sint32:
  assumes "\<And>m. mark (put v m) = upd m"
  shows "takes (read_scalar (rt_read_sint32 rt) get put mark) (wr_sint32 wr v) upd"
proof (rule takesI)
  fix s m rest assume "rem s = wr_sint32 wr v @ rest"
  from read_sint32_written [OF this, of "get m"] show "\<exists>s'. read_scalar (rt_read_sint32 rt) get put mark s m = (True, s', upd m) \<and> rem s' = rest"
    by (auto simp: read_scalar_def assms)
qed

lemma takes_bytes:
  assumes "length b < 2 ^ 31" and "\<And>m. put b (mark m) = upd m"
  shows "takes (read_mutable (rt_read_bytes rt) get put mark) (wr_bytes wr b) upd"
proof (rule takesI)
  fix s m rest assume "rem s = wr_bytes wr b @ rest"
  from read_bytes_written [OF this assms(1), of "get (mark m)"]
  show "\<exists>s'. read_mutable (rt_read_bytes rt) get put mark s m = (True, s', upd m) \<and> rem s' = rest"
    by (auto simp: read_mutable_def assms(2))
qed

lemma takes_packed:
  assumes "packed_size wr vs < 2 ^ 31" and "\<And>m. put (get m @ vs) m = upd m"
  shows "takes (read_mutable (rt_read_packed rt) get put id)
    (wr_varint32 wr (of_nat (packed_size wr vs)) @ concat (map (wr_uint32 wr) vs)) upd"
proof (rule takesI)
  fix s m rest
  assume "rem s = (wr_varint32 wr (of_nat (packed_size wr vs)) @ concat (map (wr_uint32 wr) vs)) @ rest"
  then have "rem s = wr_varint32 wr (of_nat (packed_size wr vs)) @ concat (map (wr_uint32 wr) vs) @ rest" by simp
  from read_packed_written [OF this assms(1), of "get m"]
  show "\<exists>s'. read_mutable (rt_read_packed rt) get put id s m = (True, s', upd m) \<and> rem s' = rest"
    by (auto simp: read_mutable_def assms(2))
qed

text \<open>An end-group tag of any group ends a message.\<close>

lemma end_group_ends: "tag_wire t = WIRETYPE_END_GROUP \<Longrightarrow> handle_uninterpreted rt get put t s m = Done True s m"
  by (simp add: handle_uninterpreted_def tag_wire)

lemma items_fewer_than_bytes:
  assumes "\<And>k. k \<in> K \<Longrightarrow> tag k \<noteq> 0" and "\<forall>(k, bs, upd) \<in> set items. k \<in> K \<and> reads K tag (lab k) bs upd"
  shows "length items \<le> length (concat (map (item_bytes wr tag) items))"
  using assms(2)
proof (induction items)
  case (Cons i items)
  obtain k bs upd where i: "i = (k, bs, upd)" by (metis prod_cases3)
  have "wr_tag wr (tag k) \<noteq> []" using Cons.prems assms(1) wr_tag_nonempty i by simp
  then have "1 \<le> length (item_bytes wr tag i)" by (cases "wr_tag wr (tag k)") (simp_all add: i item_bytes_def)
  with Cons show ?case by simp
qed simp

text \<open>The size of a packed field, as \<^verbatim>\<open>ByteSize\<close> computes it.\<close>

lemma packed_length: "packed_size wr vs = length (concat (map (wr_uint32 wr) vs))"
  by (induction vs) (simp_all add: packed_size_def value_size)

lemma packed_size_0: "packed_size wr vs = 0 \<longleftrightarrow> vs = []"
  using wr_uint32_nonempty by (auto simp: packed_size_def value_size)

end

text \<open>The part of \<^verbatim>\<open>ByteSize\<close> for a packed field whose tag has \<open>n\<close> bytes.\<close>

definition packed_field_size :: "'u writer \<Rightarrow> nat \<Rightarrow> u32 list \<Rightarrow> nat" where
  "packed_field_size wr n vs =
     (let data_size = packed_size wr vs
      in (if 0 < data_size then n + sz_int32 wr data_size else 0) + data_size)"

context wire_format
begin

lemma packed_field_length:
  "length (wr_tag wr (make_tag k WIRETYPE_LENGTH_DELIMITED)) = n \<Longrightarrow>
   packed_field_size wr n vs = length (write_packed wr k vs)"
  using packed_size_0 [of vs]
  by (cases "vs = []") (simp_all add: packed_field_size_def write_packed_def Let_def value_size(5) packed_length)

end

end
