(* ===== verification/Pb_General.thy ===== *)
theory Pb_General
  imports Pb_Wire
begin

text \<open>
  The generated class \<^verbatim>\<open>RecReg_General\<close>: its fields and has-bits, the accessors of
  \<^verbatim>\<open>message.pb.h\<close>, and \<^verbatim>\<open>SharedCtor\<close>, \<^verbatim>\<open>Clear\<close>, \<^verbatim>\<open>MergeFrom\<close>, \<^verbatim>\<open>IsInitialized\<close> and
  \<^verbatim>\<open>MergePartialFromCodedStream\<close> of \<^verbatim>\<open>message.pb.cc\<close>, with the serialiser and
  the byte size, and the round trip between parser and serialiser. Signed fields hold their two's
  complement. The abstraction \<open>gen_abs\<close> reads the message as a map from field numbers to the
  values that are set; merging is then the override of maps.
\<close>

section \<open>Fields and accessors\<close>

record 'u general =
  gen_has_bits :: u32
  gen_unknown :: 'u
  gen_time :: u32
  gen_idfas :: u32
  gen_iddrv :: string
  gen_flg :: u32
  gen_mileage :: u32
  gen_vimp :: u32
  gen_timp :: u32
  gen_uboard :: u32
  gen_batlife :: u32
  gen_sumacc :: u32
  gen_phone :: string
  gen_amtrx :: u32
  gen_amtry :: u32
  gen_amtrz :: u32

definition gen_has_time :: "'u general \<Rightarrow> bool" where
  "gen_has_time m \<longleftrightarrow> gen_has_bits m AND 0x00000001 \<noteq> 0"

definition gen_set_has_time :: "'u general \<Rightarrow> 'u general" where
  "gen_set_has_time m = m\<lparr>gen_has_bits := gen_has_bits m OR 0x00000001\<rparr>"

definition gen_set_time :: "u32 \<Rightarrow> 'u general \<Rightarrow> 'u general" where
  "gen_set_time v m = (gen_set_has_time m)\<lparr>gen_time := v\<rparr>"

definition gen_has_idfas :: "'u general \<Rightarrow> bool" where
  "gen_has_idfas m \<longleftrightarrow> gen_has_bits m AND 0x00000002 \<noteq> 0"

definition gen_set_has_idfas :: "'u general \<Rightarrow> 'u general" where
  "gen_set_has_idfas m = m\<lparr>gen_has_bits := gen_has_bits m OR 0x00000002\<rparr>"

definition gen_set_idfas :: "u32 \<Rightarrow> 'u general \<Rightarrow> 'u general" where
  "gen_set_idfas v m = (gen_set_has_idfas m)\<lparr>gen_idfas := v\<rparr>"

definition gen_has_iddrv :: "'u general \<Rightarrow> bool" where
  "gen_has_iddrv m \<longleftrightarrow> gen_has_bits m AND 0x00000004 \<noteq> 0"

definition gen_set_has_iddrv :: "'u general \<Rightarrow> 'u general" where
  "gen_set_has_iddrv m = m\<lparr>gen_has_bits := gen_has_bits m OR 0x00000004\<rparr>"

definition gen_set_iddrv :: "string \<Rightarrow> 'u general \<Rightarrow> 'u general" where
  "gen_set_iddrv v m = (gen_set_has_iddrv m)\<lparr>gen_iddrv := v\<rparr>"

definition gen_has_flg :: "'u general \<Rightarrow> bool" where
  "gen_has_flg m \<longleftrightarrow> gen_has_bits m AND 0x00000008 \<noteq> 0"

definition gen_set_has_flg :: "'u general \<Rightarrow> 'u general" where
  "gen_set_has_flg m = m\<lparr>gen_has_bits := gen_has_bits m OR 0x00000008\<rparr>"

definition gen_set_flg :: "u32 \<Rightarrow> 'u general \<Rightarrow> 'u general" where
  "gen_set_flg v m = (gen_set_has_flg m)\<lparr>gen_flg := v\<rparr>"

definition gen_has_mileage :: "'u general \<Rightarrow> bool" where
  "gen_has_mileage m \<longleftrightarrow> gen_has_bits m AND 0x00000010 \<noteq> 0"

definition gen_set_has_mileage :: "'u general \<Rightarrow> 'u general" where
  "gen_set_has_mileage m = m\<lparr>gen_has_bits := gen_has_bits m OR 0x00000010\<rparr>"

definition gen_set_mileage :: "u32 \<Rightarrow> 'u general \<Rightarrow> 'u general" where
  "gen_set_mileage v m = (gen_set_has_mileage m)\<lparr>gen_mileage := v\<rparr>"

definition gen_has_vimp :: "'u general \<Rightarrow> bool" where
  "gen_has_vimp m \<longleftrightarrow> gen_has_bits m AND 0x00000020 \<noteq> 0"

definition gen_set_has_vimp :: "'u general \<Rightarrow> 'u general" where
  "gen_set_has_vimp m = m\<lparr>gen_has_bits := gen_has_bits m OR 0x00000020\<rparr>"

definition gen_set_vimp :: "u32 \<Rightarrow> 'u general \<Rightarrow> 'u general" where
  "gen_set_vimp v m = (gen_set_has_vimp m)\<lparr>gen_vimp := v\<rparr>"

definition gen_has_timp :: "'u general \<Rightarrow> bool" where
  "gen_has_timp m \<longleftrightarrow> gen_has_bits m AND 0x00000040 \<noteq> 0"

definition gen_set_has_timp :: "'u general \<Rightarrow> 'u general" where
  "gen_set_has_timp m = m\<lparr>gen_has_bits := gen_has_bits m OR 0x00000040\<rparr>"

definition gen_set_timp :: "u32 \<Rightarrow> 'u general \<Rightarrow> 'u general" where
  "gen_set_timp v m = (gen_set_has_timp m)\<lparr>gen_timp := v\<rparr>"

definition gen_has_uboard :: "'u general \<Rightarrow> bool" where
  "gen_has_uboard m \<longleftrightarrow> gen_has_bits m AND 0x00000080 \<noteq> 0"

definition gen_set_has_uboard :: "'u general \<Rightarrow> 'u general" where
  "gen_set_has_uboard m = m\<lparr>gen_has_bits := gen_has_bits m OR 0x00000080\<rparr>"

definition gen_set_uboard :: "u32 \<Rightarrow> 'u general \<Rightarrow> 'u general" where
  "gen_set_uboard v m = (gen_set_has_uboard m)\<lparr>gen_uboard := v\<rparr>"

definition gen_has_batlife :: "'u general \<Rightarrow> bool" where
  "gen_has_batlife m \<longleftrightarrow> gen_has_bits m AND 0x00000100 \<noteq> 0"

definition gen_set_has_batlife :: "'u general \<Rightarrow> 'u general" where
  "gen_set_has_batlife m = m\<lparr>gen_has_bits := gen_has_bits m OR 0x00000100\<rparr>"

definition gen_set_batlife :: "u32 \<Rightarrow> 'u general \<Rightarrow> 'u general" where
  "gen_set_batlife v m = (gen_set_has_batlife m)\<lparr>gen_batlife := v\<rparr>"

definition gen_has_sumacc :: "'u general \<Rightarrow> bool" where
  "gen_has_sumacc m \<longleftrightarrow> gen_has_bits m AND 0x00000200 \<noteq> 0"

definition gen_set_has_sumacc :: "'u general \<Rightarrow> 'u general" where
  "gen_set_has_sumacc m = m\<lparr>gen_has_bits := gen_has_bits m OR 0x00000200\<rparr>"

definition gen_set_sumacc :: "u32 \<Rightarrow> 'u general \<Rightarrow> 'u general" where
  "gen_set_sumacc v m = (gen_set_has_sumacc m)\<lparr>gen_sumacc := v\<rparr>"

definition gen_has_phone :: "'u general \<Rightarrow> bool" where
  "gen_has_phone m \<longleftrightarrow> gen_has_bits m AND 0x00000400 \<noteq> 0"

definition gen_set_has_phone :: "'u general \<Rightarrow> 'u general" where
  "gen_set_has_phone m = m\<lparr>gen_has_bits := gen_has_bits m OR 0x00000400\<rparr>"

definition gen_set_phone :: "string \<Rightarrow> 'u general \<Rightarrow> 'u general" where
  "gen_set_phone v m = (gen_set_has_phone m)\<lparr>gen_phone := v\<rparr>"

definition gen_has_amtrx :: "'u general \<Rightarrow> bool" where
  "gen_has_amtrx m \<longleftrightarrow> gen_has_bits m AND 0x00000800 \<noteq> 0"

definition gen_set_has_amtrx :: "'u general \<Rightarrow> 'u general" where
  "gen_set_has_amtrx m = m\<lparr>gen_has_bits := gen_has_bits m OR 0x00000800\<rparr>"

definition gen_set_amtrx :: "u32 \<Rightarrow> 'u general \<Rightarrow> 'u general" where
  "gen_set_amtrx v m = (gen_set_has_amtrx m)\<lparr>gen_amtrx := v\<rparr>"

definition gen_has_amtry :: "'u general \<Rightarrow> bool" where
  "gen_has_amtry m \<longleftrightarrow> gen_has_bits m AND 0x00001000 \<noteq> 0"

definition gen_set_has_amtry :: "'u general \<Rightarrow> 'u general" where
  "gen_set_has_amtry m = m\<lparr>gen_has_bits := gen_has_bits m OR 0x00001000\<rparr>"

definition gen_set_amtry :: "u32 \<Rightarrow> 'u general \<Rightarrow> 'u general" where
  "gen_set_amtry v m = (gen_set_has_amtry m)\<lparr>gen_amtry := v\<rparr>"

definition gen_has_amtrz :: "'u general \<Rightarrow> bool" where
  "gen_has_amtrz m \<longleftrightarrow> gen_has_bits m AND 0x00002000 \<noteq> 0"

definition gen_set_has_amtrz :: "'u general \<Rightarrow> 'u general" where
  "gen_set_has_amtrz m = m\<lparr>gen_has_bits := gen_has_bits m OR 0x00002000\<rparr>"

definition gen_set_amtrz :: "u32 \<Rightarrow> 'u general \<Rightarrow> 'u general" where
  "gen_set_amtrz v m = (gen_set_has_amtrz m)\<lparr>gen_amtrz := v\<rparr>"

lemma gen_has_bit [has_bit_simps]:
  "gen_has_time m \<longleftrightarrow> bit (gen_has_bits m) 0"
  "gen_has_idfas m \<longleftrightarrow> bit (gen_has_bits m) 1"
  "gen_has_iddrv m \<longleftrightarrow> bit (gen_has_bits m) 2"
  "gen_has_flg m \<longleftrightarrow> bit (gen_has_bits m) 3"
  "gen_has_mileage m \<longleftrightarrow> bit (gen_has_bits m) 4"
  "gen_has_vimp m \<longleftrightarrow> bit (gen_has_bits m) 5"
  "gen_has_timp m \<longleftrightarrow> bit (gen_has_bits m) 6"
  "gen_has_uboard m \<longleftrightarrow> bit (gen_has_bits m) 7"
  "gen_has_batlife m \<longleftrightarrow> bit (gen_has_bits m) 8"
  "gen_has_sumacc m \<longleftrightarrow> bit (gen_has_bits m) 9"
  "gen_has_phone m \<longleftrightarrow> bit (gen_has_bits m) 10"
  "gen_has_amtrx m \<longleftrightarrow> bit (gen_has_bits m) 11"
  "gen_has_amtry m \<longleftrightarrow> bit (gen_has_bits m) 12"
  "gen_has_amtrz m \<longleftrightarrow> bit (gen_has_bits m) 13"
  using and_one_bit [of "gen_has_bits m" 0]
    and_one_bit [of "gen_has_bits m" 1]
    and_one_bit [of "gen_has_bits m" 2]
    and_one_bit [of "gen_has_bits m" 3]
    and_one_bit [of "gen_has_bits m" 4]
    and_one_bit [of "gen_has_bits m" 5]
    and_one_bit [of "gen_has_bits m" 6]
    and_one_bit [of "gen_has_bits m" 7]
    and_one_bit [of "gen_has_bits m" 8]
    and_one_bit [of "gen_has_bits m" 9]
    and_one_bit [of "gen_has_bits m" 10]
    and_one_bit [of "gen_has_bits m" 11]
    and_one_bit [of "gen_has_bits m" 12]
    and_one_bit [of "gen_has_bits m" 13]
  by (simp_all add: gen_has_time_def gen_has_idfas_def gen_has_iddrv_def gen_has_flg_def gen_has_mileage_def gen_has_vimp_def gen_has_timp_def gen_has_uboard_def gen_has_batlife_def gen_has_sumacc_def gen_has_phone_def gen_has_amtrx_def gen_has_amtry_def gen_has_amtrz_def)

lemmas gen_set_defs =
  gen_set_has_time_def gen_set_time_def
  gen_set_has_idfas_def gen_set_idfas_def
  gen_set_has_iddrv_def gen_set_iddrv_def
  gen_set_has_flg_def gen_set_flg_def
  gen_set_has_mileage_def gen_set_mileage_def
  gen_set_has_vimp_def gen_set_vimp_def
  gen_set_has_timp_def gen_set_timp_def
  gen_set_has_uboard_def gen_set_uboard_def
  gen_set_has_batlife_def gen_set_batlife_def
  gen_set_has_sumacc_def gen_set_sumacc_def
  gen_set_has_phone_def gen_set_phone_def
  gen_set_has_amtrx_def gen_set_amtrx_def
  gen_set_has_amtry_def gen_set_amtry_def
  gen_set_has_amtrz_def gen_set_amtrz_def

lemma gen_or_bit [has_bit_simps]:
  "bit ((w :: u32) OR 0x00000001) n \<longleftrightarrow> bit w n \<or> n = 0"
  "bit ((w :: u32) OR 0x00000002) n \<longleftrightarrow> bit w n \<or> n = 1"
  "bit ((w :: u32) OR 0x00000004) n \<longleftrightarrow> bit w n \<or> n = 2"
  "bit ((w :: u32) OR 0x00000008) n \<longleftrightarrow> bit w n \<or> n = 3"
  "bit ((w :: u32) OR 0x00000010) n \<longleftrightarrow> bit w n \<or> n = 4"
  "bit ((w :: u32) OR 0x00000020) n \<longleftrightarrow> bit w n \<or> n = 5"
  "bit ((w :: u32) OR 0x00000040) n \<longleftrightarrow> bit w n \<or> n = 6"
  "bit ((w :: u32) OR 0x00000080) n \<longleftrightarrow> bit w n \<or> n = 7"
  "bit ((w :: u32) OR 0x00000100) n \<longleftrightarrow> bit w n \<or> n = 8"
  "bit ((w :: u32) OR 0x00000200) n \<longleftrightarrow> bit w n \<or> n = 9"
  "bit ((w :: u32) OR 0x00000400) n \<longleftrightarrow> bit w n \<or> n = 10"
  "bit ((w :: u32) OR 0x00000800) n \<longleftrightarrow> bit w n \<or> n = 11"
  "bit ((w :: u32) OR 0x00001000) n \<longleftrightarrow> bit w n \<or> n = 12"
  "bit ((w :: u32) OR 0x00002000) n \<longleftrightarrow> bit w n \<or> n = 13"
  using or_one_bit [of 0 w n]
    or_one_bit [of 1 w n]
    or_one_bit [of 2 w n]
    or_one_bit [of 3 w n]
    or_one_bit [of 4 w n]
    or_one_bit [of 5 w n]
    or_one_bit [of 6 w n]
    or_one_bit [of 7 w n]
    or_one_bit [of 8 w n]
    or_one_bit [of 9 w n]
    or_one_bit [of 10 w n]
    or_one_bit [of 11 w n]
    or_one_bit [of 12 w n]
    or_one_bit [of 13 w n]
  by simp_all

section \<open>Construction and \<open>Clear\<close>\<close>

definition gen_new :: "'u \<Rightarrow> 'u general" where
  "gen_new u = \<lparr>gen_has_bits = 0, gen_unknown = u,
     gen_time = 0, gen_idfas = 0, gen_iddrv = [], gen_flg = 0,
     gen_mileage = 0, gen_vimp = 0, gen_timp = 0, gen_uboard = 0,
     gen_batlife = 0, gen_sumacc = 0, gen_phone = [], gen_amtrx = 0,
     gen_amtry = 0, gen_amtrz = 0\<rparr>"

definition gen_clear_0 :: "'u general \<Rightarrow> 'u general" where
  "gen_clear_0 m =
     (if group_guard (gen_has_bits m) 0
      then m\<lparr>gen_time := 0, gen_idfas := 0, gen_iddrv := (if gen_has_iddrv m then [] else gen_iddrv m),
        gen_flg := 0, gen_mileage := 0, gen_vimp := 0,
        gen_timp := 0, gen_uboard := 0\<rparr>
      else m)"

definition gen_clear_8 :: "'u general \<Rightarrow> 'u general" where
  "gen_clear_8 m =
     (if group_guard (gen_has_bits m) 8
      then m\<lparr>gen_batlife := 0, gen_sumacc := 0, gen_phone := (if gen_has_phone m then [] else gen_phone m),
        gen_amtrx := 0, gen_amtry := 0, gen_amtrz := 0\<rparr>
      else m)"

definition gen_clear :: "('s, 'u) runtime \<Rightarrow> 'u general \<Rightarrow> 'u general" where
  "gen_clear rt m = (gen_clear_8 (gen_clear_0 m))\<lparr>gen_has_bits := 0, gen_unknown := rt_unknown_empty rt\<rparr>"

text \<open>A field that is not set holds its default: \<^verbatim>\<open>Clear\<close> relies on it when it skips a group.\<close>

definition gen_wf :: "'u general \<Rightarrow> bool" where
  "gen_wf m \<longleftrightarrow>
     (\<not> gen_has_time m \<longrightarrow> gen_time m = 0) \<and>
     (\<not> gen_has_idfas m \<longrightarrow> gen_idfas m = 0) \<and>
     (\<not> gen_has_iddrv m \<longrightarrow> gen_iddrv m = []) \<and>
     (\<not> gen_has_flg m \<longrightarrow> gen_flg m = 0) \<and>
     (\<not> gen_has_mileage m \<longrightarrow> gen_mileage m = 0) \<and>
     (\<not> gen_has_vimp m \<longrightarrow> gen_vimp m = 0) \<and>
     (\<not> gen_has_timp m \<longrightarrow> gen_timp m = 0) \<and>
     (\<not> gen_has_uboard m \<longrightarrow> gen_uboard m = 0) \<and>
     (\<not> gen_has_batlife m \<longrightarrow> gen_batlife m = 0) \<and>
     (\<not> gen_has_sumacc m \<longrightarrow> gen_sumacc m = 0) \<and>
     (\<not> gen_has_phone m \<longrightarrow> gen_phone m = []) \<and>
     (\<not> gen_has_amtrx m \<longrightarrow> gen_amtrx m = 0) \<and>
     (\<not> gen_has_amtry m \<longrightarrow> gen_amtry m = 0) \<and>
     (\<not> gen_has_amtrz m \<longrightarrow> gen_amtrz m = 0)"

lemma gen_wf_new [simp]: "gen_wf (gen_new u)"
  by (simp add: gen_wf_def gen_new_def)

lemma gen_clear_0_wf:
  assumes "gen_wf m"
  shows "gen_clear_0 m = m\<lparr>gen_time := 0, gen_idfas := 0, gen_iddrv := [], gen_flg := 0, gen_mileage := 0, gen_vimp := 0, gen_timp := 0, gen_uboard := 0\<rparr>"
proof (cases "group_guard (gen_has_bits m) 0")
  case True
  with assms show ?thesis by (simp add: gen_clear_0_def gen_wf_def)
next
  case False
  with assms show ?thesis
    by (cases m) (simp add: gen_clear_0_def gen_wf_def has_bit_simps group_guard_off)
qed

lemma gen_clear_8_wf:
  assumes "gen_wf m"
  shows "gen_clear_8 m = m\<lparr>gen_batlife := 0, gen_sumacc := 0, gen_phone := [], gen_amtrx := 0, gen_amtry := 0, gen_amtrz := 0\<rparr>"
proof (cases "group_guard (gen_has_bits m) 8")
  case True
  with assms show ?thesis by (simp add: gen_clear_8_def gen_wf_def)
next
  case False
  with assms show ?thesis
    by (cases m) (simp add: gen_clear_8_def gen_wf_def has_bit_simps group_guard_off)
qed

lemma gen_clear_fresh:
  assumes "gen_wf m"
  shows "gen_clear rt m = gen_new (rt_unknown_empty rt)"
proof -
  have w0: "gen_wf (m)" by (rule assms)
  note e0 = gen_clear_0_wf [OF w0]
  have w1: "gen_wf (gen_clear_0 m)"
    using w0 unfolding e0 by (simp add: gen_wf_def has_bit_simps)
  note e1 = gen_clear_8_wf [OF w1, unfolded e0]
  show ?thesis
    unfolding gen_clear_def e1 e0 by (cases m) (simp add: gen_new_def)
qed

section \<open>The message as a map\<close>

definition gen_abs :: "'u general \<Rightarrow> (nat \<rightharpoonup> pval)" where
  "gen_abs m k =
     (if k = 1 then when_has (gen_has_time m) (PU (gen_time m))
      else if k = 2 then when_has (gen_has_idfas m) (PU (gen_idfas m))
      else if k = 3 then when_has (gen_has_iddrv m) (PB (gen_iddrv m))
      else if k = 4 then when_has (gen_has_flg m) (PU (gen_flg m))
      else if k = 5 then when_has (gen_has_mileage m) (PU (gen_mileage m))
      else if k = 6 then when_has (gen_has_vimp m) (PU (gen_vimp m))
      else if k = 7 then when_has (gen_has_timp m) (PU (gen_timp m))
      else if k = 8 then when_has (gen_has_uboard m) (PU (gen_uboard m))
      else if k = 9 then when_has (gen_has_batlife m) (PU (gen_batlife m))
      else if k = 10 then when_has (gen_has_sumacc m) (PU (gen_sumacc m))
      else if k = 11 then when_has (gen_has_phone m) (PB (gen_phone m))
      else if k = 12 then when_has (gen_has_amtrx m) (PU (gen_amtrx m))
      else if k = 13 then when_has (gen_has_amtry m) (PU (gen_amtry m))
      else if k = 14 then when_has (gen_has_amtrz m) (PU (gen_amtrz m))
      else None)"

lemma gen_abs_new: "gen_abs (gen_new u) = Map.empty"
  by (rule ext) (simp add: gen_abs_def gen_new_def has_bit_simps)

lemma gen_abs_set:
  "gen_abs (gen_set_time v m) = (gen_abs m)(1 \<mapsto> PU v)"
  "gen_abs (gen_set_idfas v m) = (gen_abs m)(2 \<mapsto> PU v)"
  "gen_abs (gen_set_iddrv s m) = (gen_abs m)(3 \<mapsto> PB s)"
  "gen_abs (gen_set_flg v m) = (gen_abs m)(4 \<mapsto> PU v)"
  "gen_abs (gen_set_mileage v m) = (gen_abs m)(5 \<mapsto> PU v)"
  "gen_abs (gen_set_vimp v m) = (gen_abs m)(6 \<mapsto> PU v)"
  "gen_abs (gen_set_timp v m) = (gen_abs m)(7 \<mapsto> PU v)"
  "gen_abs (gen_set_uboard v m) = (gen_abs m)(8 \<mapsto> PU v)"
  "gen_abs (gen_set_batlife v m) = (gen_abs m)(9 \<mapsto> PU v)"
  "gen_abs (gen_set_sumacc v m) = (gen_abs m)(10 \<mapsto> PU v)"
  "gen_abs (gen_set_phone s m) = (gen_abs m)(11 \<mapsto> PB s)"
  "gen_abs (gen_set_amtrx v m) = (gen_abs m)(12 \<mapsto> PU v)"
  "gen_abs (gen_set_amtry v m) = (gen_abs m)(13 \<mapsto> PU v)"
  "gen_abs (gen_set_amtrz v m) = (gen_abs m)(14 \<mapsto> PU v)"
  by (rule ext, simp add: gen_abs_def gen_set_defs has_bit_simps)+

lemma gen_dom_abs: "dom (gen_abs m) \<subseteq> set [1, 2, 3, 4, 5, 6, 7, 8, 9, 10, 11, 12, 13, 14]"
  by (auto simp: gen_abs_def split: if_splits)

section \<open>\<open>MergeFrom\<close>\<close>

lemma gen_abs_merge_field:
  "gen_abs (merge_field gen_has_time gen_time gen_set_time from m) = put_opt 1 (gen_abs from 1) (gen_abs m)"
  "gen_abs (merge_field gen_has_idfas gen_idfas gen_set_idfas from m) = put_opt 2 (gen_abs from 2) (gen_abs m)"
  "gen_abs (merge_field gen_has_iddrv gen_iddrv gen_set_iddrv from m) = put_opt 3 (gen_abs from 3) (gen_abs m)"
  "gen_abs (merge_field gen_has_flg gen_flg gen_set_flg from m) = put_opt 4 (gen_abs from 4) (gen_abs m)"
  "gen_abs (merge_field gen_has_mileage gen_mileage gen_set_mileage from m) = put_opt 5 (gen_abs from 5) (gen_abs m)"
  "gen_abs (merge_field gen_has_vimp gen_vimp gen_set_vimp from m) = put_opt 6 (gen_abs from 6) (gen_abs m)"
  "gen_abs (merge_field gen_has_timp gen_timp gen_set_timp from m) = put_opt 7 (gen_abs from 7) (gen_abs m)"
  "gen_abs (merge_field gen_has_uboard gen_uboard gen_set_uboard from m) = put_opt 8 (gen_abs from 8) (gen_abs m)"
  "gen_abs (merge_field gen_has_batlife gen_batlife gen_set_batlife from m) = put_opt 9 (gen_abs from 9) (gen_abs m)"
  "gen_abs (merge_field gen_has_sumacc gen_sumacc gen_set_sumacc from m) = put_opt 10 (gen_abs from 10) (gen_abs m)"
  "gen_abs (merge_field gen_has_phone gen_phone gen_set_phone from m) = put_opt 11 (gen_abs from 11) (gen_abs m)"
  "gen_abs (merge_field gen_has_amtrx gen_amtrx gen_set_amtrx from m) = put_opt 12 (gen_abs from 12) (gen_abs m)"
  "gen_abs (merge_field gen_has_amtry gen_amtry gen_set_amtry from m) = put_opt 13 (gen_abs from 13) (gen_abs m)"
  "gen_abs (merge_field gen_has_amtrz gen_amtrz gen_set_amtrz from m) = put_opt 14 (gen_abs from 14) (gen_abs m)"
  by (simp_all add: merge_field_def put_opt_def gen_abs_set) (simp_all add: gen_abs_def)

definition gen_merge_0 :: "'u general \<Rightarrow> 'u general \<Rightarrow> 'u general" where
  "gen_merge_0 from m =
     (if group_guard (gen_has_bits from) 0 then
        let m = merge_field gen_has_time gen_time gen_set_time from m;
            m = merge_field gen_has_idfas gen_idfas gen_set_idfas from m;
            m = merge_field gen_has_iddrv gen_iddrv gen_set_iddrv from m;
            m = merge_field gen_has_flg gen_flg gen_set_flg from m;
            m = merge_field gen_has_mileage gen_mileage gen_set_mileage from m;
            m = merge_field gen_has_vimp gen_vimp gen_set_vimp from m;
            m = merge_field gen_has_timp gen_timp gen_set_timp from m;
            m = merge_field gen_has_uboard gen_uboard gen_set_uboard from m
        in m
      else m)"

lemma gen_abs_merge_0:
  "gen_abs (gen_merge_0 from m) = foldl (\<lambda>M k. put_opt k (gen_abs from k) M) (gen_abs m) [1, 2, 3, 4, 5, 6, 7, 8]"
proof (cases "group_guard (gen_has_bits from) 0")
  case True
  then show ?thesis by (simp add: gen_merge_0_def Let_def gen_abs_merge_field)
next
  case False
  then have "k \<in> set [1, 2, 3, 4, 5, 6, 7, 8] \<Longrightarrow> gen_abs from k = None" for k
    by (auto simp: gen_abs_def has_bit_simps group_guard_off)
  then show ?thesis using False by (simp only: put_opt_fold_none gen_merge_0_def if_False)
qed

definition gen_merge_8 :: "'u general \<Rightarrow> 'u general \<Rightarrow> 'u general" where
  "gen_merge_8 from m =
     (if group_guard (gen_has_bits from) 8 then
        let m = merge_field gen_has_batlife gen_batlife gen_set_batlife from m;
            m = merge_field gen_has_sumacc gen_sumacc gen_set_sumacc from m;
            m = merge_field gen_has_phone gen_phone gen_set_phone from m;
            m = merge_field gen_has_amtrx gen_amtrx gen_set_amtrx from m;
            m = merge_field gen_has_amtry gen_amtry gen_set_amtry from m;
            m = merge_field gen_has_amtrz gen_amtrz gen_set_amtrz from m
        in m
      else m)"

lemma gen_abs_merge_8:
  "gen_abs (gen_merge_8 from m) = foldl (\<lambda>M k. put_opt k (gen_abs from k) M) (gen_abs m) [9, 10, 11, 12, 13, 14]"
proof (cases "group_guard (gen_has_bits from) 8")
  case True
  then show ?thesis by (simp add: gen_merge_8_def Let_def gen_abs_merge_field)
next
  case False
  then have "k \<in> set [9, 10, 11, 12, 13, 14] \<Longrightarrow> gen_abs from k = None" for k
    by (auto simp: gen_abs_def has_bit_simps group_guard_off)
  then show ?thesis using False by (simp only: put_opt_fold_none gen_merge_8_def if_False)
qed

definition gen_merge_from :: "('s, 'u) runtime \<Rightarrow> 'u general \<Rightarrow> 'u general \<Rightarrow> 'u general" where
  "gen_merge_from rt from m =
     (let m = gen_merge_8 from (gen_merge_0 from m)
      in m\<lparr>gen_unknown := rt_unknown_merge rt (gen_unknown m) (gen_unknown from)\<rparr>)"

lemma gen_abs_unknown [simp]: "gen_abs (m\<lparr>gen_unknown := u\<rparr>) = gen_abs m"
  by (rule ext) (simp add: gen_abs_def has_bit_simps)

lemma gen_merge_from_abs: "gen_abs (gen_merge_from rt from m) = gen_abs m ++ gen_abs from"
proof -
  have "gen_abs (gen_merge_from rt from m) =
      foldl (\<lambda>M k. put_opt k (gen_abs from k) M) (gen_abs m) ([1, 2, 3, 4, 5, 6, 7, 8] @ [9, 10, 11, 12, 13, 14])"
    by (simp only: gen_merge_from_def Let_def gen_abs_unknown foldl_append gen_abs_merge_0 gen_abs_merge_8)
  also have "\<dots> = gen_abs m ++ gen_abs from"
    unfolding put_opt_fold using gen_dom_abs [of "from"] by (subst restrict_dom) auto
  finally show ?thesis .
qed

definition gen_is_initialized :: "'u general \<Rightarrow> bool" where
  "gen_is_initialized m \<longleftrightarrow> True"

section \<open>\<open>MergePartialFromCodedStream\<close>\<close>

text \<open>The body behind each label; the argument is the number of the field.\<close>

definition gen_label_2 :: "('s, 'u) runtime \<Rightarrow> nat \<Rightarrow> 's \<Rightarrow> 'u general \<Rightarrow> ('s, 'u general) flow" where
  "gen_label_2 rt k s m =
     (if k = 13 then
        then_expect rt 112 14 (read_scalar (rt_read_sint32 rt) gen_amtry (\<lambda>v. gen_amtry_update (\<lambda>_. v)) gen_set_has_amtry s m)
      else if k = 14 then
        then_end rt (read_scalar (rt_read_sint32 rt) gen_amtrz (\<lambda>v. gen_amtrz_update (\<lambda>_. v)) gen_set_has_amtrz s m)
      else Out_of_fuel)"

definition gen_label_1 :: "('s, 'u) runtime \<Rightarrow> nat \<Rightarrow> 's \<Rightarrow> 'u general \<Rightarrow> ('s, 'u general) flow" where
  "gen_label_1 rt k s m =
     (if k = 7 then
        then_expect rt 64 8 (read_scalar (rt_read_uint32 rt) gen_timp (\<lambda>v. gen_timp_update (\<lambda>_. v)) gen_set_has_timp s m)
      else if k = 8 then
        then_expect rt 72 9 (read_scalar (rt_read_uint32 rt) gen_uboard (\<lambda>v. gen_uboard_update (\<lambda>_. v)) gen_set_has_uboard s m)
      else if k = 9 then
        then_expect rt 80 10 (read_scalar (rt_read_uint32 rt) gen_batlife (\<lambda>v. gen_batlife_update (\<lambda>_. v)) gen_set_has_batlife s m)
      else if k = 10 then
        then_expect rt 90 11 (read_scalar (rt_read_sint32 rt) gen_sumacc (\<lambda>v. gen_sumacc_update (\<lambda>_. v)) gen_set_has_sumacc s m)
      else if k = 11 then
        then_expect rt 96 12 (read_mutable (rt_read_bytes rt) gen_phone (\<lambda>v. gen_phone_update (\<lambda>_. v)) gen_set_has_phone s m)
      else if k = 12 then
        then_expect rt 104 13 (read_scalar (rt_read_sint32 rt) gen_amtrx (\<lambda>v. gen_amtrx_update (\<lambda>_. v)) gen_set_has_amtrx s m)
      else gen_label_2 rt k s m)"

definition gen_label_0 :: "('s, 'u) runtime \<Rightarrow> nat \<Rightarrow> 's \<Rightarrow> 'u general \<Rightarrow> ('s, 'u general) flow" where
  "gen_label_0 rt k s m =
     (if k = 1 then
        then_expect rt 16 2 (read_scalar (rt_read_uint32 rt) gen_time (\<lambda>v. gen_time_update (\<lambda>_. v)) gen_set_has_time s m)
      else if k = 2 then
        then_expect rt 26 3 (read_scalar (rt_read_uint32 rt) gen_idfas (\<lambda>v. gen_idfas_update (\<lambda>_. v)) gen_set_has_idfas s m)
      else if k = 3 then
        then_expect rt 32 4 (read_mutable (rt_read_bytes rt) gen_iddrv (\<lambda>v. gen_iddrv_update (\<lambda>_. v)) gen_set_has_iddrv s m)
      else if k = 4 then
        then_expect rt 40 5 (read_scalar (rt_read_uint32 rt) gen_flg (\<lambda>v. gen_flg_update (\<lambda>_. v)) gen_set_has_flg s m)
      else if k = 5 then
        then_expect rt 48 6 (read_scalar (rt_read_uint32 rt) gen_mileage (\<lambda>v. gen_mileage_update (\<lambda>_. v)) gen_set_has_mileage s m)
      else if k = 6 then
        then_expect rt 56 7 (read_scalar (rt_read_uint32 rt) gen_vimp (\<lambda>v. gen_vimp_update (\<lambda>_. v)) gen_set_has_vimp s m)
      else gen_label_1 rt k s m)"

definition gen_label :: "('s, 'u) runtime \<Rightarrow> nat \<Rightarrow> 's \<Rightarrow> 'u general \<Rightarrow> ('s, 'u general) flow" where
  "gen_label rt = gen_label_0 rt"

definition gen_switch :: "('s, 'u) runtime \<Rightarrow> u32 \<Rightarrow> 's \<Rightarrow> 'u general \<Rightarrow> ('s, 'u general) flow" where
  "gen_switch rt tag s m =
     (let k = rt_tag_field rt tag; w = rt_tag_wire rt tag in
      if k = 1 \<and> w = WIRETYPE_VARINT then gen_label rt 1 s m
      else if k = 2 \<and> w = WIRETYPE_VARINT then gen_label rt 2 s m
      else if k = 3 \<and> w = WIRETYPE_LENGTH_DELIMITED then gen_label rt 3 s m
      else if k = 4 \<and> w = WIRETYPE_VARINT then gen_label rt 4 s m
      else if k = 5 \<and> w = WIRETYPE_VARINT then gen_label rt 5 s m
      else if k = 6 \<and> w = WIRETYPE_VARINT then gen_label rt 6 s m
      else if k = 7 \<and> w = WIRETYPE_VARINT then gen_label rt 7 s m
      else if k = 8 \<and> w = WIRETYPE_VARINT then gen_label rt 8 s m
      else if k = 9 \<and> w = WIRETYPE_VARINT then gen_label rt 9 s m
      else if k = 10 \<and> w = WIRETYPE_VARINT then gen_label rt 10 s m
      else if k = 11 \<and> w = WIRETYPE_LENGTH_DELIMITED then gen_label rt 11 s m
      else if k = 12 \<and> w = WIRETYPE_VARINT then gen_label rt 12 s m
      else if k = 13 \<and> w = WIRETYPE_VARINT then gen_label rt 13 s m
      else if k = 14 \<and> w = WIRETYPE_VARINT then gen_label rt 14 s m
      else handle_uninterpreted rt gen_unknown (\<lambda>u. gen_unknown_update (\<lambda>_. u)) tag s m)"

definition gen_parse :: "nat \<Rightarrow> ('s, 'u) runtime \<Rightarrow> 's \<Rightarrow> 'u general \<Rightarrow> (bool \<times> 's \<times> 'u general) option" where
  "gen_parse fuel rt s m = parse_loop fuel (rt_read_tag rt) (gen_switch rt) (gen_label rt) (Break s m)"

section \<open>Serialisation\<close>

text \<open>\<^verbatim>\<open>SerializeWithCachedSizes\<close>, after \<^verbatim>\<open>ByteSize\<close> has cached the sizes; \<^verbatim>\<open>Swap\<close>; \<^verbatim>\<open>CopyFrom\<close> another object.\<close>

definition gen_serialize :: "'u writer \<Rightarrow> 'u general \<Rightarrow> byte list" where
  "gen_serialize wr m =
     (if gen_has_time m then write_uint32 wr 1 (gen_time m) else []) @
     (if gen_has_idfas m then write_uint32 wr 2 (gen_idfas m) else []) @
     (if gen_has_iddrv m then write_bytes wr 3 (gen_iddrv m) else []) @
     (if gen_has_flg m then write_uint32 wr 4 (gen_flg m) else []) @
     (if gen_has_mileage m then write_uint32 wr 5 (gen_mileage m) else []) @
     (if gen_has_vimp m then write_uint32 wr 6 (gen_vimp m) else []) @
     (if gen_has_timp m then write_uint32 wr 7 (gen_timp m) else []) @
     (if gen_has_uboard m then write_uint32 wr 8 (gen_uboard m) else []) @
     (if gen_has_batlife m then write_uint32 wr 9 (gen_batlife m) else []) @
     (if gen_has_sumacc m then write_sint32 wr 10 (gen_sumacc m) else []) @
     (if gen_has_phone m then write_bytes wr 11 (gen_phone m) else []) @
     (if gen_has_amtrx m then write_sint32 wr 12 (gen_amtrx m) else []) @
     (if gen_has_amtry m then write_sint32 wr 13 (gen_amtry m) else []) @
     (if gen_has_amtrz m then write_sint32 wr 14 (gen_amtrz m) else []) @
     wr_unknown wr (gen_unknown m)"

definition gen_size_0 :: "'u writer \<Rightarrow> 'u general \<Rightarrow> nat" where
  "gen_size_0 wr m =
     (if group_guard (gen_has_bits m) 0
      then (if gen_has_time m then 1 + sz_uint32 wr (gen_time m) else 0)
         + (if gen_has_idfas m then 1 + sz_uint32 wr (gen_idfas m) else 0)
         + (if gen_has_iddrv m then 1 + sz_bytes wr (gen_iddrv m) else 0)
         + (if gen_has_flg m then 1 + sz_uint32 wr (gen_flg m) else 0)
         + (if gen_has_mileage m then 1 + sz_uint32 wr (gen_mileage m) else 0)
         + (if gen_has_vimp m then 1 + sz_uint32 wr (gen_vimp m) else 0)
         + (if gen_has_timp m then 1 + sz_uint32 wr (gen_timp m) else 0)
         + (if gen_has_uboard m then 1 + sz_uint32 wr (gen_uboard m) else 0)
      else 0)"

definition gen_size_8 :: "'u writer \<Rightarrow> 'u general \<Rightarrow> nat" where
  "gen_size_8 wr m =
     (if group_guard (gen_has_bits m) 8
      then (if gen_has_batlife m then 1 + sz_uint32 wr (gen_batlife m) else 0)
         + (if gen_has_sumacc m then 1 + sz_sint32 wr (gen_sumacc m) else 0)
         + (if gen_has_phone m then 1 + sz_bytes wr (gen_phone m) else 0)
         + (if gen_has_amtrx m then 1 + sz_sint32 wr (gen_amtrx m) else 0)
         + (if gen_has_amtry m then 1 + sz_sint32 wr (gen_amtry m) else 0)
         + (if gen_has_amtrz m then 1 + sz_sint32 wr (gen_amtrz m) else 0)
      else 0)"

definition gen_byte_size :: "'u writer \<Rightarrow> 'u general \<Rightarrow> nat" where
  "gen_byte_size wr m = gen_size_0 wr m + gen_size_8 wr m + sz_unknown wr (gen_unknown m)"

definition gen_swap :: "'u general \<Rightarrow> 'u general \<Rightarrow> 'u general \<times> 'u general" where
  "gen_swap m other =
     (m\<lparr>gen_time := gen_time other, gen_idfas := gen_idfas other, gen_iddrv := gen_iddrv other, 
       gen_flg := gen_flg other, gen_mileage := gen_mileage other, gen_vimp := gen_vimp other, 
       gen_timp := gen_timp other, gen_uboard := gen_uboard other, gen_batlife := gen_batlife other, 
       gen_sumacc := gen_sumacc other, gen_phone := gen_phone other, gen_amtrx := gen_amtrx other, 
       gen_amtry := gen_amtry other, gen_amtrz := gen_amtrz other, gen_has_bits := gen_has_bits other, 
       gen_unknown := gen_unknown other\<rparr>,
      other\<lparr>gen_time := gen_time m, gen_idfas := gen_idfas m, gen_iddrv := gen_iddrv m, 
       gen_flg := gen_flg m, gen_mileage := gen_mileage m, gen_vimp := gen_vimp m, 
       gen_timp := gen_timp m, gen_uboard := gen_uboard m, gen_batlife := gen_batlife m, 
       gen_sumacc := gen_sumacc m, gen_phone := gen_phone m, gen_amtrx := gen_amtrx m, 
       gen_amtry := gen_amtry m, gen_amtrz := gen_amtrz m, gen_has_bits := gen_has_bits m, 
       gen_unknown := gen_unknown m\<rparr>)"

lemma gen_swap_exchanges: "gen_swap m other = (other, m)"
  by (simp add: gen_swap_def)

definition gen_copy_from :: "('s, 'u) runtime \<Rightarrow> 'u general \<Rightarrow> 'u general \<Rightarrow> 'u general" where
  "gen_copy_from rt from m = gen_merge_from rt from (gen_clear rt m)"

lemma gen_copy_from_abs: "gen_wf m \<Longrightarrow> gen_abs (gen_copy_from rt from m) = gen_abs from"
  by (simp add: gen_copy_from_def gen_merge_from_abs gen_clear_fresh gen_abs_new)

section \<open>The shape of a message\<close>

definition gen_tag :: "nat \<Rightarrow> u32" where
  "gen_tag k = make_tag k (if k \<in> {3, 11} then WIRETYPE_LENGTH_DELIMITED else WIRETYPE_VARINT)"

definition gen_fields :: "nat set" where
  "gen_fields = {1, 2, 3, 4, 5, 6, 7, 8, 9, 10, 11, 12, 13, 14}"

text \<open>Nothing but the known fields: only their has-bits, defaults where a field is not set, no unknown field.\<close>

definition gen_bits :: "nat list" where
  "gen_bits = [0, 1, 2, 3, 4, 5, 6, 7, 8, 9, 10, 11, 12, 13]"

definition gen_complete :: "'u \<Rightarrow> 'u general \<Rightarrow> bool" where
  "gen_complete u m \<longleftrightarrow> gen_wf m \<and> bits_within (gen_has_bits m) gen_bits \<and> gen_unknown m = u"

lemma gen_complete_new: "gen_complete u (gen_new u)"
  by (simp add: gen_complete_def) (simp add: gen_new_def)

lemma gen_wf_set:
  assumes "gen_wf m"
  shows "gen_wf (gen_set_time v m)"
    "gen_wf (gen_set_idfas v m)"
    "gen_wf (gen_set_iddrv b m)"
    "gen_wf (gen_set_flg v m)"
    "gen_wf (gen_set_mileage v m)"
    "gen_wf (gen_set_vimp v m)"
    "gen_wf (gen_set_timp v m)"
    "gen_wf (gen_set_uboard v m)"
    "gen_wf (gen_set_batlife v m)"
    "gen_wf (gen_set_sumacc v m)"
    "gen_wf (gen_set_phone b m)"
    "gen_wf (gen_set_amtrx v m)"
    "gen_wf (gen_set_amtry v m)"
    "gen_wf (gen_set_amtrz v m)"
  using assms by (simp_all add: gen_wf_def gen_set_defs has_bit_simps)

lemma gen_bits_set:
  assumes "bits_within w gen_bits"
  shows "bits_within (w OR 0x00000001) gen_bits"
    "bits_within (w OR 0x00000002) gen_bits"
    "bits_within (w OR 0x00000004) gen_bits"
    "bits_within (w OR 0x00000008) gen_bits"
    "bits_within (w OR 0x00000010) gen_bits"
    "bits_within (w OR 0x00000020) gen_bits"
    "bits_within (w OR 0x00000040) gen_bits"
    "bits_within (w OR 0x00000080) gen_bits"
    "bits_within (w OR 0x00000100) gen_bits"
    "bits_within (w OR 0x00000200) gen_bits"
    "bits_within (w OR 0x00000400) gen_bits"
    "bits_within (w OR 0x00000800) gen_bits"
    "bits_within (w OR 0x00001000) gen_bits"
    "bits_within (w OR 0x00002000) gen_bits"
  by (rule bits_within_insert [OF assms], rule gen_or_bit, simp add: gen_bits_def)+

lemma gen_complete_set:
  assumes "gen_complete u m"
  shows "gen_complete u (gen_set_time v m)"
    "gen_complete u (gen_set_idfas v m)"
    "gen_complete u (gen_set_iddrv b m)"
    "gen_complete u (gen_set_flg v m)"
    "gen_complete u (gen_set_mileage v m)"
    "gen_complete u (gen_set_vimp v m)"
    "gen_complete u (gen_set_timp v m)"
    "gen_complete u (gen_set_uboard v m)"
    "gen_complete u (gen_set_batlife v m)"
    "gen_complete u (gen_set_sumacc v m)"
    "gen_complete u (gen_set_phone b m)"
    "gen_complete u (gen_set_amtrx v m)"
    "gen_complete u (gen_set_amtry v m)"
    "gen_complete u (gen_set_amtrz v m)"
  using assms by (simp_all add: gen_complete_def gen_wf_set) (simp_all add: gen_set_defs gen_bits_set)

lemma gen_abs_at:
  "gen_abs m 1 = when_has (gen_has_time m) (PU (gen_time m))"
  "gen_abs m 2 = when_has (gen_has_idfas m) (PU (gen_idfas m))"
  "gen_abs m 3 = when_has (gen_has_iddrv m) (PB (gen_iddrv m))"
  "gen_abs m 4 = when_has (gen_has_flg m) (PU (gen_flg m))"
  "gen_abs m 5 = when_has (gen_has_mileage m) (PU (gen_mileage m))"
  "gen_abs m 6 = when_has (gen_has_vimp m) (PU (gen_vimp m))"
  "gen_abs m 7 = when_has (gen_has_timp m) (PU (gen_timp m))"
  "gen_abs m 8 = when_has (gen_has_uboard m) (PU (gen_uboard m))"
  "gen_abs m 9 = when_has (gen_has_batlife m) (PU (gen_batlife m))"
  "gen_abs m 10 = when_has (gen_has_sumacc m) (PU (gen_sumacc m))"
  "gen_abs m 11 = when_has (gen_has_phone m) (PB (gen_phone m))"
  "gen_abs m 12 = when_has (gen_has_amtrx m) (PU (gen_amtrx m))"
  "gen_abs m 13 = when_has (gen_has_amtry m) (PU (gen_amtry m))"
  "gen_abs m 14 = when_has (gen_has_amtrz m) (PU (gen_amtrz m))"
  by (simp_all add: gen_abs_def)

lemma gen_eqI:
  assumes "gen_complete u m" and "gen_complete u m'" and "gen_abs m = gen_abs m'"
  shows "m = m'"
proof -
  have time: "gen_has_time m = gen_has_time m' \<and> gen_time m = gen_time m'"
    using assms(1,2) fun_cong [OF assms(3), of 1, unfolded gen_abs_at]
    by (intro field_eq(1)) (simp_all add: gen_complete_def gen_wf_def)
  have idfas: "gen_has_idfas m = gen_has_idfas m' \<and> gen_idfas m = gen_idfas m'"
    using assms(1,2) fun_cong [OF assms(3), of 2, unfolded gen_abs_at]
    by (intro field_eq(1)) (simp_all add: gen_complete_def gen_wf_def)
  have iddrv: "gen_has_iddrv m = gen_has_iddrv m' \<and> gen_iddrv m = gen_iddrv m'"
    using assms(1,2) fun_cong [OF assms(3), of 3, unfolded gen_abs_at]
    by (intro field_eq(2)) (simp_all add: gen_complete_def gen_wf_def)
  have flg: "gen_has_flg m = gen_has_flg m' \<and> gen_flg m = gen_flg m'"
    using assms(1,2) fun_cong [OF assms(3), of 4, unfolded gen_abs_at]
    by (intro field_eq(1)) (simp_all add: gen_complete_def gen_wf_def)
  have mileage: "gen_has_mileage m = gen_has_mileage m' \<and> gen_mileage m = gen_mileage m'"
    using assms(1,2) fun_cong [OF assms(3), of 5, unfolded gen_abs_at]
    by (intro field_eq(1)) (simp_all add: gen_complete_def gen_wf_def)
  have vimp: "gen_has_vimp m = gen_has_vimp m' \<and> gen_vimp m = gen_vimp m'"
    using assms(1,2) fun_cong [OF assms(3), of 6, unfolded gen_abs_at]
    by (intro field_eq(1)) (simp_all add: gen_complete_def gen_wf_def)
  have timp: "gen_has_timp m = gen_has_timp m' \<and> gen_timp m = gen_timp m'"
    using assms(1,2) fun_cong [OF assms(3), of 7, unfolded gen_abs_at]
    by (intro field_eq(1)) (simp_all add: gen_complete_def gen_wf_def)
  have uboard: "gen_has_uboard m = gen_has_uboard m' \<and> gen_uboard m = gen_uboard m'"
    using assms(1,2) fun_cong [OF assms(3), of 8, unfolded gen_abs_at]
    by (intro field_eq(1)) (simp_all add: gen_complete_def gen_wf_def)
  have batlife: "gen_has_batlife m = gen_has_batlife m' \<and> gen_batlife m = gen_batlife m'"
    using assms(1,2) fun_cong [OF assms(3), of 9, unfolded gen_abs_at]
    by (intro field_eq(1)) (simp_all add: gen_complete_def gen_wf_def)
  have sumacc: "gen_has_sumacc m = gen_has_sumacc m' \<and> gen_sumacc m = gen_sumacc m'"
    using assms(1,2) fun_cong [OF assms(3), of 10, unfolded gen_abs_at]
    by (intro field_eq(1)) (simp_all add: gen_complete_def gen_wf_def)
  have phone: "gen_has_phone m = gen_has_phone m' \<and> gen_phone m = gen_phone m'"
    using assms(1,2) fun_cong [OF assms(3), of 11, unfolded gen_abs_at]
    by (intro field_eq(2)) (simp_all add: gen_complete_def gen_wf_def)
  have amtrx: "gen_has_amtrx m = gen_has_amtrx m' \<and> gen_amtrx m = gen_amtrx m'"
    using assms(1,2) fun_cong [OF assms(3), of 12, unfolded gen_abs_at]
    by (intro field_eq(1)) (simp_all add: gen_complete_def gen_wf_def)
  have amtry: "gen_has_amtry m = gen_has_amtry m' \<and> gen_amtry m = gen_amtry m'"
    using assms(1,2) fun_cong [OF assms(3), of 13, unfolded gen_abs_at]
    by (intro field_eq(1)) (simp_all add: gen_complete_def gen_wf_def)
  have amtrz: "gen_has_amtrz m = gen_has_amtrz m' \<and> gen_amtrz m = gen_amtrz m'"
    using assms(1,2) fun_cong [OF assms(3), of 14, unfolded gen_abs_at]
    by (intro field_eq(1)) (simp_all add: gen_complete_def gen_wf_def)
  have "gen_has_bits m = gen_has_bits m'"
  proof (rule bits_within_eqI)
    show "bits_within (gen_has_bits m) gen_bits" "bits_within (gen_has_bits m') gen_bits"
      using assms(1,2) by (simp_all add: gen_complete_def)
    show "\<forall>n \<in> set gen_bits. bit (gen_has_bits m) n = bit (gen_has_bits m') n"
      using time idfas iddrv flg mileage vimp timp uboard batlife sumacc phone amtrx amtry amtrz
      by (simp add: gen_has_bit gen_bits_def)
  qed
  with assms show ?thesis
    using time idfas iddrv flg mileage vimp timp uboard batlife sumacc phone amtrx amtry amtrz
    by (intro general.equality) (simp_all add: gen_complete_def)
qed

definition gen_items :: "'u writer \<Rightarrow> 'u general \<Rightarrow> (nat \<times> byte list \<times> ('u general \<Rightarrow> 'u general)) list" where
  "gen_items wr m =
     item (gen_has_time m) 1 (wr_uint32 wr (gen_time m)) (gen_set_time (gen_time m)) @
     item (gen_has_idfas m) 2 (wr_uint32 wr (gen_idfas m)) (gen_set_idfas (gen_idfas m)) @
     item (gen_has_iddrv m) 3 (wr_bytes wr (gen_iddrv m)) (gen_set_iddrv (gen_iddrv m)) @
     item (gen_has_flg m) 4 (wr_uint32 wr (gen_flg m)) (gen_set_flg (gen_flg m)) @
     item (gen_has_mileage m) 5 (wr_uint32 wr (gen_mileage m)) (gen_set_mileage (gen_mileage m)) @
     item (gen_has_vimp m) 6 (wr_uint32 wr (gen_vimp m)) (gen_set_vimp (gen_vimp m)) @
     item (gen_has_timp m) 7 (wr_uint32 wr (gen_timp m)) (gen_set_timp (gen_timp m)) @
     item (gen_has_uboard m) 8 (wr_uint32 wr (gen_uboard m)) (gen_set_uboard (gen_uboard m)) @
     item (gen_has_batlife m) 9 (wr_uint32 wr (gen_batlife m)) (gen_set_batlife (gen_batlife m)) @
     item (gen_has_sumacc m) 10 (wr_sint32 wr (gen_sumacc m)) (gen_set_sumacc (gen_sumacc m)) @
     item (gen_has_phone m) 11 (wr_bytes wr (gen_phone m)) (gen_set_phone (gen_phone m)) @
     item (gen_has_amtrx m) 12 (wr_sint32 wr (gen_amtrx m)) (gen_set_amtrx (gen_amtrx m)) @
     item (gen_has_amtry m) 13 (wr_sint32 wr (gen_amtry m)) (gen_set_amtry (gen_amtry m)) @
     item (gen_has_amtrz m) 14 (wr_sint32 wr (gen_amtrz m)) (gen_set_amtrz (gen_amtrz m))"

lemma gen_abs_upd_if:
  "gen_abs (upd_if (gen_has_time m) (gen_set_time (gen_time m)) x) = put_opt 1 (gen_abs m 1) (gen_abs x)"
  "gen_abs (upd_if (gen_has_idfas m) (gen_set_idfas (gen_idfas m)) x) = put_opt 2 (gen_abs m 2) (gen_abs x)"
  "gen_abs (upd_if (gen_has_iddrv m) (gen_set_iddrv (gen_iddrv m)) x) = put_opt 3 (gen_abs m 3) (gen_abs x)"
  "gen_abs (upd_if (gen_has_flg m) (gen_set_flg (gen_flg m)) x) = put_opt 4 (gen_abs m 4) (gen_abs x)"
  "gen_abs (upd_if (gen_has_mileage m) (gen_set_mileage (gen_mileage m)) x) = put_opt 5 (gen_abs m 5) (gen_abs x)"
  "gen_abs (upd_if (gen_has_vimp m) (gen_set_vimp (gen_vimp m)) x) = put_opt 6 (gen_abs m 6) (gen_abs x)"
  "gen_abs (upd_if (gen_has_timp m) (gen_set_timp (gen_timp m)) x) = put_opt 7 (gen_abs m 7) (gen_abs x)"
  "gen_abs (upd_if (gen_has_uboard m) (gen_set_uboard (gen_uboard m)) x) = put_opt 8 (gen_abs m 8) (gen_abs x)"
  "gen_abs (upd_if (gen_has_batlife m) (gen_set_batlife (gen_batlife m)) x) = put_opt 9 (gen_abs m 9) (gen_abs x)"
  "gen_abs (upd_if (gen_has_sumacc m) (gen_set_sumacc (gen_sumacc m)) x) = put_opt 10 (gen_abs m 10) (gen_abs x)"
  "gen_abs (upd_if (gen_has_phone m) (gen_set_phone (gen_phone m)) x) = put_opt 11 (gen_abs m 11) (gen_abs x)"
  "gen_abs (upd_if (gen_has_amtrx m) (gen_set_amtrx (gen_amtrx m)) x) = put_opt 12 (gen_abs m 12) (gen_abs x)"
  "gen_abs (upd_if (gen_has_amtry m) (gen_set_amtry (gen_amtry m)) x) = put_opt 13 (gen_abs m 13) (gen_abs x)"
  "gen_abs (upd_if (gen_has_amtrz m) (gen_set_amtrz (gen_amtrz m)) x) = put_opt 14 (gen_abs m 14) (gen_abs x)"
  by (simp_all add: upd_if_def put_opt_def gen_abs_set gen_abs_at del: One_nat_def)

lemma gen_items_abs: "gen_abs (fold item_upd (gen_items wr m) x) = gen_abs x ++ gen_abs m"
proof -
  have "gen_abs (fold item_upd (gen_items wr m) x) = foldl (\<lambda>M k. put_opt k (gen_abs m k) M) (gen_abs x) [1, 2, 3, 4, 5, 6, 7, 8, 9, 10, 11, 12, 13, 14]"
    by (simp only: gen_items_def fold_append o_apply fold_item gen_abs_upd_if foldl.simps)
  also have "\<dots> = gen_abs x ++ gen_abs m"
    unfolding put_opt_fold using gen_dom_abs [of m] by (subst restrict_dom) auto
  finally show ?thesis .
qed

lemma gen_items_complete: "gen_complete u x \<Longrightarrow> gen_complete u (fold item_upd (gen_items wr m) x)"
  by (rule fold_items_keep)
    (auto simp: gen_items_def ball_Un ball_item item_upd_def intro: gen_complete_set)

lemma gen_items_new:
  assumes "gen_complete u m"
  shows "fold item_upd (gen_items wr m) (gen_new u) = m"
proof (rule gen_eqI)
  show "gen_complete u (fold item_upd (gen_items wr m) (gen_new u))"
    by (rule gen_items_complete [OF gen_complete_new])
  show "gen_abs (fold item_upd (gen_items wr m) (gen_new u)) = gen_abs m"
    by (simp add: gen_items_abs gen_abs_new)
qed (rule assms)

text \<open>What is read must fit the parser: a length is a signed 32-bit number.\<close>

definition gen_fits :: "'u general \<Rightarrow> bool" where
  "gen_fits m \<longleftrightarrow> length (gen_iddrv m) < 2 ^ 31 \<and> length (gen_phone m) < 2 ^ 31"

section \<open>The parser on the wire\<close>

lemma gen_fields_range: "k \<in> gen_fields \<Longrightarrow> 0 < k \<and> k < 2 ^ 29"
  unfolding gen_fields_def by (elim insertE emptyE) (simp_all del: One_nat_def)

lemma gen_tag_field: "k \<in> gen_fields \<Longrightarrow> tag_field (gen_tag k) = k"
  using gen_fields_range by (simp add: gen_tag_def tag_field_make)

lemma gen_tag_inj: "inj_on gen_tag gen_fields"
  by (rule inj_on_inverseI [where g = tag_field]) (rule gen_tag_field)

context input_stream
begin

lemma gen_label_within: "k \<in> gen_fields \<Longrightarrow> flow_within gen_fields (remaining s) (gen_label rt k s m)"
  unfolding gen_label_2_def gen_label_1_def gen_label_0_def gen_label_def
  by (subst (asm) gen_fields_def)
    ((erule flow_within_chain, intro within_intros, erule size_dests, (simp add: gen_fields_def; fail)?)+; simp)

lemma gen_switch_within: "flow_within gen_fields (remaining s) (gen_switch rt tag s m)"
  unfolding gen_switch_def Let_def
  by (intro flow_within_if gen_label_within handle_uninterpreted_within) (simp_all add: gen_fields_def)

lemma gen_parse_returns:
  "remaining s < fuel \<Longrightarrow> \<exists>ok s' m'. gen_parse fuel rt s m = Some (ok, s', m') \<and> remaining s' \<le> remaining s"
  unfolding gen_parse_def
  by (rule parse_loop_returns [OF gen_switch_within gen_label_within]) (simp_all add: flow_within_def)

end

context wire_format
begin

lemma gen_switch_label:
  assumes "k \<in> gen_fields"
  shows "gen_tag k \<noteq> 0 \<and> gen_switch rt (gen_tag k) s m = gen_label rt k s m"
proof
  show "gen_tag k \<noteq> 0" using gen_fields_range [OF assms] by (simp add: gen_tag_def make_tag_nonzero)
  have "rt_tag_field rt (gen_tag k) = k" "rt_tag_wire rt (gen_tag k) = (if k \<in> {3, 11} then WIRETYPE_LENGTH_DELIMITED else WIRETYPE_VARINT)"
    using gen_fields_range [OF assms] by (simp_all add: gen_tag_def tag_field tag_wire tag_field_make tag_wire_make)
  then show "gen_switch rt (gen_tag k) s m = gen_label rt k s m"
    using assms unfolding gen_switch_def gen_fields_def by (elim insertE emptyE) (simp_all add: Let_def del: One_nat_def)
qed

lemma gen_end_group:
  assumes "tag_wire t = WIRETYPE_END_GROUP"
  shows "t \<noteq> 0 \<and> t \<notin> gen_tag ` gen_fields \<and> gen_switch rt t s m = Done True s m"
proof (intro conjI)
  show "t \<noteq> 0" using assms by (auto simp: tag_wire_def)
  show "t \<notin> gen_tag ` gen_fields"
    using assms gen_fields_range by (auto simp: gen_tag_def tag_wire_make split: if_splits)
  show "gen_switch rt t s m = Done True s m"
    using assms by (simp add: gen_switch_def Let_def tag_wire end_group_ends)
qed

lemma gen_reads_time:
  "reads gen_fields gen_tag (gen_label rt 1) (wr_uint32 wr v) (gen_set_time v)"
  by (simp add: gen_label_2_def [abs_def] gen_label_1_def [abs_def] gen_label_0_def [abs_def] gen_label_def [abs_def] del: One_nat_def)
    (rule reads_expect [OF takes_uint32], simp add: gen_set_defs, simp_all add: gen_fields_def gen_tag_def make_tag_def)

lemma gen_reads_idfas:
  "reads gen_fields gen_tag (gen_label rt 2) (wr_uint32 wr v) (gen_set_idfas v)"
  by (simp add: gen_label_2_def [abs_def] gen_label_1_def [abs_def] gen_label_0_def [abs_def] gen_label_def [abs_def] del: One_nat_def)
    (rule reads_expect [OF takes_uint32], simp add: gen_set_defs, simp_all add: gen_fields_def gen_tag_def make_tag_def)

lemma gen_reads_iddrv:
  assumes "length b < 2 ^ 31"
  shows "reads gen_fields gen_tag (gen_label rt 3) (wr_bytes wr b) (gen_set_iddrv b)"
  by (simp add: gen_label_2_def [abs_def] gen_label_1_def [abs_def] gen_label_0_def [abs_def] gen_label_def [abs_def] del: One_nat_def)
    (rule reads_expect [OF takes_bytes [OF assms]], simp add: gen_set_defs, simp_all add: gen_fields_def gen_tag_def make_tag_def)

lemma gen_reads_flg:
  "reads gen_fields gen_tag (gen_label rt 4) (wr_uint32 wr v) (gen_set_flg v)"
  by (simp add: gen_label_2_def [abs_def] gen_label_1_def [abs_def] gen_label_0_def [abs_def] gen_label_def [abs_def] del: One_nat_def)
    (rule reads_expect [OF takes_uint32], simp add: gen_set_defs, simp_all add: gen_fields_def gen_tag_def make_tag_def)

lemma gen_reads_mileage:
  "reads gen_fields gen_tag (gen_label rt 5) (wr_uint32 wr v) (gen_set_mileage v)"
  by (simp add: gen_label_2_def [abs_def] gen_label_1_def [abs_def] gen_label_0_def [abs_def] gen_label_def [abs_def] del: One_nat_def)
    (rule reads_expect [OF takes_uint32], simp add: gen_set_defs, simp_all add: gen_fields_def gen_tag_def make_tag_def)

lemma gen_reads_vimp:
  "reads gen_fields gen_tag (gen_label rt 6) (wr_uint32 wr v) (gen_set_vimp v)"
  by (simp add: gen_label_2_def [abs_def] gen_label_1_def [abs_def] gen_label_0_def [abs_def] gen_label_def [abs_def] del: One_nat_def)
    (rule reads_expect [OF takes_uint32], simp add: gen_set_defs, simp_all add: gen_fields_def gen_tag_def make_tag_def)

lemma gen_reads_timp:
  "reads gen_fields gen_tag (gen_label rt 7) (wr_uint32 wr v) (gen_set_timp v)"
  by (simp add: gen_label_2_def [abs_def] gen_label_1_def [abs_def] gen_label_0_def [abs_def] gen_label_def [abs_def] del: One_nat_def)
    (rule reads_expect [OF takes_uint32], simp add: gen_set_defs, simp_all add: gen_fields_def gen_tag_def make_tag_def)

lemma gen_reads_uboard:
  "reads gen_fields gen_tag (gen_label rt 8) (wr_uint32 wr v) (gen_set_uboard v)"
  by (simp add: gen_label_2_def [abs_def] gen_label_1_def [abs_def] gen_label_0_def [abs_def] gen_label_def [abs_def] del: One_nat_def)
    (rule reads_expect [OF takes_uint32], simp add: gen_set_defs, simp_all add: gen_fields_def gen_tag_def make_tag_def)

lemma gen_reads_batlife:
  "reads gen_fields gen_tag (gen_label rt 9) (wr_uint32 wr v) (gen_set_batlife v)"
  by (simp add: gen_label_2_def [abs_def] gen_label_1_def [abs_def] gen_label_0_def [abs_def] gen_label_def [abs_def] del: One_nat_def)
    (rule reads_expect [OF takes_uint32], simp add: gen_set_defs, simp_all add: gen_fields_def gen_tag_def make_tag_def)

lemma gen_reads_sumacc:
  "reads gen_fields gen_tag (gen_label rt 10) (wr_sint32 wr v) (gen_set_sumacc v)"
  by (simp add: gen_label_2_def [abs_def] gen_label_1_def [abs_def] gen_label_0_def [abs_def] gen_label_def [abs_def] del: One_nat_def)
    (rule reads_expect [OF takes_sint32], simp add: gen_set_defs, simp_all add: gen_fields_def gen_tag_def make_tag_def)

lemma gen_reads_phone:
  assumes "length b < 2 ^ 31"
  shows "reads gen_fields gen_tag (gen_label rt 11) (wr_bytes wr b) (gen_set_phone b)"
  by (simp add: gen_label_2_def [abs_def] gen_label_1_def [abs_def] gen_label_0_def [abs_def] gen_label_def [abs_def] del: One_nat_def)
    (rule reads_expect [OF takes_bytes [OF assms]], simp add: gen_set_defs, simp_all add: gen_fields_def gen_tag_def make_tag_def)

lemma gen_reads_amtrx:
  "reads gen_fields gen_tag (gen_label rt 12) (wr_sint32 wr v) (gen_set_amtrx v)"
  by (simp add: gen_label_2_def [abs_def] gen_label_1_def [abs_def] gen_label_0_def [abs_def] gen_label_def [abs_def] del: One_nat_def)
    (rule reads_expect [OF takes_sint32], simp add: gen_set_defs, simp_all add: gen_fields_def gen_tag_def make_tag_def)

lemma gen_reads_amtry:
  "reads gen_fields gen_tag (gen_label rt 13) (wr_sint32 wr v) (gen_set_amtry v)"
  by (simp add: gen_label_2_def [abs_def] gen_label_1_def [abs_def] gen_label_0_def [abs_def] gen_label_def [abs_def] del: One_nat_def)
    (rule reads_expect [OF takes_sint32], simp add: gen_set_defs, simp_all add: gen_fields_def gen_tag_def make_tag_def)

lemma gen_reads_amtrz:
  "reads gen_fields gen_tag (gen_label rt 14) (wr_sint32 wr v) (gen_set_amtrz v)"
  by (simp add: gen_label_2_def [abs_def] gen_label_1_def [abs_def] gen_label_0_def [abs_def] gen_label_def [abs_def] del: One_nat_def)
    (rule reads_end [OF takes_sint32], simp add: gen_set_defs)

lemmas gen_reads =
  gen_reads_time
  gen_reads_idfas
  gen_reads_iddrv
  gen_reads_flg
  gen_reads_mileage
  gen_reads_vimp
  gen_reads_timp
  gen_reads_uboard
  gen_reads_batlife
  gen_reads_sumacc
  gen_reads_phone
  gen_reads_amtrx
  gen_reads_amtry
  gen_reads_amtrz

lemma gen_items_read:
  assumes "gen_fits m"
  shows "\<forall>(k, bs, upd) \<in> set (gen_items wr m). k \<in> gen_fields \<and> reads gen_fields gen_tag (gen_label rt k) bs upd"
  using assms unfolding gen_fits_def
  by (simp add: gen_items_def ball_Un ball_item gen_reads del: One_nat_def) (simp add: gen_fields_def)

lemma gen_serialize_items:
  "gen_unknown m = rt_unknown_empty rt \<Longrightarrow> gen_serialize wr m = concat (map (item_bytes wr gen_tag) (gen_items wr m))"
  by (simp add: gen_serialize_def gen_items_def concat_item write_uint32_def write_sint32_def write_bytes_def write_packed_def
    gen_tag_def wr_unknown_empty)

lemma gen_parse_from:
  assumes "gen_fits m"
    and "rem s = gen_serialize wr m @ stop_bytes stop" and "gen_unknown m = rt_unknown_empty rt"
    and "group_stop stop"
    and "length (gen_serialize wr m) < fuel"
  shows "\<exists>s'. gen_parse fuel rt s x = Some (True, s', fold item_upd (gen_items wr m) x) \<and> stopped stop s'"
proof -
  note read = gen_items_read [OF assms(1)]
  note ser = gen_serialize_items [OF assms(3)]
  have "gen_tag k \<noteq> 0" if "k \<in> gen_fields" for k using gen_switch_label [OF that] by blast
  from items_fewer_than_bytes [OF this read] assms(5) ser have fuel: "length (gen_items wr m) + 1 \<le> fuel" by simp
  have stop: "t \<noteq> 0 \<and> t \<notin> gen_tag ` gen_fields \<and> (\<forall>s m. gen_switch rt t s m = Done True s m)" if some: "stop = Some (t, r)" for t r
    using gen_end_group group_stopD [OF assms(4) some] by blast
  have start: "after gen_fields gen_tag (concat (map (item_bytes wr gen_tag) (gen_items wr m)) @ stop_bytes stop) x (Break s x)"
    using assms(2) ser by (simp add: after_def)
  from parse_items [OF gen_switch_label gen_tag_inj stop read start fuel] show ?thesis by (simp add: gen_parse_def)
qed

theorem gen_parse_written:
  assumes "gen_fits m"
    and "rem s = gen_serialize wr m @ stop_bytes stop" and "gen_complete (rt_unknown_empty rt) m"
    and "group_stop stop"
    and "length (gen_serialize wr m) < fuel"
  shows "\<exists>s'. gen_parse fuel rt s (gen_new (rt_unknown_empty rt)) = Some (True, s', m) \<and> stopped stop s'"
proof -
  have "gen_unknown m = rt_unknown_empty rt" using assms(3) by (simp add: gen_complete_def)
  from gen_parse_from [OF assms(1,2) this assms(4,5), of "gen_new (rt_unknown_empty rt)"] show ?thesis
    by (simp add: gen_items_new [OF assms(3)])
qed

lemma gen_size_0_length: "gen_size_0 wr m = length ((if gen_has_time m then write_uint32 wr 1 (gen_time m) else []) @ (if gen_has_idfas m then write_uint32 wr 2 (gen_idfas m) else []) @ (if gen_has_iddrv m then write_bytes wr 3 (gen_iddrv m) else []) @ (if gen_has_flg m then write_uint32 wr 4 (gen_flg m) else []) @ (if gen_has_mileage m then write_uint32 wr 5 (gen_mileage m) else []) @ (if gen_has_vimp m then write_uint32 wr 6 (gen_vimp m) else []) @ (if gen_has_timp m then write_uint32 wr 7 (gen_timp m) else []) @ (if gen_has_uboard m then write_uint32 wr 8 (gen_uboard m) else []))"
proof (cases "group_guard (gen_has_bits m) 0")
  case True
  then show ?thesis
    by (simp add: gen_size_0_def write_uint32_def write_sint32_def write_bytes_def value_size tag_size make_tag_def)
next
  case False
  then show ?thesis by (simp add: gen_size_0_def has_bit_simps group_guard_off)
qed

lemma gen_size_8_length: "gen_size_8 wr m = length ((if gen_has_batlife m then write_uint32 wr 9 (gen_batlife m) else []) @ (if gen_has_sumacc m then write_sint32 wr 10 (gen_sumacc m) else []) @ (if gen_has_phone m then write_bytes wr 11 (gen_phone m) else []) @ (if gen_has_amtrx m then write_sint32 wr 12 (gen_amtrx m) else []) @ (if gen_has_amtry m then write_sint32 wr 13 (gen_amtry m) else []) @ (if gen_has_amtrz m then write_sint32 wr 14 (gen_amtrz m) else []))"
proof (cases "group_guard (gen_has_bits m) 8")
  case True
  then show ?thesis
    by (simp add: gen_size_8_def write_uint32_def write_sint32_def write_bytes_def value_size tag_size make_tag_def)
next
  case False
  then show ?thesis by (simp add: gen_size_8_def has_bit_simps group_guard_off)
qed

theorem gen_byte_size_length: "gen_byte_size wr m = length (gen_serialize wr m)"
  by (simp add: gen_byte_size_def gen_serialize_def gen_size_0_length gen_size_8_length value_size(4))

end

end
