(* ===== verification/Pb_Photo.thy ===== *)
theory Pb_Photo
  imports Pb_Wire
begin

text \<open>
  The generated class \<^verbatim>\<open>RecReg_Photo\<close>: its fields and has-bits, the accessors of
  \<^verbatim>\<open>message.pb.h\<close>, and \<^verbatim>\<open>SharedCtor\<close>, \<^verbatim>\<open>Clear\<close>, \<^verbatim>\<open>MergeFrom\<close>, \<^verbatim>\<open>IsInitialized\<close> and
  \<^verbatim>\<open>MergePartialFromCodedStream\<close> of \<^verbatim>\<open>message.pb.cc\<close>, with the serialiser and
  the byte size, and the round trip between parser and serialiser. Signed fields hold their two's
  complement. The abstraction \<open>pho_abs\<close> reads the message as a map from field numbers to the
  values that are set; merging is then the override of maps.
\<close>

section \<open>Fields and accessors\<close>

record 'u photo =
  pho_has_bits :: u32
  pho_unknown :: 'u
  pho_posblk :: u32
  pho_szphoto :: u32
  pho_size :: u32
  pho_buf :: string
  pho_idph :: u32
  pho_imgstat :: u32

definition pho_has_posblk :: "'u photo \<Rightarrow> bool" where
  "pho_has_posblk m \<longleftrightarrow> pho_has_bits m AND 0x00000001 \<noteq> 0"

definition pho_set_has_posblk :: "'u photo \<Rightarrow> 'u photo" where
  "pho_set_has_posblk m = m\<lparr>pho_has_bits := pho_has_bits m OR 0x00000001\<rparr>"

definition pho_set_posblk :: "u32 \<Rightarrow> 'u photo \<Rightarrow> 'u photo" where
  "pho_set_posblk v m = (pho_set_has_posblk m)\<lparr>pho_posblk := v\<rparr>"

definition pho_has_szphoto :: "'u photo \<Rightarrow> bool" where
  "pho_has_szphoto m \<longleftrightarrow> pho_has_bits m AND 0x00000002 \<noteq> 0"

definition pho_set_has_szphoto :: "'u photo \<Rightarrow> 'u photo" where
  "pho_set_has_szphoto m = m\<lparr>pho_has_bits := pho_has_bits m OR 0x00000002\<rparr>"

definition pho_set_szphoto :: "u32 \<Rightarrow> 'u photo \<Rightarrow> 'u photo" where
  "pho_set_szphoto v m = (pho_set_has_szphoto m)\<lparr>pho_szphoto := v\<rparr>"

definition pho_has_size :: "'u photo \<Rightarrow> bool" where
  "pho_has_size m \<longleftrightarrow> pho_has_bits m AND 0x00000004 \<noteq> 0"

definition pho_set_has_size :: "'u photo \<Rightarrow> 'u photo" where
  "pho_set_has_size m = m\<lparr>pho_has_bits := pho_has_bits m OR 0x00000004\<rparr>"

definition pho_set_size :: "u32 \<Rightarrow> 'u photo \<Rightarrow> 'u photo" where
  "pho_set_size v m = (pho_set_has_size m)\<lparr>pho_size := v\<rparr>"

definition pho_has_buf :: "'u photo \<Rightarrow> bool" where
  "pho_has_buf m \<longleftrightarrow> pho_has_bits m AND 0x00000008 \<noteq> 0"

definition pho_set_has_buf :: "'u photo \<Rightarrow> 'u photo" where
  "pho_set_has_buf m = m\<lparr>pho_has_bits := pho_has_bits m OR 0x00000008\<rparr>"

definition pho_set_buf :: "string \<Rightarrow> 'u photo \<Rightarrow> 'u photo" where
  "pho_set_buf v m = (pho_set_has_buf m)\<lparr>pho_buf := v\<rparr>"

definition pho_has_idph :: "'u photo \<Rightarrow> bool" where
  "pho_has_idph m \<longleftrightarrow> pho_has_bits m AND 0x00000010 \<noteq> 0"

definition pho_set_has_idph :: "'u photo \<Rightarrow> 'u photo" where
  "pho_set_has_idph m = m\<lparr>pho_has_bits := pho_has_bits m OR 0x00000010\<rparr>"

definition pho_set_idph :: "u32 \<Rightarrow> 'u photo \<Rightarrow> 'u photo" where
  "pho_set_idph v m = (pho_set_has_idph m)\<lparr>pho_idph := v\<rparr>"

definition pho_has_imgstat :: "'u photo \<Rightarrow> bool" where
  "pho_has_imgstat m \<longleftrightarrow> pho_has_bits m AND 0x00000020 \<noteq> 0"

definition pho_set_has_imgstat :: "'u photo \<Rightarrow> 'u photo" where
  "pho_set_has_imgstat m = m\<lparr>pho_has_bits := pho_has_bits m OR 0x00000020\<rparr>"

definition pho_set_imgstat :: "u32 \<Rightarrow> 'u photo \<Rightarrow> 'u photo" where
  "pho_set_imgstat v m = (pho_set_has_imgstat m)\<lparr>pho_imgstat := v\<rparr>"

lemma pho_has_bit [has_bit_simps]:
  "pho_has_posblk m \<longleftrightarrow> bit (pho_has_bits m) 0"
  "pho_has_szphoto m \<longleftrightarrow> bit (pho_has_bits m) 1"
  "pho_has_size m \<longleftrightarrow> bit (pho_has_bits m) 2"
  "pho_has_buf m \<longleftrightarrow> bit (pho_has_bits m) 3"
  "pho_has_idph m \<longleftrightarrow> bit (pho_has_bits m) 4"
  "pho_has_imgstat m \<longleftrightarrow> bit (pho_has_bits m) 5"
  using and_one_bit [of "pho_has_bits m" 0]
    and_one_bit [of "pho_has_bits m" 1]
    and_one_bit [of "pho_has_bits m" 2]
    and_one_bit [of "pho_has_bits m" 3]
    and_one_bit [of "pho_has_bits m" 4]
    and_one_bit [of "pho_has_bits m" 5]
  by (simp_all add: pho_has_posblk_def pho_has_szphoto_def pho_has_size_def pho_has_buf_def pho_has_idph_def pho_has_imgstat_def)

lemmas pho_set_defs =
  pho_set_has_posblk_def pho_set_posblk_def
  pho_set_has_szphoto_def pho_set_szphoto_def
  pho_set_has_size_def pho_set_size_def
  pho_set_has_buf_def pho_set_buf_def
  pho_set_has_idph_def pho_set_idph_def
  pho_set_has_imgstat_def pho_set_imgstat_def

lemma pho_or_bit [has_bit_simps]:
  "bit ((w :: u32) OR 0x00000001) n \<longleftrightarrow> bit w n \<or> n = 0"
  "bit ((w :: u32) OR 0x00000002) n \<longleftrightarrow> bit w n \<or> n = 1"
  "bit ((w :: u32) OR 0x00000004) n \<longleftrightarrow> bit w n \<or> n = 2"
  "bit ((w :: u32) OR 0x00000008) n \<longleftrightarrow> bit w n \<or> n = 3"
  "bit ((w :: u32) OR 0x00000010) n \<longleftrightarrow> bit w n \<or> n = 4"
  "bit ((w :: u32) OR 0x00000020) n \<longleftrightarrow> bit w n \<or> n = 5"
  using or_one_bit [of 0 w n]
    or_one_bit [of 1 w n]
    or_one_bit [of 2 w n]
    or_one_bit [of 3 w n]
    or_one_bit [of 4 w n]
    or_one_bit [of 5 w n]
  by simp_all

section \<open>Construction and \<open>Clear\<close>\<close>

definition pho_new :: "'u \<Rightarrow> 'u photo" where
  "pho_new u = \<lparr>pho_has_bits = 0, pho_unknown = u,
     pho_posblk = 0, pho_szphoto = 0, pho_size = 0, pho_buf = [],
     pho_idph = 0, pho_imgstat = 0\<rparr>"

definition pho_clear_0 :: "'u photo \<Rightarrow> 'u photo" where
  "pho_clear_0 m =
     (if group_guard (pho_has_bits m) 0
      then m\<lparr>pho_posblk := 0, pho_szphoto := 0, pho_size := 0,
        pho_buf := (if pho_has_buf m then [] else pho_buf m), pho_idph := 0, pho_imgstat := 0\<rparr>
      else m)"

definition pho_clear :: "('s, 'u) runtime \<Rightarrow> 'u photo \<Rightarrow> 'u photo" where
  "pho_clear rt m = (pho_clear_0 m)\<lparr>pho_has_bits := 0, pho_unknown := rt_unknown_empty rt\<rparr>"

text \<open>A field that is not set holds its default: \<^verbatim>\<open>Clear\<close> relies on it when it skips a group.\<close>

definition pho_wf :: "'u photo \<Rightarrow> bool" where
  "pho_wf m \<longleftrightarrow>
     (\<not> pho_has_posblk m \<longrightarrow> pho_posblk m = 0) \<and>
     (\<not> pho_has_szphoto m \<longrightarrow> pho_szphoto m = 0) \<and>
     (\<not> pho_has_size m \<longrightarrow> pho_size m = 0) \<and>
     (\<not> pho_has_buf m \<longrightarrow> pho_buf m = []) \<and>
     (\<not> pho_has_idph m \<longrightarrow> pho_idph m = 0) \<and>
     (\<not> pho_has_imgstat m \<longrightarrow> pho_imgstat m = 0)"

lemma pho_wf_new [simp]: "pho_wf (pho_new u)"
  by (simp add: pho_wf_def pho_new_def)

lemma pho_clear_0_wf:
  assumes "pho_wf m"
  shows "pho_clear_0 m = m\<lparr>pho_posblk := 0, pho_szphoto := 0, pho_size := 0, pho_buf := [], pho_idph := 0, pho_imgstat := 0\<rparr>"
proof (cases "group_guard (pho_has_bits m) 0")
  case True
  with assms show ?thesis by (simp add: pho_clear_0_def pho_wf_def)
next
  case False
  with assms show ?thesis
    by (cases m) (simp add: pho_clear_0_def pho_wf_def has_bit_simps group_guard_off)
qed

lemma pho_clear_fresh:
  assumes "pho_wf m"
  shows "pho_clear rt m = pho_new (rt_unknown_empty rt)"
  using assms by (cases m) (simp add: pho_clear_def pho_clear_0_wf pho_new_def)

section \<open>The message as a map\<close>

definition pho_abs :: "'u photo \<Rightarrow> (nat \<rightharpoonup> pval)" where
  "pho_abs m k =
     (if k = 1 then when_has (pho_has_posblk m) (PU (pho_posblk m))
      else if k = 2 then when_has (pho_has_szphoto m) (PU (pho_szphoto m))
      else if k = 3 then when_has (pho_has_size m) (PU (pho_size m))
      else if k = 4 then when_has (pho_has_buf m) (PB (pho_buf m))
      else if k = 5 then when_has (pho_has_idph m) (PU (pho_idph m))
      else if k = 6 then when_has (pho_has_imgstat m) (PU (pho_imgstat m))
      else None)"

lemma pho_abs_new: "pho_abs (pho_new u) = Map.empty"
  by (rule ext) (simp add: pho_abs_def pho_new_def has_bit_simps)

lemma pho_abs_set:
  "pho_abs (pho_set_posblk v m) = (pho_abs m)(1 \<mapsto> PU v)"
  "pho_abs (pho_set_szphoto v m) = (pho_abs m)(2 \<mapsto> PU v)"
  "pho_abs (pho_set_size v m) = (pho_abs m)(3 \<mapsto> PU v)"
  "pho_abs (pho_set_buf s m) = (pho_abs m)(4 \<mapsto> PB s)"
  "pho_abs (pho_set_idph v m) = (pho_abs m)(5 \<mapsto> PU v)"
  "pho_abs (pho_set_imgstat v m) = (pho_abs m)(6 \<mapsto> PU v)"
  by (rule ext, simp add: pho_abs_def pho_set_defs has_bit_simps)+

lemma pho_dom_abs: "dom (pho_abs m) \<subseteq> set [1, 2, 3, 4, 5, 6]"
  by (auto simp: pho_abs_def split: if_splits)

section \<open>\<open>MergeFrom\<close>\<close>

lemma pho_abs_merge_field:
  "pho_abs (merge_field pho_has_posblk pho_posblk pho_set_posblk from m) = put_opt 1 (pho_abs from 1) (pho_abs m)"
  "pho_abs (merge_field pho_has_szphoto pho_szphoto pho_set_szphoto from m) = put_opt 2 (pho_abs from 2) (pho_abs m)"
  "pho_abs (merge_field pho_has_size pho_size pho_set_size from m) = put_opt 3 (pho_abs from 3) (pho_abs m)"
  "pho_abs (merge_field pho_has_buf pho_buf pho_set_buf from m) = put_opt 4 (pho_abs from 4) (pho_abs m)"
  "pho_abs (merge_field pho_has_idph pho_idph pho_set_idph from m) = put_opt 5 (pho_abs from 5) (pho_abs m)"
  "pho_abs (merge_field pho_has_imgstat pho_imgstat pho_set_imgstat from m) = put_opt 6 (pho_abs from 6) (pho_abs m)"
  by (simp_all add: merge_field_def put_opt_def pho_abs_set) (simp_all add: pho_abs_def)

definition pho_merge_0 :: "'u photo \<Rightarrow> 'u photo \<Rightarrow> 'u photo" where
  "pho_merge_0 from m =
     (if group_guard (pho_has_bits from) 0 then
        let m = merge_field pho_has_posblk pho_posblk pho_set_posblk from m;
            m = merge_field pho_has_szphoto pho_szphoto pho_set_szphoto from m;
            m = merge_field pho_has_size pho_size pho_set_size from m;
            m = merge_field pho_has_buf pho_buf pho_set_buf from m;
            m = merge_field pho_has_idph pho_idph pho_set_idph from m;
            m = merge_field pho_has_imgstat pho_imgstat pho_set_imgstat from m
        in m
      else m)"

lemma pho_abs_merge_0:
  "pho_abs (pho_merge_0 from m) = foldl (\<lambda>M k. put_opt k (pho_abs from k) M) (pho_abs m) [1, 2, 3, 4, 5, 6]"
proof (cases "group_guard (pho_has_bits from) 0")
  case True
  then show ?thesis by (simp add: pho_merge_0_def Let_def pho_abs_merge_field)
next
  case False
  then have "k \<in> set [1, 2, 3, 4, 5, 6] \<Longrightarrow> pho_abs from k = None" for k
    by (auto simp: pho_abs_def has_bit_simps group_guard_off)
  then show ?thesis using False by (simp only: put_opt_fold_none pho_merge_0_def if_False)
qed

definition pho_merge_from :: "('s, 'u) runtime \<Rightarrow> 'u photo \<Rightarrow> 'u photo \<Rightarrow> 'u photo" where
  "pho_merge_from rt from m =
     (let m = pho_merge_0 from m
      in m\<lparr>pho_unknown := rt_unknown_merge rt (pho_unknown m) (pho_unknown from)\<rparr>)"

lemma pho_abs_unknown [simp]: "pho_abs (m\<lparr>pho_unknown := u\<rparr>) = pho_abs m"
  by (rule ext) (simp add: pho_abs_def has_bit_simps)

lemma pho_merge_from_abs: "pho_abs (pho_merge_from rt from m) = pho_abs m ++ pho_abs from"
proof -
  have "pho_abs (pho_merge_from rt from m) =
      foldl (\<lambda>M k. put_opt k (pho_abs from k) M) (pho_abs m) ([1, 2, 3, 4, 5, 6])"
    by (simp only: pho_merge_from_def Let_def pho_abs_unknown foldl_append pho_abs_merge_0)
  also have "\<dots> = pho_abs m ++ pho_abs from"
    unfolding put_opt_fold using pho_dom_abs [of "from"] by (subst restrict_dom) auto
  finally show ?thesis .
qed

definition pho_is_initialized :: "'u photo \<Rightarrow> bool" where
  "pho_is_initialized m \<longleftrightarrow> True"

section \<open>\<open>MergePartialFromCodedStream\<close>\<close>

text \<open>The body behind each label; the argument is the number of the field.\<close>

definition pho_label :: "('s, 'u) runtime \<Rightarrow> nat \<Rightarrow> 's \<Rightarrow> 'u photo \<Rightarrow> ('s, 'u photo) flow" where
  "pho_label rt k s m =
     (if k = 1 then
        then_expect rt 16 2 (read_scalar (rt_read_uint32 rt) pho_posblk (\<lambda>v. pho_posblk_update (\<lambda>_. v)) pho_set_has_posblk s m)
      else if k = 2 then
        then_expect rt 24 3 (read_scalar (rt_read_uint32 rt) pho_szphoto (\<lambda>v. pho_szphoto_update (\<lambda>_. v)) pho_set_has_szphoto s m)
      else if k = 3 then
        then_expect rt 34 4 (read_scalar (rt_read_uint32 rt) pho_size (\<lambda>v. pho_size_update (\<lambda>_. v)) pho_set_has_size s m)
      else if k = 4 then
        then_expect rt 40 5 (read_mutable (rt_read_bytes rt) pho_buf (\<lambda>v. pho_buf_update (\<lambda>_. v)) pho_set_has_buf s m)
      else if k = 5 then
        then_expect rt 48 6 (read_scalar (rt_read_uint32 rt) pho_idph (\<lambda>v. pho_idph_update (\<lambda>_. v)) pho_set_has_idph s m)
      else if k = 6 then
        then_end rt (read_scalar (rt_read_uint32 rt) pho_imgstat (\<lambda>v. pho_imgstat_update (\<lambda>_. v)) pho_set_has_imgstat s m)
      else Out_of_fuel)"

definition pho_switch :: "('s, 'u) runtime \<Rightarrow> u32 \<Rightarrow> 's \<Rightarrow> 'u photo \<Rightarrow> ('s, 'u photo) flow" where
  "pho_switch rt tag s m =
     (let k = rt_tag_field rt tag; w = rt_tag_wire rt tag in
      if k = 1 \<and> w = WIRETYPE_VARINT then pho_label rt 1 s m
      else if k = 2 \<and> w = WIRETYPE_VARINT then pho_label rt 2 s m
      else if k = 3 \<and> w = WIRETYPE_VARINT then pho_label rt 3 s m
      else if k = 4 \<and> w = WIRETYPE_LENGTH_DELIMITED then pho_label rt 4 s m
      else if k = 5 \<and> w = WIRETYPE_VARINT then pho_label rt 5 s m
      else if k = 6 \<and> w = WIRETYPE_VARINT then pho_label rt 6 s m
      else handle_uninterpreted rt pho_unknown (\<lambda>u. pho_unknown_update (\<lambda>_. u)) tag s m)"

definition pho_parse :: "nat \<Rightarrow> ('s, 'u) runtime \<Rightarrow> 's \<Rightarrow> 'u photo \<Rightarrow> (bool \<times> 's \<times> 'u photo) option" where
  "pho_parse fuel rt s m = parse_loop fuel (rt_read_tag rt) (pho_switch rt) (pho_label rt) (Break s m)"

section \<open>Serialisation\<close>

text \<open>\<^verbatim>\<open>SerializeWithCachedSizes\<close>, after \<^verbatim>\<open>ByteSize\<close> has cached the sizes; \<^verbatim>\<open>Swap\<close>; \<^verbatim>\<open>CopyFrom\<close> another object.\<close>

definition pho_serialize :: "'u writer \<Rightarrow> 'u photo \<Rightarrow> byte list" where
  "pho_serialize wr m =
     (if pho_has_posblk m then write_uint32 wr 1 (pho_posblk m) else []) @
     (if pho_has_szphoto m then write_uint32 wr 2 (pho_szphoto m) else []) @
     (if pho_has_size m then write_uint32 wr 3 (pho_size m) else []) @
     (if pho_has_buf m then write_bytes wr 4 (pho_buf m) else []) @
     (if pho_has_idph m then write_uint32 wr 5 (pho_idph m) else []) @
     (if pho_has_imgstat m then write_uint32 wr 6 (pho_imgstat m) else []) @
     wr_unknown wr (pho_unknown m)"

definition pho_size_0 :: "'u writer \<Rightarrow> 'u photo \<Rightarrow> nat" where
  "pho_size_0 wr m =
     (if group_guard (pho_has_bits m) 0
      then (if pho_has_posblk m then 1 + sz_uint32 wr (pho_posblk m) else 0)
         + (if pho_has_szphoto m then 1 + sz_uint32 wr (pho_szphoto m) else 0)
         + (if pho_has_size m then 1 + sz_uint32 wr (pho_size m) else 0)
         + (if pho_has_buf m then 1 + sz_bytes wr (pho_buf m) else 0)
         + (if pho_has_idph m then 1 + sz_uint32 wr (pho_idph m) else 0)
         + (if pho_has_imgstat m then 1 + sz_uint32 wr (pho_imgstat m) else 0)
      else 0)"

definition pho_byte_size :: "'u writer \<Rightarrow> 'u photo \<Rightarrow> nat" where
  "pho_byte_size wr m = pho_size_0 wr m + sz_unknown wr (pho_unknown m)"

definition pho_swap :: "'u photo \<Rightarrow> 'u photo \<Rightarrow> 'u photo \<times> 'u photo" where
  "pho_swap m other =
     (m\<lparr>pho_posblk := pho_posblk other, pho_szphoto := pho_szphoto other, pho_size := pho_size other, 
       pho_buf := pho_buf other, pho_idph := pho_idph other, pho_imgstat := pho_imgstat other, 
       pho_has_bits := pho_has_bits other, pho_unknown := pho_unknown other\<rparr>,
      other\<lparr>pho_posblk := pho_posblk m, pho_szphoto := pho_szphoto m, pho_size := pho_size m, 
       pho_buf := pho_buf m, pho_idph := pho_idph m, pho_imgstat := pho_imgstat m, 
       pho_has_bits := pho_has_bits m, pho_unknown := pho_unknown m\<rparr>)"

lemma pho_swap_exchanges: "pho_swap m other = (other, m)"
  by (simp add: pho_swap_def)

definition pho_copy_from :: "('s, 'u) runtime \<Rightarrow> 'u photo \<Rightarrow> 'u photo \<Rightarrow> 'u photo" where
  "pho_copy_from rt from m = pho_merge_from rt from (pho_clear rt m)"

lemma pho_copy_from_abs: "pho_wf m \<Longrightarrow> pho_abs (pho_copy_from rt from m) = pho_abs from"
  by (simp add: pho_copy_from_def pho_merge_from_abs pho_clear_fresh pho_abs_new)

section \<open>The shape of a message\<close>

definition pho_tag :: "nat \<Rightarrow> u32" where
  "pho_tag k = make_tag k (if k \<in> {4} then WIRETYPE_LENGTH_DELIMITED else WIRETYPE_VARINT)"

definition pho_fields :: "nat set" where
  "pho_fields = {1, 2, 3, 4, 5, 6}"

text \<open>Nothing but the known fields: only their has-bits, defaults where a field is not set, no unknown field.\<close>

definition pho_bits :: "nat list" where
  "pho_bits = [0, 1, 2, 3, 4, 5]"

definition pho_complete :: "'u \<Rightarrow> 'u photo \<Rightarrow> bool" where
  "pho_complete u m \<longleftrightarrow> pho_wf m \<and> bits_within (pho_has_bits m) pho_bits \<and> pho_unknown m = u"

lemma pho_complete_new: "pho_complete u (pho_new u)"
  by (simp add: pho_complete_def) (simp add: pho_new_def)

lemma pho_wf_set:
  assumes "pho_wf m"
  shows "pho_wf (pho_set_posblk v m)"
    "pho_wf (pho_set_szphoto v m)"
    "pho_wf (pho_set_size v m)"
    "pho_wf (pho_set_buf b m)"
    "pho_wf (pho_set_idph v m)"
    "pho_wf (pho_set_imgstat v m)"
  using assms by (simp_all add: pho_wf_def pho_set_defs has_bit_simps)

lemma pho_bits_set:
  assumes "bits_within w pho_bits"
  shows "bits_within (w OR 0x00000001) pho_bits"
    "bits_within (w OR 0x00000002) pho_bits"
    "bits_within (w OR 0x00000004) pho_bits"
    "bits_within (w OR 0x00000008) pho_bits"
    "bits_within (w OR 0x00000010) pho_bits"
    "bits_within (w OR 0x00000020) pho_bits"
  by (rule bits_within_insert [OF assms], rule pho_or_bit, simp add: pho_bits_def)+

lemma pho_complete_set:
  assumes "pho_complete u m"
  shows "pho_complete u (pho_set_posblk v m)"
    "pho_complete u (pho_set_szphoto v m)"
    "pho_complete u (pho_set_size v m)"
    "pho_complete u (pho_set_buf b m)"
    "pho_complete u (pho_set_idph v m)"
    "pho_complete u (pho_set_imgstat v m)"
  using assms by (simp_all add: pho_complete_def pho_wf_set) (simp_all add: pho_set_defs pho_bits_set)

lemma pho_abs_at:
  "pho_abs m 1 = when_has (pho_has_posblk m) (PU (pho_posblk m))"
  "pho_abs m 2 = when_has (pho_has_szphoto m) (PU (pho_szphoto m))"
  "pho_abs m 3 = when_has (pho_has_size m) (PU (pho_size m))"
  "pho_abs m 4 = when_has (pho_has_buf m) (PB (pho_buf m))"
  "pho_abs m 5 = when_has (pho_has_idph m) (PU (pho_idph m))"
  "pho_abs m 6 = when_has (pho_has_imgstat m) (PU (pho_imgstat m))"
  by (simp_all add: pho_abs_def)

lemma pho_eqI:
  assumes "pho_complete u m" and "pho_complete u m'" and "pho_abs m = pho_abs m'"
  shows "m = m'"
proof -
  have posblk: "pho_has_posblk m = pho_has_posblk m' \<and> pho_posblk m = pho_posblk m'"
    using assms(1,2) fun_cong [OF assms(3), of 1, unfolded pho_abs_at]
    by (intro field_eq(1)) (simp_all add: pho_complete_def pho_wf_def)
  have szphoto: "pho_has_szphoto m = pho_has_szphoto m' \<and> pho_szphoto m = pho_szphoto m'"
    using assms(1,2) fun_cong [OF assms(3), of 2, unfolded pho_abs_at]
    by (intro field_eq(1)) (simp_all add: pho_complete_def pho_wf_def)
  have size: "pho_has_size m = pho_has_size m' \<and> pho_size m = pho_size m'"
    using assms(1,2) fun_cong [OF assms(3), of 3, unfolded pho_abs_at]
    by (intro field_eq(1)) (simp_all add: pho_complete_def pho_wf_def)
  have buf: "pho_has_buf m = pho_has_buf m' \<and> pho_buf m = pho_buf m'"
    using assms(1,2) fun_cong [OF assms(3), of 4, unfolded pho_abs_at]
    by (intro field_eq(2)) (simp_all add: pho_complete_def pho_wf_def)
  have idph: "pho_has_idph m = pho_has_idph m' \<and> pho_idph m = pho_idph m'"
    using assms(1,2) fun_cong [OF assms(3), of 5, unfolded pho_abs_at]
    by (intro field_eq(1)) (simp_all add: pho_complete_def pho_wf_def)
  have imgstat: "pho_has_imgstat m = pho_has_imgstat m' \<and> pho_imgstat m = pho_imgstat m'"
    using assms(1,2) fun_cong [OF assms(3), of 6, unfolded pho_abs_at]
    by (intro field_eq(1)) (simp_all add: pho_complete_def pho_wf_def)
  have "pho_has_bits m = pho_has_bits m'"
  proof (rule bits_within_eqI)
    show "bits_within (pho_has_bits m) pho_bits" "bits_within (pho_has_bits m') pho_bits"
      using assms(1,2) by (simp_all add: pho_complete_def)
    show "\<forall>n \<in> set pho_bits. bit (pho_has_bits m) n = bit (pho_has_bits m') n"
      using posblk szphoto size buf idph imgstat
      by (simp add: pho_has_bit pho_bits_def)
  qed
  with assms show ?thesis
    using posblk szphoto size buf idph imgstat
    by (intro photo.equality) (simp_all add: pho_complete_def)
qed

definition pho_items :: "'u writer \<Rightarrow> 'u photo \<Rightarrow> (nat \<times> byte list \<times> ('u photo \<Rightarrow> 'u photo)) list" where
  "pho_items wr m =
     item (pho_has_posblk m) 1 (wr_uint32 wr (pho_posblk m)) (pho_set_posblk (pho_posblk m)) @
     item (pho_has_szphoto m) 2 (wr_uint32 wr (pho_szphoto m)) (pho_set_szphoto (pho_szphoto m)) @
     item (pho_has_size m) 3 (wr_uint32 wr (pho_size m)) (pho_set_size (pho_size m)) @
     item (pho_has_buf m) 4 (wr_bytes wr (pho_buf m)) (pho_set_buf (pho_buf m)) @
     item (pho_has_idph m) 5 (wr_uint32 wr (pho_idph m)) (pho_set_idph (pho_idph m)) @
     item (pho_has_imgstat m) 6 (wr_uint32 wr (pho_imgstat m)) (pho_set_imgstat (pho_imgstat m))"

lemma pho_abs_upd_if:
  "pho_abs (upd_if (pho_has_posblk m) (pho_set_posblk (pho_posblk m)) x) = put_opt 1 (pho_abs m 1) (pho_abs x)"
  "pho_abs (upd_if (pho_has_szphoto m) (pho_set_szphoto (pho_szphoto m)) x) = put_opt 2 (pho_abs m 2) (pho_abs x)"
  "pho_abs (upd_if (pho_has_size m) (pho_set_size (pho_size m)) x) = put_opt 3 (pho_abs m 3) (pho_abs x)"
  "pho_abs (upd_if (pho_has_buf m) (pho_set_buf (pho_buf m)) x) = put_opt 4 (pho_abs m 4) (pho_abs x)"
  "pho_abs (upd_if (pho_has_idph m) (pho_set_idph (pho_idph m)) x) = put_opt 5 (pho_abs m 5) (pho_abs x)"
  "pho_abs (upd_if (pho_has_imgstat m) (pho_set_imgstat (pho_imgstat m)) x) = put_opt 6 (pho_abs m 6) (pho_abs x)"
  by (simp_all add: upd_if_def put_opt_def pho_abs_set pho_abs_at del: One_nat_def)

lemma pho_items_abs: "pho_abs (fold item_upd (pho_items wr m) x) = pho_abs x ++ pho_abs m"
proof -
  have "pho_abs (fold item_upd (pho_items wr m) x) = foldl (\<lambda>M k. put_opt k (pho_abs m k) M) (pho_abs x) [1, 2, 3, 4, 5, 6]"
    by (simp only: pho_items_def fold_append o_apply fold_item pho_abs_upd_if foldl.simps)
  also have "\<dots> = pho_abs x ++ pho_abs m"
    unfolding put_opt_fold using pho_dom_abs [of m] by (subst restrict_dom) auto
  finally show ?thesis .
qed

lemma pho_items_complete: "pho_complete u x \<Longrightarrow> pho_complete u (fold item_upd (pho_items wr m) x)"
  by (rule fold_items_keep)
    (auto simp: pho_items_def ball_Un ball_item item_upd_def intro: pho_complete_set)

lemma pho_items_new:
  assumes "pho_complete u m"
  shows "fold item_upd (pho_items wr m) (pho_new u) = m"
proof (rule pho_eqI)
  show "pho_complete u (fold item_upd (pho_items wr m) (pho_new u))"
    by (rule pho_items_complete [OF pho_complete_new])
  show "pho_abs (fold item_upd (pho_items wr m) (pho_new u)) = pho_abs m"
    by (simp add: pho_items_abs pho_abs_new)
qed (rule assms)

text \<open>What is read must fit the parser: a length is a signed 32-bit number.\<close>

definition pho_fits :: "'u photo \<Rightarrow> bool" where
  "pho_fits m \<longleftrightarrow> length (pho_buf m) < 2 ^ 31"

section \<open>The parser on the wire\<close>

lemma pho_fields_range: "k \<in> pho_fields \<Longrightarrow> 0 < k \<and> k < 2 ^ 29"
  unfolding pho_fields_def by (elim insertE emptyE) (simp_all del: One_nat_def)

lemma pho_tag_field: "k \<in> pho_fields \<Longrightarrow> tag_field (pho_tag k) = k"
  using pho_fields_range by (simp add: pho_tag_def tag_field_make)

lemma pho_tag_inj: "inj_on pho_tag pho_fields"
  by (rule inj_on_inverseI [where g = tag_field]) (rule pho_tag_field)

context input_stream
begin

lemma pho_label_within: "k \<in> pho_fields \<Longrightarrow> flow_within pho_fields (remaining s) (pho_label rt k s m)"
  unfolding pho_label_def
  by (subst (asm) pho_fields_def)
    ((erule flow_within_chain, intro within_intros, erule size_dests, (simp add: pho_fields_def; fail)?)+; simp)

lemma pho_switch_within: "flow_within pho_fields (remaining s) (pho_switch rt tag s m)"
  unfolding pho_switch_def Let_def
  by (intro flow_within_if pho_label_within handle_uninterpreted_within) (simp_all add: pho_fields_def)

lemma pho_parse_returns:
  "remaining s < fuel \<Longrightarrow> \<exists>ok s' m'. pho_parse fuel rt s m = Some (ok, s', m') \<and> remaining s' \<le> remaining s"
  unfolding pho_parse_def
  by (rule parse_loop_returns [OF pho_switch_within pho_label_within]) (simp_all add: flow_within_def)

end

context wire_format
begin

lemma pho_switch_label:
  assumes "k \<in> pho_fields"
  shows "pho_tag k \<noteq> 0 \<and> pho_switch rt (pho_tag k) s m = pho_label rt k s m"
proof
  show "pho_tag k \<noteq> 0" using pho_fields_range [OF assms] by (simp add: pho_tag_def make_tag_nonzero)
  have "rt_tag_field rt (pho_tag k) = k" "rt_tag_wire rt (pho_tag k) = (if k \<in> {4} then WIRETYPE_LENGTH_DELIMITED else WIRETYPE_VARINT)"
    using pho_fields_range [OF assms] by (simp_all add: pho_tag_def tag_field tag_wire tag_field_make tag_wire_make)
  then show "pho_switch rt (pho_tag k) s m = pho_label rt k s m"
    using assms unfolding pho_switch_def pho_fields_def by (elim insertE emptyE) (simp_all add: Let_def del: One_nat_def)
qed

lemma pho_end_group:
  assumes "tag_wire t = WIRETYPE_END_GROUP"
  shows "t \<noteq> 0 \<and> t \<notin> pho_tag ` pho_fields \<and> pho_switch rt t s m = Done True s m"
proof (intro conjI)
  show "t \<noteq> 0" using assms by (auto simp: tag_wire_def)
  show "t \<notin> pho_tag ` pho_fields"
    using assms pho_fields_range by (auto simp: pho_tag_def tag_wire_make split: if_splits)
  show "pho_switch rt t s m = Done True s m"
    using assms by (simp add: pho_switch_def Let_def tag_wire end_group_ends)
qed

lemma pho_reads_posblk:
  "reads pho_fields pho_tag (pho_label rt 1) (wr_uint32 wr v) (pho_set_posblk v)"
  by (simp add: pho_label_def [abs_def] del: One_nat_def)
    (rule reads_expect [OF takes_uint32], simp add: pho_set_defs, simp_all add: pho_fields_def pho_tag_def make_tag_def)

lemma pho_reads_szphoto:
  "reads pho_fields pho_tag (pho_label rt 2) (wr_uint32 wr v) (pho_set_szphoto v)"
  by (simp add: pho_label_def [abs_def] del: One_nat_def)
    (rule reads_expect [OF takes_uint32], simp add: pho_set_defs, simp_all add: pho_fields_def pho_tag_def make_tag_def)

lemma pho_reads_size:
  "reads pho_fields pho_tag (pho_label rt 3) (wr_uint32 wr v) (pho_set_size v)"
  by (simp add: pho_label_def [abs_def] del: One_nat_def)
    (rule reads_expect [OF takes_uint32], simp add: pho_set_defs, simp_all add: pho_fields_def pho_tag_def make_tag_def)

lemma pho_reads_buf:
  assumes "length b < 2 ^ 31"
  shows "reads pho_fields pho_tag (pho_label rt 4) (wr_bytes wr b) (pho_set_buf b)"
  by (simp add: pho_label_def [abs_def] del: One_nat_def)
    (rule reads_expect [OF takes_bytes [OF assms]], simp add: pho_set_defs, simp_all add: pho_fields_def pho_tag_def make_tag_def)

lemma pho_reads_idph:
  "reads pho_fields pho_tag (pho_label rt 5) (wr_uint32 wr v) (pho_set_idph v)"
  by (simp add: pho_label_def [abs_def] del: One_nat_def)
    (rule reads_expect [OF takes_uint32], simp add: pho_set_defs, simp_all add: pho_fields_def pho_tag_def make_tag_def)

lemma pho_reads_imgstat:
  "reads pho_fields pho_tag (pho_label rt 6) (wr_uint32 wr v) (pho_set_imgstat v)"
  by (simp add: pho_label_def [abs_def] del: One_nat_def)
    (rule reads_end [OF takes_uint32], simp add: pho_set_defs)

lemmas pho_reads =
  pho_reads_posblk
  pho_reads_szphoto
  pho_reads_size
  pho_reads_buf
  pho_reads_idph
  pho_reads_imgstat

lemma pho_items_read:
  assumes "pho_fits m"
  shows "\<forall>(k, bs, upd) \<in> set (pho_items wr m). k \<in> pho_fields \<and> reads pho_fields pho_tag (pho_label rt k) bs upd"
  using assms unfolding pho_fits_def
  by (simp add: pho_items_def ball_Un ball_item pho_reads del: One_nat_def) (simp add: pho_fields_def)

lemma pho_serialize_items:
  "pho_unknown m = rt_unknown_empty rt \<Longrightarrow> pho_serialize wr m = concat (map (item_bytes wr pho_tag) (pho_items wr m))"
  by (simp add: pho_serialize_def pho_items_def concat_item write_uint32_def write_sint32_def write_bytes_def write_packed_def
    pho_tag_def wr_unknown_empty)

lemma pho_parse_from:
  assumes "pho_fits m"
    and "rem s = pho_serialize wr m @ stop_bytes stop" and "pho_unknown m = rt_unknown_empty rt"
    and "group_stop stop"
    and "length (pho_serialize wr m) < fuel"
  shows "\<exists>s'. pho_parse fuel rt s x = Some (True, s', fold item_upd (pho_items wr m) x) \<and> stopped stop s'"
proof -
  note read = pho_items_read [OF assms(1)]
  note ser = pho_serialize_items [OF assms(3)]
  have "pho_tag k \<noteq> 0" if "k \<in> pho_fields" for k using pho_switch_label [OF that] by blast
  from items_fewer_than_bytes [OF this read] assms(5) ser have fuel: "length (pho_items wr m) + 1 \<le> fuel" by simp
  have stop: "t \<noteq> 0 \<and> t \<notin> pho_tag ` pho_fields \<and> (\<forall>s m. pho_switch rt t s m = Done True s m)" if some: "stop = Some (t, r)" for t r
    using pho_end_group group_stopD [OF assms(4) some] by blast
  have start: "after pho_fields pho_tag (concat (map (item_bytes wr pho_tag) (pho_items wr m)) @ stop_bytes stop) x (Break s x)"
    using assms(2) ser by (simp add: after_def)
  from parse_items [OF pho_switch_label pho_tag_inj stop read start fuel] show ?thesis by (simp add: pho_parse_def)
qed

theorem pho_parse_written:
  assumes "pho_fits m"
    and "rem s = pho_serialize wr m @ stop_bytes stop" and "pho_complete (rt_unknown_empty rt) m"
    and "group_stop stop"
    and "length (pho_serialize wr m) < fuel"
  shows "\<exists>s'. pho_parse fuel rt s (pho_new (rt_unknown_empty rt)) = Some (True, s', m) \<and> stopped stop s'"
proof -
  have "pho_unknown m = rt_unknown_empty rt" using assms(3) by (simp add: pho_complete_def)
  from pho_parse_from [OF assms(1,2) this assms(4,5), of "pho_new (rt_unknown_empty rt)"] show ?thesis
    by (simp add: pho_items_new [OF assms(3)])
qed

lemma pho_size_0_length: "pho_size_0 wr m = length ((if pho_has_posblk m then write_uint32 wr 1 (pho_posblk m) else []) @ (if pho_has_szphoto m then write_uint32 wr 2 (pho_szphoto m) else []) @ (if pho_has_size m then write_uint32 wr 3 (pho_size m) else []) @ (if pho_has_buf m then write_bytes wr 4 (pho_buf m) else []) @ (if pho_has_idph m then write_uint32 wr 5 (pho_idph m) else []) @ (if pho_has_imgstat m then write_uint32 wr 6 (pho_imgstat m) else []))"
proof (cases "group_guard (pho_has_bits m) 0")
  case True
  then show ?thesis
    by (simp add: pho_size_0_def write_uint32_def write_sint32_def write_bytes_def value_size tag_size make_tag_def)
next
  case False
  then show ?thesis by (simp add: pho_size_0_def has_bit_simps group_guard_off)
qed

theorem pho_byte_size_length: "pho_byte_size wr m = length (pho_serialize wr m)"
  by (simp add: pho_byte_size_def pho_serialize_def pho_size_0_length value_size(4))

end

end
