(* ===== verification/Pb_NAV.thy ===== *)
theory Pb_NAV
  imports Pb_Wire
begin

text \<open>
  The generated class \<^verbatim>\<open>RecReg_NAV\<close>: its fields and has-bits, the accessors of
  \<^verbatim>\<open>message.pb.h\<close>, and \<^verbatim>\<open>SharedCtor\<close>, \<^verbatim>\<open>Clear\<close>, \<^verbatim>\<open>MergeFrom\<close>, \<^verbatim>\<open>IsInitialized\<close> and
  \<^verbatim>\<open>MergePartialFromCodedStream\<close> of \<^verbatim>\<open>message.pb.cc\<close>, with the serialiser and
  the byte size, and the round trip between parser and serialiser. Signed fields hold their two's
  complement. The abstraction \<open>nav_abs\<close> reads the message as a map from field numbers to the
  values that are set; merging is then the override of maps.
\<close>

section \<open>Fields and accessors\<close>

record 'u nav =
  nav_has_bits :: u32
  nav_unknown :: 'u
  nav_lat :: u32
  nav_lon :: u32
  nav_gpsvel :: u32
  nav_gpsdir :: u32
  nav_gpsnsat :: u32
  nav_gpsalt :: u32

definition nav_has_lat :: "'u nav \<Rightarrow> bool" where
  "nav_has_lat m \<longleftrightarrow> nav_has_bits m AND 0x00000001 \<noteq> 0"

definition nav_set_has_lat :: "'u nav \<Rightarrow> 'u nav" where
  "nav_set_has_lat m = m\<lparr>nav_has_bits := nav_has_bits m OR 0x00000001\<rparr>"

definition nav_set_lat :: "u32 \<Rightarrow> 'u nav \<Rightarrow> 'u nav" where
  "nav_set_lat v m = (nav_set_has_lat m)\<lparr>nav_lat := v\<rparr>"

definition nav_has_lon :: "'u nav \<Rightarrow> bool" where
  "nav_has_lon m \<longleftrightarrow> nav_has_bits m AND 0x00000002 \<noteq> 0"

definition nav_set_has_lon :: "'u nav \<Rightarrow> 'u nav" where
  "nav_set_has_lon m = m\<lparr>nav_has_bits := nav_has_bits m OR 0x00000002\<rparr>"

definition nav_set_lon :: "u32 \<Rightarrow> 'u nav \<Rightarrow> 'u nav" where
  "nav_set_lon v m = (nav_set_has_lon m)\<lparr>nav_lon := v\<rparr>"

definition nav_has_gpsvel :: "'u nav \<Rightarrow> bool" where
  "nav_has_gpsvel m \<longleftrightarrow> nav_has_bits m AND 0x00000004 \<noteq> 0"

definition nav_set_has_gpsvel :: "'u nav \<Rightarrow> 'u nav" where
  "nav_set_has_gpsvel m = m\<lparr>nav_has_bits := nav_has_bits m OR 0x00000004\<rparr>"

definition nav_set_gpsvel :: "u32 \<Rightarrow> 'u nav \<Rightarrow> 'u nav" where
  "nav_set_gpsvel v m = (nav_set_has_gpsvel m)\<lparr>nav_gpsvel := v\<rparr>"

definition nav_has_gpsdir :: "'u nav \<Rightarrow> bool" where
  "nav_has_gpsdir m \<longleftrightarrow> nav_has_bits m AND 0x00000008 \<noteq> 0"

definition nav_set_has_gpsdir :: "'u nav \<Rightarrow> 'u nav" where
  "nav_set_has_gpsdir m = m\<lparr>nav_has_bits := nav_has_bits m OR 0x00000008\<rparr>"

definition nav_set_gpsdir :: "u32 \<Rightarrow> 'u nav \<Rightarrow> 'u nav" where
  "nav_set_gpsdir v m = (nav_set_has_gpsdir m)\<lparr>nav_gpsdir := v\<rparr>"

definition nav_has_gpsnsat :: "'u nav \<Rightarrow> bool" where
  "nav_has_gpsnsat m \<longleftrightarrow> nav_has_bits m AND 0x00000010 \<noteq> 0"

definition nav_set_has_gpsnsat :: "'u nav \<Rightarrow> 'u nav" where
  "nav_set_has_gpsnsat m = m\<lparr>nav_has_bits := nav_has_bits m OR 0x00000010\<rparr>"

definition nav_set_gpsnsat :: "u32 \<Rightarrow> 'u nav \<Rightarrow> 'u nav" where
  "nav_set_gpsnsat v m = (nav_set_has_gpsnsat m)\<lparr>nav_gpsnsat := v\<rparr>"

definition nav_has_gpsalt :: "'u nav \<Rightarrow> bool" where
  "nav_has_gpsalt m \<longleftrightarrow> nav_has_bits m AND 0x00000020 \<noteq> 0"

definition nav_set_has_gpsalt :: "'u nav \<Rightarrow> 'u nav" where
  "nav_set_has_gpsalt m = m\<lparr>nav_has_bits := nav_has_bits m OR 0x00000020\<rparr>"

definition nav_set_gpsalt :: "u32 \<Rightarrow> 'u nav \<Rightarrow> 'u nav" where
  "nav_set_gpsalt v m = (nav_set_has_gpsalt m)\<lparr>nav_gpsalt := v\<rparr>"

lemma nav_has_bit [has_bit_simps]:
  "nav_has_lat m \<longleftrightarrow> bit (nav_has_bits m) 0"
  "nav_has_lon m \<longleftrightarrow> bit (nav_has_bits m) 1"
  "nav_has_gpsvel m \<longleftrightarrow> bit (nav_has_bits m) 2"
  "nav_has_gpsdir m \<longleftrightarrow> bit (nav_has_bits m) 3"
  "nav_has_gpsnsat m \<longleftrightarrow> bit (nav_has_bits m) 4"
  "nav_has_gpsalt m \<longleftrightarrow> bit (nav_has_bits m) 5"
  using and_one_bit [of "nav_has_bits m" 0]
    and_one_bit [of "nav_has_bits m" 1]
    and_one_bit [of "nav_has_bits m" 2]
    and_one_bit [of "nav_has_bits m" 3]
    and_one_bit [of "nav_has_bits m" 4]
    and_one_bit [of "nav_has_bits m" 5]
  by (simp_all add: nav_has_lat_def nav_has_lon_def nav_has_gpsvel_def nav_has_gpsdir_def nav_has_gpsnsat_def nav_has_gpsalt_def)

lemmas nav_set_defs =
  nav_set_has_lat_def nav_set_lat_def
  nav_set_has_lon_def nav_set_lon_def
  nav_set_has_gpsvel_def nav_set_gpsvel_def
  nav_set_has_gpsdir_def nav_set_gpsdir_def
  nav_set_has_gpsnsat_def nav_set_gpsnsat_def
  nav_set_has_gpsalt_def nav_set_gpsalt_def

lemma nav_or_bit [has_bit_simps]:
  "bit ((w :: u32) OR 0x00000001) n \<longleftrightarrow> bit w n \<or> n = 0"
  "bit ((w :: u32) OR 0x00000002) n \<longleftrightarrow> bit w n \<or> n = 1"
  "bit ((w :: u32) OR 0x00000004) n \<longleftrightarrow> bit w n \<or> n = 2"
  "bit ((w :: u32) OR 0x00000008) n \<longleftrightarrow> bit w n \<or> n = 3"
  "bit ((w :: u32) OR 0x00000010) n \<longleftrightarrow> bit w n \<or> n = 4"
  "bit ((w :: u32) OR 0x00000020) n \<longleftrightarrow> bit w n \<or> n = 5"
  using or_one_bit [of 0 w n]
    or_one_bit [of 1 w n]
    or_one_bit [of 2 w n]
    or_one_bit [of 3 w n]
    or_one_bit [of 4 w n]
    or_one_bit [of 5 w n]
  by simp_all

section \<open>Construction and \<open>Clear\<close>\<close>

definition nav_new :: "'u \<Rightarrow> 'u nav" where
  "nav_new u = \<lparr>nav_has_bits = 0, nav_unknown = u,
     nav_lat = 0, nav_lon = 0, nav_gpsvel = 0, nav_gpsdir = 0,
     nav_gpsnsat = 0, nav_gpsalt = 0\<rparr>"

definition nav_clear_0 :: "'u nav \<Rightarrow> 'u nav" where
  "nav_clear_0 m =
     (if group_guard (nav_has_bits m) 0
      then m\<lparr>nav_lat := 0, nav_lon := 0, nav_gpsvel := 0,
        nav_gpsdir := 0, nav_gpsnsat := 0, nav_gpsalt := 0\<rparr>
      else m)"

definition nav_clear :: "('s, 'u) runtime \<Rightarrow> 'u nav \<Rightarrow> 'u nav" where
  "nav_clear rt m = (nav_clear_0 m)\<lparr>nav_has_bits := 0, nav_unknown := rt_unknown_empty rt\<rparr>"

text \<open>A field that is not set holds its default: \<^verbatim>\<open>Clear\<close> relies on it when it skips a group.\<close>

definition nav_wf :: "'u nav \<Rightarrow> bool" where
  "nav_wf m \<longleftrightarrow>
     (\<not> nav_has_lat m \<longrightarrow> nav_lat m = 0) \<and>
     (\<not> nav_has_lon m \<longrightarrow> nav_lon m = 0) \<and>
     (\<not> nav_has_gpsvel m \<longrightarrow> nav_gpsvel m = 0) \<and>
     (\<not> nav_has_gpsdir m \<longrightarrow> nav_gpsdir m = 0) \<and>
     (\<not> nav_has_gpsnsat m \<longrightarrow> nav_gpsnsat m = 0) \<and>
     (\<not> nav_has_gpsalt m \<longrightarrow> nav_gpsalt m = 0)"

lemma nav_wf_new [simp]: "nav_wf (nav_new u)"
  by (simp add: nav_wf_def nav_new_def)

lemma nav_clear_0_wf:
  assumes "nav_wf m"
  shows "nav_clear_0 m = m\<lparr>nav_lat := 0, nav_lon := 0, nav_gpsvel := 0, nav_gpsdir := 0, nav_gpsnsat := 0, nav_gpsalt := 0\<rparr>"
proof (cases "group_guard (nav_has_bits m) 0")
  case True
  with assms show ?thesis by (simp add: nav_clear_0_def nav_wf_def)
next
  case False
  with assms show ?thesis
    by (cases m) (simp add: nav_clear_0_def nav_wf_def has_bit_simps group_guard_off)
qed

lemma nav_clear_fresh:
  assumes "nav_wf m"
  shows "nav_clear rt m = nav_new (rt_unknown_empty rt)"
  using assms by (cases m) (simp add: nav_clear_def nav_clear_0_wf nav_new_def)

section \<open>The message as a map\<close>

definition nav_abs :: "'u nav \<Rightarrow> (nat \<rightharpoonup> pval)" where
  "nav_abs m k =
     (if k = 1 then when_has (nav_has_lat m) (PU (nav_lat m))
      else if k = 2 then when_has (nav_has_lon m) (PU (nav_lon m))
      else if k = 3 then when_has (nav_has_gpsvel m) (PU (nav_gpsvel m))
      else if k = 4 then when_has (nav_has_gpsdir m) (PU (nav_gpsdir m))
      else if k = 5 then when_has (nav_has_gpsnsat m) (PU (nav_gpsnsat m))
      else if k = 6 then when_has (nav_has_gpsalt m) (PU (nav_gpsalt m))
      else None)"

lemma nav_abs_new: "nav_abs (nav_new u) = Map.empty"
  by (rule ext) (simp add: nav_abs_def nav_new_def has_bit_simps)

lemma nav_abs_set:
  "nav_abs (nav_set_lat v m) = (nav_abs m)(1 \<mapsto> PU v)"
  "nav_abs (nav_set_lon v m) = (nav_abs m)(2 \<mapsto> PU v)"
  "nav_abs (nav_set_gpsvel v m) = (nav_abs m)(3 \<mapsto> PU v)"
  "nav_abs (nav_set_gpsdir v m) = (nav_abs m)(4 \<mapsto> PU v)"
  "nav_abs (nav_set_gpsnsat v m) = (nav_abs m)(5 \<mapsto> PU v)"
  "nav_abs (nav_set_gpsalt v m) = (nav_abs m)(6 \<mapsto> PU v)"
  by (rule ext, simp add: nav_abs_def nav_set_defs has_bit_simps)+

lemma nav_dom_abs: "dom (nav_abs m) \<subseteq> set [1, 2, 3, 4, 5, 6]"
  by (auto simp: nav_abs_def split: if_splits)

section \<open>\<open>MergeFrom\<close>\<close>

lemma nav_abs_merge_field:
  "nav_abs (merge_field nav_has_lat nav_lat nav_set_lat from m) = put_opt 1 (nav_abs from 1) (nav_abs m)"
  "nav_abs (merge_field nav_has_lon nav_lon nav_set_lon from m) = put_opt 2 (nav_abs from 2) (nav_abs m)"
  "nav_abs (merge_field nav_has_gpsvel nav_gpsvel nav_set_gpsvel from m) = put_opt 3 (nav_abs from 3) (nav_abs m)"
  "nav_abs (merge_field nav_has_gpsdir nav_gpsdir nav_set_gpsdir from m) = put_opt 4 (nav_abs from 4) (nav_abs m)"
  "nav_abs (merge_field nav_has_gpsnsat nav_gpsnsat nav_set_gpsnsat from m) = put_opt 5 (nav_abs from 5) (nav_abs m)"
  "nav_abs (merge_field nav_has_gpsalt nav_gpsalt nav_set_gpsalt from m) = put_opt 6 (nav_abs from 6) (nav_abs m)"
  by (simp_all add: merge_field_def put_opt_def nav_abs_set) (simp_all add: nav_abs_def)

definition nav_merge_0 :: "'u nav \<Rightarrow> 'u nav \<Rightarrow> 'u nav" where
  "nav_merge_0 from m =
     (if group_guard (nav_has_bits from) 0 then
        let m = merge_field nav_has_lat nav_lat nav_set_lat from m;
            m = merge_field nav_has_lon nav_lon nav_set_lon from m;
            m = merge_field nav_has_gpsvel nav_gpsvel nav_set_gpsvel from m;
            m = merge_field nav_has_gpsdir nav_gpsdir nav_set_gpsdir from m;
            m = merge_field nav_has_gpsnsat nav_gpsnsat nav_set_gpsnsat from m;
            m = merge_field nav_has_gpsalt nav_gpsalt nav_set_gpsalt from m
        in m
      else m)"

lemma nav_abs_merge_0:
  "nav_abs (nav_merge_0 from m) = foldl (\<lambda>M k. put_opt k (nav_abs from k) M) (nav_abs m) [1, 2, 3, 4, 5, 6]"
proof (cases "group_guard (nav_has_bits from) 0")
  case True
  then show ?thesis by (simp add: nav_merge_0_def Let_def nav_abs_merge_field)
next
  case False
  then have "k \<in> set [1, 2, 3, 4, 5, 6] \<Longrightarrow> nav_abs from k = None" for k
    by (auto simp: nav_abs_def has_bit_simps group_guard_off)
  then show ?thesis using False by (simp only: put_opt_fold_none nav_merge_0_def if_False)
qed

definition nav_merge_from :: "('s, 'u) runtime \<Rightarrow> 'u nav \<Rightarrow> 'u nav \<Rightarrow> 'u nav" where
  "nav_merge_from rt from m =
     (let m = nav_merge_0 from m
      in m\<lparr>nav_unknown := rt_unknown_merge rt (nav_unknown m) (nav_unknown from)\<rparr>)"

lemma nav_abs_unknown [simp]: "nav_abs (m\<lparr>nav_unknown := u\<rparr>) = nav_abs m"
  by (rule ext) (simp add: nav_abs_def has_bit_simps)

lemma nav_merge_from_abs: "nav_abs (nav_merge_from rt from m) = nav_abs m ++ nav_abs from"
proof -
  have "nav_abs (nav_merge_from rt from m) =
      foldl (\<lambda>M k. put_opt k (nav_abs from k) M) (nav_abs m) ([1, 2, 3, 4, 5, 6])"
    by (simp only: nav_merge_from_def Let_def nav_abs_unknown foldl_append nav_abs_merge_0)
  also have "\<dots> = nav_abs m ++ nav_abs from"
    unfolding put_opt_fold using nav_dom_abs [of "from"] by (subst restrict_dom) auto
  finally show ?thesis .
qed

definition nav_is_initialized :: "'u nav \<Rightarrow> bool" where
  "nav_is_initialized m \<longleftrightarrow> nav_has_bits m AND 0x0000003f = 0x0000003f"

section \<open>\<open>MergePartialFromCodedStream\<close>\<close>

text \<open>The body behind each label; the argument is the number of the field.\<close>

definition nav_label :: "('s, 'u) runtime \<Rightarrow> nat \<Rightarrow> 's \<Rightarrow> 'u nav \<Rightarrow> ('s, 'u nav) flow" where
  "nav_label rt k s m =
     (if k = 1 then
        then_expect rt 16 2 (read_scalar (rt_read_sint32 rt) nav_lat (\<lambda>v. nav_lat_update (\<lambda>_. v)) nav_set_has_lat s m)
      else if k = 2 then
        then_expect rt 24 3 (read_scalar (rt_read_sint32 rt) nav_lon (\<lambda>v. nav_lon_update (\<lambda>_. v)) nav_set_has_lon s m)
      else if k = 3 then
        then_expect rt 32 4 (read_scalar (rt_read_uint32 rt) nav_gpsvel (\<lambda>v. nav_gpsvel_update (\<lambda>_. v)) nav_set_has_gpsvel s m)
      else if k = 4 then
        then_expect rt 40 5 (read_scalar (rt_read_uint32 rt) nav_gpsdir (\<lambda>v. nav_gpsdir_update (\<lambda>_. v)) nav_set_has_gpsdir s m)
      else if k = 5 then
        then_expect rt 48 6 (read_scalar (rt_read_uint32 rt) nav_gpsnsat (\<lambda>v. nav_gpsnsat_update (\<lambda>_. v)) nav_set_has_gpsnsat s m)
      else if k = 6 then
        then_end rt (read_scalar (rt_read_sint32 rt) nav_gpsalt (\<lambda>v. nav_gpsalt_update (\<lambda>_. v)) nav_set_has_gpsalt s m)
      else Out_of_fuel)"

definition nav_switch :: "('s, 'u) runtime \<Rightarrow> u32 \<Rightarrow> 's \<Rightarrow> 'u nav \<Rightarrow> ('s, 'u nav) flow" where
  "nav_switch rt tag s m =
     (let k = rt_tag_field rt tag; w = rt_tag_wire rt tag in
      if k = 1 \<and> w = WIRETYPE_VARINT then nav_label rt 1 s m
      else if k = 2 \<and> w = WIRETYPE_VARINT then nav_label rt 2 s m
      else if k = 3 \<and> w = WIRETYPE_VARINT then nav_label rt 3 s m
      else if k = 4 \<and> w = WIRETYPE_VARINT then nav_label rt 4 s m
      else if k = 5 \<and> w = WIRETYPE_VARINT then nav_label rt 5 s m
      else if k = 6 \<and> w = WIRETYPE_VARINT then nav_label rt 6 s m
      else handle_uninterpreted rt nav_unknown (\<lambda>u. nav_unknown_update (\<lambda>_. u)) tag s m)"

definition nav_parse :: "nat \<Rightarrow> ('s, 'u) runtime \<Rightarrow> 's \<Rightarrow> 'u nav \<Rightarrow> (bool \<times> 's \<times> 'u nav) option" where
  "nav_parse fuel rt s m = parse_loop fuel (rt_read_tag rt) (nav_switch rt) (nav_label rt) (Break s m)"

section \<open>Serialisation\<close>

text \<open>\<^verbatim>\<open>SerializeWithCachedSizes\<close>, after \<^verbatim>\<open>ByteSize\<close> has cached the sizes; \<^verbatim>\<open>Swap\<close>; \<^verbatim>\<open>CopyFrom\<close> another object.\<close>

definition nav_serialize :: "'u writer \<Rightarrow> 'u nav \<Rightarrow> byte list" where
  "nav_serialize wr m =
     (if nav_has_lat m then write_sint32 wr 1 (nav_lat m) else []) @
     (if nav_has_lon m then write_sint32 wr 2 (nav_lon m) else []) @
     (if nav_has_gpsvel m then write_uint32 wr 3 (nav_gpsvel m) else []) @
     (if nav_has_gpsdir m then write_uint32 wr 4 (nav_gpsdir m) else []) @
     (if nav_has_gpsnsat m then write_uint32 wr 5 (nav_gpsnsat m) else []) @
     (if nav_has_gpsalt m then write_sint32 wr 6 (nav_gpsalt m) else []) @
     wr_unknown wr (nav_unknown m)"

definition nav_size_0 :: "'u writer \<Rightarrow> 'u nav \<Rightarrow> nat" where
  "nav_size_0 wr m =
     (if group_guard (nav_has_bits m) 0
      then (if nav_has_lat m then 1 + sz_sint32 wr (nav_lat m) else 0)
         + (if nav_has_lon m then 1 + sz_sint32 wr (nav_lon m) else 0)
         + (if nav_has_gpsvel m then 1 + sz_uint32 wr (nav_gpsvel m) else 0)
         + (if nav_has_gpsdir m then 1 + sz_uint32 wr (nav_gpsdir m) else 0)
         + (if nav_has_gpsnsat m then 1 + sz_uint32 wr (nav_gpsnsat m) else 0)
         + (if nav_has_gpsalt m then 1 + sz_sint32 wr (nav_gpsalt m) else 0)
      else 0)"

definition nav_byte_size :: "'u writer \<Rightarrow> 'u nav \<Rightarrow> nat" where
  "nav_byte_size wr m = nav_size_0 wr m + sz_unknown wr (nav_unknown m)"

definition nav_swap :: "'u nav \<Rightarrow> 'u nav \<Rightarrow> 'u nav \<times> 'u nav" where
  "nav_swap m other =
     (m\<lparr>nav_lat := nav_lat other, nav_lon := nav_lon other, nav_gpsvel := nav_gpsvel other, 
       nav_gpsdir := nav_gpsdir other, nav_gpsnsat := nav_gpsnsat other, nav_gpsalt := nav_gpsalt other, 
       nav_has_bits := nav_has_bits other, nav_unknown := nav_unknown other\<rparr>,
      other\<lparr>nav_lat := nav_lat m, nav_lon := nav_lon m, nav_gpsvel := nav_gpsvel m, 
       nav_gpsdir := nav_gpsdir m, nav_gpsnsat := nav_gpsnsat m, nav_gpsalt := nav_gpsalt m, 
       nav_has_bits := nav_has_bits m, nav_unknown := nav_unknown m\<rparr>)"

lemma nav_swap_exchanges: "nav_swap m other = (other, m)"
  by (simp add: nav_swap_def)

definition nav_copy_from :: "('s, 'u) runtime \<Rightarrow> 'u nav \<Rightarrow> 'u nav \<Rightarrow> 'u nav" where
  "nav_copy_from rt from m = nav_merge_from rt from (nav_clear rt m)"

lemma nav_copy_from_abs: "nav_wf m \<Longrightarrow> nav_abs (nav_copy_from rt from m) = nav_abs from"
  by (simp add: nav_copy_from_def nav_merge_from_abs nav_clear_fresh nav_abs_new)

section \<open>The shape of a message\<close>

definition nav_tag :: "nat \<Rightarrow> u32" where
  "nav_tag k = make_tag k WIRETYPE_VARINT"

definition nav_fields :: "nat set" where
  "nav_fields = {1, 2, 3, 4, 5, 6}"

text \<open>Nothing but the known fields: only their has-bits, defaults where a field is not set, no unknown field.\<close>

definition nav_bits :: "nat list" where
  "nav_bits = [0, 1, 2, 3, 4, 5]"

definition nav_complete :: "'u \<Rightarrow> 'u nav \<Rightarrow> bool" where
  "nav_complete u m \<longleftrightarrow> nav_wf m \<and> bits_within (nav_has_bits m) nav_bits \<and> nav_unknown m = u"

lemma nav_complete_new: "nav_complete u (nav_new u)"
  by (simp add: nav_complete_def) (simp add: nav_new_def)

lemma nav_wf_set:
  assumes "nav_wf m"
  shows "nav_wf (nav_set_lat v m)"
    "nav_wf (nav_set_lon v m)"
    "nav_wf (nav_set_gpsvel v m)"
    "nav_wf (nav_set_gpsdir v m)"
    "nav_wf (nav_set_gpsnsat v m)"
    "nav_wf (nav_set_gpsalt v m)"
  using assms by (simp_all add: nav_wf_def nav_set_defs has_bit_simps)

lemma nav_bits_set:
  assumes "bits_within w nav_bits"
  shows "bits_within (w OR 0x00000001) nav_bits"
    "bits_within (w OR 0x00000002) nav_bits"
    "bits_within (w OR 0x00000004) nav_bits"
    "bits_within (w OR 0x00000008) nav_bits"
    "bits_within (w OR 0x00000010) nav_bits"
    "bits_within (w OR 0x00000020) nav_bits"
  by (rule bits_within_insert [OF assms], rule nav_or_bit, simp add: nav_bits_def)+

lemma nav_complete_set:
  assumes "nav_complete u m"
  shows "nav_complete u (nav_set_lat v m)"
    "nav_complete u (nav_set_lon v m)"
    "nav_complete u (nav_set_gpsvel v m)"
    "nav_complete u (nav_set_gpsdir v m)"
    "nav_complete u (nav_set_gpsnsat v m)"
    "nav_complete u (nav_set_gpsalt v m)"
  using assms by (simp_all add: nav_complete_def nav_wf_set) (simp_all add: nav_set_defs nav_bits_set)

lemma nav_abs_at:
  "nav_abs m 1 = when_has (nav_has_lat m) (PU (nav_lat m))"
  "nav_abs m 2 = when_has (nav_has_lon m) (PU (nav_lon m))"
  "nav_abs m 3 = when_has (nav_has_gpsvel m) (PU (nav_gpsvel m))"
  "nav_abs m 4 = when_has (nav_has_gpsdir m) (PU (nav_gpsdir m))"
  "nav_abs m 5 = when_has (nav_has_gpsnsat m) (PU (nav_gpsnsat m))"
  "nav_abs m 6 = when_has (nav_has_gpsalt m) (PU (nav_gpsalt m))"
  by (simp_all add: nav_abs_def)

lemma nav_eqI:
  assumes "nav_complete u m" and "nav_complete u m'" and "nav_abs m = nav_abs m'"
  shows "m = m'"
proof -
  have lat: "nav_has_lat m = nav_has_lat m' \<and> nav_lat m = nav_lat m'"
    using assms(1,2) fun_cong [OF assms(3), of 1, unfolded nav_abs_at]
    by (intro field_eq(1)) (simp_all add: nav_complete_def nav_wf_def)
  have lon: "nav_has_lon m = nav_has_lon m' \<and> nav_lon m = nav_lon m'"
    using assms(1,2) fun_cong [OF assms(3), of 2, unfolded nav_abs_at]
    by (intro field_eq(1)) (simp_all add: nav_complete_def nav_wf_def)
  have gpsvel: "nav_has_gpsvel m = nav_has_gpsvel m' \<and> nav_gpsvel m = nav_gpsvel m'"
    using assms(1,2) fun_cong [OF assms(3), of 3, unfolded nav_abs_at]
    by (intro field_eq(1)) (simp_all add: nav_complete_def nav_wf_def)
  have gpsdir: "nav_has_gpsdir m = nav_has_gpsdir m' \<and> nav_gpsdir m = nav_gpsdir m'"
    using assms(1,2) fun_cong [OF assms(3), of 4, unfolded nav_abs_at]
    by (intro field_eq(1)) (simp_all add: nav_complete_def nav_wf_def)
  have gpsnsat: "nav_has_gpsnsat m = nav_has_gpsnsat m' \<and> nav_gpsnsat m = nav_gpsnsat m'"
    using assms(1,2) fun_cong [OF assms(3), of 5, unfolded nav_abs_at]
    by (intro field_eq(1)) (simp_all add: nav_complete_def nav_wf_def)
  have gpsalt: "nav_has_gpsalt m = nav_has_gpsalt m' \<and> nav_gpsalt m = nav_gpsalt m'"
    using assms(1,2) fun_cong [OF assms(3), of 6, unfolded nav_abs_at]
    by (intro field_eq(1)) (simp_all add: nav_complete_def nav_wf_def)
  have "nav_has_bits m = nav_has_bits m'"
  proof (rule bits_within_eqI)
    show "bits_within (nav_has_bits m) nav_bits" "bits_within (nav_has_bits m') nav_bits"
      using assms(1,2) by (simp_all add: nav_complete_def)
    show "\<forall>n \<in> set nav_bits. bit (nav_has_bits m) n = bit (nav_has_bits m') n"
      using lat lon gpsvel gpsdir gpsnsat gpsalt
      by (simp add: nav_has_bit nav_bits_def)
  qed
  with assms show ?thesis
    using lat lon gpsvel gpsdir gpsnsat gpsalt
    by (intro nav.equality) (simp_all add: nav_complete_def)
qed

definition nav_items :: "'u writer \<Rightarrow> 'u nav \<Rightarrow> (nat \<times> byte list \<times> ('u nav \<Rightarrow> 'u nav)) list" where
  "nav_items wr m =
     item (nav_has_lat m) 1 (wr_sint32 wr (nav_lat m)) (nav_set_lat (nav_lat m)) @
     item (nav_has_lon m) 2 (wr_sint32 wr (nav_lon m)) (nav_set_lon (nav_lon m)) @
     item (nav_has_gpsvel m) 3 (wr_uint32 wr (nav_gpsvel m)) (nav_set_gpsvel (nav_gpsvel m)) @
     item (nav_has_gpsdir m) 4 (wr_uint32 wr (nav_gpsdir m)) (nav_set_gpsdir (nav_gpsdir m)) @
     item (nav_has_gpsnsat m) 5 (wr_uint32 wr (nav_gpsnsat m)) (nav_set_gpsnsat (nav_gpsnsat m)) @
     item (nav_has_gpsalt m) 6 (wr_sint32 wr (nav_gpsalt m)) (nav_set_gpsalt (nav_gpsalt m))"

lemma nav_abs_upd_if:
  "nav_abs (upd_if (nav_has_lat m) (nav_set_lat (nav_lat m)) x) = put_opt 1 (nav_abs m 1) (nav_abs x)"
  "nav_abs (upd_if (nav_has_lon m) (nav_set_lon (nav_lon m)) x) = put_opt 2 (nav_abs m 2) (nav_abs x)"
  "nav_abs (upd_if (nav_has_gpsvel m) (nav_set_gpsvel (nav_gpsvel m)) x) = put_opt 3 (nav_abs m 3) (nav_abs x)"
  "nav_abs (upd_if (nav_has_gpsdir m) (nav_set_gpsdir (nav_gpsdir m)) x) = put_opt 4 (nav_abs m 4) (nav_abs x)"
  "nav_abs (upd_if (nav_has_gpsnsat m) (nav_set_gpsnsat (nav_gpsnsat m)) x) = put_opt 5 (nav_abs m 5) (nav_abs x)"
  "nav_abs (upd_if (nav_has_gpsalt m) (nav_set_gpsalt (nav_gpsalt m)) x) = put_opt 6 (nav_abs m 6) (nav_abs x)"
  by (simp_all add: upd_if_def put_opt_def nav_abs_set nav_abs_at del: One_nat_def)

lemma nav_items_abs: "nav_abs (fold item_upd (nav_items wr m) x) = nav_abs x ++ nav_abs m"
proof -
  have "nav_abs (fold item_upd (nav_items wr m) x) = foldl (\<lambda>M k. put_opt k (nav_abs m k) M) (nav_abs x) [1, 2, 3, 4, 5, 6]"
    by (simp only: nav_items_def fold_append o_apply fold_item nav_abs_upd_if foldl.simps)
  also have "\<dots> = nav_abs x ++ nav_abs m"
    unfolding put_opt_fold using nav_dom_abs [of m] by (subst restrict_dom) auto
  finally show ?thesis .
qed

lemma nav_items_complete: "nav_complete u x \<Longrightarrow> nav_complete u (fold item_upd (nav_items wr m) x)"
  by (rule fold_items_keep)
    (auto simp: nav_items_def ball_Un ball_item item_upd_def intro: nav_complete_set)

lemma nav_items_new:
  assumes "nav_complete u m"
  shows "fold item_upd (nav_items wr m) (nav_new u) = m"
proof (rule nav_eqI)
  show "nav_complete u (fold item_upd (nav_items wr m) (nav_new u))"
    by (rule nav_items_complete [OF nav_complete_new])
  show "nav_abs (fold item_upd (nav_items wr m) (nav_new u)) = nav_abs m"
    by (simp add: nav_items_abs nav_abs_new)
qed (rule assms)

section \<open>The parser on the wire\<close>

lemma nav_fields_range: "k \<in> nav_fields \<Longrightarrow> 0 < k \<and> k < 2 ^ 29"
  unfolding nav_fields_def by (elim insertE emptyE) (simp_all del: One_nat_def)

lemma nav_tag_field: "k \<in> nav_fields \<Longrightarrow> tag_field (nav_tag k) = k"
  using nav_fields_range by (simp add: nav_tag_def tag_field_make)

lemma nav_tag_inj: "inj_on nav_tag nav_fields"
  by (rule inj_on_inverseI [where g = tag_field]) (rule nav_tag_field)

context input_stream
begin

lemma nav_label_within: "k \<in> nav_fields \<Longrightarrow> flow_within nav_fields (remaining s) (nav_label rt k s m)"
  unfolding nav_label_def
  by (subst (asm) nav_fields_def)
    ((erule flow_within_chain, intro within_intros, erule size_dests, (simp add: nav_fields_def; fail)?)+; simp)

lemma nav_switch_within: "flow_within nav_fields (remaining s) (nav_switch rt tag s m)"
  unfolding nav_switch_def Let_def
  by (intro flow_within_if nav_label_within handle_uninterpreted_within) (simp_all add: nav_fields_def)

lemma nav_parse_returns:
  "remaining s < fuel \<Longrightarrow> \<exists>ok s' m'. nav_parse fuel rt s m = Some (ok, s', m') \<and> remaining s' \<le> remaining s"
  unfolding nav_parse_def
  by (rule parse_loop_returns [OF nav_switch_within nav_label_within]) (simp_all add: flow_within_def)

end

context wire_format
begin

lemma nav_switch_label:
  assumes "k \<in> nav_fields"
  shows "nav_tag k \<noteq> 0 \<and> nav_switch rt (nav_tag k) s m = nav_label rt k s m"
proof
  show "nav_tag k \<noteq> 0" using nav_fields_range [OF assms] by (simp add: nav_tag_def make_tag_nonzero)
  have "rt_tag_field rt (nav_tag k) = k" "rt_tag_wire rt (nav_tag k) = WIRETYPE_VARINT"
    using nav_fields_range [OF assms] by (simp_all add: nav_tag_def tag_field tag_wire tag_field_make tag_wire_make)
  then show "nav_switch rt (nav_tag k) s m = nav_label rt k s m"
    using assms unfolding nav_switch_def nav_fields_def by (elim insertE emptyE) (simp_all add: Let_def del: One_nat_def)
qed

lemma nav_end_group:
  assumes "tag_wire t = WIRETYPE_END_GROUP"
  shows "t \<noteq> 0 \<and> t \<notin> nav_tag ` nav_fields \<and> nav_switch rt t s m = Done True s m"
proof (intro conjI)
  show "t \<noteq> 0" using assms by (auto simp: tag_wire_def)
  show "t \<notin> nav_tag ` nav_fields"
    using assms nav_fields_range by (auto simp: nav_tag_def tag_wire_make split: if_splits)
  show "nav_switch rt t s m = Done True s m"
    using assms by (simp add: nav_switch_def Let_def tag_wire end_group_ends)
qed

lemma nav_reads_lat:
  "reads nav_fields nav_tag (nav_label rt 1) (wr_sint32 wr v) (nav_set_lat v)"
  by (simp add: nav_label_def [abs_def] del: One_nat_def)
    (rule reads_expect [OF takes_sint32], simp add: nav_set_defs, simp_all add: nav_fields_def nav_tag_def make_tag_def)

lemma nav_reads_lon:
  "reads nav_fields nav_tag (nav_label rt 2) (wr_sint32 wr v) (nav_set_lon v)"
  by (simp add: nav_label_def [abs_def] del: One_nat_def)
    (rule reads_expect [OF takes_sint32], simp add: nav_set_defs, simp_all add: nav_fields_def nav_tag_def make_tag_def)

lemma nav_reads_gpsvel:
  "reads nav_fields nav_tag (nav_label rt 3) (wr_uint32 wr v) (nav_set_gpsvel v)"
  by (simp add: nav_label_def [abs_def] del: One_nat_def)
    (rule reads_expect [OF takes_uint32], simp add: nav_set_defs, simp_all add: nav_fields_def nav_tag_def make_tag_def)

lemma nav_reads_gpsdir:
  "reads nav_fields nav_tag (nav_label rt 4) (wr_uint32 wr v) (nav_set_gpsdir v)"
  by (simp add: nav_label_def [abs_def] del: One_nat_def)
    (rule reads_expect [OF takes_uint32], simp add: nav_set_defs, simp_all add: nav_fields_def nav_tag_def make_tag_def)

lemma nav_reads_gpsnsat:
  "reads nav_fields nav_tag (nav_label rt 5) (wr_uint32 wr v) (nav_set_gpsnsat v)"
  by (simp add: nav_label_def [abs_def] del: One_nat_def)
    (rule reads_expect [OF takes_uint32], simp add: nav_set_defs, simp_all add: nav_fields_def nav_tag_def make_tag_def)

lemma nav_reads_gpsalt:
  "reads nav_fields nav_tag (nav_label rt 6) (wr_sint32 wr v) (nav_set_gpsalt v)"
  by (simp add: nav_label_def [abs_def] del: One_nat_def)
    (rule reads_end [OF takes_sint32], simp add: nav_set_defs)

lemmas nav_reads =
  nav_reads_lat
  nav_reads_lon
  nav_reads_gpsvel
  nav_reads_gpsdir
  nav_reads_gpsnsat
  nav_reads_gpsalt

lemma nav_items_read:
  "\<forall>(k, bs, upd) \<in> set (nav_items wr m). k \<in> nav_fields \<and> reads nav_fields nav_tag (nav_label rt k) bs upd"
  by (simp add: nav_items_def ball_Un ball_item nav_reads del: One_nat_def) (simp add: nav_fields_def)

lemma nav_serialize_items:
  "nav_unknown m = rt_unknown_empty rt \<Longrightarrow> nav_serialize wr m = concat (map (item_bytes wr nav_tag) (nav_items wr m))"
  by (simp add: nav_serialize_def nav_items_def concat_item write_uint32_def write_sint32_def write_bytes_def write_packed_def
    nav_tag_def wr_unknown_empty)

lemma nav_parse_from:
  assumes "rem s = nav_serialize wr m @ stop_bytes stop" and "nav_unknown m = rt_unknown_empty rt"
    and "group_stop stop"
    and "length (nav_serialize wr m) < fuel"
  shows "\<exists>s'. nav_parse fuel rt s x = Some (True, s', fold item_upd (nav_items wr m) x) \<and> stopped stop s'"
proof -
  note read = nav_items_read [of m]
  note ser = nav_serialize_items [OF assms(2)]
  have "nav_tag k \<noteq> 0" if "k \<in> nav_fields" for k using nav_switch_label [OF that] by blast
  from items_fewer_than_bytes [OF this read] assms(4) ser have fuel: "length (nav_items wr m) + 1 \<le> fuel" by simp
  have stop: "t \<noteq> 0 \<and> t \<notin> nav_tag ` nav_fields \<and> (\<forall>s m. nav_switch rt t s m = Done True s m)" if some: "stop = Some (t, r)" for t r
    using nav_end_group group_stopD [OF assms(3) some] by blast
  have start: "after nav_fields nav_tag (concat (map (item_bytes wr nav_tag) (nav_items wr m)) @ stop_bytes stop) x (Break s x)"
    using assms(1) ser by (simp add: after_def)
  from parse_items [OF nav_switch_label nav_tag_inj stop read start fuel] show ?thesis by (simp add: nav_parse_def)
qed

theorem nav_parse_written:
  assumes "rem s = nav_serialize wr m @ stop_bytes stop" and "nav_complete (rt_unknown_empty rt) m"
    and "group_stop stop"
    and "length (nav_serialize wr m) < fuel"
  shows "\<exists>s'. nav_parse fuel rt s (nav_new (rt_unknown_empty rt)) = Some (True, s', m) \<and> stopped stop s'"
proof -
  have "nav_unknown m = rt_unknown_empty rt" using assms(2) by (simp add: nav_complete_def)
  from nav_parse_from [OF assms(1) this assms(3,4), of "nav_new (rt_unknown_empty rt)"] show ?thesis
    by (simp add: nav_items_new [OF assms(2)])
qed

lemma nav_size_0_length: "nav_size_0 wr m = length ((if nav_has_lat m then write_sint32 wr 1 (nav_lat m) else []) @ (if nav_has_lon m then write_sint32 wr 2 (nav_lon m) else []) @ (if nav_has_gpsvel m then write_uint32 wr 3 (nav_gpsvel m) else []) @ (if nav_has_gpsdir m then write_uint32 wr 4 (nav_gpsdir m) else []) @ (if nav_has_gpsnsat m then write_uint32 wr 5 (nav_gpsnsat m) else []) @ (if nav_has_gpsalt m then write_sint32 wr 6 (nav_gpsalt m) else []))"
proof (cases "group_guard (nav_has_bits m) 0")
  case True
  then show ?thesis
    by (simp add: nav_size_0_def write_uint32_def write_sint32_def write_bytes_def value_size tag_size make_tag_def)
next
  case False
  then show ?thesis by (simp add: nav_size_0_def has_bit_simps group_guard_off)
qed

theorem nav_byte_size_length: "nav_byte_size wr m = length (nav_serialize wr m)"
  by (simp add: nav_byte_size_def nav_serialize_def nav_size_0_length value_size(4))

end

end
