(* ===== verification/Pb_UniDt.thy ===== *)
theory Pb_UniDt
  imports Pb_Wire
begin

text \<open>
  The generated class \<^verbatim>\<open>RecReg_UniDt\<close>: its fields and has-bits, the accessors of
  \<^verbatim>\<open>message.pb.h\<close>, and \<^verbatim>\<open>SharedCtor\<close>, \<^verbatim>\<open>Clear\<close>, \<^verbatim>\<open>MergeFrom\<close>, \<^verbatim>\<open>IsInitialized\<close> and
  \<^verbatim>\<open>MergePartialFromCodedStream\<close> of \<^verbatim>\<open>message.pb.cc\<close>, with the serialiser and
  the byte size, and the round trip between parser and serialiser. Signed fields hold their two's
  complement. The abstraction \<open>uni_abs\<close> reads the message as a map from field numbers to the
  values that are set; merging is then the override of maps.
\<close>

section \<open>Fields and accessors\<close>

record 'u unidt =
  uni_has_bits :: u32
  uni_unknown :: 'u
  uni_unival0 :: u32
  uni_unival1 :: u32
  uni_unival2 :: u32
  uni_unival3 :: u32

definition uni_has_unival0 :: "'u unidt \<Rightarrow> bool" where
  "uni_has_unival0 m \<longleftrightarrow> uni_has_bits m AND 0x00000001 \<noteq> 0"

definition uni_set_has_unival0 :: "'u unidt \<Rightarrow> 'u unidt" where
  "uni_set_has_unival0 m = m\<lparr>uni_has_bits := uni_has_bits m OR 0x00000001\<rparr>"

definition uni_set_unival0 :: "u32 \<Rightarrow> 'u unidt \<Rightarrow> 'u unidt" where
  "uni_set_unival0 v m = (uni_set_has_unival0 m)\<lparr>uni_unival0 := v\<rparr>"

definition uni_has_unival1 :: "'u unidt \<Rightarrow> bool" where
  "uni_has_unival1 m \<longleftrightarrow> uni_has_bits m AND 0x00000002 \<noteq> 0"

definition uni_set_has_unival1 :: "'u unidt \<Rightarrow> 'u unidt" where
  "uni_set_has_unival1 m = m\<lparr>uni_has_bits := uni_has_bits m OR 0x00000002\<rparr>"

definition uni_set_unival1 :: "u32 \<Rightarrow> 'u unidt \<Rightarrow> 'u unidt" where
  "uni_set_unival1 v m = (uni_set_has_unival1 m)\<lparr>uni_unival1 := v\<rparr>"

definition uni_has_unival2 :: "'u unidt \<Rightarrow> bool" where
  "uni_has_unival2 m \<longleftrightarrow> uni_has_bits m AND 0x00000004 \<noteq> 0"

definition uni_set_has_unival2 :: "'u unidt \<Rightarrow> 'u unidt" where
  "uni_set_has_unival2 m = m\<lparr>uni_has_bits := uni_has_bits m OR 0x00000004\<rparr>"

definition uni_set_unival2 :: "u32 \<Rightarrow> 'u unidt \<Rightarrow> 'u unidt" where
  "uni_set_unival2 v m = (uni_set_has_unival2 m)\<lparr>uni_unival2 := v\<rparr>"

definition uni_has_unival3 :: "'u unidt \<Rightarrow> bool" where
  "uni_has_unival3 m \<longleftrightarrow> uni_has_bits m AND 0x00000008 \<noteq> 0"

definition uni_set_has_unival3 :: "'u unidt \<Rightarrow> 'u unidt" where
  "uni_set_has_unival3 m = m\<lparr>uni_has_bits := uni_has_bits m OR 0x00000008\<rparr>"

definition uni_set_unival3 :: "u32 \<Rightarrow> 'u unidt \<Rightarrow> 'u unidt" where
  "uni_set_unival3 v m = (uni_set_has_unival3 m)\<lparr>uni_unival3 := v\<rparr>"

lemma uni_has_bit [has_bit_simps]:
  "uni_has_unival0 m \<longleftrightarrow> bit (uni_has_bits m) 0"
  "uni_has_unival1 m \<longleftrightarrow> bit (uni_has_bits m) 1"
  "uni_has_unival2 m \<longleftrightarrow> bit (uni_has_bits m) 2"
  "uni_has_unival3 m \<longleftrightarrow> bit (uni_has_bits m) 3"
  using and_one_bit [of "uni_has_bits m" 0]
    and_one_bit [of "uni_has_bits m" 1]
    and_one_bit [of "uni_has_bits m" 2]
    and_one_bit [of "uni_has_bits m" 3]
  by (simp_all add: uni_has_unival0_def uni_has_unival1_def uni_has_unival2_def uni_has_unival3_def)

lemmas uni_set_defs =
  uni_set_has_unival0_def uni_set_unival0_def
  uni_set_has_unival1_def uni_set_unival1_def
  uni_set_has_unival2_def uni_set_unival2_def
  uni_set_has_unival3_def uni_set_unival3_def

lemma uni_or_bit [has_bit_simps]:
  "bit ((w :: u32) OR 0x00000001) n \<longleftrightarrow> bit w n \<or> n = 0"
  "bit ((w :: u32) OR 0x00000002) n \<longleftrightarrow> bit w n \<or> n = 1"
  "bit ((w :: u32) OR 0x00000004) n \<longleftrightarrow> bit w n \<or> n = 2"
  "bit ((w :: u32) OR 0x00000008) n \<longleftrightarrow> bit w n \<or> n = 3"
  using or_one_bit [of 0 w n]
    or_one_bit [of 1 w n]
    or_one_bit [of 2 w n]
    or_one_bit [of 3 w n]
  by simp_all

section \<open>Construction and \<open>Clear\<close>\<close>

definition uni_new :: "'u \<Rightarrow> 'u unidt" where
  "uni_new u = \<lparr>uni_has_bits = 0, uni_unknown = u,
     uni_unival0 = 0, uni_unival1 = 0, uni_unival2 = 0, uni_unival3 = 0\<rparr>"

definition uni_clear_0 :: "'u unidt \<Rightarrow> 'u unidt" where
  "uni_clear_0 m =
     (if group_guard (uni_has_bits m) 0
      then m\<lparr>uni_unival0 := 0, uni_unival1 := 0, uni_unival2 := 0,
        uni_unival3 := 0\<rparr>
      else m)"

definition uni_clear :: "('s, 'u) runtime \<Rightarrow> 'u unidt \<Rightarrow> 'u unidt" where
  "uni_clear rt m = (uni_clear_0 m)\<lparr>uni_has_bits := 0, uni_unknown := rt_unknown_empty rt\<rparr>"

text \<open>A field that is not set holds its default: \<^verbatim>\<open>Clear\<close> relies on it when it skips a group.\<close>

definition uni_wf :: "'u unidt \<Rightarrow> bool" where
  "uni_wf m \<longleftrightarrow>
     (\<not> uni_has_unival0 m \<longrightarrow> uni_unival0 m = 0) \<and>
     (\<not> uni_has_unival1 m \<longrightarrow> uni_unival1 m = 0) \<and>
     (\<not> uni_has_unival2 m \<longrightarrow> uni_unival2 m = 0) \<and>
     (\<not> uni_has_unival3 m \<longrightarrow> uni_unival3 m = 0)"

lemma uni_wf_new [simp]: "uni_wf (uni_new u)"
  by (simp add: uni_wf_def uni_new_def)

lemma uni_clear_0_wf:
  assumes "uni_wf m"
  shows "uni_clear_0 m = m\<lparr>uni_unival0 := 0, uni_unival1 := 0, uni_unival2 := 0, uni_unival3 := 0\<rparr>"
proof (cases "group_guard (uni_has_bits m) 0")
  case True
  with assms show ?thesis by (simp add: uni_clear_0_def uni_wf_def)
next
  case False
  with assms show ?thesis
    by (cases m) (simp add: uni_clear_0_def uni_wf_def has_bit_simps group_guard_off)
qed

lemma uni_clear_fresh:
  assumes "uni_wf m"
  shows "uni_clear rt m = uni_new (rt_unknown_empty rt)"
  using assms by (cases m) (simp add: uni_clear_def uni_clear_0_wf uni_new_def)

section \<open>The message as a map\<close>

definition uni_abs :: "'u unidt \<Rightarrow> (nat \<rightharpoonup> pval)" where
  "uni_abs m k =
     (if k = 1 then when_has (uni_has_unival0 m) (PU (uni_unival0 m))
      else if k = 2 then when_has (uni_has_unival1 m) (PU (uni_unival1 m))
      else if k = 3 then when_has (uni_has_unival2 m) (PU (uni_unival2 m))
      else if k = 4 then when_has (uni_has_unival3 m) (PU (uni_unival3 m))
      else None)"

lemma uni_abs_new: "uni_abs (uni_new u) = Map.empty"
  by (rule ext) (simp add: uni_abs_def uni_new_def has_bit_simps)

lemma uni_abs_set:
  "uni_abs (uni_set_unival0 v m) = (uni_abs m)(1 \<mapsto> PU v)"
  "uni_abs (uni_set_unival1 v m) = (uni_abs m)(2 \<mapsto> PU v)"
  "uni_abs (uni_set_unival2 v m) = (uni_abs m)(3 \<mapsto> PU v)"
  "uni_abs (uni_set_unival3 v m) = (uni_abs m)(4 \<mapsto> PU v)"
  by (rule ext, simp add: uni_abs_def uni_set_defs has_bit_simps)+

lemma uni_dom_abs: "dom (uni_abs m) \<subseteq> set [1, 2, 3, 4]"
  by (auto simp: uni_abs_def split: if_splits)

section \<open>\<open>MergeFrom\<close>\<close>

lemma uni_abs_merge_field:
  "uni_abs (merge_field uni_has_unival0 uni_unival0 uni_set_unival0 from m) = put_opt 1 (uni_abs from 1) (uni_abs m)"
  "uni_abs (merge_field uni_has_unival1 uni_unival1 uni_set_unival1 from m) = put_opt 2 (uni_abs from 2) (uni_abs m)"
  "uni_abs (merge_field uni_has_unival2 uni_unival2 uni_set_unival2 from m) = put_opt 3 (uni_abs from 3) (uni_abs m)"
  "uni_abs (merge_field uni_has_unival3 uni_unival3 uni_set_unival3 from m) = put_opt 4 (uni_abs from 4) (uni_abs m)"
  by (simp_all add: merge_field_def put_opt_def uni_abs_set) (simp_all add: uni_abs_def)

definition uni_merge_0 :: "'u unidt \<Rightarrow> 'u unidt \<Rightarrow> 'u unidt" where
  "uni_merge_0 from m =
     (if group_guard (uni_has_bits from) 0 then
        let m = merge_field uni_has_unival0 uni_unival0 uni_set_unival0 from m;
            m = merge_field uni_has_unival1 uni_unival1 uni_set_unival1 from m;
            m = merge_field uni_has_unival2 uni_unival2 uni_set_unival2 from m;
            m = merge_field uni_has_unival3 uni_unival3 uni_set_unival3 from m
        in m
      else m)"

lemma uni_abs_merge_0:
  "uni_abs (uni_merge_0 from m) = foldl (\<lambda>M k. put_opt k (uni_abs from k) M) (uni_abs m) [1, 2, 3, 4]"
proof (cases "group_guard (uni_has_bits from) 0")
  case True
  then show ?thesis by (simp add: uni_merge_0_def Let_def uni_abs_merge_field)
next
  case False
  then have "k \<in> set [1, 2, 3, 4] \<Longrightarrow> uni_abs from k = None" for k
    by (auto simp: uni_abs_def has_bit_simps group_guard_off)
  then show ?thesis using False by (simp only: put_opt_fold_none uni_merge_0_def if_False)
qed

definition uni_merge_from :: "('s, 'u) runtime \<Rightarrow> 'u unidt \<Rightarrow> 'u unidt \<Rightarrow> 'u unidt" where
  "uni_merge_from rt from m =
     (let m = uni_merge_0 from m
      in m\<lparr>uni_unknown := rt_unknown_merge rt (uni_unknown m) (uni_unknown from)\<rparr>)"

lemma uni_abs_unknown [simp]: "uni_abs (m\<lparr>uni_unknown := u\<rparr>) = uni_abs m"
  by (rule ext) (simp add: uni_abs_def has_bit_simps)

lemma uni_merge_from_abs: "uni_abs (uni_merge_from rt from m) = uni_abs m ++ uni_abs from"
proof -
  have "uni_abs (uni_merge_from rt from m) =
      foldl (\<lambda>M k. put_opt k (uni_abs from k) M) (uni_abs m) ([1, 2, 3, 4])"
    by (simp only: uni_merge_from_def Let_def uni_abs_unknown foldl_append uni_abs_merge_0)
  also have "\<dots> = uni_abs m ++ uni_abs from"
    unfolding put_opt_fold using uni_dom_abs [of "from"] by (subst restrict_dom) auto
  finally show ?thesis .
qed

definition uni_is_initialized :: "'u unidt \<Rightarrow> bool" where
  "uni_is_initialized m \<longleftrightarrow> True"

section \<open>\<open>MergePartialFromCodedStream\<close>\<close>

text \<open>The body behind each label; the argument is the number of the field.\<close>

definition uni_label :: "('s, 'u) runtime \<Rightarrow> nat \<Rightarrow> 's \<Rightarrow> 'u unidt \<Rightarrow> ('s, 'u unidt) flow" where
  "uni_label rt k s m =
     (if k = 1 then
        then_expect rt 16 2 (read_scalar (rt_read_sint32 rt) uni_unival0 (\<lambda>v. uni_unival0_update (\<lambda>_. v)) uni_set_has_unival0 s m)
      else if k = 2 then
        then_expect rt 24 3 (read_scalar (rt_read_sint32 rt) uni_unival1 (\<lambda>v. uni_unival1_update (\<lambda>_. v)) uni_set_has_unival1 s m)
      else if k = 3 then
        then_expect rt 32 4 (read_scalar (rt_read_sint32 rt) uni_unival2 (\<lambda>v. uni_unival2_update (\<lambda>_. v)) uni_set_has_unival2 s m)
      else if k = 4 then
        then_end rt (read_scalar (rt_read_sint32 rt) uni_unival3 (\<lambda>v. uni_unival3_update (\<lambda>_. v)) uni_set_has_unival3 s m)
      else Out_of_fuel)"

definition uni_switch :: "('s, 'u) runtime \<Rightarrow> u32 \<Rightarrow> 's \<Rightarrow> 'u unidt \<Rightarrow> ('s, 'u unidt) flow" where
  "uni_switch rt tag s m =
     (let k = rt_tag_field rt tag; w = rt_tag_wire rt tag in
      if k = 1 \<and> w = WIRETYPE_VARINT then uni_label rt 1 s m
      else if k = 2 \<and> w = WIRETYPE_VARINT then uni_label rt 2 s m
      else if k = 3 \<and> w = WIRETYPE_VARINT then uni_label rt 3 s m
      else if k = 4 \<and> w = WIRETYPE_VARINT then uni_label rt 4 s m
      else handle_uninterpreted rt uni_unknown (\<lambda>u. uni_unknown_update (\<lambda>_. u)) tag s m)"

definition uni_parse :: "nat \<Rightarrow> ('s, 'u) runtime \<Rightarrow> 's \<Rightarrow> 'u unidt \<Rightarrow> (bool \<times> 's \<times> 'u unidt) option" where
  "uni_parse fuel rt s m = parse_loop fuel (rt_read_tag rt) (uni_switch rt) (uni_label rt) (Break s m)"

section \<open>Serialisation\<close>

text \<open>\<^verbatim>\<open>SerializeWithCachedSizes\<close>, after \<^verbatim>\<open>ByteSize\<close> has cached the sizes; \<^verbatim>\<open>Swap\<close>; \<^verbatim>\<open>CopyFrom\<close> another object.\<close>

definition uni_serialize :: "'u writer \<Rightarrow> 'u unidt \<Rightarrow> byte list" where
  "uni_serialize wr m =
     (if uni_has_unival0 m then write_sint32 wr 1 (uni_unival0 m) else []) @
     (if uni_has_unival1 m then write_sint32 wr 2 (uni_unival1 m) else []) @
     (if uni_has_unival2 m then write_sint32 wr 3 (uni_unival2 m) else []) @
     (if uni_has_unival3 m then write_sint32 wr 4 (uni_unival3 m) else []) @
     wr_unknown wr (uni_unknown m)"

definition uni_size_0 :: "'u writer \<Rightarrow> 'u unidt \<Rightarrow> nat" where
  "uni_size_0 wr m =
     (if group_guard (uni_has_bits m) 0
      then (if uni_has_unival0 m then 1 + sz_sint32 wr (uni_unival0 m) else 0)
         + (if uni_has_unival1 m then 1 + sz_sint32 wr (uni_unival1 m) else 0)
         + (if uni_has_unival2 m then 1 + sz_sint32 wr (uni_unival2 m) else 0)
         + (if uni_has_unival3 m then 1 + sz_sint32 wr (uni_unival3 m) else 0)
      else 0)"

definition uni_byte_size :: "'u writer \<Rightarrow> 'u unidt \<Rightarrow> nat" where
  "uni_byte_size wr m = uni_size_0 wr m + sz_unknown wr (uni_unknown m)"

definition uni_swap :: "'u unidt \<Rightarrow> 'u unidt \<Rightarrow> 'u unidt \<times> 'u unidt" where
  "uni_swap m other =
     (m\<lparr>uni_unival0 := uni_unival0 other, uni_unival1 := uni_unival1 other, uni_unival2 := uni_unival2 other, 
       uni_unival3 := uni_unival3 other, uni_has_bits := uni_has_bits other, uni_unknown := uni_unknown other\<rparr>,
      other\<lparr>uni_unival0 := uni_unival0 m, uni_unival1 := uni_unival1 m, uni_unival2 := uni_unival2 m, 
       uni_unival3 := uni_unival3 m, uni_has_bits := uni_has_bits m, uni_unknown := uni_unknown m\<rparr>)"

lemma uni_swap_exchanges: "uni_swap m other = (other, m)"
  by (simp add: uni_swap_def)

definition uni_copy_from :: "('s, 'u) runtime \<Rightarrow> 'u unidt \<Rightarrow> 'u unidt \<Rightarrow> 'u unidt" where
  "uni_copy_from rt from m = uni_merge_from rt from (uni_clear rt m)"

lemma uni_copy_from_abs: "uni_wf m \<Longrightarrow> uni_abs (uni_copy_from rt from m) = uni_abs from"
  by (simp add: uni_copy_from_def uni_merge_from_abs uni_clear_fresh uni_abs_new)

section \<open>The shape of a message\<close>

definition uni_tag :: "nat \<Rightarrow> u32" where
  "uni_tag k = make_tag k WIRETYPE_VARINT"

definition uni_fields :: "nat set" where
  "uni_fields = {1, 2, 3, 4}"

text \<open>Nothing but the known fields: only their has-bits, defaults where a field is not set, no unknown field.\<close>

definition uni_bits :: "nat list" where
  "uni_bits = [0, 1, 2, 3]"

definition uni_complete :: "'u \<Rightarrow> 'u unidt \<Rightarrow> bool" where
  "uni_complete u m \<longleftrightarrow> uni_wf m \<and> bits_within (uni_has_bits m) uni_bits \<and> uni_unknown m = u"

lemma uni_complete_new: "uni_complete u (uni_new u)"
  by (simp add: uni_complete_def) (simp add: uni_new_def)

lemma uni_wf_set:
  assumes "uni_wf m"
  shows "uni_wf (uni_set_unival0 v m)"
    "uni_wf (uni_set_unival1 v m)"
    "uni_wf (uni_set_unival2 v m)"
    "uni_wf (uni_set_unival3 v m)"
  using assms by (simp_all add: uni_wf_def uni_set_defs has_bit_simps)

lemma uni_bits_set:
  assumes "bits_within w uni_bits"
  shows "bits_within (w OR 0x00000001) uni_bits"
    "bits_within (w OR 0x00000002) uni_bits"
    "bits_within (w OR 0x00000004) uni_bits"
    "bits_within (w OR 0x00000008) uni_bits"
  by (rule bits_within_insert [OF assms], rule uni_or_bit, simp add: uni_bits_def)+

lemma uni_complete_set:
  assumes "uni_complete u m"
  shows "uni_complete u (uni_set_unival0 v m)"
    "uni_complete u (uni_set_unival1 v m)"
    "uni_complete u (uni_set_unival2 v m)"
    "uni_complete u (uni_set_unival3 v m)"
  using assms by (simp_all add: uni_complete_def uni_wf_set) (simp_all add: uni_set_defs uni_bits_set)

lemma uni_abs_at:
  "uni_abs m 1 = when_has (uni_has_unival0 m) (PU (uni_unival0 m))"
  "uni_abs m 2 = when_has (uni_has_unival1 m) (PU (uni_unival1 m))"
  "uni_abs m 3 = when_has (uni_has_unival2 m) (PU (uni_unival2 m))"
  "uni_abs m 4 = when_has (uni_has_unival3 m) (PU (uni_unival3 m))"
  by (simp_all add: uni_abs_def)

lemma uni_eqI:
  assumes "uni_complete u m" and "uni_complete u m'" and "uni_abs m = uni_abs m'"
  shows "m = m'"
proof -
  have unival0: "uni_has_unival0 m = uni_has_unival0 m' \<and> uni_unival0 m = uni_unival0 m'"
    using assms(1,2) fun_cong [OF assms(3), of 1, unfolded uni_abs_at]
    by (intro field_eq(1)) (simp_all add: uni_complete_def uni_wf_def)
  have unival1: "uni_has_unival1 m = uni_has_unival1 m' \<and> uni_unival1 m = uni_unival1 m'"
    using assms(1,2) fun_cong [OF assms(3), of 2, unfolded uni_abs_at]
    by (intro field_eq(1)) (simp_all add: uni_complete_def uni_wf_def)
  have unival2: "uni_has_unival2 m = uni_has_unival2 m' \<and> uni_unival2 m = uni_unival2 m'"
    using assms(1,2) fun_cong [OF assms(3), of 3, unfolded uni_abs_at]
    by (intro field_eq(1)) (simp_all add: uni_complete_def uni_wf_def)
  have unival3: "uni_has_unival3 m = uni_has_unival3 m' \<and> uni_unival3 m = uni_unival3 m'"
    using assms(1,2) fun_cong [OF assms(3), of 4, unfolded uni_abs_at]
    by (intro field_eq(1)) (simp_all add: uni_complete_def uni_wf_def)
  have "uni_has_bits m = uni_has_bits m'"
  proof (rule bits_within_eqI)
    show "bits_within (uni_has_bits m) uni_bits" "bits_within (uni_has_bits m') uni_bits"
      using assms(1,2) by (simp_all add: uni_complete_def)
    show "\<forall>n \<in> set uni_bits. bit (uni_has_bits m) n = bit (uni_has_bits m') n"
      using unival0 unival1 unival2 unival3
      by (simp add: uni_has_bit uni_bits_def)
  qed
  with assms show ?thesis
    using unival0 unival1 unival2 unival3
    by (intro unidt.equality) (simp_all add: uni_complete_def)
qed

definition uni_items :: "'u writer \<Rightarrow> 'u unidt \<Rightarrow> (nat \<times> byte list \<times> ('u unidt \<Rightarrow> 'u unidt)) list" where
  "uni_items wr m =
     item (uni_has_unival0 m) 1 (wr_sint32 wr (uni_unival0 m)) (uni_set_unival0 (uni_unival0 m)) @
     item (uni_has_unival1 m) 2 (wr_sint32 wr (uni_unival1 m)) (uni_set_unival1 (uni_unival1 m)) @
     item (uni_has_unival2 m) 3 (wr_sint32 wr (uni_unival2 m)) (uni_set_unival2 (uni_unival2 m)) @
     item (uni_has_unival3 m) 4 (wr_sint32 wr (uni_unival3 m)) (uni_set_unival3 (uni_unival3 m))"

lemma uni_abs_upd_if:
  "uni_abs (upd_if (uni_has_unival0 m) (uni_set_unival0 (uni_unival0 m)) x) = put_opt 1 (uni_abs m 1) (uni_abs x)"
  "uni_abs (upd_if (uni_has_unival1 m) (uni_set_unival1 (uni_unival1 m)) x) = put_opt 2 (uni_abs m 2) (uni_abs x)"
  "uni_abs (upd_if (uni_has_unival2 m) (uni_set_unival2 (uni_unival2 m)) x) = put_opt 3 (uni_abs m 3) (uni_abs x)"
  "uni_abs (upd_if (uni_has_unival3 m) (uni_set_unival3 (uni_unival3 m)) x) = put_opt 4 (uni_abs m 4) (uni_abs x)"
  by (simp_all add: upd_if_def put_opt_def uni_abs_set uni_abs_at del: One_nat_def)

lemma uni_items_abs: "uni_abs (fold item_upd (uni_items wr m) x) = uni_abs x ++ uni_abs m"
proof -
  have "uni_abs (fold item_upd (uni_items wr m) x) = foldl (\<lambda>M k. put_opt k (uni_abs m k) M) (uni_abs x) [1, 2, 3, 4]"
    by (simp only: uni_items_def fold_append o_apply fold_item uni_abs_upd_if foldl.simps)
  also have "\<dots> = uni_abs x ++ uni_abs m"
    unfolding put_opt_fold using uni_dom_abs [of m] by (subst restrict_dom) auto
  finally show ?thesis .
qed

lemma uni_items_complete: "uni_complete u x \<Longrightarrow> uni_complete u (fold item_upd (uni_items wr m) x)"
  by (rule fold_items_keep)
    (auto simp: uni_items_def ball_Un ball_item item_upd_def intro: uni_complete_set)

lemma uni_items_new:
  assumes "uni_complete u m"
  shows "fold item_upd (uni_items wr m) (uni_new u) = m"
proof (rule uni_eqI)
  show "uni_complete u (fold item_upd (uni_items wr m) (uni_new u))"
    by (rule uni_items_complete [OF uni_complete_new])
  show "uni_abs (fold item_upd (uni_items wr m) (uni_new u)) = uni_abs m"
    by (simp add: uni_items_abs uni_abs_new)
qed (rule assms)

section \<open>The parser on the wire\<close>

lemma uni_fields_range: "k \<in> uni_fields \<Longrightarrow> 0 < k \<and> k < 2 ^ 29"
  unfolding uni_fields_def by (elim insertE emptyE) (simp_all del: One_nat_def)

lemma uni_tag_field: "k \<in> uni_fields \<Longrightarrow> tag_field (uni_tag k) = k"
  using uni_fields_range by (simp add: uni_tag_def tag_field_make)

lemma uni_tag_inj: "inj_on uni_tag uni_fields"
  by (rule inj_on_inverseI [where g = tag_field]) (rule uni_tag_field)

context input_stream
begin

lemma uni_label_within: "k \<in> uni_fields \<Longrightarrow> flow_within uni_fields (remaining s) (uni_label rt k s m)"
  unfolding uni_label_def
  by (subst (asm) uni_fields_def)
    ((erule flow_within_chain, intro within_intros, erule size_dests, (simp add: uni_fields_def; fail)?)+; simp)

lemma uni_switch_within: "flow_within uni_fields (remaining s) (uni_switch rt tag s m)"
  unfolding uni_switch_def Let_def
  by (intro flow_within_if uni_label_within handle_uninterpreted_within) (simp_all add: uni_fields_def)

lemma uni_parse_returns:
  "remaining s < fuel \<Longrightarrow> \<exists>ok s' m'. uni_parse fuel rt s m = Some (ok, s', m') \<and> remaining s' \<le> remaining s"
  unfolding uni_parse_def
  by (rule parse_loop_returns [OF uni_switch_within uni_label_within]) (simp_all add: flow_within_def)

end

context wire_format
begin

lemma uni_switch_label:
  assumes "k \<in> uni_fields"
  shows "uni_tag k \<noteq> 0 \<and> uni_switch rt (uni_tag k) s m = uni_label rt k s m"
proof
  show "uni_tag k \<noteq> 0" using uni_fields_range [OF assms] by (simp add: uni_tag_def make_tag_nonzero)
  have "rt_tag_field rt (uni_tag k) = k" "rt_tag_wire rt (uni_tag k) = WIRETYPE_VARINT"
    using uni_fields_range [OF assms] by (simp_all add: uni_tag_def tag_field tag_wire tag_field_make tag_wire_make)
  then show "uni_switch rt (uni_tag k) s m = uni_label rt k s m"
    using assms unfolding uni_switch_def uni_fields_def by (elim insertE emptyE) (simp_all add: Let_def del: One_nat_def)
qed

lemma uni_end_group:
  assumes "tag_wire t = WIRETYPE_END_GROUP"
  shows "t \<noteq> 0 \<and> t \<notin> uni_tag ` uni_fields \<and> uni_switch rt t s m = Done True s m"
proof (intro conjI)
  show "t \<noteq> 0" using assms by (auto simp: tag_wire_def)
  show "t \<notin> uni_tag ` uni_fields"
    using assms uni_fields_range by (auto simp: uni_tag_def tag_wire_make split: if_splits)
  show "uni_switch rt t s m = Done True s m"
    using assms by (simp add: uni_switch_def Let_def tag_wire end_group_ends)
qed

lemma uni_reads_unival0:
  "reads uni_fields uni_tag (uni_label rt 1) (wr_sint32 wr v) (uni_set_unival0 v)"
  by (simp add: uni_label_def [abs_def] del: One_nat_def)
    (rule reads_expect [OF takes_sint32], simp add: uni_set_defs, simp_all add: uni_fields_def uni_tag_def make_tag_def)

lemma uni_reads_unival1:
  "reads uni_fields uni_tag (uni_label rt 2) (wr_sint32 wr v) (uni_set_unival1 v)"
  by (simp add: uni_label_def [abs_def] del: One_nat_def)
    (rule reads_expect [OF takes_sint32], simp add: uni_set_defs, simp_all add: uni_fields_def uni_tag_def make_tag_def)

lemma uni_reads_unival2:
  "reads uni_fields uni_tag (uni_label rt 3) (wr_sint32 wr v) (uni_set_unival2 v)"
  by (simp add: uni_label_def [abs_def] del: One_nat_def)
    (rule reads_expect [OF takes_sint32], simp add: uni_set_defs, simp_all add: uni_fields_def uni_tag_def make_tag_def)

lemma uni_reads_unival3:
  "reads uni_fields uni_tag (uni_label rt 4) (wr_sint32 wr v) (uni_set_unival3 v)"
  by (simp add: uni_label_def [abs_def] del: One_nat_def)
    (rule reads_end [OF takes_sint32], simp add: uni_set_defs)

lemmas uni_reads =
  uni_reads_unival0
  uni_reads_unival1
  uni_reads_unival2
  uni_reads_unival3

lemma uni_items_read:
  "\<forall>(k, bs, upd) \<in> set (uni_items wr m). k \<in> uni_fields \<and> reads uni_fields uni_tag (uni_label rt k) bs upd"
  by (simp add: uni_items_def ball_Un ball_item uni_reads del: One_nat_def) (simp add: uni_fields_def)

lemma uni_serialize_items:
  "uni_unknown m = rt_unknown_empty rt \<Longrightarrow> uni_serialize wr m = concat (map (item_bytes wr uni_tag) (uni_items wr m))"
  by (simp add: uni_serialize_def uni_items_def concat_item write_uint32_def write_sint32_def write_bytes_def write_packed_def
    uni_tag_def wr_unknown_empty)

lemma uni_parse_from:
  assumes "rem s = uni_serialize wr m @ stop_bytes stop" and "uni_unknown m = rt_unknown_empty rt"
    and "group_stop stop"
    and "length (uni_serialize wr m) < fuel"
  shows "\<exists>s'. uni_parse fuel rt s x = Some (True, s', fold item_upd (uni_items wr m) x) \<and> stopped stop s'"
proof -
  note read = uni_items_read [of m]
  note ser = uni_serialize_items [OF assms(2)]
  have "uni_tag k \<noteq> 0" if "k \<in> uni_fields" for k using uni_switch_label [OF that] by blast
  from items_fewer_than_bytes [OF this read] assms(4) ser have fuel: "length (uni_items wr m) + 1 \<le> fuel" by simp
  have stop: "t \<noteq> 0 \<and> t \<notin> uni_tag ` uni_fields \<and> (\<forall>s m. uni_switch rt t s m = Done True s m)" if some: "stop = Some (t, r)" for t r
    using uni_end_group group_stopD [OF assms(3) some] by blast
  have start: "after uni_fields uni_tag (concat (map (item_bytes wr uni_tag) (uni_items wr m)) @ stop_bytes stop) x (Break s x)"
    using assms(1) ser by (simp add: after_def)
  from parse_items [OF uni_switch_label uni_tag_inj stop read start fuel] show ?thesis by (simp add: uni_parse_def)
qed

theorem uni_parse_written:
  assumes "rem s = uni_serialize wr m @ stop_bytes stop" and "uni_complete (rt_unknown_empty rt) m"
    and "group_stop stop"
    and "length (uni_serialize wr m) < fuel"
  shows "\<exists>s'. uni_parse fuel rt s (uni_new (rt_unknown_empty rt)) = Some (True, s', m) \<and> stopped stop s'"
proof -
  have "uni_unknown m = rt_unknown_empty rt" using assms(2) by (simp add: uni_complete_def)
  from uni_parse_from [OF assms(1) this assms(3,4), of "uni_new (rt_unknown_empty rt)"] show ?thesis
    by (simp add: uni_items_new [OF assms(2)])
qed

lemma uni_size_0_length: "uni_size_0 wr m = length ((if uni_has_unival0 m then write_sint32 wr 1 (uni_unival0 m) else []) @ (if uni_has_unival1 m then write_sint32 wr 2 (uni_unival1 m) else []) @ (if uni_has_unival2 m then write_sint32 wr 3 (uni_unival2 m) else []) @ (if uni_has_unival3 m then write_sint32 wr 4 (uni_unival3 m) else []))"
proof (cases "group_guard (uni_has_bits m) 0")
  case True
  then show ?thesis
    by (simp add: uni_size_0_def write_uint32_def write_sint32_def write_bytes_def value_size tag_size make_tag_def)
next
  case False
  then show ?thesis by (simp add: uni_size_0_def has_bit_simps group_guard_off)
qed

theorem uni_byte_size_length: "uni_byte_size wr m = length (uni_serialize wr m)"
  by (simp add: uni_byte_size_def uni_serialize_def uni_size_0_length value_size(4))

end

end
