(* ===== verification/Pb_CanDt.thy ===== *)
theory Pb_CanDt
  imports Pb_Wire
begin

text \<open>
  The generated class \<^verbatim>\<open>RecReg_CanDt\<close>: its fields and has-bits, the accessors of
  \<^verbatim>\<open>message.pb.h\<close>, and \<^verbatim>\<open>SharedCtor\<close>, \<^verbatim>\<open>Clear\<close>, \<^verbatim>\<open>MergeFrom\<close>, \<^verbatim>\<open>IsInitialized\<close> and
  \<^verbatim>\<open>MergePartialFromCodedStream\<close> of \<^verbatim>\<open>message.pb.cc\<close>, with the serialiser and
  the byte size, and the round trip between parser and serialiser. Signed fields hold their two's
  complement. The abstraction \<open>can_abs\<close> reads the message as a map from field numbers to the
  values that are set; merging is then the override of maps.
\<close>

section \<open>Fields and accessors\<close>

record 'u candt =
  can_has_bits :: u32
  can_unknown :: 'u
  can_spn70 :: u32
  can_spn91 :: u32
  can_spn100 :: u32
  can_spn110 :: u32
  can_spn174 :: u32
  can_spn175 :: u32
  can_spn182 :: u32
  can_spn184 :: u32
  can_spn190 :: u32
  can_spn244 :: u32
  can_spn245 :: u32
  can_spn247 :: u32
  can_spn250 :: u32
  can_spn521 :: u32
  can_spn522 :: u32
  can_spn527 :: u32
  can_spn582 :: "u32 list"
  can_spn597 :: u32
  can_spn598 :: u32
  can_spn914 :: u32
  can_spn916 :: u32
  can_spn928 :: "u32 list"
  can_spn1624 :: u32
  can_spn1821 :: u32
  can_spn1856 :: u32

definition can_has_spn70 :: "'u candt \<Rightarrow> bool" where
  "can_has_spn70 m \<longleftrightarrow> can_has_bits m AND 0x00000001 \<noteq> 0"

definition can_set_has_spn70 :: "'u candt \<Rightarrow> 'u candt" where
  "can_set_has_spn70 m = m\<lparr>can_has_bits := can_has_bits m OR 0x00000001\<rparr>"

definition can_set_spn70 :: "u32 \<Rightarrow> 'u candt \<Rightarrow> 'u candt" where
  "can_set_spn70 v m = (can_set_has_spn70 m)\<lparr>can_spn70 := v\<rparr>"

definition can_has_spn91 :: "'u candt \<Rightarrow> bool" where
  "can_has_spn91 m \<longleftrightarrow> can_has_bits m AND 0x00000002 \<noteq> 0"

definition can_set_has_spn91 :: "'u candt \<Rightarrow> 'u candt" where
  "can_set_has_spn91 m = m\<lparr>can_has_bits := can_has_bits m OR 0x00000002\<rparr>"

definition can_set_spn91 :: "u32 \<Rightarrow> 'u candt \<Rightarrow> 'u candt" where
  "can_set_spn91 v m = (can_set_has_spn91 m)\<lparr>can_spn91 := v\<rparr>"

definition can_has_spn100 :: "'u candt \<Rightarrow> bool" where
  "can_has_spn100 m \<longleftrightarrow> can_has_bits m AND 0x00000004 \<noteq> 0"

definition can_set_has_spn100 :: "'u candt \<Rightarrow> 'u candt" where
  "can_set_has_spn100 m = m\<lparr>can_has_bits := can_has_bits m OR 0x00000004\<rparr>"

definition can_set_spn100 :: "u32 \<Rightarrow> 'u candt \<Rightarrow> 'u candt" where
  "can_set_spn100 v m = (can_set_has_spn100 m)\<lparr>can_spn100 := v\<rparr>"

definition can_has_spn110 :: "'u candt \<Rightarrow> bool" where
  "can_has_spn110 m \<longleftrightarrow> can_has_bits m AND 0x00000008 \<noteq> 0"

definition can_set_has_spn110 :: "'u candt \<Rightarrow> 'u candt" where
  "can_set_has_spn110 m = m\<lparr>can_has_bits := can_has_bits m OR 0x00000008\<rparr>"

definition can_set_spn110 :: "u32 \<Rightarrow> 'u candt \<Rightarrow> 'u candt" where
  "can_set_spn110 v m = (can_set_has_spn110 m)\<lparr>can_spn110 := v\<rparr>"

definition can_has_spn174 :: "'u candt \<Rightarrow> bool" where
  "can_has_spn174 m \<longleftrightarrow> can_has_bits m AND 0x00000010 \<noteq> 0"

definition can_set_has_spn174 :: "'u candt \<Rightarrow> 'u candt" where
  "can_set_has_spn174 m = m\<lparr>can_has_bits := can_has_bits m OR 0x00000010\<rparr>"

definition can_set_spn174 :: "u32 \<Rightarrow> 'u candt \<Rightarrow> 'u candt" where
  "can_set_spn174 v m = (can_set_has_spn174 m)\<lparr>can_spn174 := v\<rparr>"

definition can_has_spn175 :: "'u candt \<Rightarrow> bool" where
  "can_has_spn175 m \<longleftrightarrow> can_has_bits m AND 0x00000020 \<noteq> 0"

definition can_set_has_spn175 :: "'u candt \<Rightarrow> 'u candt" where
  "can_set_has_spn175 m = m\<lparr>can_has_bits := can_has_bits m OR 0x00000020\<rparr>"

definition can_set_spn175 :: "u32 \<Rightarrow> 'u candt \<Rightarrow> 'u candt" where
  "can_set_spn175 v m = (can_set_has_spn175 m)\<lparr>can_spn175 := v\<rparr>"

definition can_has_spn182 :: "'u candt \<Rightarrow> bool" where
  "can_has_spn182 m \<longleftrightarrow> can_has_bits m AND 0x00000040 \<noteq> 0"

definition can_set_has_spn182 :: "'u candt \<Rightarrow> 'u candt" where
  "can_set_has_spn182 m = m\<lparr>can_has_bits := can_has_bits m OR 0x00000040\<rparr>"

definition can_set_spn182 :: "u32 \<Rightarrow> 'u candt \<Rightarrow> 'u candt" where
  "can_set_spn182 v m = (can_set_has_spn182 m)\<lparr>can_spn182 := v\<rparr>"

definition can_has_spn184 :: "'u candt \<Rightarrow> bool" where
  "can_has_spn184 m \<longleftrightarrow> can_has_bits m AND 0x00000080 \<noteq> 0"

definition can_set_has_spn184 :: "'u candt \<Rightarrow> 'u candt" where
  "can_set_has_spn184 m = m\<lparr>can_has_bits := can_has_bits m OR 0x00000080\<rparr>"

definition can_set_spn184 :: "u32 \<Rightarrow> 'u candt \<Rightarrow> 'u candt" where
  "can_set_spn184 v m = (can_set_has_spn184 m)\<lparr>can_spn184 := v\<rparr>"

definition can_has_spn190 :: "'u candt \<Rightarrow> bool" where
  "can_has_spn190 m \<longleftrightarrow> can_has_bits m AND 0x00000100 \<noteq> 0"

definition can_set_has_spn190 :: "'u candt \<Rightarrow> 'u candt" where
  "can_set_has_spn190 m = m\<lparr>can_has_bits := can_has_bits m OR 0x00000100\<rparr>"

definition can_set_spn190 :: "u32 \<Rightarrow> 'u candt \<Rightarrow> 'u candt" where
  "can_set_spn190 v m = (can_set_has_spn190 m)\<lparr>can_spn190 := v\<rparr>"

definition can_has_spn244 :: "'u candt \<Rightarrow> bool" where
  "can_has_spn244 m \<longleftrightarrow> can_has_bits m AND 0x00000200 \<noteq> 0"

definition can_set_has_spn244 :: "'u candt \<Rightarrow> 'u candt" where
  "can_set_has_spn244 m = m\<lparr>can_has_bits := can_has_bits m OR 0x00000200\<rparr>"

definition can_set_spn244 :: "u32 \<Rightarrow> 'u candt \<Rightarrow> 'u candt" where
  "can_set_spn244 v m = (can_set_has_spn244 m)\<lparr>can_spn244 := v\<rparr>"

definition can_has_spn245 :: "'u candt \<Rightarrow> bool" where
  "can_has_spn245 m \<longleftrightarrow> can_has_bits m AND 0x00000400 \<noteq> 0"

definition can_set_has_spn245 :: "'u candt \<Rightarrow> 'u candt" where
  "can_set_has_spn245 m = m\<lparr>can_has_bits := can_has_bits m OR 0x00000400\<rparr>"

definition can_set_spn245 :: "u32 \<Rightarrow> 'u candt \<Rightarrow> 'u candt" where
  "can_set_spn245 v m = (can_set_has_spn245 m)\<lparr>can_spn245 := v\<rparr>"

definition can_has_spn247 :: "'u candt \<Rightarrow> bool" where
  "can_has_spn247 m \<longleftrightarrow> can_has_bits m AND 0x00000800 \<noteq> 0"

definition can_set_has_spn247 :: "'u candt \<Rightarrow> 'u candt" where
  "can_set_has_spn247 m = m\<lparr>can_has_bits := can_has_bits m OR 0x00000800\<rparr>"

definition can_set_spn247 :: "u32 \<Rightarrow> 'u candt \<Rightarrow> 'u candt" where
  "can_set_spn247 v m = (can_set_has_spn247 m)\<lparr>can_spn247 := v\<rparr>"

definition can_has_spn250 :: "'u candt \<Rightarrow> bool" where
  "can_has_spn250 m \<longleftrightarrow> can_has_bits m AND 0x00001000 \<noteq> 0"

definition can_set_has_spn250 :: "'u candt \<Rightarrow> 'u candt" where
  "can_set_has_spn250 m = m\<lparr>can_has_bits := can_has_bits m OR 0x00001000\<rparr>"

definition can_set_spn250 :: "u32 \<Rightarrow> 'u candt \<Rightarrow> 'u candt" where
  "can_set_spn250 v m = (can_set_has_spn250 m)\<lparr>can_spn250 := v\<rparr>"

definition can_has_spn521 :: "'u candt \<Rightarrow> bool" where
  "can_has_spn521 m \<longleftrightarrow> can_has_bits m AND 0x00002000 \<noteq> 0"

definition can_set_has_spn521 :: "'u candt \<Rightarrow> 'u candt" where
  "can_set_has_spn521 m = m\<lparr>can_has_bits := can_has_bits m OR 0x00002000\<rparr>"

definition can_set_spn521 :: "u32 \<Rightarrow> 'u candt \<Rightarrow> 'u candt" where
  "can_set_spn521 v m = (can_set_has_spn521 m)\<lparr>can_spn521 := v\<rparr>"

definition can_has_spn522 :: "'u candt \<Rightarrow> bool" where
  "can_has_spn522 m \<longleftrightarrow> can_has_bits m AND 0x00004000 \<noteq> 0"

definition can_set_has_spn522 :: "'u candt \<Rightarrow> 'u candt" where
  "can_set_has_spn522 m = m\<lparr>can_has_bits := can_has_bits m OR 0x00004000\<rparr>"

definition can_set_spn522 :: "u32 \<Rightarrow> 'u candt \<Rightarrow> 'u candt" where
  "can_set_spn522 v m = (can_set_has_spn522 m)\<lparr>can_spn522 := v\<rparr>"

definition can_has_spn527 :: "'u candt \<Rightarrow> bool" where
  "can_has_spn527 m \<longleftrightarrow> can_has_bits m AND 0x00008000 \<noteq> 0"

definition can_set_has_spn527 :: "'u candt \<Rightarrow> 'u candt" where
  "can_set_has_spn527 m = m\<lparr>can_has_bits := can_has_bits m OR 0x00008000\<rparr>"

definition can_set_spn527 :: "u32 \<Rightarrow> 'u candt \<Rightarrow> 'u candt" where
  "can_set_spn527 v m = (can_set_has_spn527 m)\<lparr>can_spn527 := v\<rparr>"

definition can_has_spn597 :: "'u candt \<Rightarrow> bool" where
  "can_has_spn597 m \<longleftrightarrow> can_has_bits m AND 0x00020000 \<noteq> 0"

definition can_set_has_spn597 :: "'u candt \<Rightarrow> 'u candt" where
  "can_set_has_spn597 m = m\<lparr>can_has_bits := can_has_bits m OR 0x00020000\<rparr>"

definition can_set_spn597 :: "u32 \<Rightarrow> 'u candt \<Rightarrow> 'u candt" where
  "can_set_spn597 v m = (can_set_has_spn597 m)\<lparr>can_spn597 := v\<rparr>"

definition can_has_spn598 :: "'u candt \<Rightarrow> bool" where
  "can_has_spn598 m \<longleftrightarrow> can_has_bits m AND 0x00040000 \<noteq> 0"

definition can_set_has_spn598 :: "'u candt \<Rightarrow> 'u candt" where
  "can_set_has_spn598 m = m\<lparr>can_has_bits := can_has_bits m OR 0x00040000\<rparr>"

definition can_set_spn598 :: "u32 \<Rightarrow> 'u candt \<Rightarrow> 'u candt" where
  "can_set_spn598 v m = (can_set_has_spn598 m)\<lparr>can_spn598 := v\<rparr>"

definition can_has_spn914 :: "'u candt \<Rightarrow> bool" where
  "can_has_spn914 m \<longleftrightarrow> can_has_bits m AND 0x00080000 \<noteq> 0"

definition can_set_has_spn914 :: "'u candt \<Rightarrow> 'u candt" where
  "can_set_has_spn914 m = m\<lparr>can_has_bits := can_has_bits m OR 0x00080000\<rparr>"

definition can_set_spn914 :: "u32 \<Rightarrow> 'u candt \<Rightarrow> 'u candt" where
  "can_set_spn914 v m = (can_set_has_spn914 m)\<lparr>can_spn914 := v\<rparr>"

definition can_has_spn916 :: "'u candt \<Rightarrow> bool" where
  "can_has_spn916 m \<longleftrightarrow> can_has_bits m AND 0x00100000 \<noteq> 0"

definition can_set_has_spn916 :: "'u candt \<Rightarrow> 'u candt" where
  "can_set_has_spn916 m = m\<lparr>can_has_bits := can_has_bits m OR 0x00100000\<rparr>"

definition can_set_spn916 :: "u32 \<Rightarrow> 'u candt \<Rightarrow> 'u candt" where
  "can_set_spn916 v m = (can_set_has_spn916 m)\<lparr>can_spn916 := v\<rparr>"

definition can_has_spn1624 :: "'u candt \<Rightarrow> bool" where
  "can_has_spn1624 m \<longleftrightarrow> can_has_bits m AND 0x00400000 \<noteq> 0"

definition can_set_has_spn1624 :: "'u candt \<Rightarrow> 'u candt" where
  "can_set_has_spn1624 m = m\<lparr>can_has_bits := can_has_bits m OR 0x00400000\<rparr>"

definition can_set_spn1624 :: "u32 \<Rightarrow> 'u candt \<Rightarrow> 'u candt" where
  "can_set_spn1624 v m = (can_set_has_spn1624 m)\<lparr>can_spn1624 := v\<rparr>"

definition can_has_spn1821 :: "'u candt \<Rightarrow> bool" where
  "can_has_spn1821 m \<longleftrightarrow> can_has_bits m AND 0x00800000 \<noteq> 0"

definition can_set_has_spn1821 :: "'u candt \<Rightarrow> 'u candt" where
  "can_set_has_spn1821 m = m\<lparr>can_has_bits := can_has_bits m OR 0x00800000\<rparr>"

definition can_set_spn1821 :: "u32 \<Rightarrow> 'u candt \<Rightarrow> 'u candt" where
  "can_set_spn1821 v m = (can_set_has_spn1821 m)\<lparr>can_spn1821 := v\<rparr>"

definition can_has_spn1856 :: "'u candt \<Rightarrow> bool" where
  "can_has_spn1856 m \<longleftrightarrow> can_has_bits m AND 0x01000000 \<noteq> 0"

definition can_set_has_spn1856 :: "'u candt \<Rightarrow> 'u candt" where
  "can_set_has_spn1856 m = m\<lparr>can_has_bits := can_has_bits m OR 0x01000000\<rparr>"

definition can_set_spn1856 :: "u32 \<Rightarrow> 'u candt \<Rightarrow> 'u candt" where
  "can_set_spn1856 v m = (can_set_has_spn1856 m)\<lparr>can_spn1856 := v\<rparr>"

lemma can_has_bit [has_bit_simps]:
  "can_has_spn70 m \<longleftrightarrow> bit (can_has_bits m) 0"
  "can_has_spn91 m \<longleftrightarrow> bit (can_has_bits m) 1"
  "can_has_spn100 m \<longleftrightarrow> bit (can_has_bits m) 2"
  "can_has_spn110 m \<longleftrightarrow> bit (can_has_bits m) 3"
  "can_has_spn174 m \<longleftrightarrow> bit (can_has_bits m) 4"
  "can_has_spn175 m \<longleftrightarrow> bit (can_has_bits m) 5"
  "can_has_spn182 m \<longleftrightarrow> bit (can_has_bits m) 6"
  "can_has_spn184 m \<longleftrightarrow> bit (can_has_bits m) 7"
  "can_has_spn190 m \<longleftrightarrow> bit (can_has_bits m) 8"
  "can_has_spn244 m \<longleftrightarrow> bit (can_has_bits m) 9"
  "can_has_spn245 m \<longleftrightarrow> bit (can_has_bits m) 10"
  "can_has_spn247 m \<longleftrightarrow> bit (can_has_bits m) 11"
  "can_has_spn250 m \<longleftrightarrow> bit (can_has_bits m) 12"
  "can_has_spn521 m \<longleftrightarrow> bit (can_has_bits m) 13"
  "can_has_spn522 m \<longleftrightarrow> bit (can_has_bits m) 14"
  "can_has_spn527 m \<longleftrightarrow> bit (can_has_bits m) 15"
  "can_has_spn597 m \<longleftrightarrow> bit (can_has_bits m) 17"
  "can_has_spn598 m \<longleftrightarrow> bit (can_has_bits m) 18"
  "can_has_spn914 m \<longleftrightarrow> bit (can_has_bits m) 19"
  "can_has_spn916 m \<longleftrightarrow> bit (can_has_bits m) 20"
  "can_has_spn1624 m \<longleftrightarrow> bit (can_has_bits m) 22"
  "can_has_spn1821 m \<longleftrightarrow> bit (can_has_bits m) 23"
  "can_has_spn1856 m \<longleftrightarrow> bit (can_has_bits m) 24"
  using and_one_bit [of "can_has_bits m" 0]
    and_one_bit [of "can_has_bits m" 1]
    and_one_bit [of "can_has_bits m" 2]
    and_one_bit [of "can_has_bits m" 3]
    and_one_bit [of "can_has_bits m" 4]
    and_one_bit [of "can_has_bits m" 5]
    and_one_bit [of "can_has_bits m" 6]
    and_one_bit [of "can_has_bits m" 7]
    and_one_bit [of "can_has_bits m" 8]
    and_one_bit [of "can_has_bits m" 9]
    and_one_bit [of "can_has_bits m" 10]
    and_one_bit [of "can_has_bits m" 11]
    and_one_bit [of "can_has_bits m" 12]
    and_one_bit [of "can_has_bits m" 13]
    and_one_bit [of "can_has_bits m" 14]
    and_one_bit [of "can_has_bits m" 15]
    and_one_bit [of "can_has_bits m" 17]
    and_one_bit [of "can_has_bits m" 18]
    and_one_bit [of "can_has_bits m" 19]
    and_one_bit [of "can_has_bits m" 20]
    and_one_bit [of "can_has_bits m" 22]
    and_one_bit [of "can_has_bits m" 23]
    and_one_bit [of "can_has_bits m" 24]
  by (simp_all add: can_has_spn70_def can_has_spn91_def can_has_spn100_def can_has_spn110_def can_has_spn174_def can_has_spn175_def can_has_spn182_def can_has_spn184_def can_has_spn190_def can_has_spn244_def can_has_spn245_def can_has_spn247_def can_has_spn250_def can_has_spn521_def can_has_spn522_def can_has_spn527_def can_has_spn597_def can_has_spn598_def can_has_spn914_def can_has_spn916_def can_has_spn1624_def can_has_spn1821_def can_has_spn1856_def)

lemmas can_set_defs =
  can_set_has_spn70_def can_set_spn70_def
  can_set_has_spn91_def can_set_spn91_def
  can_set_has_spn100_def can_set_spn100_def
  can_set_has_spn110_def can_set_spn110_def
  can_set_has_spn174_def can_set_spn174_def
  can_set_has_spn175_def can_set_spn175_def
  can_set_has_spn182_def can_set_spn182_def
  can_set_has_spn184_def can_set_spn184_def
  can_set_has_spn190_def can_set_spn190_def
  can_set_has_spn244_def can_set_spn244_def
  can_set_has_spn245_def can_set_spn245_def
  can_set_has_spn247_def can_set_spn247_def
  can_set_has_spn250_def can_set_spn250_def
  can_set_has_spn521_def can_set_spn521_def
  can_set_has_spn522_def can_set_spn522_def
  can_set_has_spn527_def can_set_spn527_def
  can_set_has_spn597_def can_set_spn597_def
  can_set_has_spn598_def can_set_spn598_def
  can_set_has_spn914_def can_set_spn914_def
  can_set_has_spn916_def can_set_spn916_def
  can_set_has_spn1624_def can_set_spn1624_def
  can_set_has_spn1821_def can_set_spn1821_def
  can_set_has_spn1856_def can_set_spn1856_def

lemma can_or_bit [has_bit_simps]:
  "bit ((w :: u32) OR 0x00000001) n \<longleftrightarrow> bit w n \<or> n = 0"
  "bit ((w :: u32) OR 0x00000002) n \<longleftrightarrow> bit w n \<or> n = 1"
  "bit ((w :: u32) OR 0x00000004) n \<longleftrightarrow> bit w n \<or> n = 2"
  "bit ((w :: u32) OR 0x00000008) n \<longleftrightarrow> bit w n \<or> n = 3"
  "bit ((w :: u32) OR 0x00000010) n \<longleftrightarrow> bit w n \<or> n = 4"
  "bit ((w :: u32) OR 0x00000020) n \<longleftrightarrow> bit w n \<or> n = 5"
  "bit ((w :: u32) OR 0x00000040) n \<longleftrightarrow> bit w n \<or> n = 6"
  "bit ((w :: u32) OR 0x00000080) n \<longleftrightarrow> bit w n \<or> n = 7"
  "bit ((w :: u32) OR 0x00000100) n \<longleftrightarrow> bit w n \<or> n = 8"
  "bit ((w :: u32) OR 0x00000200) n \<longleftrightarrow> bit w n \<or> n = 9"
  "bit ((w :: u32) OR 0x00000400) n \<longleftrightarrow> bit w n \<or> n = 10"
  "bit ((w :: u32) OR 0x00000800) n \<longleftrightarrow> bit w n \<or> n = 11"
  "bit ((w :: u32) OR 0x00001000) n \<longleftrightarrow> bit w n \<or> n = 12"
  "bit ((w :: u32) OR 0x00002000) n \<longleftrightarrow> bit w n \<or> n = 13"
  "bit ((w :: u32) OR 0x00004000) n \<longleftrightarrow> bit w n \<or> n = 14"
  "bit ((w :: u32) OR 0x00008000) n \<longleftrightarrow> bit w n \<or> n = 15"
  "bit ((w :: u32) OR 0x00020000) n \<longleftrightarrow> bit w n \<or> n = 17"
  "bit ((w :: u32) OR 0x00040000) n \<longleftrightarrow> bit w n \<or> n = 18"
  "bit ((w :: u32) OR 0x00080000) n \<longleftrightarrow> bit w n \<or> n = 19"
  "bit ((w :: u32) OR 0x00100000) n \<longleftrightarrow> bit w n \<or> n = 20"
  "bit ((w :: u32) OR 0x00400000) n \<longleftrightarrow> bit w n \<or> n = 22"
  "bit ((w :: u32) OR 0x00800000) n \<longleftrightarrow> bit w n \<or> n = 23"
  "bit ((w :: u32) OR 0x01000000) n \<longleftrightarrow> bit w n \<or> n = 24"
  using or_one_bit [of 0 w n]
    or_one_bit [of 1 w n]
    or_one_bit [of 2 w n]
    or_one_bit [of 3 w n]
    or_one_bit [of 4 w n]
    or_one_bit [of 5 w n]
    or_one_bit [of 6 w n]
    or_one_bit [of 7 w n]
    or_one_bit [of 8 w n]
    or_one_bit [of 9 w n]
    or_one_bit [of 10 w n]
    or_one_bit [of 11 w n]
    or_one_bit [of 12 w n]
    or_one_bit [of 13 w n]
    or_one_bit [of 14 w n]
    or_one_bit [of 15 w n]
    or_one_bit [of 17 w n]
    or_one_bit [of 18 w n]
    or_one_bit [of 19 w n]
    or_one_bit [of 20 w n]
    or_one_bit [of 22 w n]
    or_one_bit [of 23 w n]
    or_one_bit [of 24 w n]
  by simp_all

section \<open>Construction and \<open>Clear\<close>\<close>

definition can_new :: "'u \<Rightarrow> 'u candt" where
  "can_new u = \<lparr>can_has_bits = 0, can_unknown = u,
     can_spn70 = 0, can_spn91 = 0, can_spn100 = 0, can_spn110 = 0,
     can_spn174 = 0, can_spn175 = 0, can_spn182 = 0, can_spn184 = 0,
     can_spn190 = 0, can_spn244 = 0, can_spn245 = 0, can_spn247 = 0,
     can_spn250 = 0, can_spn521 = 0, can_spn522 = 0, can_spn527 = 0,
     can_spn582 = [], can_spn597 = 0, can_spn598 = 0, can_spn914 = 0,
     can_spn916 = 0, can_spn928 = [], can_spn1624 = 0, can_spn1821 = 0,
     can_spn1856 = 0\<rparr>"

definition can_clear_0 :: "'u candt \<Rightarrow> 'u candt" where
  "can_clear_0 m =
     (if group_guard (can_has_bits m) 0
      then m\<lparr>can_spn70 := 0, can_spn91 := 0, can_spn100 := 0,
        can_spn110 := 0, can_spn174 := 0, can_spn175 := 0,
        can_spn182 := 0, can_spn184 := 0\<rparr>
      else m)"

definition can_clear_8 :: "'u candt \<Rightarrow> 'u candt" where
  "can_clear_8 m =
     (if group_guard (can_has_bits m) 8
      then m\<lparr>can_spn190 := 0, can_spn244 := 0, can_spn245 := 0,
        can_spn247 := 0, can_spn250 := 0, can_spn521 := 0,
        can_spn522 := 0, can_spn527 := 0\<rparr>
      else m)"

definition can_clear_17 :: "'u candt \<Rightarrow> 'u candt" where
  "can_clear_17 m =
     (if group_guard (can_has_bits m) 17
      then m\<lparr>can_spn597 := 0, can_spn598 := 0, can_spn914 := 0,
        can_spn916 := 0, can_spn1624 := 0, can_spn1821 := 0\<rparr>
      else m)"

definition can_clear_24 :: "'u candt \<Rightarrow> 'u candt" where
  "can_clear_24 m =
     (if group_guard (can_has_bits m) 24
      then m\<lparr>can_spn1856 := 0\<rparr>
      else m)"

definition can_clear :: "('s, 'u) runtime \<Rightarrow> 'u candt \<Rightarrow> 'u candt" where
  "can_clear rt m = (can_clear_24 (can_clear_17 (can_clear_8 (can_clear_0 m))))\<lparr>can_has_bits := 0, can_unknown := rt_unknown_empty rt, can_spn582 := [], can_spn928 := []\<rparr>"

text \<open>A field that is not set holds its default: \<^verbatim>\<open>Clear\<close> relies on it when it skips a group.\<close>

definition can_wf :: "'u candt \<Rightarrow> bool" where
  "can_wf m \<longleftrightarrow>
     (\<not> can_has_spn70 m \<longrightarrow> can_spn70 m = 0) \<and>
     (\<not> can_has_spn91 m \<longrightarrow> can_spn91 m = 0) \<and>
     (\<not> can_has_spn100 m \<longrightarrow> can_spn100 m = 0) \<and>
     (\<not> can_has_spn110 m \<longrightarrow> can_spn110 m = 0) \<and>
     (\<not> can_has_spn174 m \<longrightarrow> can_spn174 m = 0) \<and>
     (\<not> can_has_spn175 m \<longrightarrow> can_spn175 m = 0) \<and>
     (\<not> can_has_spn182 m \<longrightarrow> can_spn182 m = 0) \<and>
     (\<not> can_has_spn184 m \<longrightarrow> can_spn184 m = 0) \<and>
     (\<not> can_has_spn190 m \<longrightarrow> can_spn190 m = 0) \<and>
     (\<not> can_has_spn244 m \<longrightarrow> can_spn244 m = 0) \<and>
     (\<not> can_has_spn245 m \<longrightarrow> can_spn245 m = 0) \<and>
     (\<not> can_has_spn247 m \<longrightarrow> can_spn247 m = 0) \<and>
     (\<not> can_has_spn250 m \<longrightarrow> can_spn250 m = 0) \<and>
     (\<not> can_has_spn521 m \<longrightarrow> can_spn521 m = 0) \<and>
     (\<not> can_has_spn522 m \<longrightarrow> can_spn522 m = 0) \<and>
     (\<not> can_has_spn527 m \<longrightarrow> can_spn527 m = 0) \<and>
     (\<not> can_has_spn597 m \<longrightarrow> can_spn597 m = 0) \<and>
     (\<not> can_has_spn598 m \<longrightarrow> can_spn598 m = 0) \<and>
     (\<not> can_has_spn914 m \<longrightarrow> can_spn914 m = 0) \<and>
     (\<not> can_has_spn916 m \<longrightarrow> can_spn916 m = 0) \<and>
     (\<not> can_has_spn1624 m \<longrightarrow> can_spn1624 m = 0) \<and>
     (\<not> can_has_spn1821 m \<longrightarrow> can_spn1821 m = 0) \<and>
     (\<not> can_has_spn1856 m \<longrightarrow> can_spn1856 m = 0)"

lemma can_wf_new [simp]: "can_wf (can_new u)"
  by (simp add: can_wf_def can_new_def)

lemma can_clear_0_wf:
  assumes "can_wf m"
  shows "can_clear_0 m = m\<lparr>can_spn70 := 0, can_spn91 := 0, can_spn100 := 0, can_spn110 := 0, can_spn174 := 0, can_spn175 := 0, can_spn182 := 0, can_spn184 := 0\<rparr>"
proof (cases "group_guard (can_has_bits m) 0")
  case True
  with assms show ?thesis by (simp add: can_clear_0_def can_wf_def)
next
  case False
  with assms show ?thesis
    by (cases m) (simp add: can_clear_0_def can_wf_def has_bit_simps group_guard_off)
qed

lemma can_clear_8_wf:
  assumes "can_wf m"
  shows "can_clear_8 m = m\<lparr>can_spn190 := 0, can_spn244 := 0, can_spn245 := 0, can_spn247 := 0, can_spn250 := 0, can_spn521 := 0, can_spn522 := 0, can_spn527 := 0\<rparr>"
proof (cases "group_guard (can_has_bits m) 8")
  case True
  with assms show ?thesis by (simp add: can_clear_8_def can_wf_def)
next
  case False
  with assms show ?thesis
    by (cases m) (simp add: can_clear_8_def can_wf_def has_bit_simps group_guard_off)
qed

lemma can_clear_17_wf:
  assumes "can_wf m"
  shows "can_clear_17 m = m\<lparr>can_spn597 := 0, can_spn598 := 0, can_spn914 := 0, can_spn916 := 0, can_spn1624 := 0, can_spn1821 := 0\<rparr>"
proof (cases "group_guard (can_has_bits m) 17")
  case True
  with assms show ?thesis by (simp add: can_clear_17_def can_wf_def)
next
  case False
  with assms show ?thesis
    by (cases m) (simp add: can_clear_17_def can_wf_def has_bit_simps group_guard_off)
qed

lemma can_clear_24_wf:
  assumes "can_wf m"
  shows "can_clear_24 m = m\<lparr>can_spn1856 := 0\<rparr>"
proof (cases "group_guard (can_has_bits m) 24")
  case True
  with assms show ?thesis by (simp add: can_clear_24_def can_wf_def)
next
  case False
  with assms show ?thesis
    by (cases m) (simp add: can_clear_24_def can_wf_def has_bit_simps group_guard_off)
qed

lemma can_clear_fresh:
  assumes "can_wf m"
  shows "can_clear rt m = can_new (rt_unknown_empty rt)"
proof -
  have w0: "can_wf (m)" by (rule assms)
  note e0 = can_clear_0_wf [OF w0]
  have w1: "can_wf (can_clear_0 m)"
    using w0 unfolding e0 by (simp add: can_wf_def has_bit_simps)
  note e1 = can_clear_8_wf [OF w1, unfolded e0]
  have w2: "can_wf (can_clear_8 (can_clear_0 m))"
    using w1 unfolding e0 e1 by (simp add: can_wf_def has_bit_simps)
  note e2 = can_clear_17_wf [OF w2, unfolded e0 e1]
  have w3: "can_wf (can_clear_17 (can_clear_8 (can_clear_0 m)))"
    using w2 unfolding e0 e1 e2 by (simp add: can_wf_def has_bit_simps)
  note e3 = can_clear_24_wf [OF w3, unfolded e0 e1 e2]
  show ?thesis
    unfolding can_clear_def e3 e2 e1 e0 by (cases m) (simp add: can_new_def)
qed

section \<open>The message as a map\<close>

definition can_abs :: "'u candt \<Rightarrow> (nat \<rightharpoonup> pval)" where
  "can_abs m k =
     (if k = 70 then when_has (can_has_spn70 m) (PU (can_spn70 m))
      else if k = 91 then when_has (can_has_spn91 m) (PU (can_spn91 m))
      else if k = 100 then when_has (can_has_spn100 m) (PU (can_spn100 m))
      else if k = 110 then when_has (can_has_spn110 m) (PU (can_spn110 m))
      else if k = 174 then when_has (can_has_spn174 m) (PU (can_spn174 m))
      else if k = 175 then when_has (can_has_spn175 m) (PU (can_spn175 m))
      else if k = 182 then when_has (can_has_spn182 m) (PU (can_spn182 m))
      else if k = 184 then when_has (can_has_spn184 m) (PU (can_spn184 m))
      else if k = 190 then when_has (can_has_spn190 m) (PU (can_spn190 m))
      else if k = 244 then when_has (can_has_spn244 m) (PU (can_spn244 m))
      else if k = 245 then when_has (can_has_spn245 m) (PU (can_spn245 m))
      else if k = 247 then when_has (can_has_spn247 m) (PU (can_spn247 m))
      else if k = 250 then when_has (can_has_spn250 m) (PU (can_spn250 m))
      else if k = 521 then when_has (can_has_spn521 m) (PU (can_spn521 m))
      else if k = 522 then when_has (can_has_spn522 m) (PU (can_spn522 m))
      else if k = 527 then when_has (can_has_spn527 m) (PU (can_spn527 m))
      else if k = 597 then when_has (can_has_spn597 m) (PU (can_spn597 m))
      else if k = 598 then when_has (can_has_spn598 m) (PU (can_spn598 m))
      else if k = 914 then when_has (can_has_spn914 m) (PU (can_spn914 m))
      else if k = 916 then when_has (can_has_spn916 m) (PU (can_spn916 m))
      else if k = 1624 then when_has (can_has_spn1624 m) (PU (can_spn1624 m))
      else if k = 1821 then when_has (can_has_spn1821 m) (PU (can_spn1821 m))
      else if k = 1856 then when_has (can_has_spn1856 m) (PU (can_spn1856 m))
      else None)"

lemma can_abs_new: "can_abs (can_new u) = Map.empty"
  by (rule ext) (simp add: can_abs_def can_new_def has_bit_simps)

lemma can_abs_set:
  "can_abs (can_set_spn70 v m) = (can_abs m)(70 \<mapsto> PU v)"
  "can_abs (can_set_spn91 v m) = (can_abs m)(91 \<mapsto> PU v)"
  "can_abs (can_set_spn100 v m) = (can_abs m)(100 \<mapsto> PU v)"
  "can_abs (can_set_spn110 v m) = (can_abs m)(110 \<mapsto> PU v)"
  "can_abs (can_set_spn174 v m) = (can_abs m)(174 \<mapsto> PU v)"
  "can_abs (can_set_spn175 v m) = (can_abs m)(175 \<mapsto> PU v)"
  "can_abs (can_set_spn182 v m) = (can_abs m)(182 \<mapsto> PU v)"
  "can_abs (can_set_spn184 v m) = (can_abs m)(184 \<mapsto> PU v)"
  "can_abs (can_set_spn190 v m) = (can_abs m)(190 \<mapsto> PU v)"
  "can_abs (can_set_spn244 v m) = (can_abs m)(244 \<mapsto> PU v)"
  "can_abs (can_set_spn245 v m) = (can_abs m)(245 \<mapsto> PU v)"
  "can_abs (can_set_spn247 v m) = (can_abs m)(247 \<mapsto> PU v)"
  "can_abs (can_set_spn250 v m) = (can_abs m)(250 \<mapsto> PU v)"
  "can_abs (can_set_spn521 v m) = (can_abs m)(521 \<mapsto> PU v)"
  "can_abs (can_set_spn522 v m) = (can_abs m)(522 \<mapsto> PU v)"
  "can_abs (can_set_spn527 v m) = (can_abs m)(527 \<mapsto> PU v)"
  "can_abs (can_set_spn597 v m) = (can_abs m)(597 \<mapsto> PU v)"
  "can_abs (can_set_spn598 v m) = (can_abs m)(598 \<mapsto> PU v)"
  "can_abs (can_set_spn914 v m) = (can_abs m)(914 \<mapsto> PU v)"
  "can_abs (can_set_spn916 v m) = (can_abs m)(916 \<mapsto> PU v)"
  "can_abs (can_set_spn1624 v m) = (can_abs m)(1624 \<mapsto> PU v)"
  "can_abs (can_set_spn1821 v m) = (can_abs m)(1821 \<mapsto> PU v)"
  "can_abs (can_set_spn1856 v m) = (can_abs m)(1856 \<mapsto> PU v)"
  by (rule ext, simp add: can_abs_def can_set_defs has_bit_simps)+

lemma can_dom_abs: "dom (can_abs m) \<subseteq> set [70, 91, 100, 110, 174, 175, 182, 184, 190, 244, 245, 247, 250, 521, 522, 527, 597, 598, 914, 916, 1624, 1821, 1856]"
  by (auto simp: can_abs_def split: if_splits)

section \<open>\<open>MergeFrom\<close>\<close>

lemma can_abs_merge_field:
  "can_abs (merge_field can_has_spn70 can_spn70 can_set_spn70 from m) = put_opt 70 (can_abs from 70) (can_abs m)"
  "can_abs (merge_field can_has_spn91 can_spn91 can_set_spn91 from m) = put_opt 91 (can_abs from 91) (can_abs m)"
  "can_abs (merge_field can_has_spn100 can_spn100 can_set_spn100 from m) = put_opt 100 (can_abs from 100) (can_abs m)"
  "can_abs (merge_field can_has_spn110 can_spn110 can_set_spn110 from m) = put_opt 110 (can_abs from 110) (can_abs m)"
  "can_abs (merge_field can_has_spn174 can_spn174 can_set_spn174 from m) = put_opt 174 (can_abs from 174) (can_abs m)"
  "can_abs (merge_field can_has_spn175 can_spn175 can_set_spn175 from m) = put_opt 175 (can_abs from 175) (can_abs m)"
  "can_abs (merge_field can_has_spn182 can_spn182 can_set_spn182 from m) = put_opt 182 (can_abs from 182) (can_abs m)"
  "can_abs (merge_field can_has_spn184 can_spn184 can_set_spn184 from m) = put_opt 184 (can_abs from 184) (can_abs m)"
  "can_abs (merge_field can_has_spn190 can_spn190 can_set_spn190 from m) = put_opt 190 (can_abs from 190) (can_abs m)"
  "can_abs (merge_field can_has_spn244 can_spn244 can_set_spn244 from m) = put_opt 244 (can_abs from 244) (can_abs m)"
  "can_abs (merge_field can_has_spn245 can_spn245 can_set_spn245 from m) = put_opt 245 (can_abs from 245) (can_abs m)"
  "can_abs (merge_field can_has_spn247 can_spn247 can_set_spn247 from m) = put_opt 247 (can_abs from 247) (can_abs m)"
  "can_abs (merge_field can_has_spn250 can_spn250 can_set_spn250 from m) = put_opt 250 (can_abs from 250) (can_abs m)"
  "can_abs (merge_field can_has_spn521 can_spn521 can_set_spn521 from m) = put_opt 521 (can_abs from 521) (can_abs m)"
  "can_abs (merge_field can_has_spn522 can_spn522 can_set_spn522 from m) = put_opt 522 (can_abs from 522) (can_abs m)"
  "can_abs (merge_field can_has_spn527 can_spn527 can_set_spn527 from m) = put_opt 527 (can_abs from 527) (can_abs m)"
  "can_abs (merge_field can_has_spn597 can_spn597 can_set_spn597 from m) = put_opt 597 (can_abs from 597) (can_abs m)"
  "can_abs (merge_field can_has_spn598 can_spn598 can_set_spn598 from m) = put_opt 598 (can_abs from 598) (can_abs m)"
  "can_abs (merge_field can_has_spn914 can_spn914 can_set_spn914 from m) = put_opt 914 (can_abs from 914) (can_abs m)"
  "can_abs (merge_field can_has_spn916 can_spn916 can_set_spn916 from m) = put_opt 916 (can_abs from 916) (can_abs m)"
  "can_abs (merge_field can_has_spn1624 can_spn1624 can_set_spn1624 from m) = put_opt 1624 (can_abs from 1624) (can_abs m)"
  "can_abs (merge_field can_has_spn1821 can_spn1821 can_set_spn1821 from m) = put_opt 1821 (can_abs from 1821) (can_abs m)"
  "can_abs (merge_field can_has_spn1856 can_spn1856 can_set_spn1856 from m) = put_opt 1856 (can_abs from 1856) (can_abs m)"
  by (simp_all add: merge_field_def put_opt_def can_abs_set) (simp_all add: can_abs_def)

definition can_merge_0 :: "'u candt \<Rightarrow> 'u candt \<Rightarrow> 'u candt" where
  "can_merge_0 from m =
     (if group_guard (can_has_bits from) 0 then
        let m = merge_field can_has_spn70 can_spn70 can_set_spn70 from m;
            m = merge_field can_has_spn91 can_spn91 can_set_spn91 from m;
            m = merge_field can_has_spn100 can_spn100 can_set_spn100 from m;
            m = merge_field can_has_spn110 can_spn110 can_set_spn110 from m;
            m = merge_field can_has_spn174 can_spn174 can_set_spn174 from m;
            m = merge_field can_has_spn175 can_spn175 can_set_spn175 from m;
            m = merge_field can_has_spn182 can_spn182 can_set_spn182 from m;
            m = merge_field can_has_spn184 can_spn184 can_set_spn184 from m
        in m
      else m)"

lemma can_abs_merge_0:
  "can_abs (can_merge_0 from m) = foldl (\<lambda>M k. put_opt k (can_abs from k) M) (can_abs m) [70, 91, 100, 110, 174, 175, 182, 184]"
proof (cases "group_guard (can_has_bits from) 0")
  case True
  then show ?thesis by (simp add: can_merge_0_def Let_def can_abs_merge_field)
next
  case False
  then have "k \<in> set [70, 91, 100, 110, 174, 175, 182, 184] \<Longrightarrow> can_abs from k = None" for k
    by (auto simp: can_abs_def has_bit_simps group_guard_off)
  then show ?thesis using False by (simp only: put_opt_fold_none can_merge_0_def if_False)
qed

definition can_merge_8 :: "'u candt \<Rightarrow> 'u candt \<Rightarrow> 'u candt" where
  "can_merge_8 from m =
     (if group_guard (can_has_bits from) 8 then
        let m = merge_field can_has_spn190 can_spn190 can_set_spn190 from m;
            m = merge_field can_has_spn244 can_spn244 can_set_spn244 from m;
            m = merge_field can_has_spn245 can_spn245 can_set_spn245 from m;
            m = merge_field can_has_spn247 can_spn247 can_set_spn247 from m;
            m = merge_field can_has_spn250 can_spn250 can_set_spn250 from m;
            m = merge_field can_has_spn521 can_spn521 can_set_spn521 from m;
            m = merge_field can_has_spn522 can_spn522 can_set_spn522 from m;
            m = merge_field can_has_spn527 can_spn527 can_set_spn527 from m
        in m
      else m)"

lemma can_abs_merge_8:
  "can_abs (can_merge_8 from m) = foldl (\<lambda>M k. put_opt k (can_abs from k) M) (can_abs m) [190, 244, 245, 247, 250, 521, 522, 527]"
proof (cases "group_guard (can_has_bits from) 8")
  case True
  then show ?thesis by (simp add: can_merge_8_def Let_def can_abs_merge_field)
next
  case False
  then have "k \<in> set [190, 244, 245, 247, 250, 521, 522, 527] \<Longrightarrow> can_abs from k = None" for k
    by (auto simp: can_abs_def has_bit_simps group_guard_off)
  then show ?thesis using False by (simp only: put_opt_fold_none can_merge_8_def if_False)
qed

definition can_merge_17 :: "'u candt \<Rightarrow> 'u candt \<Rightarrow> 'u candt" where
  "can_merge_17 from m =
     (if group_guard (can_has_bits from) 17 then
        let m = merge_field can_has_spn597 can_spn597 can_set_spn597 from m;
            m = merge_field can_has_spn598 can_spn598 can_set_spn598 from m;
            m = merge_field can_has_spn914 can_spn914 can_set_spn914 from m;
            m = merge_field can_has_spn916 can_spn916 can_set_spn916 from m;
            m = merge_field can_has_spn1624 can_spn1624 can_set_spn1624 from m;
            m = merge_field can_has_spn1821 can_spn1821 can_set_spn1821 from m
        in m
      else m)"

lemma can_abs_merge_17:
  "can_abs (can_merge_17 from m) = foldl (\<lambda>M k. put_opt k (can_abs from k) M) (can_abs m) [597, 598, 914, 916, 1624, 1821]"
proof (cases "group_guard (can_has_bits from) 17")
  case True
  then show ?thesis by (simp add: can_merge_17_def Let_def can_abs_merge_field)
next
  case False
  then have "k \<in> set [597, 598, 914, 916, 1624, 1821] \<Longrightarrow> can_abs from k = None" for k
    by (auto simp: can_abs_def has_bit_simps group_guard_off)
  then show ?thesis using False by (simp only: put_opt_fold_none can_merge_17_def if_False)
qed

definition can_merge_24 :: "'u candt \<Rightarrow> 'u candt \<Rightarrow> 'u candt" where
  "can_merge_24 from m =
     (if group_guard (can_has_bits from) 24 then
        let m = merge_field can_has_spn1856 can_spn1856 can_set_spn1856 from m
        in m
      else m)"

lemma can_abs_merge_24:
  "can_abs (can_merge_24 from m) = foldl (\<lambda>M k. put_opt k (can_abs from k) M) (can_abs m) [1856]"
proof (cases "group_guard (can_has_bits from) 24")
  case True
  then show ?thesis by (simp add: can_merge_24_def Let_def can_abs_merge_field)
next
  case False
  then have "k \<in> set [1856] \<Longrightarrow> can_abs from k = None" for k
    by (auto simp: can_abs_def has_bit_simps group_guard_off)
  then show ?thesis using False by (simp only: put_opt_fold_none can_merge_24_def if_False)
qed

definition can_merge_from :: "('s, 'u) runtime \<Rightarrow> 'u candt \<Rightarrow> 'u candt \<Rightarrow> 'u candt" where
  "can_merge_from rt from m =
     (let m = can_merge_24 from (can_merge_17 from (can_merge_8 from (can_merge_0 from (m\<lparr>can_spn582 := can_spn582 m @ can_spn582 from, can_spn928 := can_spn928 m @ can_spn928 from\<rparr>))))
      in m\<lparr>can_unknown := rt_unknown_merge rt (can_unknown m) (can_unknown from)\<rparr>)"

lemma can_abs_unknown [simp]: "can_abs (m\<lparr>can_unknown := u\<rparr>) = can_abs m"
  by (rule ext) (simp add: can_abs_def has_bit_simps)

lemma can_abs_repeated [simp]:
  "can_abs (m\<lparr>can_spn582 := vs\<rparr>) = can_abs m"
  "can_abs (m\<lparr>can_spn928 := vs\<rparr>) = can_abs m"
  by (rule ext, simp add: can_abs_def has_bit_simps)+

lemma can_merge_from_abs: "can_abs (can_merge_from rt from m) = can_abs m ++ can_abs from"
proof -
  have "can_abs (can_merge_from rt from m) =
      foldl (\<lambda>M k. put_opt k (can_abs from k) M) (can_abs m) ([70, 91, 100, 110, 174, 175, 182, 184] @ [190, 244, 245, 247, 250, 521, 522, 527] @ [597, 598, 914, 916, 1624, 1821] @ [1856])"
    by (simp only: can_merge_from_def Let_def can_abs_unknown foldl_append can_abs_merge_0 can_abs_merge_8 can_abs_merge_17 can_abs_merge_24 can_abs_repeated)
  also have "\<dots> = can_abs m ++ can_abs from"
    unfolding put_opt_fold using can_dom_abs [of "from"] by (subst restrict_dom) auto
  finally show ?thesis .
qed

definition can_is_initialized :: "'u candt \<Rightarrow> bool" where
  "can_is_initialized m \<longleftrightarrow> True"

section \<open>\<open>MergePartialFromCodedStream\<close>\<close>

text \<open>The body behind each label; the argument is the number of the field.\<close>

definition can_label_4 :: "('s, 'u) runtime \<Rightarrow> nat \<Rightarrow> 's \<Rightarrow> 'u candt \<Rightarrow> ('s, 'u candt) flow" where
  "can_label_4 rt k s m =
     (if k = 1856 then
        then_end rt (read_scalar (rt_read_uint32 rt) can_spn1856 (\<lambda>v. can_spn1856_update (\<lambda>_. v)) can_set_has_spn1856 s m)
      else Out_of_fuel)"

definition can_label_3 :: "('s, 'u) runtime \<Rightarrow> nat \<Rightarrow> 's \<Rightarrow> 'u candt \<Rightarrow> ('s, 'u candt) flow" where
  "can_label_3 rt k s m =
     (if k = 598 then
        then_expect rt 7312 914 (read_scalar (rt_read_uint32 rt) can_spn598 (\<lambda>v. can_spn598_update (\<lambda>_. v)) can_set_has_spn598 s m)
      else if k = 914 then
        then_expect rt 7328 916 (read_scalar (rt_read_uint32 rt) can_spn914 (\<lambda>v. can_spn914_update (\<lambda>_. v)) can_set_has_spn914 s m)
      else if k = 916 then
        then_expect rt 7426 928 (read_scalar (rt_read_uint32 rt) can_spn916 (\<lambda>v. can_spn916_update (\<lambda>_. v)) can_set_has_spn916 s m)
      else if k = 928 then
        then_expect rt 12992 1624 (read_mutable (rt_read_packed rt) can_spn928 (\<lambda>v. can_spn928_update (\<lambda>_. v)) id s m)
      else if k = 1624 then
        then_expect rt 14568 1821 (read_scalar (rt_read_uint32 rt) can_spn1624 (\<lambda>v. can_spn1624_update (\<lambda>_. v)) can_set_has_spn1624 s m)
      else if k = 1821 then
        then_expect rt 14848 1856 (read_scalar (rt_read_uint32 rt) can_spn1821 (\<lambda>v. can_spn1821_update (\<lambda>_. v)) can_set_has_spn1821 s m)
      else can_label_4 rt k s m)"

definition can_label_2 :: "('s, 'u) runtime \<Rightarrow> nat \<Rightarrow> 's \<Rightarrow> 'u candt \<Rightarrow> ('s, 'u candt) flow" where
  "can_label_2 rt k s m =
     (if k = 250 then
        then_expect rt 4168 521 (read_scalar (rt_read_uint32 rt) can_spn250 (\<lambda>v. can_spn250_update (\<lambda>_. v)) can_set_has_spn250 s m)
      else if k = 521 then
        then_expect rt 4176 522 (read_scalar (rt_read_uint32 rt) can_spn521 (\<lambda>v. can_spn521_update (\<lambda>_. v)) can_set_has_spn521 s m)
      else if k = 522 then
        then_expect rt 4216 527 (read_scalar (rt_read_uint32 rt) can_spn522 (\<lambda>v. can_spn522_update (\<lambda>_. v)) can_set_has_spn522 s m)
      else if k = 527 then
        then_expect rt 4658 582 (read_scalar (rt_read_uint32 rt) can_spn527 (\<lambda>v. can_spn527_update (\<lambda>_. v)) can_set_has_spn527 s m)
      else if k = 582 then
        then_expect rt 4776 597 (read_mutable (rt_read_packed rt) can_spn582 (\<lambda>v. can_spn582_update (\<lambda>_. v)) id s m)
      else if k = 597 then
        then_expect rt 4784 598 (read_scalar (rt_read_uint32 rt) can_spn597 (\<lambda>v. can_spn597_update (\<lambda>_. v)) can_set_has_spn597 s m)
      else can_label_3 rt k s m)"

definition can_label_1 :: "('s, 'u) runtime \<Rightarrow> nat \<Rightarrow> 's \<Rightarrow> 'u candt \<Rightarrow> ('s, 'u candt) flow" where
  "can_label_1 rt k s m =
     (if k = 182 then
        then_expect rt 1472 184 (read_scalar (rt_read_uint32 rt) can_spn182 (\<lambda>v. can_spn182_update (\<lambda>_. v)) can_set_has_spn182 s m)
      else if k = 184 then
        then_expect rt 1520 190 (read_scalar (rt_read_uint32 rt) can_spn184 (\<lambda>v. can_spn184_update (\<lambda>_. v)) can_set_has_spn184 s m)
      else if k = 190 then
        then_expect rt 1952 244 (read_scalar (rt_read_uint32 rt) can_spn190 (\<lambda>v. can_spn190_update (\<lambda>_. v)) can_set_has_spn190 s m)
      else if k = 244 then
        then_expect rt 1960 245 (read_scalar (rt_read_uint32 rt) can_spn244 (\<lambda>v. can_spn244_update (\<lambda>_. v)) can_set_has_spn244 s m)
      else if k = 245 then
        then_expect rt 1976 247 (read_scalar (rt_read_uint32 rt) can_spn245 (\<lambda>v. can_spn245_update (\<lambda>_. v)) can_set_has_spn245 s m)
      else if k = 247 then
        then_expect rt 2000 250 (read_scalar (rt_read_uint32 rt) can_spn247 (\<lambda>v. can_spn247_update (\<lambda>_. v)) can_set_has_spn247 s m)
      else can_label_2 rt k s m)"

definition can_label_0 :: "('s, 'u) runtime \<Rightarrow> nat \<Rightarrow> 's \<Rightarrow> 'u candt \<Rightarrow> ('s, 'u candt) flow" where
  "can_label_0 rt k s m =
     (if k = 70 then
        then_expect rt 728 91 (read_scalar (rt_read_uint32 rt) can_spn70 (\<lambda>v. can_spn70_update (\<lambda>_. v)) can_set_has_spn70 s m)
      else if k = 91 then
        then_expect rt 800 100 (read_scalar (rt_read_uint32 rt) can_spn91 (\<lambda>v. can_spn91_update (\<lambda>_. v)) can_set_has_spn91 s m)
      else if k = 100 then
        then_expect rt 880 110 (read_scalar (rt_read_uint32 rt) can_spn100 (\<lambda>v. can_spn100_update (\<lambda>_. v)) can_set_has_spn100 s m)
      else if k = 110 then
        then_expect rt 1392 174 (read_scalar (rt_read_uint32 rt) can_spn110 (\<lambda>v. can_spn110_update (\<lambda>_. v)) can_set_has_spn110 s m)
      else if k = 174 then
        then_expect rt 1400 175 (read_scalar (rt_read_uint32 rt) can_spn174 (\<lambda>v. can_spn174_update (\<lambda>_. v)) can_set_has_spn174 s m)
      else if k = 175 then
        then_expect rt 1456 182 (read_scalar (rt_read_uint32 rt) can_spn175 (\<lambda>v. can_spn175_update (\<lambda>_. v)) can_set_has_spn175 s m)
      else can_label_1 rt k s m)"

definition can_label :: "('s, 'u) runtime \<Rightarrow> nat \<Rightarrow> 's \<Rightarrow> 'u candt \<Rightarrow> ('s, 'u candt) flow" where
  "can_label rt = can_label_0 rt"

definition can_switch :: "('s, 'u) runtime \<Rightarrow> u32 \<Rightarrow> 's \<Rightarrow> 'u candt \<Rightarrow> ('s, 'u candt) flow" where
  "can_switch rt tag s m =
     (let k = rt_tag_field rt tag; w = rt_tag_wire rt tag in
      if k = 70 \<and> w = WIRETYPE_VARINT then can_label rt 70 s m
      else if k = 91 \<and> w = WIRETYPE_VARINT then can_label rt 91 s m
      else if k = 100 \<and> w = WIRETYPE_VARINT then can_label rt 100 s m
      else if k = 110 \<and> w = WIRETYPE_VARINT then can_label rt 110 s m
      else if k = 174 \<and> w = WIRETYPE_VARINT then can_label rt 174 s m
      else if k = 175 \<and> w = WIRETYPE_VARINT then can_label rt 175 s m
      else if k = 182 \<and> w = WIRETYPE_VARINT then can_label rt 182 s m
      else if k = 184 \<and> w = WIRETYPE_VARINT then can_label rt 184 s m
      else if k = 190 \<and> w = WIRETYPE_VARINT then can_label rt 190 s m
      else if k = 244 \<and> w = WIRETYPE_VARINT then can_label rt 244 s m
      else if k = 245 \<and> w = WIRETYPE_VARINT then can_label rt 245 s m
      else if k = 247 \<and> w = WIRETYPE_VARINT then can_label rt 247 s m
      else if k = 250 \<and> w = WIRETYPE_VARINT then can_label rt 250 s m
      else if k = 521 \<and> w = WIRETYPE_VARINT then can_label rt 521 s m
      else if k = 522 \<and> w = WIRETYPE_VARINT then can_label rt 522 s m
      else if k = 527 \<and> w = WIRETYPE_VARINT then can_label rt 527 s m
      else if k = 582 \<and> w = WIRETYPE_LENGTH_DELIMITED then can_label rt 582 s m
      else if k = 582 \<and> w = WIRETYPE_VARINT then
            then_expect rt 4776 597 (read_mutable (rt_read_repeated rt 4658) can_spn582 (\<lambda>v. can_spn582_update (\<lambda>_. v)) id s m)
      else if k = 597 \<and> w = WIRETYPE_VARINT then can_label rt 597 s m
      else if k = 598 \<and> w = WIRETYPE_VARINT then can_label rt 598 s m
      else if k = 914 \<and> w = WIRETYPE_VARINT then can_label rt 914 s m
      else if k = 916 \<and> w = WIRETYPE_VARINT then can_label rt 916 s m
      else if k = 928 \<and> w = WIRETYPE_LENGTH_DELIMITED then can_label rt 928 s m
      else if k = 928 \<and> w = WIRETYPE_VARINT then
            then_expect rt 12992 1624 (read_mutable (rt_read_repeated rt 7426) can_spn928 (\<lambda>v. can_spn928_update (\<lambda>_. v)) id s m)
      else if k = 1624 \<and> w = WIRETYPE_VARINT then can_label rt 1624 s m
      else if k = 1821 \<and> w = WIRETYPE_VARINT then can_label rt 1821 s m
      else if k = 1856 \<and> w = WIRETYPE_VARINT then can_label rt 1856 s m
      else handle_uninterpreted rt can_unknown (\<lambda>u. can_unknown_update (\<lambda>_. u)) tag s m)"

definition can_parse :: "nat \<Rightarrow> ('s, 'u) runtime \<Rightarrow> 's \<Rightarrow> 'u candt \<Rightarrow> (bool \<times> 's \<times> 'u candt) option" where
  "can_parse fuel rt s m = parse_loop fuel (rt_read_tag rt) (can_switch rt) (can_label rt) (Break s m)"

section \<open>Serialisation\<close>

text \<open>\<^verbatim>\<open>SerializeWithCachedSizes\<close>, after \<^verbatim>\<open>ByteSize\<close> has cached the sizes; \<^verbatim>\<open>Swap\<close>; \<^verbatim>\<open>CopyFrom\<close> another object.\<close>

definition can_serialize :: "'u writer \<Rightarrow> 'u candt \<Rightarrow> byte list" where
  "can_serialize wr m =
     (if can_has_spn70 m then write_uint32 wr 70 (can_spn70 m) else []) @
     (if can_has_spn91 m then write_uint32 wr 91 (can_spn91 m) else []) @
     (if can_has_spn100 m then write_uint32 wr 100 (can_spn100 m) else []) @
     (if can_has_spn110 m then write_uint32 wr 110 (can_spn110 m) else []) @
     (if can_has_spn174 m then write_uint32 wr 174 (can_spn174 m) else []) @
     (if can_has_spn175 m then write_uint32 wr 175 (can_spn175 m) else []) @
     (if can_has_spn182 m then write_uint32 wr 182 (can_spn182 m) else []) @
     (if can_has_spn184 m then write_uint32 wr 184 (can_spn184 m) else []) @
     (if can_has_spn190 m then write_uint32 wr 190 (can_spn190 m) else []) @
     (if can_has_spn244 m then write_uint32 wr 244 (can_spn244 m) else []) @
     (if can_has_spn245 m then write_uint32 wr 245 (can_spn245 m) else []) @
     (if can_has_spn247 m then write_uint32 wr 247 (can_spn247 m) else []) @
     (if can_has_spn250 m then write_uint32 wr 250 (can_spn250 m) else []) @
     (if can_has_spn521 m then write_uint32 wr 521 (can_spn521 m) else []) @
     (if can_has_spn522 m then write_uint32 wr 522 (can_spn522 m) else []) @
     (if can_has_spn527 m then write_uint32 wr 527 (can_spn527 m) else []) @
     write_packed wr 582 (can_spn582 m) @
     (if can_has_spn597 m then write_uint32 wr 597 (can_spn597 m) else []) @
     (if can_has_spn598 m then write_uint32 wr 598 (can_spn598 m) else []) @
     (if can_has_spn914 m then write_uint32 wr 914 (can_spn914 m) else []) @
     (if can_has_spn916 m then write_uint32 wr 916 (can_spn916 m) else []) @
     write_packed wr 928 (can_spn928 m) @
     (if can_has_spn1624 m then write_uint32 wr 1624 (can_spn1624 m) else []) @
     (if can_has_spn1821 m then write_uint32 wr 1821 (can_spn1821 m) else []) @
     (if can_has_spn1856 m then write_uint32 wr 1856 (can_spn1856 m) else []) @
     wr_unknown wr (can_unknown m)"

definition can_size_0 :: "'u writer \<Rightarrow> 'u candt \<Rightarrow> nat" where
  "can_size_0 wr m =
     (if group_guard (can_has_bits m) 0
      then (if can_has_spn70 m then 2 + sz_uint32 wr (can_spn70 m) else 0)
         + (if can_has_spn91 m then 2 + sz_uint32 wr (can_spn91 m) else 0)
         + (if can_has_spn100 m then 2 + sz_uint32 wr (can_spn100 m) else 0)
         + (if can_has_spn110 m then 2 + sz_uint32 wr (can_spn110 m) else 0)
         + (if can_has_spn174 m then 2 + sz_uint32 wr (can_spn174 m) else 0)
         + (if can_has_spn175 m then 2 + sz_uint32 wr (can_spn175 m) else 0)
         + (if can_has_spn182 m then 2 + sz_uint32 wr (can_spn182 m) else 0)
         + (if can_has_spn184 m then 2 + sz_uint32 wr (can_spn184 m) else 0)
      else 0)"

definition can_size_8 :: "'u writer \<Rightarrow> 'u candt \<Rightarrow> nat" where
  "can_size_8 wr m =
     (if group_guard (can_has_bits m) 8
      then (if can_has_spn190 m then 2 + sz_uint32 wr (can_spn190 m) else 0)
         + (if can_has_spn244 m then 2 + sz_uint32 wr (can_spn244 m) else 0)
         + (if can_has_spn245 m then 2 + sz_uint32 wr (can_spn245 m) else 0)
         + (if can_has_spn247 m then 2 + sz_uint32 wr (can_spn247 m) else 0)
         + (if can_has_spn250 m then 2 + sz_uint32 wr (can_spn250 m) else 0)
         + (if can_has_spn521 m then 2 + sz_uint32 wr (can_spn521 m) else 0)
         + (if can_has_spn522 m then 2 + sz_uint32 wr (can_spn522 m) else 0)
         + (if can_has_spn527 m then 2 + sz_uint32 wr (can_spn527 m) else 0)
      else 0)"

definition can_size_17 :: "'u writer \<Rightarrow> 'u candt \<Rightarrow> nat" where
  "can_size_17 wr m =
     (if group_guard (can_has_bits m) 17
      then (if can_has_spn597 m then 2 + sz_uint32 wr (can_spn597 m) else 0)
         + (if can_has_spn598 m then 2 + sz_uint32 wr (can_spn598 m) else 0)
         + (if can_has_spn914 m then 2 + sz_uint32 wr (can_spn914 m) else 0)
         + (if can_has_spn916 m then 2 + sz_uint32 wr (can_spn916 m) else 0)
         + (if can_has_spn1624 m then 2 + sz_uint32 wr (can_spn1624 m) else 0)
         + (if can_has_spn1821 m then 2 + sz_uint32 wr (can_spn1821 m) else 0)
      else 0)"

definition can_size_24 :: "'u writer \<Rightarrow> 'u candt \<Rightarrow> nat" where
  "can_size_24 wr m =
     (if group_guard (can_has_bits m) 24
      then (if can_has_spn1856 m then 2 + sz_uint32 wr (can_spn1856 m) else 0)
      else 0)"

definition can_byte_size :: "'u writer \<Rightarrow> 'u candt \<Rightarrow> nat" where
  "can_byte_size wr m = can_size_0 wr m + can_size_8 wr m + can_size_17 wr m + can_size_24 wr m + packed_field_size wr 2 (can_spn582 m) + packed_field_size wr 2 (can_spn928 m) + sz_unknown wr (can_unknown m)"

definition can_swap :: "'u candt \<Rightarrow> 'u candt \<Rightarrow> 'u candt \<times> 'u candt" where
  "can_swap m other =
     (m\<lparr>can_spn70 := can_spn70 other, can_spn91 := can_spn91 other, can_spn100 := can_spn100 other, 
       can_spn110 := can_spn110 other, can_spn174 := can_spn174 other, can_spn175 := can_spn175 other, 
       can_spn182 := can_spn182 other, can_spn184 := can_spn184 other, can_spn190 := can_spn190 other, 
       can_spn244 := can_spn244 other, can_spn245 := can_spn245 other, can_spn247 := can_spn247 other, 
       can_spn250 := can_spn250 other, can_spn521 := can_spn521 other, can_spn522 := can_spn522 other, 
       can_spn527 := can_spn527 other, can_spn582 := can_spn582 other, can_spn597 := can_spn597 other, 
       can_spn598 := can_spn598 other, can_spn914 := can_spn914 other, can_spn916 := can_spn916 other, 
       can_spn928 := can_spn928 other, can_spn1624 := can_spn1624 other, can_spn1821 := can_spn1821 other, 
       can_spn1856 := can_spn1856 other, can_has_bits := can_has_bits other, can_unknown := can_unknown other\<rparr>,
      other\<lparr>can_spn70 := can_spn70 m, can_spn91 := can_spn91 m, can_spn100 := can_spn100 m, 
       can_spn110 := can_spn110 m, can_spn174 := can_spn174 m, can_spn175 := can_spn175 m, 
       can_spn182 := can_spn182 m, can_spn184 := can_spn184 m, can_spn190 := can_spn190 m, 
       can_spn244 := can_spn244 m, can_spn245 := can_spn245 m, can_spn247 := can_spn247 m, 
       can_spn250 := can_spn250 m, can_spn521 := can_spn521 m, can_spn522 := can_spn522 m, 
       can_spn527 := can_spn527 m, can_spn582 := can_spn582 m, can_spn597 := can_spn597 m, 
       can_spn598 := can_spn598 m, can_spn914 := can_spn914 m, can_spn916 := can_spn916 m, 
       can_spn928 := can_spn928 m, can_spn1624 := can_spn1624 m, can_spn1821 := can_spn1821 m, 
       can_spn1856 := can_spn1856 m, can_has_bits := can_has_bits m, can_unknown := can_unknown m\<rparr>)"

lemma can_swap_exchanges: "can_swap m other = (other, m)"
  by (simp add: can_swap_def)

definition can_copy_from :: "('s, 'u) runtime \<Rightarrow> 'u candt \<Rightarrow> 'u candt \<Rightarrow> 'u candt" where
  "can_copy_from rt from m = can_merge_from rt from (can_clear rt m)"

lemma can_copy_from_abs: "can_wf m \<Longrightarrow> can_abs (can_copy_from rt from m) = can_abs from"
  by (simp add: can_copy_from_def can_merge_from_abs can_clear_fresh can_abs_new)

section \<open>The shape of a message\<close>

definition can_tag :: "nat \<Rightarrow> u32" where
  "can_tag k = make_tag k (if k \<in> {582, 928} then WIRETYPE_LENGTH_DELIMITED else WIRETYPE_VARINT)"

definition can_fields :: "nat set" where
  "can_fields = {70, 91, 100, 110, 174, 175, 182, 184, 190, 244, 245, 247, 250, 521, 522, 527, 582, 597, 598, 914, 916, 928, 1624, 1821, 1856}"

text \<open>Nothing but the known fields: only their has-bits, defaults where a field is not set, no unknown field.\<close>

definition can_bits :: "nat list" where
  "can_bits = [0, 1, 2, 3, 4, 5, 6, 7, 8, 9, 10, 11, 12, 13, 14, 15, 17, 18, 19, 20, 22, 23, 24]"

definition can_complete :: "'u \<Rightarrow> 'u candt \<Rightarrow> bool" where
  "can_complete u m \<longleftrightarrow> can_wf m \<and> bits_within (can_has_bits m) can_bits \<and> can_unknown m = u"

lemma can_complete_new: "can_complete u (can_new u)"
  by (simp add: can_complete_def) (simp add: can_new_def)

lemma can_wf_set:
  assumes "can_wf m"
  shows "can_wf (can_set_spn70 v m)"
    "can_wf (can_set_spn91 v m)"
    "can_wf (can_set_spn100 v m)"
    "can_wf (can_set_spn110 v m)"
    "can_wf (can_set_spn174 v m)"
    "can_wf (can_set_spn175 v m)"
    "can_wf (can_set_spn182 v m)"
    "can_wf (can_set_spn184 v m)"
    "can_wf (can_set_spn190 v m)"
    "can_wf (can_set_spn244 v m)"
    "can_wf (can_set_spn245 v m)"
    "can_wf (can_set_spn247 v m)"
    "can_wf (can_set_spn250 v m)"
    "can_wf (can_set_spn521 v m)"
    "can_wf (can_set_spn522 v m)"
    "can_wf (can_set_spn527 v m)"
    "can_wf (can_set_spn597 v m)"
    "can_wf (can_set_spn598 v m)"
    "can_wf (can_set_spn914 v m)"
    "can_wf (can_set_spn916 v m)"
    "can_wf (can_set_spn1624 v m)"
    "can_wf (can_set_spn1821 v m)"
    "can_wf (can_set_spn1856 v m)"
  using assms by (simp_all add: can_wf_def can_set_defs has_bit_simps)

lemma can_bits_set:
  assumes "bits_within w can_bits"
  shows "bits_within (w OR 0x00000001) can_bits"
    "bits_within (w OR 0x00000002) can_bits"
    "bits_within (w OR 0x00000004) can_bits"
    "bits_within (w OR 0x00000008) can_bits"
    "bits_within (w OR 0x00000010) can_bits"
    "bits_within (w OR 0x00000020) can_bits"
    "bits_within (w OR 0x00000040) can_bits"
    "bits_within (w OR 0x00000080) can_bits"
    "bits_within (w OR 0x00000100) can_bits"
    "bits_within (w OR 0x00000200) can_bits"
    "bits_within (w OR 0x00000400) can_bits"
    "bits_within (w OR 0x00000800) can_bits"
    "bits_within (w OR 0x00001000) can_bits"
    "bits_within (w OR 0x00002000) can_bits"
    "bits_within (w OR 0x00004000) can_bits"
    "bits_within (w OR 0x00008000) can_bits"
    "bits_within (w OR 0x00020000) can_bits"
    "bits_within (w OR 0x00040000) can_bits"
    "bits_within (w OR 0x00080000) can_bits"
    "bits_within (w OR 0x00100000) can_bits"
    "bits_within (w OR 0x00400000) can_bits"
    "bits_within (w OR 0x00800000) can_bits"
    "bits_within (w OR 0x01000000) can_bits"
  by (rule bits_within_insert [OF assms], rule can_or_bit, simp add: can_bits_def)+

lemma can_complete_set:
  assumes "can_complete u m"
  shows "can_complete u (can_set_spn70 v m)"
    "can_complete u (can_set_spn91 v m)"
    "can_complete u (can_set_spn100 v m)"
    "can_complete u (can_set_spn110 v m)"
    "can_complete u (can_set_spn174 v m)"
    "can_complete u (can_set_spn175 v m)"
    "can_complete u (can_set_spn182 v m)"
    "can_complete u (can_set_spn184 v m)"
    "can_complete u (can_set_spn190 v m)"
    "can_complete u (can_set_spn244 v m)"
    "can_complete u (can_set_spn245 v m)"
    "can_complete u (can_set_spn247 v m)"
    "can_complete u (can_set_spn250 v m)"
    "can_complete u (can_set_spn521 v m)"
    "can_complete u (can_set_spn522 v m)"
    "can_complete u (can_set_spn527 v m)"
    "can_complete u (can_set_spn597 v m)"
    "can_complete u (can_set_spn598 v m)"
    "can_complete u (can_set_spn914 v m)"
    "can_complete u (can_set_spn916 v m)"
    "can_complete u (can_set_spn1624 v m)"
    "can_complete u (can_set_spn1821 v m)"
    "can_complete u (can_set_spn1856 v m)"
  using assms by (simp_all add: can_complete_def can_wf_set) (simp_all add: can_set_defs can_bits_set)

lemma can_complete_repeated:
  assumes "can_complete u m"
  shows "can_complete u (m\<lparr>can_spn582 := vs\<rparr>)"
    "can_complete u (m\<lparr>can_spn928 := vs\<rparr>)"
  using assms by (simp_all add: can_complete_def can_wf_def has_bit_simps)

lemma can_abs_at:
  "can_abs m 70 = when_has (can_has_spn70 m) (PU (can_spn70 m))"
  "can_abs m 91 = when_has (can_has_spn91 m) (PU (can_spn91 m))"
  "can_abs m 100 = when_has (can_has_spn100 m) (PU (can_spn100 m))"
  "can_abs m 110 = when_has (can_has_spn110 m) (PU (can_spn110 m))"
  "can_abs m 174 = when_has (can_has_spn174 m) (PU (can_spn174 m))"
  "can_abs m 175 = when_has (can_has_spn175 m) (PU (can_spn175 m))"
  "can_abs m 182 = when_has (can_has_spn182 m) (PU (can_spn182 m))"
  "can_abs m 184 = when_has (can_has_spn184 m) (PU (can_spn184 m))"
  "can_abs m 190 = when_has (can_has_spn190 m) (PU (can_spn190 m))"
  "can_abs m 244 = when_has (can_has_spn244 m) (PU (can_spn244 m))"
  "can_abs m 245 = when_has (can_has_spn245 m) (PU (can_spn245 m))"
  "can_abs m 247 = when_has (can_has_spn247 m) (PU (can_spn247 m))"
  "can_abs m 250 = when_has (can_has_spn250 m) (PU (can_spn250 m))"
  "can_abs m 521 = when_has (can_has_spn521 m) (PU (can_spn521 m))"
  "can_abs m 522 = when_has (can_has_spn522 m) (PU (can_spn522 m))"
  "can_abs m 527 = when_has (can_has_spn527 m) (PU (can_spn527 m))"
  "can_abs m 597 = when_has (can_has_spn597 m) (PU (can_spn597 m))"
  "can_abs m 598 = when_has (can_has_spn598 m) (PU (can_spn598 m))"
  "can_abs m 914 = when_has (can_has_spn914 m) (PU (can_spn914 m))"
  "can_abs m 916 = when_has (can_has_spn916 m) (PU (can_spn916 m))"
  "can_abs m 1624 = when_has (can_has_spn1624 m) (PU (can_spn1624 m))"
  "can_abs m 1821 = when_has (can_has_spn1821 m) (PU (can_spn1821 m))"
  "can_abs m 1856 = when_has (can_has_spn1856 m) (PU (can_spn1856 m))"
  by (simp_all add: can_abs_def)

lemma can_eqI:
  assumes "can_complete u m" and "can_complete u m'" and "can_abs m = can_abs m'" and "can_spn582 m = can_spn582 m'" and "can_spn928 m = can_spn928 m'"
  shows "m = m'"
proof -
  have spn70: "can_has_spn70 m = can_has_spn70 m' \<and> can_spn70 m = can_spn70 m'"
    using assms(1,2) fun_cong [OF assms(3), of 70, unfolded can_abs_at]
    by (intro field_eq(1)) (simp_all add: can_complete_def can_wf_def)
  have spn91: "can_has_spn91 m = can_has_spn91 m' \<and> can_spn91 m = can_spn91 m'"
    using assms(1,2) fun_cong [OF assms(3), of 91, unfolded can_abs_at]
    by (intro field_eq(1)) (simp_all add: can_complete_def can_wf_def)
  have spn100: "can_has_spn100 m = can_has_spn100 m' \<and> can_spn100 m = can_spn100 m'"
    using assms(1,2) fun_cong [OF assms(3), of 100, unfolded can_abs_at]
    by (intro field_eq(1)) (simp_all add: can_complete_def can_wf_def)
  have spn110: "can_has_spn110 m = can_has_spn110 m' \<and> can_spn110 m = can_spn110 m'"
    using assms(1,2) fun_cong [OF assms(3), of 110, unfolded can_abs_at]
    by (intro field_eq(1)) (simp_all add: can_complete_def can_wf_def)
  have spn174: "can_has_spn174 m = can_has_spn174 m' \<and> can_spn174 m = can_spn174 m'"
    using assms(1,2) fun_cong [OF assms(3), of 174, unfolded can_abs_at]
    by (intro field_eq(1)) (simp_all add: can_complete_def can_wf_def)
  have spn175: "can_has_spn175 m = can_has_spn175 m' \<and> can_spn175 m = can_spn175 m'"
    using assms(1,2) fun_cong [OF assms(3), of 175, unfolded can_abs_at]
    by (intro field_eq(1)) (simp_all add: can_complete_def can_wf_def)
  have spn182: "can_has_spn182 m = can_has_spn182 m' \<and> can_spn182 m = can_spn182 m'"
    using assms(1,2) fun_cong [OF assms(3), of 182, unfolded can_abs_at]
    by (intro field_eq(1)) (simp_all add: can_complete_def can_wf_def)
  have spn184: "can_has_spn184 m = can_has_spn184 m' \<and> can_spn184 m = can_spn184 m'"
    using assms(1,2) fun_cong [OF assms(3), of 184, unfolded can_abs_at]
    by (intro field_eq(1)) (simp_all add: can_complete_def can_wf_def)
  have spn190: "can_has_spn190 m = can_has_spn190 m' \<and> can_spn190 m = can_spn190 m'"
    using assms(1,2) fun_cong [OF assms(3), of 190, unfolded can_abs_at]
    by (intro field_eq(1)) (simp_all add: can_complete_def can_wf_def)
  have spn244: "can_has_spn244 m = can_has_spn244 m' \<and> can_spn244 m = can_spn244 m'"
    using assms(1,2) fun_cong [OF assms(3), of 244, unfolded can_abs_at]
    by (intro field_eq(1)) (simp_all add: can_complete_def can_wf_def)
  have spn245: "can_has_spn245 m = can_has_spn245 m' \<and> can_spn245 m = can_spn245 m'"
    using assms(1,2) fun_cong [OF assms(3), of 245, unfolded can_abs_at]
    by (intro field_eq(1)) (simp_all add: can_complete_def can_wf_def)
  have spn247: "can_has_spn247 m = can_has_spn247 m' \<and> can_spn247 m = can_spn247 m'"
    using assms(1,2) fun_cong [OF assms(3), of 247, unfolded can_abs_at]
    by (intro field_eq(1)) (simp_all add: can_complete_def can_wf_def)
  have spn250: "can_has_spn250 m = can_has_spn250 m' \<and> can_spn250 m = can_spn250 m'"
    using assms(1,2) fun_cong [OF assms(3), of 250, unfolded can_abs_at]
    by (intro field_eq(1)) (simp_all add: can_complete_def can_wf_def)
  have spn521: "can_has_spn521 m = can_has_spn521 m' \<and> can_spn521 m = can_spn521 m'"
    using assms(1,2) fun_cong [OF assms(3), of 521, unfolded can_abs_at]
    by (intro field_eq(1)) (simp_all add: can_complete_def can_wf_def)
  have spn522: "can_has_spn522 m = can_has_spn522 m' \<and> can_spn522 m = can_spn522 m'"
    using assms(1,2) fun_cong [OF assms(3), of 522, unfolded can_abs_at]
    by (intro field_eq(1)) (simp_all add: can_complete_def can_wf_def)
  have spn527: "can_has_spn527 m = can_has_spn527 m' \<and> can_spn527 m = can_spn527 m'"
    using assms(1,2) fun_cong [OF assms(3), of 527, unfolded can_abs_at]
    by (intro field_eq(1)) (simp_all add: can_complete_def can_wf_def)
  have spn597: "can_has_spn597 m = can_has_spn597 m' \<and> can_spn597 m = can_spn597 m'"
    using assms(1,2) fun_cong [OF assms(3), of 597, unfolded can_abs_at]
    by (intro field_eq(1)) (simp_all add: can_complete_def can_wf_def)
  have spn598: "can_has_spn598 m = can_has_spn598 m' \<and> can_spn598 m = can_spn598 m'"
    using assms(1,2) fun_cong [OF assms(3), of 598, unfolded can_abs_at]
    by (intro field_eq(1)) (simp_all add: can_complete_def can_wf_def)
  have spn914: "can_has_spn914 m = can_has_spn914 m' \<and> can_spn914 m = can_spn914 m'"
    using assms(1,2) fun_cong [OF assms(3), of 914, unfolded can_abs_at]
    by (intro field_eq(1)) (simp_all add: can_complete_def can_wf_def)
  have spn916: "can_has_spn916 m = can_has_spn916 m' \<and> can_spn916 m = can_spn916 m'"
    using assms(1,2) fun_cong [OF assms(3), of 916, unfolded can_abs_at]
    by (intro field_eq(1)) (simp_all add: can_complete_def can_wf_def)
  have spn1624: "can_has_spn1624 m = can_has_spn1624 m' \<and> can_spn1624 m = can_spn1624 m'"
    using assms(1,2) fun_cong [OF assms(3), of 1624, unfolded can_abs_at]
    by (intro field_eq(1)) (simp_all add: can_complete_def can_wf_def)
  have spn1821: "can_has_spn1821 m = can_has_spn1821 m' \<and> can_spn1821 m = can_spn1821 m'"
    using assms(1,2) fun_cong [OF assms(3), of 1821, unfolded can_abs_at]
    by (intro field_eq(1)) (simp_all add: can_complete_def can_wf_def)
  have spn1856: "can_has_spn1856 m = can_has_spn1856 m' \<and> can_spn1856 m = can_spn1856 m'"
    using assms(1,2) fun_cong [OF assms(3), of 1856, unfolded can_abs_at]
    by (intro field_eq(1)) (simp_all add: can_complete_def can_wf_def)
  have "can_has_bits m = can_has_bits m'"
  proof (rule bits_within_eqI)
    show "bits_within (can_has_bits m) can_bits" "bits_within (can_has_bits m') can_bits"
      using assms(1,2) by (simp_all add: can_complete_def)
    show "\<forall>n \<in> set can_bits. bit (can_has_bits m) n = bit (can_has_bits m') n"
      using spn70 spn91 spn100 spn110 spn174 spn175 spn182 spn184 spn190 spn244 spn245 spn247 spn250 spn521 spn522 spn527 spn597 spn598 spn914 spn916 spn1624 spn1821 spn1856
      by (simp add: can_has_bit can_bits_def)
  qed
  with assms show ?thesis
    using spn70 spn91 spn100 spn110 spn174 spn175 spn182 spn184 spn190 spn244 spn245 spn247 spn250 spn521 spn522 spn527 spn597 spn598 spn914 spn916 spn1624 spn1821 spn1856
    by (intro candt.equality) (simp_all add: can_complete_def)
qed

definition can_items :: "'u writer \<Rightarrow> 'u candt \<Rightarrow> (nat \<times> byte list \<times> ('u candt \<Rightarrow> 'u candt)) list" where
  "can_items wr m =
     item (can_has_spn70 m) 70 (wr_uint32 wr (can_spn70 m)) (can_set_spn70 (can_spn70 m)) @
     item (can_has_spn91 m) 91 (wr_uint32 wr (can_spn91 m)) (can_set_spn91 (can_spn91 m)) @
     item (can_has_spn100 m) 100 (wr_uint32 wr (can_spn100 m)) (can_set_spn100 (can_spn100 m)) @
     item (can_has_spn110 m) 110 (wr_uint32 wr (can_spn110 m)) (can_set_spn110 (can_spn110 m)) @
     item (can_has_spn174 m) 174 (wr_uint32 wr (can_spn174 m)) (can_set_spn174 (can_spn174 m)) @
     item (can_has_spn175 m) 175 (wr_uint32 wr (can_spn175 m)) (can_set_spn175 (can_spn175 m)) @
     item (can_has_spn182 m) 182 (wr_uint32 wr (can_spn182 m)) (can_set_spn182 (can_spn182 m)) @
     item (can_has_spn184 m) 184 (wr_uint32 wr (can_spn184 m)) (can_set_spn184 (can_spn184 m)) @
     item (can_has_spn190 m) 190 (wr_uint32 wr (can_spn190 m)) (can_set_spn190 (can_spn190 m)) @
     item (can_has_spn244 m) 244 (wr_uint32 wr (can_spn244 m)) (can_set_spn244 (can_spn244 m)) @
     item (can_has_spn245 m) 245 (wr_uint32 wr (can_spn245 m)) (can_set_spn245 (can_spn245 m)) @
     item (can_has_spn247 m) 247 (wr_uint32 wr (can_spn247 m)) (can_set_spn247 (can_spn247 m)) @
     item (can_has_spn250 m) 250 (wr_uint32 wr (can_spn250 m)) (can_set_spn250 (can_spn250 m)) @
     item (can_has_spn521 m) 521 (wr_uint32 wr (can_spn521 m)) (can_set_spn521 (can_spn521 m)) @
     item (can_has_spn522 m) 522 (wr_uint32 wr (can_spn522 m)) (can_set_spn522 (can_spn522 m)) @
     item (can_has_spn527 m) 527 (wr_uint32 wr (can_spn527 m)) (can_set_spn527 (can_spn527 m)) @
     item (can_spn582 m \<noteq> []) 582 (wr_varint32 wr (of_nat (packed_size wr (can_spn582 m))) @ concat (map (wr_uint32 wr) (can_spn582 m))) (\<lambda>x. x\<lparr>can_spn582 := can_spn582 x @ can_spn582 m\<rparr>) @
     item (can_has_spn597 m) 597 (wr_uint32 wr (can_spn597 m)) (can_set_spn597 (can_spn597 m)) @
     item (can_has_spn598 m) 598 (wr_uint32 wr (can_spn598 m)) (can_set_spn598 (can_spn598 m)) @
     item (can_has_spn914 m) 914 (wr_uint32 wr (can_spn914 m)) (can_set_spn914 (can_spn914 m)) @
     item (can_has_spn916 m) 916 (wr_uint32 wr (can_spn916 m)) (can_set_spn916 (can_spn916 m)) @
     item (can_spn928 m \<noteq> []) 928 (wr_varint32 wr (of_nat (packed_size wr (can_spn928 m))) @ concat (map (wr_uint32 wr) (can_spn928 m))) (\<lambda>x. x\<lparr>can_spn928 := can_spn928 x @ can_spn928 m\<rparr>) @
     item (can_has_spn1624 m) 1624 (wr_uint32 wr (can_spn1624 m)) (can_set_spn1624 (can_spn1624 m)) @
     item (can_has_spn1821 m) 1821 (wr_uint32 wr (can_spn1821 m)) (can_set_spn1821 (can_spn1821 m)) @
     item (can_has_spn1856 m) 1856 (wr_uint32 wr (can_spn1856 m)) (can_set_spn1856 (can_spn1856 m))"

lemma can_abs_upd_if:
  "can_abs (upd_if (can_has_spn70 m) (can_set_spn70 (can_spn70 m)) x) = put_opt 70 (can_abs m 70) (can_abs x)"
  "can_abs (upd_if (can_has_spn91 m) (can_set_spn91 (can_spn91 m)) x) = put_opt 91 (can_abs m 91) (can_abs x)"
  "can_abs (upd_if (can_has_spn100 m) (can_set_spn100 (can_spn100 m)) x) = put_opt 100 (can_abs m 100) (can_abs x)"
  "can_abs (upd_if (can_has_spn110 m) (can_set_spn110 (can_spn110 m)) x) = put_opt 110 (can_abs m 110) (can_abs x)"
  "can_abs (upd_if (can_has_spn174 m) (can_set_spn174 (can_spn174 m)) x) = put_opt 174 (can_abs m 174) (can_abs x)"
  "can_abs (upd_if (can_has_spn175 m) (can_set_spn175 (can_spn175 m)) x) = put_opt 175 (can_abs m 175) (can_abs x)"
  "can_abs (upd_if (can_has_spn182 m) (can_set_spn182 (can_spn182 m)) x) = put_opt 182 (can_abs m 182) (can_abs x)"
  "can_abs (upd_if (can_has_spn184 m) (can_set_spn184 (can_spn184 m)) x) = put_opt 184 (can_abs m 184) (can_abs x)"
  "can_abs (upd_if (can_has_spn190 m) (can_set_spn190 (can_spn190 m)) x) = put_opt 190 (can_abs m 190) (can_abs x)"
  "can_abs (upd_if (can_has_spn244 m) (can_set_spn244 (can_spn244 m)) x) = put_opt 244 (can_abs m 244) (can_abs x)"
  "can_abs (upd_if (can_has_spn245 m) (can_set_spn245 (can_spn245 m)) x) = put_opt 245 (can_abs m 245) (can_abs x)"
  "can_abs (upd_if (can_has_spn247 m) (can_set_spn247 (can_spn247 m)) x) = put_opt 247 (can_abs m 247) (can_abs x)"
  "can_abs (upd_if (can_has_spn250 m) (can_set_spn250 (can_spn250 m)) x) = put_opt 250 (can_abs m 250) (can_abs x)"
  "can_abs (upd_if (can_has_spn521 m) (can_set_spn521 (can_spn521 m)) x) = put_opt 521 (can_abs m 521) (can_abs x)"
  "can_abs (upd_if (can_has_spn522 m) (can_set_spn522 (can_spn522 m)) x) = put_opt 522 (can_abs m 522) (can_abs x)"
  "can_abs (upd_if (can_has_spn527 m) (can_set_spn527 (can_spn527 m)) x) = put_opt 527 (can_abs m 527) (can_abs x)"
  "can_abs (upd_if (can_has_spn597 m) (can_set_spn597 (can_spn597 m)) x) = put_opt 597 (can_abs m 597) (can_abs x)"
  "can_abs (upd_if (can_has_spn598 m) (can_set_spn598 (can_spn598 m)) x) = put_opt 598 (can_abs m 598) (can_abs x)"
  "can_abs (upd_if (can_has_spn914 m) (can_set_spn914 (can_spn914 m)) x) = put_opt 914 (can_abs m 914) (can_abs x)"
  "can_abs (upd_if (can_has_spn916 m) (can_set_spn916 (can_spn916 m)) x) = put_opt 916 (can_abs m 916) (can_abs x)"
  "can_abs (upd_if (can_has_spn1624 m) (can_set_spn1624 (can_spn1624 m)) x) = put_opt 1624 (can_abs m 1624) (can_abs x)"
  "can_abs (upd_if (can_has_spn1821 m) (can_set_spn1821 (can_spn1821 m)) x) = put_opt 1821 (can_abs m 1821) (can_abs x)"
  "can_abs (upd_if (can_has_spn1856 m) (can_set_spn1856 (can_spn1856 m)) x) = put_opt 1856 (can_abs m 1856) (can_abs x)"
  by (simp_all add: upd_if_def put_opt_def can_abs_set can_abs_at del: One_nat_def)

lemma can_abs_upd_repeated:
  "can_abs (upd_if h (\<lambda>x. x\<lparr>can_spn582 := can_spn582 x @ can_spn582 m\<rparr>) x) = can_abs x"
  "can_abs (upd_if h (\<lambda>x. x\<lparr>can_spn928 := can_spn928 x @ can_spn928 m\<rparr>) x) = can_abs x"
  by (simp_all add: upd_if_def)

lemma can_spn582_upd_if:
  "can_spn582 (upd_if h (can_set_spn70 v) x) = can_spn582 x"
  "can_spn582 (upd_if h (can_set_spn91 v) x) = can_spn582 x"
  "can_spn582 (upd_if h (can_set_spn100 v) x) = can_spn582 x"
  "can_spn582 (upd_if h (can_set_spn110 v) x) = can_spn582 x"
  "can_spn582 (upd_if h (can_set_spn174 v) x) = can_spn582 x"
  "can_spn582 (upd_if h (can_set_spn175 v) x) = can_spn582 x"
  "can_spn582 (upd_if h (can_set_spn182 v) x) = can_spn582 x"
  "can_spn582 (upd_if h (can_set_spn184 v) x) = can_spn582 x"
  "can_spn582 (upd_if h (can_set_spn190 v) x) = can_spn582 x"
  "can_spn582 (upd_if h (can_set_spn244 v) x) = can_spn582 x"
  "can_spn582 (upd_if h (can_set_spn245 v) x) = can_spn582 x"
  "can_spn582 (upd_if h (can_set_spn247 v) x) = can_spn582 x"
  "can_spn582 (upd_if h (can_set_spn250 v) x) = can_spn582 x"
  "can_spn582 (upd_if h (can_set_spn521 v) x) = can_spn582 x"
  "can_spn582 (upd_if h (can_set_spn522 v) x) = can_spn582 x"
  "can_spn582 (upd_if h (can_set_spn527 v) x) = can_spn582 x"
  "can_spn582 (upd_if h (can_set_spn597 v) x) = can_spn582 x"
  "can_spn582 (upd_if h (can_set_spn598 v) x) = can_spn582 x"
  "can_spn582 (upd_if h (can_set_spn914 v) x) = can_spn582 x"
  "can_spn582 (upd_if h (can_set_spn916 v) x) = can_spn582 x"
  "can_spn582 (upd_if h (can_set_spn1624 v) x) = can_spn582 x"
  "can_spn582 (upd_if h (can_set_spn1821 v) x) = can_spn582 x"
  "can_spn582 (upd_if h (can_set_spn1856 v) x) = can_spn582 x"
  "can_spn582 (upd_if (can_spn582 m \<noteq> []) (\<lambda>x. x\<lparr>can_spn582 := can_spn582 x @ can_spn582 m\<rparr>) x) = can_spn582 x @ can_spn582 m"
  "can_spn582 (upd_if h (\<lambda>x. x\<lparr>can_spn928 := can_spn928 x @ can_spn928 m\<rparr>) x) = can_spn582 x"
  by (simp_all add: upd_if_def can_set_defs)

lemma can_spn928_upd_if:
  "can_spn928 (upd_if h (can_set_spn70 v) x) = can_spn928 x"
  "can_spn928 (upd_if h (can_set_spn91 v) x) = can_spn928 x"
  "can_spn928 (upd_if h (can_set_spn100 v) x) = can_spn928 x"
  "can_spn928 (upd_if h (can_set_spn110 v) x) = can_spn928 x"
  "can_spn928 (upd_if h (can_set_spn174 v) x) = can_spn928 x"
  "can_spn928 (upd_if h (can_set_spn175 v) x) = can_spn928 x"
  "can_spn928 (upd_if h (can_set_spn182 v) x) = can_spn928 x"
  "can_spn928 (upd_if h (can_set_spn184 v) x) = can_spn928 x"
  "can_spn928 (upd_if h (can_set_spn190 v) x) = can_spn928 x"
  "can_spn928 (upd_if h (can_set_spn244 v) x) = can_spn928 x"
  "can_spn928 (upd_if h (can_set_spn245 v) x) = can_spn928 x"
  "can_spn928 (upd_if h (can_set_spn247 v) x) = can_spn928 x"
  "can_spn928 (upd_if h (can_set_spn250 v) x) = can_spn928 x"
  "can_spn928 (upd_if h (can_set_spn521 v) x) = can_spn928 x"
  "can_spn928 (upd_if h (can_set_spn522 v) x) = can_spn928 x"
  "can_spn928 (upd_if h (can_set_spn527 v) x) = can_spn928 x"
  "can_spn928 (upd_if h (can_set_spn597 v) x) = can_spn928 x"
  "can_spn928 (upd_if h (can_set_spn598 v) x) = can_spn928 x"
  "can_spn928 (upd_if h (can_set_spn914 v) x) = can_spn928 x"
  "can_spn928 (upd_if h (can_set_spn916 v) x) = can_spn928 x"
  "can_spn928 (upd_if h (can_set_spn1624 v) x) = can_spn928 x"
  "can_spn928 (upd_if h (can_set_spn1821 v) x) = can_spn928 x"
  "can_spn928 (upd_if h (can_set_spn1856 v) x) = can_spn928 x"
  "can_spn928 (upd_if h (\<lambda>x. x\<lparr>can_spn582 := can_spn582 x @ can_spn582 m\<rparr>) x) = can_spn928 x"
  "can_spn928 (upd_if (can_spn928 m \<noteq> []) (\<lambda>x. x\<lparr>can_spn928 := can_spn928 x @ can_spn928 m\<rparr>) x) = can_spn928 x @ can_spn928 m"
  by (simp_all add: upd_if_def can_set_defs)

lemma can_items_abs: "can_abs (fold item_upd (can_items wr m) x) = can_abs x ++ can_abs m"
proof -
  have "can_abs (fold item_upd (can_items wr m) x) = foldl (\<lambda>M k. put_opt k (can_abs m k) M) (can_abs x) [70, 91, 100, 110, 174, 175, 182, 184, 190, 244, 245, 247, 250, 521, 522, 527, 597, 598, 914, 916, 1624, 1821, 1856]"
    by (simp only: can_items_def fold_append o_apply fold_item can_abs_upd_if can_abs_upd_repeated foldl.simps)
  also have "\<dots> = can_abs x ++ can_abs m"
    unfolding put_opt_fold using can_dom_abs [of m] by (subst restrict_dom) auto
  finally show ?thesis .
qed

lemma can_items_complete: "can_complete u x \<Longrightarrow> can_complete u (fold item_upd (can_items wr m) x)"
  by (rule fold_items_keep)
    (auto simp: can_items_def ball_Un ball_item item_upd_def intro: can_complete_set can_complete_repeated)

lemma can_items_new:
  assumes "can_complete u m"
  shows "fold item_upd (can_items wr m) (can_new u) = m"
proof (rule can_eqI)
  show "can_complete u (fold item_upd (can_items wr m) (can_new u))"
    by (rule can_items_complete [OF can_complete_new])
  show "can_abs (fold item_upd (can_items wr m) (can_new u)) = can_abs m"
    by (simp add: can_items_abs can_abs_new)
  have "can_spn582 (can_new u) = []" by (simp add: can_new_def)
  then show "can_spn582 (fold item_upd (can_items wr m) (can_new u)) = can_spn582 m"
    by (simp only: can_items_def fold_append o_apply fold_item can_spn582_upd_if append_Nil)
  have "can_spn928 (can_new u) = []" by (simp add: can_new_def)
  then show "can_spn928 (fold item_upd (can_items wr m) (can_new u)) = can_spn928 m"
    by (simp only: can_items_def fold_append o_apply fold_item can_spn928_upd_if append_Nil)
qed (rule assms)

text \<open>What is read must fit the parser: a length is a signed 32-bit number.\<close>

definition can_fits :: "'u writer \<Rightarrow> 'u candt \<Rightarrow> bool" where
  "can_fits wr m \<longleftrightarrow> packed_size wr (can_spn582 m) < 2 ^ 31 \<and> packed_size wr (can_spn928 m) < 2 ^ 31"

section \<open>The parser on the wire\<close>

lemma can_fields_range: "k \<in> can_fields \<Longrightarrow> 0 < k \<and> k < 2 ^ 29"
  unfolding can_fields_def by (elim insertE emptyE) (simp_all del: One_nat_def)

lemma can_tag_field: "k \<in> can_fields \<Longrightarrow> tag_field (can_tag k) = k"
  using can_fields_range by (simp add: can_tag_def tag_field_make)

lemma can_tag_inj: "inj_on can_tag can_fields"
  by (rule inj_on_inverseI [where g = tag_field]) (rule can_tag_field)

context input_stream
begin

lemma can_label_within: "k \<in> can_fields \<Longrightarrow> flow_within can_fields (remaining s) (can_label rt k s m)"
  unfolding can_label_4_def can_label_3_def can_label_2_def can_label_1_def can_label_0_def can_label_def
  by (subst (asm) can_fields_def)
    ((erule flow_within_chain, intro within_intros, erule size_dests, (simp add: can_fields_def; fail)?)+; simp)

lemma can_switch_within: "flow_within can_fields (remaining s) (can_switch rt tag s m)"
  unfolding can_switch_def Let_def
  by (intro flow_within_if can_label_within handle_uninterpreted_within within_intros;
    (erule size_dests | simp add: can_fields_def))

lemma can_parse_returns:
  "remaining s < fuel \<Longrightarrow> \<exists>ok s' m'. can_parse fuel rt s m = Some (ok, s', m') \<and> remaining s' \<le> remaining s"
  unfolding can_parse_def
  by (rule parse_loop_returns [OF can_switch_within can_label_within]) (simp_all add: flow_within_def)

end

context wire_format
begin

lemma can_switch_label:
  assumes "k \<in> can_fields"
  shows "can_tag k \<noteq> 0 \<and> can_switch rt (can_tag k) s m = can_label rt k s m"
proof
  show "can_tag k \<noteq> 0" using can_fields_range [OF assms] by (simp add: can_tag_def make_tag_nonzero)
  have "rt_tag_field rt (can_tag k) = k" "rt_tag_wire rt (can_tag k) = (if k \<in> {582, 928} then WIRETYPE_LENGTH_DELIMITED else WIRETYPE_VARINT)"
    using can_fields_range [OF assms] by (simp_all add: can_tag_def tag_field tag_wire tag_field_make tag_wire_make)
  then show "can_switch rt (can_tag k) s m = can_label rt k s m"
    using assms unfolding can_switch_def can_fields_def by (elim insertE emptyE) (simp_all add: Let_def del: One_nat_def)
qed

lemma can_end_group:
  assumes "tag_wire t = WIRETYPE_END_GROUP"
  shows "t \<noteq> 0 \<and> t \<notin> can_tag ` can_fields \<and> can_switch rt t s m = Done True s m"
proof (intro conjI)
  show "t \<noteq> 0" using assms by (auto simp: tag_wire_def)
  show "t \<notin> can_tag ` can_fields"
    using assms can_fields_range by (auto simp: can_tag_def tag_wire_make split: if_splits)
  show "can_switch rt t s m = Done True s m"
    using assms by (simp add: can_switch_def Let_def tag_wire end_group_ends)
qed

lemma can_reads_spn70:
  "reads can_fields can_tag (can_label rt 70) (wr_uint32 wr v) (can_set_spn70 v)"
  by (simp add: can_label_4_def [abs_def] can_label_3_def [abs_def] can_label_2_def [abs_def] can_label_1_def [abs_def] can_label_0_def [abs_def] can_label_def [abs_def] del: One_nat_def)
    (rule reads_expect [OF takes_uint32], simp add: can_set_defs, simp_all add: can_fields_def can_tag_def make_tag_def)

lemma can_reads_spn91:
  "reads can_fields can_tag (can_label rt 91) (wr_uint32 wr v) (can_set_spn91 v)"
  by (simp add: can_label_4_def [abs_def] can_label_3_def [abs_def] can_label_2_def [abs_def] can_label_1_def [abs_def] can_label_0_def [abs_def] can_label_def [abs_def] del: One_nat_def)
    (rule reads_expect [OF takes_uint32], simp add: can_set_defs, simp_all add: can_fields_def can_tag_def make_tag_def)

lemma can_reads_spn100:
  "reads can_fields can_tag (can_label rt 100) (wr_uint32 wr v) (can_set_spn100 v)"
  by (simp add: can_label_4_def [abs_def] can_label_3_def [abs_def] can_label_2_def [abs_def] can_label_1_def [abs_def] can_label_0_def [abs_def] can_label_def [abs_def] del: One_nat_def)
    (rule reads_expect [OF takes_uint32], simp add: can_set_defs, simp_all add: can_fields_def can_tag_def make_tag_def)

lemma can_reads_spn110:
  "reads can_fields can_tag (can_label rt 110) (wr_uint32 wr v) (can_set_spn110 v)"
  by (simp add: can_label_4_def [abs_def] can_label_3_def [abs_def] can_label_2_def [abs_def] can_label_1_def [abs_def] can_label_0_def [abs_def] can_label_def [abs_def] del: One_nat_def)
    (rule reads_expect [OF takes_uint32], simp add: can_set_defs, simp_all add: can_fields_def can_tag_def make_tag_def)

lemma can_reads_spn174:
  "reads can_fields can_tag (can_label rt 174) (wr_uint32 wr v) (can_set_spn174 v)"
  by (simp add: can_label_4_def [abs_def] can_label_3_def [abs_def] can_label_2_def [abs_def] can_label_1_def [abs_def] can_label_0_def [abs_def] can_label_def [abs_def] del: One_nat_def)
    (rule reads_expect [OF takes_uint32], simp add: can_set_defs, simp_all add: can_fields_def can_tag_def make_tag_def)

lemma can_reads_spn175:
  "reads can_fields can_tag (can_label rt 175) (wr_uint32 wr v) (can_set_spn175 v)"
  by (simp add: can_label_4_def [abs_def] can_label_3_def [abs_def] can_label_2_def [abs_def] can_label_1_def [abs_def] can_label_0_def [abs_def] can_label_def [abs_def] del: One_nat_def)
    (rule reads_expect [OF takes_uint32], simp add: can_set_defs, simp_all add: can_fields_def can_tag_def make_tag_def)

lemma can_reads_spn182:
  "reads can_fields can_tag (can_label rt 182) (wr_uint32 wr v) (can_set_spn182 v)"
  by (simp add: can_label_4_def [abs_def] can_label_3_def [abs_def] can_label_2_def [abs_def] can_label_1_def [abs_def] can_label_0_def [abs_def] can_label_def [abs_def] del: One_nat_def)
    (rule reads_expect [OF takes_uint32], simp add: can_set_defs, simp_all add: can_fields_def can_tag_def make_tag_def)

lemma can_reads_spn184:
  "reads can_fields can_tag (can_label rt 184) (wr_uint32 wr v) (can_set_spn184 v)"
  by (simp add: can_label_4_def [abs_def] can_label_3_def [abs_def] can_label_2_def [abs_def] can_label_1_def [abs_def] can_label_0_def [abs_def] can_label_def [abs_def] del: One_nat_def)
    (rule reads_expect [OF takes_uint32], simp add: can_set_defs, simp_all add: can_fields_def can_tag_def make_tag_def)

lemma can_reads_spn190:
  "reads can_fields can_tag (can_label rt 190) (wr_uint32 wr v) (can_set_spn190 v)"
  by (simp add: can_label_4_def [abs_def] can_label_3_def [abs_def] can_label_2_def [abs_def] can_label_1_def [abs_def] can_label_0_def [abs_def] can_label_def [abs_def] del: One_nat_def)
    (rule reads_expect [OF takes_uint32], simp add: can_set_defs, simp_all add: can_fields_def can_tag_def make_tag_def)

lemma can_reads_spn244:
  "reads can_fields can_tag (can_label rt 244) (wr_uint32 wr v) (can_set_spn244 v)"
  by (simp add: can_label_4_def [abs_def] can_label_3_def [abs_def] can_label_2_def [abs_def] can_label_1_def [abs_def] can_label_0_def [abs_def] can_label_def [abs_def] del: One_nat_def)
    (rule reads_expect [OF takes_uint32], simp add: can_set_defs, simp_all add: can_fields_def can_tag_def make_tag_def)

lemma can_reads_spn245:
  "reads can_fields can_tag (can_label rt 245) (wr_uint32 wr v) (can_set_spn245 v)"
  by (simp add: can_label_4_def [abs_def] can_label_3_def [abs_def] can_label_2_def [abs_def] can_label_1_def [abs_def] can_label_0_def [abs_def] can_label_def [abs_def] del: One_nat_def)
    (rule reads_expect [OF takes_uint32], simp add: can_set_defs, simp_all add: can_fields_def can_tag_def make_tag_def)

lemma can_reads_spn247:
  "reads can_fields can_tag (can_label rt 247) (wr_uint32 wr v) (can_set_spn247 v)"
  by (simp add: can_label_4_def [abs_def] can_label_3_def [abs_def] can_label_2_def [abs_def] can_label_1_def [abs_def] can_label_0_def [abs_def] can_label_def [abs_def] del: One_nat_def)
    (rule reads_expect [OF takes_uint32], simp add: can_set_defs, simp_all add: can_fields_def can_tag_def make_tag_def)

lemma can_reads_spn250:
  "reads can_fields can_tag (can_label rt 250) (wr_uint32 wr v) (can_set_spn250 v)"
  by (simp add: can_label_4_def [abs_def] can_label_3_def [abs_def] can_label_2_def [abs_def] can_label_1_def [abs_def] can_label_0_def [abs_def] can_label_def [abs_def] del: One_nat_def)
    (rule reads_expect [OF takes_uint32], simp add: can_set_defs, simp_all add: can_fields_def can_tag_def make_tag_def)

lemma can_reads_spn521:
  "reads can_fields can_tag (can_label rt 521) (wr_uint32 wr v) (can_set_spn521 v)"
  by (simp add: can_label_4_def [abs_def] can_label_3_def [abs_def] can_label_2_def [abs_def] can_label_1_def [abs_def] can_label_0_def [abs_def] can_label_def [abs_def] del: One_nat_def)
    (rule reads_expect [OF takes_uint32], simp add: can_set_defs, simp_all add: can_fields_def can_tag_def make_tag_def)

lemma can_reads_spn522:
  "reads can_fields can_tag (can_label rt 522) (wr_uint32 wr v) (can_set_spn522 v)"
  by (simp add: can_label_4_def [abs_def] can_label_3_def [abs_def] can_label_2_def [abs_def] can_label_1_def [abs_def] can_label_0_def [abs_def] can_label_def [abs_def] del: One_nat_def)
    (rule reads_expect [OF takes_uint32], simp add: can_set_defs, simp_all add: can_fields_def can_tag_def make_tag_def)

lemma can_reads_spn527:
  "reads can_fields can_tag (can_label rt 527) (wr_uint32 wr v) (can_set_spn527 v)"
  by (simp add: can_label_4_def [abs_def] can_label_3_def [abs_def] can_label_2_def [abs_def] can_label_1_def [abs_def] can_label_0_def [abs_def] can_label_def [abs_def] del: One_nat_def)
    (rule reads_expect [OF takes_uint32], simp add: can_set_defs, simp_all add: can_fields_def can_tag_def make_tag_def)

lemma can_reads_spn582:
  assumes "packed_size wr vs < 2 ^ 31"
  shows "reads can_fields can_tag (can_label rt 582) (wr_varint32 wr (of_nat (packed_size wr vs)) @ concat (map (wr_uint32 wr) vs)) (\<lambda>x. x\<lparr>can_spn582 := can_spn582 x @ vs\<rparr>)"
  by (simp add: can_label_4_def [abs_def] can_label_3_def [abs_def] can_label_2_def [abs_def] can_label_1_def [abs_def] can_label_0_def [abs_def] can_label_def [abs_def] del: One_nat_def)
    (rule reads_expect [OF takes_packed [OF assms]], simp add: can_set_defs, simp_all add: can_fields_def can_tag_def make_tag_def)

lemma can_reads_spn597:
  "reads can_fields can_tag (can_label rt 597) (wr_uint32 wr v) (can_set_spn597 v)"
  by (simp add: can_label_4_def [abs_def] can_label_3_def [abs_def] can_label_2_def [abs_def] can_label_1_def [abs_def] can_label_0_def [abs_def] can_label_def [abs_def] del: One_nat_def)
    (rule reads_expect [OF takes_uint32], simp add: can_set_defs, simp_all add: can_fields_def can_tag_def make_tag_def)

lemma can_reads_spn598:
  "reads can_fields can_tag (can_label rt 598) (wr_uint32 wr v) (can_set_spn598 v)"
  by (simp add: can_label_4_def [abs_def] can_label_3_def [abs_def] can_label_2_def [abs_def] can_label_1_def [abs_def] can_label_0_def [abs_def] can_label_def [abs_def] del: One_nat_def)
    (rule reads_expect [OF takes_uint32], simp add: can_set_defs, simp_all add: can_fields_def can_tag_def make_tag_def)

lemma can_reads_spn914:
  "reads can_fields can_tag (can_label rt 914) (wr_uint32 wr v) (can_set_spn914 v)"
  by (simp add: can_label_4_def [abs_def] can_label_3_def [abs_def] can_label_2_def [abs_def] can_label_1_def [abs_def] can_label_0_def [abs_def] can_label_def [abs_def] del: One_nat_def)
    (rule reads_expect [OF takes_uint32], simp add: can_set_defs, simp_all add: can_fields_def can_tag_def make_tag_def)

lemma can_reads_spn916:
  "reads can_fields can_tag (can_label rt 916) (wr_uint32 wr v) (can_set_spn916 v)"
  by (simp add: can_label_4_def [abs_def] can_label_3_def [abs_def] can_label_2_def [abs_def] can_label_1_def [abs_def] can_label_0_def [abs_def] can_label_def [abs_def] del: One_nat_def)
    (rule reads_expect [OF takes_uint32], simp add: can_set_defs, simp_all add: can_fields_def can_tag_def make_tag_def)

lemma can_reads_spn928:
  assumes "packed_size wr vs < 2 ^ 31"
  shows "reads can_fields can_tag (can_label rt 928) (wr_varint32 wr (of_nat (packed_size wr vs)) @ concat (map (wr_uint32 wr) vs)) (\<lambda>x. x\<lparr>can_spn928 := can_spn928 x @ vs\<rparr>)"
  by (simp add: can_label_4_def [abs_def] can_label_3_def [abs_def] can_label_2_def [abs_def] can_label_1_def [abs_def] can_label_0_def [abs_def] can_label_def [abs_def] del: One_nat_def)
    (rule reads_expect [OF takes_packed [OF assms]], simp add: can_set_defs, simp_all add: can_fields_def can_tag_def make_tag_def)

lemma can_reads_spn1624:
  "reads can_fields can_tag (can_label rt 1624) (wr_uint32 wr v) (can_set_spn1624 v)"
  by (simp add: can_label_4_def [abs_def] can_label_3_def [abs_def] can_label_2_def [abs_def] can_label_1_def [abs_def] can_label_0_def [abs_def] can_label_def [abs_def] del: One_nat_def)
    (rule reads_expect [OF takes_uint32], simp add: can_set_defs, simp_all add: can_fields_def can_tag_def make_tag_def)

lemma can_reads_spn1821:
  "reads can_fields can_tag (can_label rt 1821) (wr_uint32 wr v) (can_set_spn1821 v)"
  by (simp add: can_label_4_def [abs_def] can_label_3_def [abs_def] can_label_2_def [abs_def] can_label_1_def [abs_def] can_label_0_def [abs_def] can_label_def [abs_def] del: One_nat_def)
    (rule reads_expect [OF takes_uint32], simp add: can_set_defs, simp_all add: can_fields_def can_tag_def make_tag_def)

lemma can_reads_spn1856:
  "reads can_fields can_tag (can_label rt 1856) (wr_uint32 wr v) (can_set_spn1856 v)"
  by (simp add: can_label_4_def [abs_def] can_label_3_def [abs_def] can_label_2_def [abs_def] can_label_1_def [abs_def] can_label_0_def [abs_def] can_label_def [abs_def] del: One_nat_def)
    (rule reads_end [OF takes_uint32], simp add: can_set_defs)

lemmas can_reads =
  can_reads_spn70
  can_reads_spn91
  can_reads_spn100
  can_reads_spn110
  can_reads_spn174
  can_reads_spn175
  can_reads_spn182
  can_reads_spn184
  can_reads_spn190
  can_reads_spn244
  can_reads_spn245
  can_reads_spn247
  can_reads_spn250
  can_reads_spn521
  can_reads_spn522
  can_reads_spn527
  can_reads_spn582
  can_reads_spn597
  can_reads_spn598
  can_reads_spn914
  can_reads_spn916
  can_reads_spn928
  can_reads_spn1624
  can_reads_spn1821
  can_reads_spn1856

lemma can_items_read:
  assumes "can_fits wr m"
  shows "\<forall>(k, bs, upd) \<in> set (can_items wr m). k \<in> can_fields \<and> reads can_fields can_tag (can_label rt k) bs upd"
  using assms unfolding can_fits_def
  by (simp add: can_items_def ball_Un ball_item can_reads del: One_nat_def) (simp add: can_fields_def)

lemma can_serialize_items:
  "can_unknown m = rt_unknown_empty rt \<Longrightarrow> can_serialize wr m = concat (map (item_bytes wr can_tag) (can_items wr m))"
  by (simp add: can_serialize_def can_items_def concat_item write_uint32_def write_sint32_def write_bytes_def write_packed_def
    can_tag_def wr_unknown_empty)

lemma can_parse_from:
  assumes "can_fits wr m"
    and "rem s = can_serialize wr m @ stop_bytes stop" and "can_unknown m = rt_unknown_empty rt"
    and "group_stop stop"
    and "length (can_serialize wr m) < fuel"
  shows "\<exists>s'. can_parse fuel rt s x = Some (True, s', fold item_upd (can_items wr m) x) \<and> stopped stop s'"
proof -
  note read = can_items_read [OF assms(1)]
  note ser = can_serialize_items [OF assms(3)]
  have "can_tag k \<noteq> 0" if "k \<in> can_fields" for k using can_switch_label [OF that] by blast
  from items_fewer_than_bytes [OF this read] assms(5) ser have fuel: "length (can_items wr m) + 1 \<le> fuel" by simp
  have stop: "t \<noteq> 0 \<and> t \<notin> can_tag ` can_fields \<and> (\<forall>s m. can_switch rt t s m = Done True s m)" if some: "stop = Some (t, r)" for t r
    using can_end_group group_stopD [OF assms(4) some] by blast
  have start: "after can_fields can_tag (concat (map (item_bytes wr can_tag) (can_items wr m)) @ stop_bytes stop) x (Break s x)"
    using assms(2) ser by (simp add: after_def)
  from parse_items [OF can_switch_label can_tag_inj stop read start fuel] show ?thesis by (simp add: can_parse_def)
qed

theorem can_parse_written:
  assumes "can_fits wr m"
    and "rem s = can_serialize wr m @ stop_bytes stop" and "can_complete (rt_unknown_empty rt) m"
    and "group_stop stop"
    and "length (can_serialize wr m) < fuel"
  shows "\<exists>s'. can_parse fuel rt s (can_new (rt_unknown_empty rt)) = Some (True, s', m) \<and> stopped stop s'"
proof -
  have "can_unknown m = rt_unknown_empty rt" using assms(3) by (simp add: can_complete_def)
  from can_parse_from [OF assms(1,2) this assms(4,5), of "can_new (rt_unknown_empty rt)"] show ?thesis
    by (simp add: can_items_new [OF assms(3)])
qed

lemma can_size_0_length: "can_size_0 wr m = length ((if can_has_spn70 m then write_uint32 wr 70 (can_spn70 m) else []) @ (if can_has_spn91 m then write_uint32 wr 91 (can_spn91 m) else []) @ (if can_has_spn100 m then write_uint32 wr 100 (can_spn100 m) else []) @ (if can_has_spn110 m then write_uint32 wr 110 (can_spn110 m) else []) @ (if can_has_spn174 m then write_uint32 wr 174 (can_spn174 m) else []) @ (if can_has_spn175 m then write_uint32 wr 175 (can_spn175 m) else []) @ (if can_has_spn182 m then write_uint32 wr 182 (can_spn182 m) else []) @ (if can_has_spn184 m then write_uint32 wr 184 (can_spn184 m) else []))"
proof (cases "group_guard (can_has_bits m) 0")
  case True
  then show ?thesis
    by (simp add: can_size_0_def write_uint32_def write_sint32_def write_bytes_def value_size tag_size make_tag_def)
next
  case False
  then show ?thesis by (simp add: can_size_0_def has_bit_simps group_guard_off)
qed

lemma can_size_8_length: "can_size_8 wr m = length ((if can_has_spn190 m then write_uint32 wr 190 (can_spn190 m) else []) @ (if can_has_spn244 m then write_uint32 wr 244 (can_spn244 m) else []) @ (if can_has_spn245 m then write_uint32 wr 245 (can_spn245 m) else []) @ (if can_has_spn247 m then write_uint32 wr 247 (can_spn247 m) else []) @ (if can_has_spn250 m then write_uint32 wr 250 (can_spn250 m) else []) @ (if can_has_spn521 m then write_uint32 wr 521 (can_spn521 m) else []) @ (if can_has_spn522 m then write_uint32 wr 522 (can_spn522 m) else []) @ (if can_has_spn527 m then write_uint32 wr 527 (can_spn527 m) else []))"
proof (cases "group_guard (can_has_bits m) 8")
  case True
  then show ?thesis
    by (simp add: can_size_8_def write_uint32_def write_sint32_def write_bytes_def value_size tag_size make_tag_def)
next
  case False
  then show ?thesis by (simp add: can_size_8_def has_bit_simps group_guard_off)
qed

lemma can_size_17_length: "can_size_17 wr m = length ((if can_has_spn597 m then write_uint32 wr 597 (can_spn597 m) else []) @ (if can_has_spn598 m then write_uint32 wr 598 (can_spn598 m) else []) @ (if can_has_spn914 m then write_uint32 wr 914 (can_spn914 m) else []) @ (if can_has_spn916 m then write_uint32 wr 916 (can_spn916 m) else []) @ (if can_has_spn1624 m then write_uint32 wr 1624 (can_spn1624 m) else []) @ (if can_has_spn1821 m then write_uint32 wr 1821 (can_spn1821 m) else []))"
proof (cases "group_guard (can_has_bits m) 17")
  case True
  then show ?thesis
    by (simp add: can_size_17_def write_uint32_def write_sint32_def write_bytes_def value_size tag_size make_tag_def)
next
  case False
  then show ?thesis by (simp add: can_size_17_def has_bit_simps group_guard_off)
qed

lemma can_size_24_length: "can_size_24 wr m = length ((if can_has_spn1856 m then write_uint32 wr 1856 (can_spn1856 m) else []))"
proof (cases "group_guard (can_has_bits m) 24")
  case True
  then show ?thesis
    by (simp add: can_size_24_def write_uint32_def write_sint32_def write_bytes_def value_size tag_size make_tag_def)
next
  case False
  then show ?thesis by (simp add: can_size_24_def has_bit_simps group_guard_off)
qed

lemma can_spn582_length: "packed_field_size wr 2 (can_spn582 m) = length (write_packed wr 582 (can_spn582 m))"
  by (rule packed_field_length) (simp add: tag_size make_tag_def)

lemma can_spn928_length: "packed_field_size wr 2 (can_spn928 m) = length (write_packed wr 928 (can_spn928 m))"
  by (rule packed_field_length) (simp add: tag_size make_tag_def)

theorem can_byte_size_length: "can_byte_size wr m = length (can_serialize wr m)"
  by (simp add: can_byte_size_def can_serialize_def can_size_0_length can_size_8_length can_size_17_length can_size_24_length value_size(4) can_spn582_length can_spn928_length)

end

end
