(* ===== verification/Pb_LLSDt.thy ===== *)
theory Pb_LLSDt
  imports Pb_Wire
begin

text \<open>
  The generated class \<^verbatim>\<open>RecReg_LLSDt\<close>: its fields and has-bits, the accessors of
  \<^verbatim>\<open>message.pb.h\<close>, and \<^verbatim>\<open>SharedCtor\<close>, \<^verbatim>\<open>Clear\<close>, \<^verbatim>\<open>MergeFrom\<close>, \<^verbatim>\<open>IsInitialized\<close> and
  \<^verbatim>\<open>MergePartialFromCodedStream\<close> of \<^verbatim>\<open>message.pb.cc\<close>, with the serialiser and
  the byte size, and the round trip between parser and serialiser. Signed fields hold their two's
  complement. The abstraction \<open>lls_abs\<close> reads the message as a map from field numbers to the
  values that are set; merging is then the override of maps.
\<close>

section \<open>Fields and accessors\<close>

record 'u llsdt =
  lls_has_bits :: u32
  lls_unknown :: 'u
  lls_tlls1 :: u32
  lls_clls1 :: u32
  lls_flls1 :: u32
  lls_tlls2 :: u32
  lls_clls2 :: u32
  lls_flls2 :: u32
  lls_tlls3 :: u32
  lls_clls3 :: u32
  lls_flls3 :: u32
  lls_tlls4 :: u32
  lls_clls4 :: u32
  lls_flls4 :: u32
  lls_tlls5 :: u32
  lls_clls5 :: u32
  lls_flls5 :: u32
  lls_tlls6 :: u32
  lls_clls6 :: u32
  lls_flls6 :: u32

definition lls_has_tlls1 :: "'u llsdt \<Rightarrow> bool" where
  "lls_has_tlls1 m \<longleftrightarrow> lls_has_bits m AND 0x00000001 \<noteq> 0"

definition lls_set_has_tlls1 :: "'u llsdt \<Rightarrow> 'u llsdt" where
  "lls_set_has_tlls1 m = m\<lparr>lls_has_bits := lls_has_bits m OR 0x00000001\<rparr>"

definition lls_set_tlls1 :: "u32 \<Rightarrow> 'u llsdt \<Rightarrow> 'u llsdt" where
  "lls_set_tlls1 v m = (lls_set_has_tlls1 m)\<lparr>lls_tlls1 := v\<rparr>"

definition lls_has_clls1 :: "'u llsdt \<Rightarrow> bool" where
  "lls_has_clls1 m \<longleftrightarrow> lls_has_bits m AND 0x00000002 \<noteq> 0"

definition lls_set_has_clls1 :: "'u llsdt \<Rightarrow> 'u llsdt" where
  "lls_set_has_clls1 m = m\<lparr>lls_has_bits := lls_has_bits m OR 0x00000002\<rparr>"

definition lls_set_clls1 :: "u32 \<Rightarrow> 'u llsdt \<Rightarrow> 'u llsdt" where
  "lls_set_clls1 v m = (lls_set_has_clls1 m)\<lparr>lls_clls1 := v\<rparr>"

definition lls_has_flls1 :: "'u llsdt \<Rightarrow> bool" where
  "lls_has_flls1 m \<longleftrightarrow> lls_has_bits m AND 0x00000004 \<noteq> 0"

definition lls_set_has_flls1 :: "'u llsdt \<Rightarrow> 'u llsdt" where
  "lls_set_has_flls1 m = m\<lparr>lls_has_bits := lls_has_bits m OR 0x00000004\<rparr>"

definition lls_set_flls1 :: "u32 \<Rightarrow> 'u llsdt \<Rightarrow> 'u llsdt" where
  "lls_set_flls1 v m = (lls_set_has_flls1 m)\<lparr>lls_flls1 := v\<rparr>"

definition lls_has_tlls2 :: "'u llsdt \<Rightarrow> bool" where
  "lls_has_tlls2 m \<longleftrightarrow> lls_has_bits m AND 0x00000008 \<noteq> 0"

definition lls_set_has_tlls2 :: "'u llsdt \<Rightarrow> 'u llsdt" where
  "lls_set_has_tlls2 m = m\<lparr>lls_has_bits := lls_has_bits m OR 0x00000008\<rparr>"

definition lls_set_tlls2 :: "u32 \<Rightarrow> 'u llsdt \<Rightarrow> 'u llsdt" where
  "lls_set_tlls2 v m = (lls_set_has_tlls2 m)\<lparr>lls_tlls2 := v\<rparr>"

definition lls_has_clls2 :: "'u llsdt \<Rightarrow> bool" where
  "lls_has_clls2 m \<longleftrightarrow> lls_has_bits m AND 0x00000010 \<noteq> 0"

definition lls_set_has_clls2 :: "'u llsdt \<Rightarrow> 'u llsdt" where
  "lls_set_has_clls2 m = m\<lparr>lls_has_bits := lls_has_bits m OR 0x00000010\<rparr>"

definition lls_set_clls2 :: "u32 \<Rightarrow> 'u llsdt \<Rightarrow> 'u llsdt" where
  "lls_set_clls2 v m = (lls_set_has_clls2 m)\<lparr>lls_clls2 := v\<rparr>"

definition lls_has_flls2 :: "'u llsdt \<Rightarrow> bool" where
  "lls_has_flls2 m \<longleftrightarrow> lls_has_bits m AND 0x00000020 \<noteq> 0"

definition lls_set_has_flls2 :: "'u llsdt \<Rightarrow> 'u llsdt" where
  "lls_set_has_flls2 m = m\<lparr>lls_has_bits := lls_has_bits m OR 0x00000020\<rparr>"

definition lls_set_flls2 :: "u32 \<Rightarrow> 'u llsdt \<Rightarrow> 'u llsdt" where
  "lls_set_flls2 v m = (lls_set_has_flls2 m)\<lparr>lls_flls2 := v\<rparr>"

definition lls_has_tlls3 :: "'u llsdt \<Rightarrow> bool" where
  "lls_has_tlls3 m \<longleftrightarrow> lls_has_bits m AND 0x00000040 \<noteq> 0"

definition lls_set_has_tlls3 :: "'u llsdt \<Rightarrow> 'u llsdt" where
  "lls_set_has_tlls3 m = m\<lparr>lls_has_bits := lls_has_bits m OR 0x00000040\<rparr>"

definition lls_set_tlls3 :: "u32 \<Rightarrow> 'u llsdt \<Rightarrow> 'u llsdt" where
  "lls_set_tlls3 v m = (lls_set_has_tlls3 m)\<lparr>lls_tlls3 := v\<rparr>"

definition lls_has_clls3 :: "'u llsdt \<Rightarrow> bool" where
  "lls_has_clls3 m \<longleftrightarrow> lls_has_bits m AND 0x00000080 \<noteq> 0"

definition lls_set_has_clls3 :: "'u llsdt \<Rightarrow> 'u llsdt" where
  "lls_set_has_clls3 m = m\<lparr>lls_has_bits := lls_has_bits m OR 0x00000080\<rparr>"

definition lls_set_clls3 :: "u32 \<Rightarrow> 'u llsdt \<Rightarrow> 'u llsdt" where
  "lls_set_clls3 v m = (lls_set_has_clls3 m)\<lparr>lls_clls3 := v\<rparr>"

definition lls_has_flls3 :: "'u llsdt \<Rightarrow> bool" where
  "lls_has_flls3 m \<longleftrightarrow> lls_has_bits m AND 0x00000100 \<noteq> 0"

definition lls_set_has_flls3 :: "'u llsdt \<Rightarrow> 'u llsdt" where
  "lls_set_has_flls3 m = m\<lparr>lls_has_bits := lls_has_bits m OR 0x00000100\<rparr>"

definition lls_set_flls3 :: "u32 \<Rightarrow> 'u llsdt \<Rightarrow> 'u llsdt" where
  "lls_set_flls3 v m = (lls_set_has_flls3 m)\<lparr>lls_flls3 := v\<rparr>"

definition lls_has_tlls4 :: "'u llsdt \<Rightarrow> bool" where
  "lls_has_tlls4 m \<longleftrightarrow> lls_has_bits m AND 0x00000200 \<noteq> 0"

definition lls_set_has_tlls4 :: "'u llsdt \<Rightarrow> 'u llsdt" where
  "lls_set_has_tlls4 m = m\<lparr>lls_has_bits := lls_has_bits m OR 0x00000200\<rparr>"

definition lls_set_tlls4 :: "u32 \<Rightarrow> 'u llsdt \<Rightarrow> 'u llsdt" where
  "lls_set_tlls4 v m = (lls_set_has_tlls4 m)\<lparr>lls_tlls4 := v\<rparr>"

definition lls_has_clls4 :: "'u llsdt \<Rightarrow> bool" where
  "lls_has_clls4 m \<longleftrightarrow> lls_has_bits m AND 0x00000400 \<noteq> 0"

definition lls_set_has_clls4 :: "'u llsdt \<Rightarrow> 'u llsdt" where
  "lls_set_has_clls4 m = m\<lparr>lls_has_bits := lls_has_bits m OR 0x00000400\<rparr>"

definition lls_set_clls4 :: "u32 \<Rightarrow> 'u llsdt \<Rightarrow> 'u llsdt" where
  "lls_set_clls4 v m = (lls_set_has_clls4 m)\<lparr>lls_clls4 := v\<rparr>"

definition lls_has_flls4 :: "'u llsdt \<Rightarrow> bool" where
  "lls_has_flls4 m \<longleftrightarrow> lls_has_bits m AND 0x00000800 \<noteq> 0"

definition lls_set_has_flls4 :: "'u llsdt \<Rightarrow> 'u llsdt" where
  "lls_set_has_flls4 m = m\<lparr>lls_has_bits := lls_has_bits m OR 0x00000800\<rparr>"

definition lls_set_flls4 :: "u32 \<Rightarrow> 'u llsdt \<Rightarrow> 'u llsdt" where
  "lls_set_flls4 v m = (lls_set_has_flls4 m)\<lparr>lls_flls4 := v\<rparr>"

definition lls_has_tlls5 :: "'u llsdt \<Rightarrow> bool" where
  "lls_has_tlls5 m \<longleftrightarrow> lls_has_bits m AND 0x00001000 \<noteq> 0"

definition lls_set_has_tlls5 :: "'u llsdt \<Rightarrow> 'u llsdt" where
  "lls_set_has_tlls5 m = m\<lparr>lls_has_bits := lls_has_bits m OR 0x00001000\<rparr>"

definition lls_set_tlls5 :: "u32 \<Rightarrow> 'u llsdt \<Rightarrow> 'u llsdt" where
  "lls_set_tlls5 v m = (lls_set_has_tlls5 m)\<lparr>lls_tlls5 := v\<rparr>"

definition lls_has_clls5 :: "'u llsdt \<Rightarrow> bool" where
  "lls_has_clls5 m \<longleftrightarrow> lls_has_bits m AND 0x00002000 \<noteq> 0"

definition lls_set_has_clls5 :: "'u llsdt \<Rightarrow> 'u llsdt" where
  "lls_set_has_clls5 m = m\<lparr>lls_has_bits := lls_has_bits m OR 0x00002000\<rparr>"

definition lls_set_clls5 :: "u32 \<Rightarrow> 'u llsdt \<Rightarrow> 'u llsdt" where
  "lls_set_clls5 v m = (lls_set_has_clls5 m)\<lparr>lls_clls5 := v\<rparr>"

definition lls_has_flls5 :: "'u llsdt \<Rightarrow> bool" where
  "lls_has_flls5 m \<longleftrightarrow> lls_has_bits m AND 0x00004000 \<noteq> 0"

definition lls_set_has_flls5 :: "'u llsdt \<Rightarrow> 'u llsdt" where
  "lls_set_has_flls5 m = m\<lparr>lls_has_bits := lls_has_bits m OR 0x00004000\<rparr>"

definition lls_set_flls5 :: "u32 \<Rightarrow> 'u llsdt \<Rightarrow> 'u llsdt" where
  "lls_set_flls5 v m = (lls_set_has_flls5 m)\<lparr>lls_flls5 := v\<rparr>"

definition lls_has_tlls6 :: "'u llsdt \<Rightarrow> bool" where
  "lls_has_tlls6 m \<longleftrightarrow> lls_has_bits m AND 0x00008000 \<noteq> 0"

definition lls_set_has_tlls6 :: "'u llsdt \<Rightarrow> 'u llsdt" where
  "lls_set_has_tlls6 m = m\<lparr>lls_has_bits := lls_has_bits m OR 0x00008000\<rparr>"

definition lls_set_tlls6 :: "u32 \<Rightarrow> 'u llsdt \<Rightarrow> 'u llsdt" where
  "lls_set_tlls6 v m = (lls_set_has_tlls6 m)\<lparr>lls_tlls6 := v\<rparr>"

definition lls_has_clls6 :: "'u llsdt \<Rightarrow> bool" where
  "lls_has_clls6 m \<longleftrightarrow> lls_has_bits m AND 0x00010000 \<noteq> 0"

definition lls_set_has_clls6 :: "'u llsdt \<Rightarrow> 'u llsdt" where
  "lls_set_has_clls6 m = m\<lparr>lls_has_bits := lls_has_bits m OR 0x00010000\<rparr>"

definition lls_set_clls6 :: "u32 \<Rightarrow> 'u llsdt \<Rightarrow> 'u llsdt" where
  "lls_set_clls6 v m = (lls_set_has_clls6 m)\<lparr>lls_clls6 := v\<rparr>"

definition lls_has_flls6 :: "'u llsdt \<Rightarrow> bool" where
  "lls_has_flls6 m \<longleftrightarrow> lls_has_bits m AND 0x00020000 \<noteq> 0"

definition lls_set_has_flls6 :: "'u llsdt \<Rightarrow> 'u llsdt" where
  "lls_set_has_flls6 m = m\<lparr>lls_has_bits := lls_has_bits m OR 0x00020000\<rparr>"

definition lls_set_flls6 :: "u32 \<Rightarrow> 'u llsdt \<Rightarrow> 'u llsdt" where
  "lls_set_flls6 v m = (lls_set_has_flls6 m)\<lparr>lls_flls6 := v\<rparr>"

lemma lls_has_bit [has_bit_simps]:
  "lls_has_tlls1 m \<longleftrightarrow> bit (lls_has_bits m) 0"
  "lls_has_clls1 m \<longleftrightarrow> bit (lls_has_bits m) 1"
  "lls_has_flls1 m \<longleftrightarrow> bit (lls_has_bits m) 2"
  "lls_has_tlls2 m \<longleftrightarrow> bit (lls_has_bits m) 3"
  "lls_has_clls2 m \<longleftrightarrow> bit (lls_has_bits m) 4"
  "lls_has_flls2 m \<longleftrightarrow> bit (lls_has_bits m) 5"
  "lls_has_tlls3 m \<longleftrightarrow> bit (lls_has_bits m) 6"
  "lls_has_clls3 m \<longleftrightarrow> bit (lls_has_bits m) 7"
  "lls_has_flls3 m \<longleftrightarrow> bit (lls_has_bits m) 8"
  "lls_has_tlls4 m \<longleftrightarrow> bit (lls_has_bits m) 9"
  "lls_has_clls4 m \<longleftrightarrow> bit (lls_has_bits m) 10"
  "lls_has_flls4 m \<longleftrightarrow> bit (lls_has_bits m) 11"
  "lls_has_tlls5 m \<longleftrightarrow> bit (lls_has_bits m) 12"
  "lls_has_clls5 m \<longleftrightarrow> bit (lls_has_bits m) 13"
  "lls_has_flls5 m \<longleftrightarrow> bit (lls_has_bits m) 14"
  "lls_has_tlls6 m \<longleftrightarrow> bit (lls_has_bits m) 15"
  "lls_has_clls6 m \<longleftrightarrow> bit (lls_has_bits m) 16"
  "lls_has_flls6 m \<longleftrightarrow> bit (lls_has_bits m) 17"
  using and_one_bit [of "lls_has_bits m" 0]
    and_one_bit [of "lls_has_bits m" 1]
    and_one_bit [of "lls_has_bits m" 2]
    and_one_bit [of "lls_has_bits m" 3]
    and_one_bit [of "lls_has_bits m" 4]
    and_one_bit [of "lls_has_bits m" 5]
    and_one_bit [of "lls_has_bits m" 6]
    and_one_bit [of "lls_has_bits m" 7]
    and_one_bit [of "lls_has_bits m" 8]
    and_one_bit [of "lls_has_bits m" 9]
    and_one_bit [of "lls_has_bits m" 10]
    and_one_bit [of "lls_has_bits m" 11]
    and_one_bit [of "lls_has_bits m" 12]
    and_one_bit [of "lls_has_bits m" 13]
    and_one_bit [of "lls_has_bits m" 14]
    and_one_bit [of "lls_has_bits m" 15]
    and_one_bit [of "lls_has_bits m" 16]
    and_one_bit [of "lls_has_bits m" 17]
  by (simp_all add: lls_has_tlls1_def lls_has_clls1_def lls_has_flls1_def lls_has_tlls2_def lls_has_clls2_def lls_has_flls2_def lls_has_tlls3_def lls_has_clls3_def lls_has_flls3_def lls_has_tlls4_def lls_has_clls4_def lls_has_flls4_def lls_has_tlls5_def lls_has_clls5_def lls_has_flls5_def lls_has_tlls6_def lls_has_clls6_def lls_has_flls6_def)

lemmas lls_set_defs =
  lls_set_has_tlls1_def lls_set_tlls1_def
  lls_set_has_clls1_def lls_set_clls1_def
  lls_set_has_flls1_def lls_set_flls1_def
  lls_set_has_tlls2_def lls_set_tlls2_def
  lls_set_has_clls2_def lls_set_clls2_def
  lls_set_has_flls2_def lls_set_flls2_def
  lls_set_has_tlls3_def lls_set_tlls3_def
  lls_set_has_clls3_def lls_set_clls3_def
  lls_set_has_flls3_def lls_set_flls3_def
  lls_set_has_tlls4_def lls_set_tlls4_def
  lls_set_has_clls4_def lls_set_clls4_def
  lls_set_has_flls4_def lls_set_flls4_def
  lls_set_has_tlls5_def lls_set_tlls5_def
  lls_set_has_clls5_def lls_set_clls5_def
  lls_set_has_flls5_def lls_set_flls5_def
  lls_set_has_tlls6_def lls_set_tlls6_def
  lls_set_has_clls6_def lls_set_clls6_def
  lls_set_has_flls6_def lls_set_flls6_def

lemma lls_or_bit [has_bit_simps]:
  "bit ((w :: u32) OR 0x00000001) n \<longleftrightarrow> bit w n \<or> n = 0"
  "bit ((w :: u32) OR 0x00000002) n \<longleftrightarrow> bit w n \<or> n = 1"
  "bit ((w :: u32) OR 0x00000004) n \<longleftrightarrow> bit w n \<or> n = 2"
  "bit ((w :: u32) OR 0x00000008) n \<longleftrightarrow> bit w n \<or> n = 3"
  "bit ((w :: u32) OR 0x00000010) n \<longleftrightarrow> bit w n \<or> n = 4"
  "bit ((w :: u32) OR 0x00000020) n \<longleftrightarrow> bit w n \<or> n = 5"
  "bit ((w :: u32) OR 0x00000040) n \<longleftrightarrow> bit w n \<or> n = 6"
  "bit ((w :: u32) OR 0x00000080) n \<longleftrightarrow> bit w n \<or> n = 7"
  "bit ((w :: u32) OR 0x00000100) n \<longleftrightarrow> bit w n \<or> n = 8"
  "bit ((w :: u32) OR 0x00000200) n \<longleftrightarrow> bit w n \<or> n = 9"
  "bit ((w :: u32) OR 0x00000400) n \<longleftrightarrow> bit w n \<or> n = 10"
  "bit ((w :: u32) OR 0x00000800) n \<longleftrightarrow> bit w n \<or> n = 11"
  "bit ((w :: u32) OR 0x00001000) n \<longleftrightarrow> bit w n \<or> n = 12"
  "bit ((w :: u32) OR 0x00002000) n \<longleftrightarrow> bit w n \<or> n = 13"
  "bit ((w :: u32) OR 0x00004000) n \<longleftrightarrow> bit w n \<or> n = 14"
  "bit ((w :: u32) OR 0x00008000) n \<longleftrightarrow> bit w n \<or> n = 15"
  "bit ((w :: u32) OR 0x00010000) n \<longleftrightarrow> bit w n \<or> n = 16"
  "bit ((w :: u32) OR 0x00020000) n \<longleftrightarrow> bit w n \<or> n = 17"
  using or_one_bit [of 0 w n]
    or_one_bit [of 1 w n]
    or_one_bit [of 2 w n]
    or_one_bit [of 3 w n]
    or_one_bit [of 4 w n]
    or_one_bit [of 5 w n]
    or_one_bit [of 6 w n]
    or_one_bit [of 7 w n]
    or_one_bit [of 8 w n]
    or_one_bit [of 9 w n]
    or_one_bit [of 10 w n]
    or_one_bit [of 11 w n]
    or_one_bit [of 12 w n]
    or_one_bit [of 13 w n]
    or_one_bit [of 14 w n]
    or_one_bit [of 15 w n]
    or_one_bit [of 16 w n]
    or_one_bit [of 17 w n]
  by simp_all

section \<open>Construction and \<open>Clear\<close>\<close>

definition lls_new :: "'u \<Rightarrow> 'u llsdt" where
  "lls_new u = \<lparr>lls_has_bits = 0, lls_unknown = u,
     lls_tlls1 = 0, lls_clls1 = 0, lls_flls1 = 0, lls_tlls2 = 0,
     lls_clls2 = 0, lls_flls2 = 0, lls_tlls3 = 0, lls_clls3 = 0,
     lls_flls3 = 0, lls_tlls4 = 0, lls_clls4 = 0, lls_flls4 = 0,
     lls_tlls5 = 0, lls_clls5 = 0, lls_flls5 = 0, lls_tlls6 = 0,
     lls_clls6 = 0, lls_flls6 = 0\<rparr>"

definition lls_clear_0 :: "'u llsdt \<Rightarrow> 'u llsdt" where
  "lls_clear_0 m =
     (if group_guard (lls_has_bits m) 0
      then m\<lparr>lls_tlls1 := 0, lls_clls1 := 0, lls_flls1 := 0,
        lls_tlls2 := 0, lls_clls2 := 0, lls_flls2 := 0,
        lls_tlls3 := 0, lls_clls3 := 0\<rparr>
      else m)"

definition lls_clear_8 :: "'u llsdt \<Rightarrow> 'u llsdt" where
  "lls_clear_8 m =
     (if group_guard (lls_has_bits m) 8
      then m\<lparr>lls_flls3 := 0, lls_tlls4 := 0, lls_clls4 := 0,
        lls_flls4 := 0, lls_tlls5 := 0, lls_clls5 := 0,
        lls_flls5 := 0, lls_tlls6 := 0\<rparr>
      else m)"

definition lls_clear_16 :: "'u llsdt \<Rightarrow> 'u llsdt" where
  "lls_clear_16 m =
     (if group_guard (lls_has_bits m) 16
      then m\<lparr>lls_clls6 := 0, lls_flls6 := 0\<rparr>
      else m)"

definition lls_clear :: "('s, 'u) runtime \<Rightarrow> 'u llsdt \<Rightarrow> 'u llsdt" where
  "lls_clear rt m = (lls_clear_16 (lls_clear_8 (lls_clear_0 m)))\<lparr>lls_has_bits := 0, lls_unknown := rt_unknown_empty rt\<rparr>"

text \<open>A field that is not set holds its default: \<^verbatim>\<open>Clear\<close> relies on it when it skips a group.\<close>

definition lls_wf :: "'u llsdt \<Rightarrow> bool" where
  "lls_wf m \<longleftrightarrow>
     (\<not> lls_has_tlls1 m \<longrightarrow> lls_tlls1 m = 0) \<and>
     (\<not> lls_has_clls1 m \<longrightarrow> lls_clls1 m = 0) \<and>
     (\<not> lls_has_flls1 m \<longrightarrow> lls_flls1 m = 0) \<and>
     (\<not> lls_has_tlls2 m \<longrightarrow> lls_tlls2 m = 0) \<and>
     (\<not> lls_has_clls2 m \<longrightarrow> lls_clls2 m = 0) \<and>
     (\<not> lls_has_flls2 m \<longrightarrow> lls_flls2 m = 0) \<and>
     (\<not> lls_has_tlls3 m \<longrightarrow> lls_tlls3 m = 0) \<and>
     (\<not> lls_has_clls3 m \<longrightarrow> lls_clls3 m = 0) \<and>
     (\<not> lls_has_flls3 m \<longrightarrow> lls_flls3 m = 0) \<and>
     (\<not> lls_has_tlls4 m \<longrightarrow> lls_tlls4 m = 0) \<and>
     (\<not> lls_has_clls4 m \<longrightarrow> lls_clls4 m = 0) \<and>
     (\<not> lls_has_flls4 m \<longrightarrow> lls_flls4 m = 0) \<and>
     (\<not> lls_has_tlls5 m \<longrightarrow> lls_tlls5 m = 0) \<and>
     (\<not> lls_has_clls5 m \<longrightarrow> lls_clls5 m = 0) \<and>
     (\<not> lls_has_flls5 m \<longrightarrow> lls_flls5 m = 0) \<and>
     (\<not> lls_has_tlls6 m \<longrightarrow> lls_tlls6 m = 0) \<and>
     (\<not> lls_has_clls6 m \<longrightarrow> lls_clls6 m = 0) \<and>
     (\<not> lls_has_flls6 m \<longrightarrow> lls_flls6 m = 0)"

lemma lls_wf_new [simp]: "lls_wf (lls_new u)"
  by (simp add: lls_wf_def lls_new_def)

lemma lls_clear_0_wf:
  assumes "lls_wf m"
  shows "lls_clear_0 m = m\<lparr>lls_tlls1 := 0, lls_clls1 := 0, lls_flls1 := 0, lls_tlls2 := 0, lls_clls2 := 0, lls_flls2 := 0, lls_tlls3 := 0, lls_clls3 := 0\<rparr>"
proof (cases "group_guard (lls_has_bits m) 0")
  case True
  with assms show ?thesis by (simp add: lls_clear_0_def lls_wf_def)
next
  case False
  with assms show ?thesis
    by (cases m) (simp add: lls_clear_0_def lls_wf_def has_bit_simps group_guard_off)
qed

lemma lls_clear_8_wf:
  assumes "lls_wf m"
  shows "lls_clear_8 m = m\<lparr>lls_flls3 := 0, lls_tlls4 := 0, lls_clls4 := 0, lls_flls4 := 0, lls_tlls5 := 0, lls_clls5 := 0, lls_flls5 := 0, lls_tlls6 := 0\<rparr>"
proof (cases "group_guard (lls_has_bits m) 8")
  case True
  with assms show ?thesis by (simp add: lls_clear_8_def lls_wf_def)
next
  case False
  with assms show ?thesis
    by (cases m) (simp add: lls_clear_8_def lls_wf_def has_bit_simps group_guard_off)
qed

lemma lls_clear_16_wf:
  assumes "lls_wf m"
  shows "lls_clear_16 m = m\<lparr>lls_clls6 := 0, lls_flls6 := 0\<rparr>"
proof (cases "group_guard (lls_has_bits m) 16")
  case True
  with assms show ?thesis by (simp add: lls_clear_16_def lls_wf_def)
next
  case False
  with assms show ?thesis
    by (cases m) (simp add: lls_clear_16_def lls_wf_def has_bit_simps group_guard_off)
qed

lemma lls_clear_fresh:
  assumes "lls_wf m"
  shows "lls_clear rt m = lls_new (rt_unknown_empty rt)"
proof -
  have w0: "lls_wf (m)" by (rule assms)
  note e0 = lls_clear_0_wf [OF w0]
  have w1: "lls_wf (lls_clear_0 m)"
    using w0 unfolding e0 by (simp add: lls_wf_def has_bit_simps)
  note e1 = lls_clear_8_wf [OF w1, unfolded e0]
  have w2: "lls_wf (lls_clear_8 (lls_clear_0 m))"
    using w1 unfolding e0 e1 by (simp add: lls_wf_def has_bit_simps)
  note e2 = lls_clear_16_wf [OF w2, unfolded e0 e1]
  show ?thesis
    unfolding lls_clear_def e2 e1 e0 by (cases m) (simp add: lls_new_def)
qed

section \<open>The message as a map\<close>

definition lls_abs :: "'u llsdt \<Rightarrow> (nat \<rightharpoonup> pval)" where
  "lls_abs m k =
     (if k = 1 then when_has (lls_has_tlls1 m) (PU (lls_tlls1 m))
      else if k = 2 then when_has (lls_has_clls1 m) (PU (lls_clls1 m))
      else if k = 3 then when_has (lls_has_flls1 m) (PU (lls_flls1 m))
      else if k = 4 then when_has (lls_has_tlls2 m) (PU (lls_tlls2 m))
      else if k = 5 then when_has (lls_has_clls2 m) (PU (lls_clls2 m))
      else if k = 6 then when_has (lls_has_flls2 m) (PU (lls_flls2 m))
      else if k = 7 then when_has (lls_has_tlls3 m) (PU (lls_tlls3 m))
      else if k = 8 then when_has (lls_has_clls3 m) (PU (lls_clls3 m))
      else if k = 9 then when_has (lls_has_flls3 m) (PU (lls_flls3 m))
      else if k = 10 then when_has (lls_has_tlls4 m) (PU (lls_tlls4 m))
      else if k = 11 then when_has (lls_has_clls4 m) (PU (lls_clls4 m))
      else if k = 12 then when_has (lls_has_flls4 m) (PU (lls_flls4 m))
      else if k = 13 then when_has (lls_has_tlls5 m) (PU (lls_tlls5 m))
      else if k = 14 then when_has (lls_has_clls5 m) (PU (lls_clls5 m))
      else if k = 15 then when_has (lls_has_flls5 m) (PU (lls_flls5 m))
      else if k = 16 then when_has (lls_has_tlls6 m) (PU (lls_tlls6 m))
      else if k = 17 then when_has (lls_has_clls6 m) (PU (lls_clls6 m))
      else if k = 18 then when_has (lls_has_flls6 m) (PU (lls_flls6 m))
      else None)"

lemma lls_abs_new: "lls_abs (lls_new u) = Map.empty"
  by (rule ext) (simp add: lls_abs_def lls_new_def has_bit_simps)

lemma lls_abs_set:
  "lls_abs (lls_set_tlls1 v m) = (lls_abs m)(1 \<mapsto> PU v)"
  "lls_abs (lls_set_clls1 v m) = (lls_abs m)(2 \<mapsto> PU v)"
  "lls_abs (lls_set_flls1 v m) = (lls_abs m)(3 \<mapsto> PU v)"
  "lls_abs (lls_set_tlls2 v m) = (lls_abs m)(4 \<mapsto> PU v)"
  "lls_abs (lls_set_clls2 v m) = (lls_abs m)(5 \<mapsto> PU v)"
  "lls_abs (lls_set_flls2 v m) = (lls_abs m)(6 \<mapsto> PU v)"
  "lls_abs (lls_set_tlls3 v m) = (lls_abs m)(7 \<mapsto> PU v)"
  "lls_abs (lls_set_clls3 v m) = (lls_abs m)(8 \<mapsto> PU v)"
  "lls_abs (lls_set_flls3 v m) = (lls_abs m)(9 \<mapsto> PU v)"
  "lls_abs (lls_set_tlls4 v m) = (lls_abs m)(10 \<mapsto> PU v)"
  "lls_abs (lls_set_clls4 v m) = (lls_abs m)(11 \<mapsto> PU v)"
  "lls_abs (lls_set_flls4 v m) = (lls_abs m)(12 \<mapsto> PU v)"
  "lls_abs (lls_set_tlls5 v m) = (lls_abs m)(13 \<mapsto> PU v)"
  "lls_abs (lls_set_clls5 v m) = (lls_abs m)(14 \<mapsto> PU v)"
  "lls_abs (lls_set_flls5 v m) = (lls_abs m)(15 \<mapsto> PU v)"
  "lls_abs (lls_set_tlls6 v m) = (lls_abs m)(16 \<mapsto> PU v)"
  "lls_abs (lls_set_clls6 v m) = (lls_abs m)(17 \<mapsto> PU v)"
  "lls_abs (lls_set_flls6 v m) = (lls_abs m)(18 \<mapsto> PU v)"
  by (rule ext, simp add: lls_abs_def lls_set_defs has_bit_simps)+

lemma lls_dom_abs: "dom (lls_abs m) \<subseteq> set [1, 2, 3, 4, 5, 6, 7, 8, 9, 10, 11, 12, 13, 14, 15, 16, 17, 18]"
  by (auto simp: lls_abs_def split: if_splits)

section \<open>\<open>MergeFrom\<close>\<close>

lemma lls_abs_merge_field:
  "lls_abs (merge_field lls_has_tlls1 lls_tlls1 lls_set_tlls1 from m) = put_opt 1 (lls_abs from 1) (lls_abs m)"
  "lls_abs (merge_field lls_has_clls1 lls_clls1 lls_set_clls1 from m) = put_opt 2 (lls_abs from 2) (lls_abs m)"
  "lls_abs (merge_field lls_has_flls1 lls_flls1 lls_set_flls1 from m) = put_opt 3 (lls_abs from 3) (lls_abs m)"
  "lls_abs (merge_field lls_has_tlls2 lls_tlls2 lls_set_tlls2 from m) = put_opt 4 (lls_abs from 4) (lls_abs m)"
  "lls_abs (merge_field lls_has_clls2 lls_clls2 lls_set_clls2 from m) = put_opt 5 (lls_abs from 5) (lls_abs m)"
  "lls_abs (merge_field lls_has_flls2 lls_flls2 lls_set_flls2 from m) = put_opt 6 (lls_abs from 6) (lls_abs m)"
  "lls_abs (merge_field lls_has_tlls3 lls_tlls3 lls_set_tlls3 from m) = put_opt 7 (lls_abs from 7) (lls_abs m)"
  "lls_abs (merge_field lls_has_clls3 lls_clls3 lls_set_clls3 from m) = put_opt 8 (lls_abs from 8) (lls_abs m)"
  "lls_abs (merge_field lls_has_flls3 lls_flls3 lls_set_flls3 from m) = put_opt 9 (lls_abs from 9) (lls_abs m)"
  "lls_abs (merge_field lls_has_tlls4 lls_tlls4 lls_set_tlls4 from m) = put_opt 10 (lls_abs from 10) (lls_abs m)"
  "lls_abs (merge_field lls_has_clls4 lls_clls4 lls_set_clls4 from m) = put_opt 11 (lls_abs from 11) (lls_abs m)"
  "lls_abs (merge_field lls_has_flls4 lls_flls4 lls_set_flls4 from m) = put_opt 12 (lls_abs from 12) (lls_abs m)"
  "lls_abs (merge_field lls_has_tlls5 lls_tlls5 lls_set_tlls5 from m) = put_opt 13 (lls_abs from 13) (lls_abs m)"
  "lls_abs (merge_field lls_has_clls5 lls_clls5 lls_set_clls5 from m) = put_opt 14 (lls_abs from 14) (lls_abs m)"
  "lls_abs (merge_field lls_has_flls5 lls_flls5 lls_set_flls5 from m) = put_opt 15 (lls_abs from 15) (lls_abs m)"
  "lls_abs (merge_field lls_has_tlls6 lls_tlls6 lls_set_tlls6 from m) = put_opt 16 (lls_abs from 16) (lls_abs m)"
  "lls_abs (merge_field lls_has_clls6 lls_clls6 lls_set_clls6 from m) = put_opt 17 (lls_abs from 17) (lls_abs m)"
  "lls_abs (merge_field lls_has_flls6 lls_flls6 lls_set_flls6 from m) = put_opt 18 (lls_abs from 18) (lls_abs m)"
  by (simp_all add: merge_field_def put_opt_def lls_abs_set) (simp_all add: lls_abs_def)

definition lls_merge_0 :: "'u llsdt \<Rightarrow> 'u llsdt \<Rightarrow> 'u llsdt" where
  "lls_merge_0 from m =
     (if group_guard (lls_has_bits from) 0 then
        let m = merge_field lls_has_tlls1 lls_tlls1 lls_set_tlls1 from m;
            m = merge_field lls_has_clls1 lls_clls1 lls_set_clls1 from m;
            m = merge_field lls_has_flls1 lls_flls1 lls_set_flls1 from m;
            m = merge_field lls_has_tlls2 lls_tlls2 lls_set_tlls2 from m;
            m = merge_field lls_has_clls2 lls_clls2 lls_set_clls2 from m;
            m = merge_field lls_has_flls2 lls_flls2 lls_set_flls2 from m;
            m = merge_field lls_has_tlls3 lls_tlls3 lls_set_tlls3 from m;
            m = merge_field lls_has_clls3 lls_clls3 lls_set_clls3 from m
        in m
      else m)"

lemma lls_abs_merge_0:
  "lls_abs (lls_merge_0 from m) = foldl (\<lambda>M k. put_opt k (lls_abs from k) M) (lls_abs m) [1, 2, 3, 4, 5, 6, 7, 8]"
proof (cases "group_guard (lls_has_bits from) 0")
  case True
  then show ?thesis by (simp add: lls_merge_0_def Let_def lls_abs_merge_field)
next
  case False
  then have "k \<in> set [1, 2, 3, 4, 5, 6, 7, 8] \<Longrightarrow> lls_abs from k = None" for k
    by (auto simp: lls_abs_def has_bit_simps group_guard_off)
  then show ?thesis using False by (simp only: put_opt_fold_none lls_merge_0_def if_False)
qed

definition lls_merge_8 :: "'u llsdt \<Rightarrow> 'u llsdt \<Rightarrow> 'u llsdt" where
  "lls_merge_8 from m =
     (if group_guard (lls_has_bits from) 8 then
        let m = merge_field lls_has_flls3 lls_flls3 lls_set_flls3 from m;
            m = merge_field lls_has_tlls4 lls_tlls4 lls_set_tlls4 from m;
            m = merge_field lls_has_clls4 lls_clls4 lls_set_clls4 from m;
            m = merge_field lls_has_flls4 lls_flls4 lls_set_flls4 from m;
            m = merge_field lls_has_tlls5 lls_tlls5 lls_set_tlls5 from m;
            m = merge_field lls_has_clls5 lls_clls5 lls_set_clls5 from m;
            m = merge_field lls_has_flls5 lls_flls5 lls_set_flls5 from m;
            m = merge_field lls_has_tlls6 lls_tlls6 lls_set_tlls6 from m
        in m
      else m)"

lemma lls_abs_merge_8:
  "lls_abs (lls_merge_8 from m) = foldl (\<lambda>M k. put_opt k (lls_abs from k) M) (lls_abs m) [9, 10, 11, 12, 13, 14, 15, 16]"
proof (cases "group_guard (lls_has_bits from) 8")
  case True
  then show ?thesis by (simp add: lls_merge_8_def Let_def lls_abs_merge_field)
next
  case False
  then have "k \<in> set [9, 10, 11, 12, 13, 14, 15, 16] \<Longrightarrow> lls_abs from k = None" for k
    by (auto simp: lls_abs_def has_bit_simps group_guard_off)
  then show ?thesis using False by (simp only: put_opt_fold_none lls_merge_8_def if_False)
qed

definition lls_merge_16 :: "'u llsdt \<Rightarrow> 'u llsdt \<Rightarrow> 'u llsdt" where
  "lls_merge_16 from m =
     (if group_guard (lls_has_bits from) 16 then
        let m = merge_field lls_has_clls6 lls_clls6 lls_set_clls6 from m;
            m = merge_field lls_has_flls6 lls_flls6 lls_set_flls6 from m
        in m
      else m)"

lemma lls_abs_merge_16:
  "lls_abs (lls_merge_16 from m) = foldl (\<lambda>M k. put_opt k (lls_abs from k) M) (lls_abs m) [17, 18]"
proof (cases "group_guard (lls_has_bits from) 16")
  case True
  then show ?thesis by (simp add: lls_merge_16_def Let_def lls_abs_merge_field)
next
  case False
  then have "k \<in> set [17, 18] \<Longrightarrow> lls_abs from k = None" for k
    by (auto simp: lls_abs_def has_bit_simps group_guard_off)
  then show ?thesis using False by (simp only: put_opt_fold_none lls_merge_16_def if_False)
qed

definition lls_merge_from :: "('s, 'u) runtime \<Rightarrow> 'u llsdt \<Rightarrow> 'u llsdt \<Rightarrow> 'u llsdt" where
  "lls_merge_from rt from m =
     (let m = lls_merge_16 from (lls_merge_8 from (lls_merge_0 from m))
      in m\<lparr>lls_unknown := rt_unknown_merge rt (lls_unknown m) (lls_unknown from)\<rparr>)"

lemma lls_abs_unknown [simp]: "lls_abs (m\<lparr>lls_unknown := u\<rparr>) = lls_abs m"
  by (rule ext) (simp add: lls_abs_def has_bit_simps)

lemma lls_merge_from_abs: "lls_abs (lls_merge_from rt from m) = lls_abs m ++ lls_abs from"
proof -
  have "lls_abs (lls_merge_from rt from m) =
      foldl (\<lambda>M k. put_opt k (lls_abs from k) M) (lls_abs m) ([1, 2, 3, 4, 5, 6, 7, 8] @ [9, 10, 11, 12, 13, 14, 15, 16] @ [17, 18])"
    by (simp only: lls_merge_from_def Let_def lls_abs_unknown foldl_append lls_abs_merge_0 lls_abs_merge_8 lls_abs_merge_16)
  also have "\<dots> = lls_abs m ++ lls_abs from"
    unfolding put_opt_fold using lls_dom_abs [of "from"] by (subst restrict_dom) auto
  finally show ?thesis .
qed

definition lls_is_initialized :: "'u llsdt \<Rightarrow> bool" where
  "lls_is_initialized m \<longleftrightarrow> True"

section \<open>\<open>MergePartialFromCodedStream\<close>\<close>

text \<open>The body behind each label; the argument is the number of the field.\<close>

definition lls_label_2 :: "('s, 'u) runtime \<Rightarrow> nat \<Rightarrow> 's \<Rightarrow> 'u llsdt \<Rightarrow> ('s, 'u llsdt) flow" where
  "lls_label_2 rt k s m =
     (if k = 13 then
        then_expect rt 112 14 (read_scalar (rt_read_sint32 rt) lls_tlls5 (\<lambda>v. lls_tlls5_update (\<lambda>_. v)) lls_set_has_tlls5 s m)
      else if k = 14 then
        then_expect rt 120 15 (read_scalar (rt_read_uint32 rt) lls_clls5 (\<lambda>v. lls_clls5_update (\<lambda>_. v)) lls_set_has_clls5 s m)
      else if k = 15 then
        then_expect rt 128 16 (read_scalar (rt_read_sint32 rt) lls_flls5 (\<lambda>v. lls_flls5_update (\<lambda>_. v)) lls_set_has_flls5 s m)
      else if k = 16 then
        then_expect rt 136 17 (read_scalar (rt_read_sint32 rt) lls_tlls6 (\<lambda>v. lls_tlls6_update (\<lambda>_. v)) lls_set_has_tlls6 s m)
      else if k = 17 then
        then_expect rt 144 18 (read_scalar (rt_read_uint32 rt) lls_clls6 (\<lambda>v. lls_clls6_update (\<lambda>_. v)) lls_set_has_clls6 s m)
      else if k = 18 then
        then_end rt (read_scalar (rt_read_uint32 rt) lls_flls6 (\<lambda>v. lls_flls6_update (\<lambda>_. v)) lls_set_has_flls6 s m)
      else Out_of_fuel)"

definition lls_label_1 :: "('s, 'u) runtime \<Rightarrow> nat \<Rightarrow> 's \<Rightarrow> 'u llsdt \<Rightarrow> ('s, 'u llsdt) flow" where
  "lls_label_1 rt k s m =
     (if k = 7 then
        then_expect rt 64 8 (read_scalar (rt_read_sint32 rt) lls_tlls3 (\<lambda>v. lls_tlls3_update (\<lambda>_. v)) lls_set_has_tlls3 s m)
      else if k = 8 then
        then_expect rt 72 9 (read_scalar (rt_read_uint32 rt) lls_clls3 (\<lambda>v. lls_clls3_update (\<lambda>_. v)) lls_set_has_clls3 s m)
      else if k = 9 then
        then_expect rt 80 10 (read_scalar (rt_read_sint32 rt) lls_flls3 (\<lambda>v. lls_flls3_update (\<lambda>_. v)) lls_set_has_flls3 s m)
      else if k = 10 then
        then_expect rt 88 11 (read_scalar (rt_read_sint32 rt) lls_tlls4 (\<lambda>v. lls_tlls4_update (\<lambda>_. v)) lls_set_has_tlls4 s m)
      else if k = 11 then
        then_expect rt 96 12 (read_scalar (rt_read_uint32 rt) lls_clls4 (\<lambda>v. lls_clls4_update (\<lambda>_. v)) lls_set_has_clls4 s m)
      else if k = 12 then
        then_expect rt 104 13 (read_scalar (rt_read_sint32 rt) lls_flls4 (\<lambda>v. lls_flls4_update (\<lambda>_. v)) lls_set_has_flls4 s m)
      else lls_label_2 rt k s m)"

definition lls_label_0 :: "('s, 'u) runtime \<Rightarrow> nat \<Rightarrow> 's \<Rightarrow> 'u llsdt \<Rightarrow> ('s, 'u llsdt) flow" where
  "lls_label_0 rt k s m =
     (if k = 1 then
        then_expect rt 16 2 (read_scalar (rt_read_sint32 rt) lls_tlls1 (\<lambda>v. lls_tlls1_update (\<lambda>_. v)) lls_set_has_tlls1 s m)
      else if k = 2 then
        then_expect rt 24 3 (read_scalar (rt_read_uint32 rt) lls_clls1 (\<lambda>v. lls_clls1_update (\<lambda>_. v)) lls_set_has_clls1 s m)
      else if k = 3 then
        then_expect rt 32 4 (read_scalar (rt_read_sint32 rt) lls_flls1 (\<lambda>v. lls_flls1_update (\<lambda>_. v)) lls_set_has_flls1 s m)
      else if k = 4 then
        then_expect rt 40 5 (read_scalar (rt_read_sint32 rt) lls_tlls2 (\<lambda>v. lls_tlls2_update (\<lambda>_. v)) lls_set_has_tlls2 s m)
      else if k = 5 then
        then_expect rt 48 6 (read_scalar (rt_read_uint32 rt) lls_clls2 (\<lambda>v. lls_clls2_update (\<lambda>_. v)) lls_set_has_clls2 s m)
      else if k = 6 then
        then_expect rt 56 7 (read_scalar (rt_read_sint32 rt) lls_flls2 (\<lambda>v. lls_flls2_update (\<lambda>_. v)) lls_set_has_flls2 s m)
      else lls_label_1 rt k s m)"

definition lls_label :: "('s, 'u) runtime \<Rightarrow> nat \<Rightarrow> 's \<Rightarrow> 'u llsdt \<Rightarrow> ('s, 'u llsdt) flow" where
  "lls_label rt = lls_label_0 rt"

definition lls_switch :: "('s, 'u) runtime \<Rightarrow> u32 \<Rightarrow> 's \<Rightarrow> 'u llsdt \<Rightarrow> ('s, 'u llsdt) flow" where
  "lls_switch rt tag s m =
     (let k = rt_tag_field rt tag; w = rt_tag_wire rt tag in
      if k = 1 \<and> w = WIRETYPE_VARINT then lls_label rt 1 s m
      else if k = 2 \<and> w = WIRETYPE_VARINT then lls_label rt 2 s m
      else if k = 3 \<and> w = WIRETYPE_VARINT then lls_label rt 3 s m
      else if k = 4 \<and> w = WIRETYPE_VARINT then lls_label rt 4 s m
      else if k = 5 \<and> w = WIRETYPE_VARINT then lls_label rt 5 s m
      else if k = 6 \<and> w = WIRETYPE_VARINT then lls_label rt 6 s m
      else if k = 7 \<and> w = WIRETYPE_VARINT then lls_label rt 7 s m
      else if k = 8 \<and> w = WIRETYPE_VARINT then lls_label rt 8 s m
      else if k = 9 \<and> w = WIRETYPE_VARINT then lls_label rt 9 s m
      else if k = 10 \<and> w = WIRETYPE_VARINT then lls_label rt 10 s m
      else if k = 11 \<and> w = WIRETYPE_VARINT then lls_label rt 11 s m
      else if k = 12 \<and> w = WIRETYPE_VARINT then lls_label rt 12 s m
      else if k = 13 \<and> w = WIRETYPE_VARINT then lls_label rt 13 s m
      else if k = 14 \<and> w = WIRETYPE_VARINT then lls_label rt 14 s m
      else if k = 15 \<and> w = WIRETYPE_VARINT then lls_label rt 15 s m
      else if k = 16 \<and> w = WIRETYPE_VARINT then lls_label rt 16 s m
      else if k = 17 \<and> w = WIRETYPE_VARINT then lls_label rt 17 s m
      else if k = 18 \<and> w = WIRETYPE_VARINT then lls_label rt 18 s m
      else handle_uninterpreted rt lls_unknown (\<lambda>u. lls_unknown_update (\<lambda>_. u)) tag s m)"

definition lls_parse :: "nat \<Rightarrow> ('s, 'u) runtime \<Rightarrow> 's \<Rightarrow> 'u llsdt \<Rightarrow> (bool \<times> 's \<times> 'u llsdt) option" where
  "lls_parse fuel rt s m = parse_loop fuel (rt_read_tag rt) (lls_switch rt) (lls_label rt) (Break s m)"

section \<open>Serialisation\<close>

text \<open>\<^verbatim>\<open>SerializeWithCachedSizes\<close>, after \<^verbatim>\<open>ByteSize\<close> has cached the sizes; \<^verbatim>\<open>Swap\<close>; \<^verbatim>\<open>CopyFrom\<close> another object.\<close>

definition lls_serialize :: "'u writer \<Rightarrow> 'u llsdt \<Rightarrow> byte list" where
  "lls_serialize wr m =
     (if lls_has_tlls1 m then write_sint32 wr 1 (lls_tlls1 m) else []) @
     (if lls_has_clls1 m then write_uint32 wr 2 (lls_clls1 m) else []) @
     (if lls_has_flls1 m then write_sint32 wr 3 (lls_flls1 m) else []) @
     (if lls_has_tlls2 m then write_sint32 wr 4 (lls_tlls2 m) else []) @
     (if lls_has_clls2 m then write_uint32 wr 5 (lls_clls2 m) else []) @
     (if lls_has_flls2 m then write_sint32 wr 6 (lls_flls2 m) else []) @
     (if lls_has_tlls3 m then write_sint32 wr 7 (lls_tlls3 m) else []) @
     (if lls_has_clls3 m then write_uint32 wr 8 (lls_clls3 m) else []) @
     (if lls_has_flls3 m then write_sint32 wr 9 (lls_flls3 m) else []) @
     (if lls_has_tlls4 m then write_sint32 wr 10 (lls_tlls4 m) else []) @
     (if lls_has_clls4 m then write_uint32 wr 11 (lls_clls4 m) else []) @
     (if lls_has_flls4 m then write_sint32 wr 12 (lls_flls4 m) else []) @
     (if lls_has_tlls5 m then write_sint32 wr 13 (lls_tlls5 m) else []) @
     (if lls_has_clls5 m then write_uint32 wr 14 (lls_clls5 m) else []) @
     (if lls_has_flls5 m then write_sint32 wr 15 (lls_flls5 m) else []) @
     (if lls_has_tlls6 m then write_sint32 wr 16 (lls_tlls6 m) else []) @
     (if lls_has_clls6 m then write_uint32 wr 17 (lls_clls6 m) else []) @
     (if lls_has_flls6 m then write_uint32 wr 18 (lls_flls6 m) else []) @
     wr_unknown wr (lls_unknown m)"

definition lls_size_0 :: "'u writer \<Rightarrow> 'u llsdt \<Rightarrow> nat" where
  "lls_size_0 wr m =
     (if group_guard (lls_has_bits m) 0
      then (if lls_has_tlls1 m then 1 + sz_sint32 wr (lls_tlls1 m) else 0)
         + (if lls_has_clls1 m then 1 + sz_uint32 wr (lls_clls1 m) else 0)
         + (if lls_has_flls1 m then 1 + sz_sint32 wr (lls_flls1 m) else 0)
         + (if lls_has_tlls2 m then 1 + sz_sint32 wr (lls_tlls2 m) else 0)
         + (if lls_has_clls2 m then 1 + sz_uint32 wr (lls_clls2 m) else 0)
         + (if lls_has_flls2 m then 1 + sz_sint32 wr (lls_flls2 m) else 0)
         + (if lls_has_tlls3 m then 1 + sz_sint32 wr (lls_tlls3 m) else 0)
         + (if lls_has_clls3 m then 1 + sz_uint32 wr (lls_clls3 m) else 0)
      else 0)"

definition lls_size_8 :: "'u writer \<Rightarrow> 'u llsdt \<Rightarrow> nat" where
  "lls_size_8 wr m =
     (if group_guard (lls_has_bits m) 8
      then (if lls_has_flls3 m then 1 + sz_sint32 wr (lls_flls3 m) else 0)
         + (if lls_has_tlls4 m then 1 + sz_sint32 wr (lls_tlls4 m) else 0)
         + (if lls_has_clls4 m then 1 + sz_uint32 wr (lls_clls4 m) else 0)
         + (if lls_has_flls4 m then 1 + sz_sint32 wr (lls_flls4 m) else 0)
         + (if lls_has_tlls5 m then 1 + sz_sint32 wr (lls_tlls5 m) else 0)
         + (if lls_has_clls5 m then 1 + sz_uint32 wr (lls_clls5 m) else 0)
         + (if lls_has_flls5 m then 1 + sz_sint32 wr (lls_flls5 m) else 0)
         + (if lls_has_tlls6 m then 2 + sz_sint32 wr (lls_tlls6 m) else 0)
      else 0)"

definition lls_size_16 :: "'u writer \<Rightarrow> 'u llsdt \<Rightarrow> nat" where
  "lls_size_16 wr m =
     (if group_guard (lls_has_bits m) 16
      then (if lls_has_clls6 m then 2 + sz_uint32 wr (lls_clls6 m) else 0)
         + (if lls_has_flls6 m then 2 + sz_uint32 wr (lls_flls6 m) else 0)
      else 0)"

definition lls_byte_size :: "'u writer \<Rightarrow> 'u llsdt \<Rightarrow> nat" where
  "lls_byte_size wr m = lls_size_0 wr m + lls_size_8 wr m + lls_size_16 wr m + sz_unknown wr (lls_unknown m)"

definition lls_swap :: "'u llsdt \<Rightarrow> 'u llsdt \<Rightarrow> 'u llsdt \<times> 'u llsdt" where
  "lls_swap m other =
     (m\<lparr>lls_tlls1 := lls_tlls1 other, lls_clls1 := lls_clls1 other, lls_flls1 := lls_flls1 other, 
       lls_tlls2 := lls_tlls2 other, lls_clls2 := lls_clls2 other, lls_flls2 := lls_flls2 other, 
       lls_tlls3 := lls_tlls3 other, lls_clls3 := lls_clls3 other, lls_flls3 := lls_flls3 other, 
       lls_tlls4 := lls_tlls4 other, lls_clls4 := lls_clls4 other, lls_flls4 := lls_flls4 other, 
       lls_tlls5 := lls_tlls5 other, lls_clls5 := lls_clls5 other, lls_flls5 := lls_flls5 other, 
       lls_tlls6 := lls_tlls6 other, lls_clls6 := lls_clls6 other, lls_flls6 := lls_flls6 other, 
       lls_has_bits := lls_has_bits other, lls_unknown := lls_unknown other\<rparr>,
      other\<lparr>lls_tlls1 := lls_tlls1 m, lls_clls1 := lls_clls1 m, lls_flls1 := lls_flls1 m, 
       lls_tlls2 := lls_tlls2 m, lls_clls2 := lls_clls2 m, lls_flls2 := lls_flls2 m, 
       lls_tlls3 := lls_tlls3 m, lls_clls3 := lls_clls3 m, lls_flls3 := lls_flls3 m, 
       lls_tlls4 := lls_tlls4 m, lls_clls4 := lls_clls4 m, lls_flls4 := lls_flls4 m, 
       lls_tlls5 := lls_tlls5 m, lls_clls5 := lls_clls5 m, lls_flls5 := lls_flls5 m, 
       lls_tlls6 := lls_tlls6 m, lls_clls6 := lls_clls6 m, lls_flls6 := lls_flls6 m, 
       lls_has_bits := lls_has_bits m, lls_unknown := lls_unknown m\<rparr>)"

lemma lls_swap_exchanges: "lls_swap m other = (other, m)"
  by (simp add: lls_swap_def)

definition lls_copy_from :: "('s, 'u) runtime \<Rightarrow> 'u llsdt \<Rightarrow> 'u llsdt \<Rightarrow> 'u llsdt" where
  "lls_copy_from rt from m = lls_merge_from rt from (lls_clear rt m)"

lemma lls_copy_from_abs: "lls_wf m \<Longrightarrow> lls_abs (lls_copy_from rt from m) = lls_abs from"
  by (simp add: lls_copy_from_def lls_merge_from_abs lls_clear_fresh lls_abs_new)

section \<open>The shape of a message\<close>

definition lls_tag :: "nat \<Rightarrow> u32" where
  "lls_tag k = make_tag k WIRETYPE_VARINT"

definition lls_fields :: "nat set" where
  "lls_fields = {1, 2, 3, 4, 5, 6, 7, 8, 9, 10, 11, 12, 13, 14, 15, 16, 17, 18}"

text \<open>Nothing but the known fields: only their has-bits, defaults where a field is not set, no unknown field.\<close>

definition lls_bits :: "nat list" where
  "lls_bits = [0, 1, 2, 3, 4, 5, 6, 7, 8, 9, 10, 11, 12, 13, 14, 15, 16, 17]"

definition lls_complete :: "'u \<Rightarrow> 'u llsdt \<Rightarrow> bool" where
  "lls_complete u m \<longleftrightarrow> lls_wf m \<and> bits_within (lls_has_bits m) lls_bits \<and> lls_unknown m = u"

lemma lls_complete_new: "lls_complete u (lls_new u)"
  by (simp add: lls_complete_def) (simp add: lls_new_def)

lemma lls_wf_set:
  assumes "lls_wf m"
  shows "lls_wf (lls_set_tlls1 v m)"
    "lls_wf (lls_set_clls1 v m)"
    "lls_wf (lls_set_flls1 v m)"
    "lls_wf (lls_set_tlls2 v m)"
    "lls_wf (lls_set_clls2 v m)"
    "lls_wf (lls_set_flls2 v m)"
    "lls_wf (lls_set_tlls3 v m)"
    "lls_wf (lls_set_clls3 v m)"
    "lls_wf (lls_set_flls3 v m)"
    "lls_wf (lls_set_tlls4 v m)"
    "lls_wf (lls_set_clls4 v m)"
    "lls_wf (lls_set_flls4 v m)"
    "lls_wf (lls_set_tlls5 v m)"
    "lls_wf (lls_set_clls5 v m)"
    "lls_wf (lls_set_flls5 v m)"
    "lls_wf (lls_set_tlls6 v m)"
    "lls_wf (lls_set_clls6 v m)"
    "lls_wf (lls_set_flls6 v m)"
  using assms by (simp_all add: lls_wf_def lls_set_defs has_bit_simps)

lemma lls_bits_set:
  assumes "bits_within w lls_bits"
  shows "bits_within (w OR 0x00000001) lls_bits"
    "bits_within (w OR 0x00000002) lls_bits"
    "bits_within (w OR 0x00000004) lls_bits"
    "bits_within (w OR 0x00000008) lls_bits"
    "bits_within (w OR 0x00000010) lls_bits"
    "bits_within (w OR 0x00000020) lls_bits"
    "bits_within (w OR 0x00000040) lls_bits"
    "bits_within (w OR 0x00000080) lls_bits"
    "bits_within (w OR 0x00000100) lls_bits"
    "bits_within (w OR 0x00000200) lls_bits"
    "bits_within (w OR 0x00000400) lls_bits"
    "bits_within (w OR 0x00000800) lls_bits"
    "bits_within (w OR 0x00001000) lls_bits"
    "bits_within (w OR 0x00002000) lls_bits"
    "bits_within (w OR 0x00004000) lls_bits"
    "bits_within (w OR 0x00008000) lls_bits"
    "bits_within (w OR 0x00010000) lls_bits"
    "bits_within (w OR 0x00020000) lls_bits"
  by (rule bits_within_insert [OF assms], rule lls_or_bit, simp add: lls_bits_def)+

lemma lls_complete_set:
  assumes "lls_complete u m"
  shows "lls_complete u (lls_set_tlls1 v m)"
    "lls_complete u (lls_set_clls1 v m)"
    "lls_complete u (lls_set_flls1 v m)"
    "lls_complete u (lls_set_tlls2 v m)"
    "lls_complete u (lls_set_clls2 v m)"
    "lls_complete u (lls_set_flls2 v m)"
    "lls_complete u (lls_set_tlls3 v m)"
    "lls_complete u (lls_set_clls3 v m)"
    "lls_complete u (lls_set_flls3 v m)"
    "lls_complete u (lls_set_tlls4 v m)"
    "lls_complete u (lls_set_clls4 v m)"
    "lls_complete u (lls_set_flls4 v m)"
    "lls_complete u (lls_set_tlls5 v m)"
    "lls_complete u (lls_set_clls5 v m)"
    "lls_complete u (lls_set_flls5 v m)"
    "lls_complete u (lls_set_tlls6 v m)"
    "lls_complete u (lls_set_clls6 v m)"
    "lls_complete u (lls_set_flls6 v m)"
  using assms by (simp_all add: lls_complete_def lls_wf_set) (simp_all add: lls_set_defs lls_bits_set)

lemma lls_abs_at:
  "lls_abs m 1 = when_has (lls_has_tlls1 m) (PU (lls_tlls1 m))"
  "lls_abs m 2 = when_has (lls_has_clls1 m) (PU (lls_clls1 m))"
  "lls_abs m 3 = when_has (lls_has_flls1 m) (PU (lls_flls1 m))"
  "lls_abs m 4 = when_has (lls_has_tlls2 m) (PU (lls_tlls2 m))"
  "lls_abs m 5 = when_has (lls_has_clls2 m) (PU (lls_clls2 m))"
  "lls_abs m 6 = when_has (lls_has_flls2 m) (PU (lls_flls2 m))"
  "lls_abs m 7 = when_has (lls_has_tlls3 m) (PU (lls_tlls3 m))"
  "lls_abs m 8 = when_has (lls_has_clls3 m) (PU (lls_clls3 m))"
  "lls_abs m 9 = when_has (lls_has_flls3 m) (PU (lls_flls3 m))"
  "lls_abs m 10 = when_has (lls_has_tlls4 m) (PU (lls_tlls4 m))"
  "lls_abs m 11 = when_has (lls_has_clls4 m) (PU (lls_clls4 m))"
  "lls_abs m 12 = when_has (lls_has_flls4 m) (PU (lls_flls4 m))"
  "lls_abs m 13 = when_has (lls_has_tlls5 m) (PU (lls_tlls5 m))"
  "lls_abs m 14 = when_has (lls_has_clls5 m) (PU (lls_clls5 m))"
  "lls_abs m 15 = when_has (lls_has_flls5 m) (PU (lls_flls5 m))"
  "lls_abs m 16 = when_has (lls_has_tlls6 m) (PU (lls_tlls6 m))"
  "lls_abs m 17 = when_has (lls_has_clls6 m) (PU (lls_clls6 m))"
  "lls_abs m 18 = when_has (lls_has_flls6 m) (PU (lls_flls6 m))"
  by (simp_all add: lls_abs_def)

lemma lls_eqI:
  assumes "lls_complete u m" and "lls_complete u m'" and "lls_abs m = lls_abs m'"
  shows "m = m'"
proof -
  have tlls1: "lls_has_tlls1 m = lls_has_tlls1 m' \<and> lls_tlls1 m = lls_tlls1 m'"
    using assms(1,2) fun_cong [OF assms(3), of 1, unfolded lls_abs_at]
    by (intro field_eq(1)) (simp_all add: lls_complete_def lls_wf_def)
  have clls1: "lls_has_clls1 m = lls_has_clls1 m' \<and> lls_clls1 m = lls_clls1 m'"
    using assms(1,2) fun_cong [OF assms(3), of 2, unfolded lls_abs_at]
    by (intro field_eq(1)) (simp_all add: lls_complete_def lls_wf_def)
  have flls1: "lls_has_flls1 m = lls_has_flls1 m' \<and> lls_flls1 m = lls_flls1 m'"
    using assms(1,2) fun_cong [OF assms(3), of 3, unfolded lls_abs_at]
    by (intro field_eq(1)) (simp_all add: lls_complete_def lls_wf_def)
  have tlls2: "lls_has_tlls2 m = lls_has_tlls2 m' \<and> lls_tlls2 m = lls_tlls2 m'"
    using assms(1,2) fun_cong [OF assms(3), of 4, unfolded lls_abs_at]
    by (intro field_eq(1)) (simp_all add: lls_complete_def lls_wf_def)
  have clls2: "lls_has_clls2 m = lls_has_clls2 m' \<and> lls_clls2 m = lls_clls2 m'"
    using assms(1,2) fun_cong [OF assms(3), of 5, unfolded lls_abs_at]
    by (intro field_eq(1)) (simp_all add: lls_complete_def lls_wf_def)
  have flls2: "lls_has_flls2 m = lls_has_flls2 m' \<and> lls_flls2 m = lls_flls2 m'"
    using assms(1,2) fun_cong [OF assms(3), of 6, unfolded lls_abs_at]
    by (intro field_eq(1)) (simp_all add: lls_complete_def lls_wf_def)
  have tlls3: "lls_has_tlls3 m = lls_has_tlls3 m' \<and> lls_tlls3 m = lls_tlls3 m'"
    using assms(1,2) fun_cong [OF assms(3), of 7, unfolded lls_abs_at]
    by (intro field_eq(1)) (simp_all add: lls_complete_def lls_wf_def)
  have clls3: "lls_has_clls3 m = lls_has_clls3 m' \<and> lls_clls3 m = lls_clls3 m'"
    using assms(1,2) fun_cong [OF assms(3), of 8, unfolded lls_abs_at]
    by (intro field_eq(1)) (simp_all add: lls_complete_def lls_wf_def)
  have flls3: "lls_has_flls3 m = lls_has_flls3 m' \<and> lls_flls3 m = lls_flls3 m'"
    using assms(1,2) fun_cong [OF assms(3), of 9, unfolded lls_abs_at]
    by (intro field_eq(1)) (simp_all add: lls_complete_def lls_wf_def)
  have tlls4: "lls_has_tlls4 m = lls_has_tlls4 m' \<and> lls_tlls4 m = lls_tlls4 m'"
    using assms(1,2) fun_cong [OF assms(3), of 10, unfolded lls_abs_at]
    by (intro field_eq(1)) (simp_all add: lls_complete_def lls_wf_def)
  have clls4: "lls_has_clls4 m = lls_has_clls4 m' \<and> lls_clls4 m = lls_clls4 m'"
    using assms(1,2) fun_cong [OF assms(3), of 11, unfolded lls_abs_at]
    by (intro field_eq(1)) (simp_all add: lls_complete_def lls_wf_def)
  have flls4: "lls_has_flls4 m = lls_has_flls4 m' \<and> lls_flls4 m = lls_flls4 m'"
    using assms(1,2) fun_cong [OF assms(3), of 12, unfolded lls_abs_at]
    by (intro field_eq(1)) (simp_all add: lls_complete_def lls_wf_def)
  have tlls5: "lls_has_tlls5 m = lls_has_tlls5 m' \<and> lls_tlls5 m = lls_tlls5 m'"
    using assms(1,2) fun_cong [OF assms(3), of 13, unfolded lls_abs_at]
    by (intro field_eq(1)) (simp_all add: lls_complete_def lls_wf_def)
  have clls5: "lls_has_clls5 m = lls_has_clls5 m' \<and> lls_clls5 m = lls_clls5 m'"
    using assms(1,2) fun_cong [OF assms(3), of 14, unfolded lls_abs_at]
    by (intro field_eq(1)) (simp_all add: lls_complete_def lls_wf_def)
  have flls5: "lls_has_flls5 m = lls_has_flls5 m' \<and> lls_flls5 m = lls_flls5 m'"
    using assms(1,2) fun_cong [OF assms(3), of 15, unfolded lls_abs_at]
    by (intro field_eq(1)) (simp_all add: lls_complete_def lls_wf_def)
  have tlls6: "lls_has_tlls6 m = lls_has_tlls6 m' \<and> lls_tlls6 m = lls_tlls6 m'"
    using assms(1,2) fun_cong [OF assms(3), of 16, unfolded lls_abs_at]
    by (intro field_eq(1)) (simp_all add: lls_complete_def lls_wf_def)
  have clls6: "lls_has_clls6 m = lls_has_clls6 m' \<and> lls_clls6 m = lls_clls6 m'"
    using assms(1,2) fun_cong [OF assms(3), of 17, unfolded lls_abs_at]
    by (intro field_eq(1)) (simp_all add: lls_complete_def lls_wf_def)
  have flls6: "lls_has_flls6 m = lls_has_flls6 m' \<and> lls_flls6 m = lls_flls6 m'"
    using assms(1,2) fun_cong [OF assms(3), of 18, unfolded lls_abs_at]
    by (intro field_eq(1)) (simp_all add: lls_complete_def lls_wf_def)
  have "lls_has_bits m = lls_has_bits m'"
  proof (rule bits_within_eqI)
    show "bits_within (lls_has_bits m) lls_bits" "bits_within (lls_has_bits m') lls_bits"
      using assms(1,2) by (simp_all add: lls_complete_def)
    show "\<forall>n \<in> set lls_bits. bit (lls_has_bits m) n = bit (lls_has_bits m') n"
      using tlls1 clls1 flls1 tlls2 clls2 flls2 tlls3 clls3 flls3 tlls4 clls4 flls4 tlls5 clls5 flls5 tlls6 clls6 flls6
      by (simp add: lls_has_bit lls_bits_def)
  qed
  with assms show ?thesis
    using tlls1 clls1 flls1 tlls2 clls2 flls2 tlls3 clls3 flls3 tlls4 clls4 flls4 tlls5 clls5 flls5 tlls6 clls6 flls6
    by (intro llsdt.equality) (simp_all add: lls_complete_def)
qed

definition lls_items :: "'u writer \<Rightarrow> 'u llsdt \<Rightarrow> (nat \<times> byte list \<times> ('u llsdt \<Rightarrow> 'u llsdt)) list" where
  "lls_items wr m =
     item (lls_has_tlls1 m) 1 (wr_sint32 wr (lls_tlls1 m)) (lls_set_tlls1 (lls_tlls1 m)) @
     item (lls_has_clls1 m) 2 (wr_uint32 wr (lls_clls1 m)) (lls_set_clls1 (lls_clls1 m)) @
     item (lls_has_flls1 m) 3 (wr_sint32 wr (lls_flls1 m)) (lls_set_flls1 (lls_flls1 m)) @
     item (lls_has_tlls2 m) 4 (wr_sint32 wr (lls_tlls2 m)) (lls_set_tlls2 (lls_tlls2 m)) @
     item (lls_has_clls2 m) 5 (wr_uint32 wr (lls_clls2 m)) (lls_set_clls2 (lls_clls2 m)) @
     item (lls_has_flls2 m) 6 (wr_sint32 wr (lls_flls2 m)) (lls_set_flls2 (lls_flls2 m)) @
     item (lls_has_tlls3 m) 7 (wr_sint32 wr (lls_tlls3 m)) (lls_set_tlls3 (lls_tlls3 m)) @
     item (lls_has_clls3 m) 8 (wr_uint32 wr (lls_clls3 m)) (lls_set_clls3 (lls_clls3 m)) @
     item (lls_has_flls3 m) 9 (wr_sint32 wr (lls_flls3 m)) (lls_set_flls3 (lls_flls3 m)) @
     item (lls_has_tlls4 m) 10 (wr_sint32 wr (lls_tlls4 m)) (lls_set_tlls4 (lls_tlls4 m)) @
     item (lls_has_clls4 m) 11 (wr_uint32 wr (lls_clls4 m)) (lls_set_clls4 (lls_clls4 m)) @
     item (lls_has_flls4 m) 12 (wr_sint32 wr (lls_flls4 m)) (lls_set_flls4 (lls_flls4 m)) @
     item (lls_has_tlls5 m) 13 (wr_sint32 wr (lls_tlls5 m)) (lls_set_tlls5 (lls_tlls5 m)) @
     item (lls_has_clls5 m) 14 (wr_uint32 wr (lls_clls5 m)) (lls_set_clls5 (lls_clls5 m)) @
     item (lls_has_flls5 m) 15 (wr_sint32 wr (lls_flls5 m)) (lls_set_flls5 (lls_flls5 m)) @
     item (lls_has_tlls6 m) 16 (wr_sint32 wr (lls_tlls6 m)) (lls_set_tlls6 (lls_tlls6 m)) @
     item (lls_has_clls6 m) 17 (wr_uint32 wr (lls_clls6 m)) (lls_set_clls6 (lls_clls6 m)) @
     item (lls_has_flls6 m) 18 (wr_uint32 wr (lls_flls6 m)) (lls_set_flls6 (lls_flls6 m))"

lemma lls_abs_upd_if:
  "lls_abs (upd_if (lls_has_tlls1 m) (lls_set_tlls1 (lls_tlls1 m)) x) = put_opt 1 (lls_abs m 1) (lls_abs x)"
  "lls_abs (upd_if (lls_has_clls1 m) (lls_set_clls1 (lls_clls1 m)) x) = put_opt 2 (lls_abs m 2) (lls_abs x)"
  "lls_abs (upd_if (lls_has_flls1 m) (lls_set_flls1 (lls_flls1 m)) x) = put_opt 3 (lls_abs m 3) (lls_abs x)"
  "lls_abs (upd_if (lls_has_tlls2 m) (lls_set_tlls2 (lls_tlls2 m)) x) = put_opt 4 (lls_abs m 4) (lls_abs x)"
  "lls_abs (upd_if (lls_has_clls2 m) (lls_set_clls2 (lls_clls2 m)) x) = put_opt 5 (lls_abs m 5) (lls_abs x)"
  "lls_abs (upd_if (lls_has_flls2 m) (lls_set_flls2 (lls_flls2 m)) x) = put_opt 6 (lls_abs m 6) (lls_abs x)"
  "lls_abs (upd_if (lls_has_tlls3 m) (lls_set_tlls3 (lls_tlls3 m)) x) = put_opt 7 (lls_abs m 7) (lls_abs x)"
  "lls_abs (upd_if (lls_has_clls3 m) (lls_set_clls3 (lls_clls3 m)) x) = put_opt 8 (lls_abs m 8) (lls_abs x)"
  "lls_abs (upd_if (lls_has_flls3 m) (lls_set_flls3 (lls_flls3 m)) x) = put_opt 9 (lls_abs m 9) (lls_abs x)"
  "lls_abs (upd_if (lls_has_tlls4 m) (lls_set_tlls4 (lls_tlls4 m)) x) = put_opt 10 (lls_abs m 10) (lls_abs x)"
  "lls_abs (upd_if (lls_has_clls4 m) (lls_set_clls4 (lls_clls4 m)) x) = put_opt 11 (lls_abs m 11) (lls_abs x)"
  "lls_abs (upd_if (lls_has_flls4 m) (lls_set_flls4 (lls_flls4 m)) x) = put_opt 12 (lls_abs m 12) (lls_abs x)"
  "lls_abs (upd_if (lls_has_tlls5 m) (lls_set_tlls5 (lls_tlls5 m)) x) = put_opt 13 (lls_abs m 13) (lls_abs x)"
  "lls_abs (upd_if (lls_has_clls5 m) (lls_set_clls5 (lls_clls5 m)) x) = put_opt 14 (lls_abs m 14) (lls_abs x)"
  "lls_abs (upd_if (lls_has_flls5 m) (lls_set_flls5 (lls_flls5 m)) x) = put_opt 15 (lls_abs m 15) (lls_abs x)"
  "lls_abs (upd_if (lls_has_tlls6 m) (lls_set_tlls6 (lls_tlls6 m)) x) = put_opt 16 (lls_abs m 16) (lls_abs x)"
  "lls_abs (upd_if (lls_has_clls6 m) (lls_set_clls6 (lls_clls6 m)) x) = put_opt 17 (lls_abs m 17) (lls_abs x)"
  "lls_abs (upd_if (lls_has_flls6 m) (lls_set_flls6 (lls_flls6 m)) x) = put_opt 18 (lls_abs m 18) (lls_abs x)"
  by (simp_all add: upd_if_def put_opt_def lls_abs_set lls_abs_at del: One_nat_def)

lemma lls_items_abs: "lls_abs (fold item_upd (lls_items wr m) x) = lls_abs x ++ lls_abs m"
proof -
  have "lls_abs (fold item_upd (lls_items wr m) x) = foldl (\<lambda>M k. put_opt k (lls_abs m k) M) (lls_abs x) [1, 2, 3, 4, 5, 6, 7, 8, 9, 10, 11, 12, 13, 14, 15, 16, 17, 18]"
    by (simp only: lls_items_def fold_append o_apply fold_item lls_abs_upd_if foldl.simps)
  also have "\<dots> = lls_abs x ++ lls_abs m"
    unfolding put_opt_fold using lls_dom_abs [of m] by (subst restrict_dom) auto
  finally show ?thesis .
qed

lemma lls_items_complete: "lls_complete u x \<Longrightarrow> lls_complete u (fold item_upd (lls_items wr m) x)"
  by (rule fold_items_keep)
    (auto simp: lls_items_def ball_Un ball_item item_upd_def intro: lls_complete_set)

lemma lls_items_new:
  assumes "lls_complete u m"
  shows "fold item_upd (lls_items wr m) (lls_new u) = m"
proof (rule lls_eqI)
  show "lls_complete u (fold item_upd (lls_items wr m) (lls_new u))"
    by (rule lls_items_complete [OF lls_complete_new])
  show "lls_abs (fold item_upd (lls_items wr m) (lls_new u)) = lls_abs m"
    by (simp add: lls_items_abs lls_abs_new)
qed (rule assms)

section \<open>The parser on the wire\<close>

lemma lls_fields_range: "k \<in> lls_fields \<Longrightarrow> 0 < k \<and> k < 2 ^ 29"
  unfolding lls_fields_def by (elim insertE emptyE) (simp_all del: One_nat_def)

lemma lls_tag_field: "k \<in> lls_fields \<Longrightarrow> tag_field (lls_tag k) = k"
  using lls_fields_range by (simp add: lls_tag_def tag_field_make)

lemma lls_tag_inj: "inj_on lls_tag lls_fields"
  by (rule inj_on_inverseI [where g = tag_field]) (rule lls_tag_field)

context input_stream
begin

lemma lls_label_within: "k \<in> lls_fields \<Longrightarrow> flow_within lls_fields (remaining s) (lls_label rt k s m)"
  unfolding lls_label_2_def lls_label_1_def lls_label_0_def lls_label_def
  by (subst (asm) lls_fields_def)
    ((erule flow_within_chain, intro within_intros, erule size_dests, (simp add: lls_fields_def; fail)?)+; simp)

lemma lls_switch_within: "flow_within lls_fields (remaining s) (lls_switch rt tag s m)"
  unfolding lls_switch_def Let_def
  by (intro flow_within_if lls_label_within handle_uninterpreted_within) (simp_all add: lls_fields_def)

lemma lls_parse_returns:
  "remaining s < fuel \<Longrightarrow> \<exists>ok s' m'. lls_parse fuel rt s m = Some (ok, s', m') \<and> remaining s' \<le> remaining s"
  unfolding lls_parse_def
  by (rule parse_loop_returns [OF lls_switch_within lls_label_within]) (simp_all add: flow_within_def)

end

context wire_format
begin

lemma lls_switch_label:
  assumes "k \<in> lls_fields"
  shows "lls_tag k \<noteq> 0 \<and> lls_switch rt (lls_tag k) s m = lls_label rt k s m"
proof
  show "lls_tag k \<noteq> 0" using lls_fields_range [OF assms] by (simp add: lls_tag_def make_tag_nonzero)
  have "rt_tag_field rt (lls_tag k) = k" "rt_tag_wire rt (lls_tag k) = WIRETYPE_VARINT"
    using lls_fields_range [OF assms] by (simp_all add: lls_tag_def tag_field tag_wire tag_field_make tag_wire_make)
  then show "lls_switch rt (lls_tag k) s m = lls_label rt k s m"
    using assms unfolding lls_switch_def lls_fields_def by (elim insertE emptyE) (simp_all add: Let_def del: One_nat_def)
qed

lemma lls_end_group:
  assumes "tag_wire t = WIRETYPE_END_GROUP"
  shows "t \<noteq> 0 \<and> t \<notin> lls_tag ` lls_fields \<and> lls_switch rt t s m = Done True s m"
proof (intro conjI)
  show "t \<noteq> 0" using assms by (auto simp: tag_wire_def)
  show "t \<notin> lls_tag ` lls_fields"
    using assms lls_fields_range by (auto simp: lls_tag_def tag_wire_make split: if_splits)
  show "lls_switch rt t s m = Done True s m"
    using assms by (simp add: lls_switch_def Let_def tag_wire end_group_ends)
qed

lemma lls_reads_tlls1:
  "reads lls_fields lls_tag (lls_label rt 1) (wr_sint32 wr v) (lls_set_tlls1 v)"
  by (simp add: lls_label_2_def [abs_def] lls_label_1_def [abs_def] lls_label_0_def [abs_def] lls_label_def [abs_def] del: One_nat_def)
    (rule reads_expect [OF takes_sint32], simp add: lls_set_defs, simp_all add: lls_fields_def lls_tag_def make_tag_def)

lemma lls_reads_clls1:
  "reads lls_fields lls_tag (lls_label rt 2) (wr_uint32 wr v) (lls_set_clls1 v)"
  by (simp add: lls_label_2_def [abs_def] lls_label_1_def [abs_def] lls_label_0_def [abs_def] lls_label_def [abs_def] del: One_nat_def)
    (rule reads_expect [OF takes_uint32], simp add: lls_set_defs, simp_all add: lls_fields_def lls_tag_def make_tag_def)

lemma lls_reads_flls1:
  "reads lls_fields lls_tag (lls_label rt 3) (wr_sint32 wr v) (lls_set_flls1 v)"
  by (simp add: lls_label_2_def [abs_def] lls_label_1_def [abs_def] lls_label_0_def [abs_def] lls_label_def [abs_def] del: One_nat_def)
    (rule reads_expect [OF takes_sint32], simp add: lls_set_defs, simp_all add: lls_fields_def lls_tag_def make_tag_def)

lemma lls_reads_tlls2:
  "reads lls_fields lls_tag (lls_label rt 4) (wr_sint32 wr v) (lls_set_tlls2 v)"
  by (simp add: lls_label_2_def [abs_def] lls_label_1_def [abs_def] lls_label_0_def [abs_def] lls_label_def [abs_def] del: One_nat_def)
    (rule reads_expect [OF takes_sint32], simp add: lls_set_defs, simp_all add: lls_fields_def lls_tag_def make_tag_def)

lemma lls_reads_clls2:
  "reads lls_fields lls_tag (lls_label rt 5) (wr_uint32 wr v) (lls_set_clls2 v)"
  by (simp add: lls_label_2_def [abs_def] lls_label_1_def [abs_def] lls_label_0_def [abs_def] lls_label_def [abs_def] del: One_nat_def)
    (rule reads_expect [OF takes_uint32], simp add: lls_set_defs, simp_all add: lls_fields_def lls_tag_def make_tag_def)

lemma lls_reads_flls2:
  "reads lls_fields lls_tag (lls_label rt 6) (wr_sint32 wr v) (lls_set_flls2 v)"
  by (simp add: lls_label_2_def [abs_def] lls_label_1_def [abs_def] lls_label_0_def [abs_def] lls_label_def [abs_def] del: One_nat_def)
    (rule reads_expect [OF takes_sint32], simp add: lls_set_defs, simp_all add: lls_fields_def lls_tag_def make_tag_def)

lemma lls_reads_tlls3:
  "reads lls_fields lls_tag (lls_label rt 7) (wr_sint32 wr v) (lls_set_tlls3 v)"
  by (simp add: lls_label_2_def [abs_def] lls_label_1_def [abs_def] lls_label_0_def [abs_def] lls_label_def [abs_def] del: One_nat_def)
    (rule reads_expect [OF takes_sint32], simp add: lls_set_defs, simp_all add: lls_fields_def lls_tag_def make_tag_def)

lemma lls_reads_clls3:
  "reads lls_fields lls_tag (lls_label rt 8) (wr_uint32 wr v) (lls_set_clls3 v)"
  by (simp add: lls_label_2_def [abs_def] lls_label_1_def [abs_def] lls_label_0_def [abs_def] lls_label_def [abs_def] del: One_nat_def)
    (rule reads_expect [OF takes_uint32], simp add: lls_set_defs, simp_all add: lls_fields_def lls_tag_def make_tag_def)

lemma lls_reads_flls3:
  "reads lls_fields lls_tag (lls_label rt 9) (wr_sint32 wr v) (lls_set_flls3 v)"
  by (simp add: lls_label_2_def [abs_def] lls_label_1_def [abs_def] lls_label_0_def [abs_def] lls_label_def [abs_def] del: One_nat_def)
    (rule reads_expect [OF takes_sint32], simp add: lls_set_defs, simp_all add: lls_fields_def lls_tag_def make_tag_def)

lemma lls_reads_tlls4:
  "reads lls_fields lls_tag (lls_label rt 10) (wr_sint32 wr v) (lls_set_tlls4 v)"
  by (simp add: lls_label_2_def [abs_def] lls_label_1_def [abs_def] lls_label_0_def [abs_def] lls_label_def [abs_def] del: One_nat_def)
    (rule reads_expect [OF takes_sint32], simp add: lls_set_defs, simp_all add: lls_fields_def lls_tag_def make_tag_def)

lemma lls_reads_clls4:
  "reads lls_fields lls_tag (lls_label rt 11) (wr_uint32 wr v) (lls_set_clls4 v)"
  by (simp add: lls_label_2_def [abs_def] lls_label_1_def [abs_def] lls_label_0_def [abs_def] lls_label_def [abs_def] del: One_nat_def)
    (rule reads_expect [OF takes_uint32], simp add: lls_set_defs, simp_all add: lls_fields_def lls_tag_def make_tag_def)

lemma lls_reads_flls4:
  "reads lls_fields lls_tag (lls_label rt 12) (wr_sint32 wr v) (lls_set_flls4 v)"
  by (simp add: lls_label_2_def [abs_def] lls_label_1_def [abs_def] lls_label_0_def [abs_def] lls_label_def [abs_def] del: One_nat_def)
    (rule reads_expect [OF takes_sint32], simp add: lls_set_defs, simp_all add: lls_fields_def lls_tag_def make_tag_def)

lemma lls_reads_tlls5:
  "reads lls_fields lls_tag (lls_label rt 13) (wr_sint32 wr v) (lls_set_tlls5 v)"
  by (simp add: lls_label_2_def [abs_def] lls_label_1_def [abs_def] lls_label_0_def [abs_def] lls_label_def [abs_def] del: One_nat_def)
    (rule reads_expect [OF takes_sint32], simp add: lls_set_defs, simp_all add: lls_fields_def lls_tag_def make_tag_def)

lemma lls_reads_clls5:
  "reads lls_fields lls_tag (lls_label rt 14) (wr_uint32 wr v) (lls_set_clls5 v)"
  by (simp add: lls_label_2_def [abs_def] lls_label_1_def [abs_def] lls_label_0_def [abs_def] lls_label_def [abs_def] del: One_nat_def)
    (rule reads_expect [OF takes_uint32], simp add: lls_set_defs, simp_all add: lls_fields_def lls_tag_def make_tag_def)

lemma lls_reads_flls5:
  "reads lls_fields lls_tag (lls_label rt 15) (wr_sint32 wr v) (lls_set_flls5 v)"
  by (simp add: lls_label_2_def [abs_def] lls_label_1_def [abs_def] lls_label_0_def [abs_def] lls_label_def [abs_def] del: One_nat_def)
    (rule reads_expect [OF takes_sint32], simp add: lls_set_defs, simp_all add: lls_fields_def lls_tag_def make_tag_def)

lemma lls_reads_tlls6:
  "reads lls_fields lls_tag (lls_label rt 16) (wr_sint32 wr v) (lls_set_tlls6 v)"
  by (simp add: lls_label_2_def [abs_def] lls_label_1_def [abs_def] lls_label_0_def [abs_def] lls_label_def [abs_def] del: One_nat_def)
    (rule reads_expect [OF takes_sint32], simp add: lls_set_defs, simp_all add: lls_fields_def lls_tag_def make_tag_def)

lemma lls_reads_clls6:
  "reads lls_fields lls_tag (lls_label rt 17) (wr_uint32 wr v) (lls_set_clls6 v)"
  by (simp add: lls_label_2_def [abs_def] lls_label_1_def [abs_def] lls_label_0_def [abs_def] lls_label_def [abs_def] del: One_nat_def)
    (rule reads_expect [OF takes_uint32], simp add: lls_set_defs, simp_all add: lls_fields_def lls_tag_def make_tag_def)

lemma lls_reads_flls6:
  "reads lls_fields lls_tag (lls_label rt 18) (wr_uint32 wr v) (lls_set_flls6 v)"
  by (simp add: lls_label_2_def [abs_def] lls_label_1_def [abs_def] lls_label_0_def [abs_def] lls_label_def [abs_def] del: One_nat_def)
    (rule reads_end [OF takes_uint32], simp add: lls_set_defs)

lemmas lls_reads =
  lls_reads_tlls1
  lls_reads_clls1
  lls_reads_flls1
  lls_reads_tlls2
  lls_reads_clls2
  lls_reads_flls2
  lls_reads_tlls3
  lls_reads_clls3
  lls_reads_flls3
  lls_reads_tlls4
  lls_reads_clls4
  lls_reads_flls4
  lls_reads_tlls5
  lls_reads_clls5
  lls_reads_flls5
  lls_reads_tlls6
  lls_reads_clls6
  lls_reads_flls6

lemma lls_items_read:
  "\<forall>(k, bs, upd) \<in> set (lls_items wr m). k \<in> lls_fields \<and> reads lls_fields lls_tag (lls_label rt k) bs upd"
  by (simp add: lls_items_def ball_Un ball_item lls_reads del: One_nat_def) (simp add: lls_fields_def)

lemma lls_serialize_items:
  "lls_unknown m = rt_unknown_empty rt \<Longrightarrow> lls_serialize wr m = concat (map (item_bytes wr lls_tag) (lls_items wr m))"
  by (simp add: lls_serialize_def lls_items_def concat_item write_uint32_def write_sint32_def write_bytes_def write_packed_def
    lls_tag_def wr_unknown_empty)

lemma lls_parse_from:
  assumes "rem s = lls_serialize wr m @ stop_bytes stop" and "lls_unknown m = rt_unknown_empty rt"
    and "group_stop stop"
    and "length (lls_serialize wr m) < fuel"
  shows "\<exists>s'. lls_parse fuel rt s x = Some (True, s', fold item_upd (lls_items wr m) x) \<and> stopped stop s'"
proof -
  note read = lls_items_read [of m]
  note ser = lls_serialize_items [OF assms(2)]
  have "lls_tag k \<noteq> 0" if "k \<in> lls_fields" for k using lls_switch_label [OF that] by blast
  from items_fewer_than_bytes [OF this read] assms(4) ser have fuel: "length (lls_items wr m) + 1 \<le> fuel" by simp
  have stop: "t \<noteq> 0 \<and> t \<notin> lls_tag ` lls_fields \<and> (\<forall>s m. lls_switch rt t s m = Done True s m)" if some: "stop = Some (t, r)" for t r
    using lls_end_group group_stopD [OF assms(3) some] by blast
  have start: "after lls_fields lls_tag (concat (map (item_bytes wr lls_tag) (lls_items wr m)) @ stop_bytes stop) x (Break s x)"
    using assms(1) ser by (simp add: after_def)
  from parse_items [OF lls_switch_label lls_tag_inj stop read start fuel] show ?thesis by (simp add: lls_parse_def)
qed

theorem lls_parse_written:
  assumes "rem s = lls_serialize wr m @ stop_bytes stop" and "lls_complete (rt_unknown_empty rt) m"
    and "group_stop stop"
    and "length (lls_serialize wr m) < fuel"
  shows "\<exists>s'. lls_parse fuel rt s (lls_new (rt_unknown_empty rt)) = Some (True, s', m) \<and> stopped stop s'"
proof -
  have "lls_unknown m = rt_unknown_empty rt" using assms(2) by (simp add: lls_complete_def)
  from lls_parse_from [OF assms(1) this assms(3,4), of "lls_new (rt_unknown_empty rt)"] show ?thesis
    by (simp add: lls_items_new [OF assms(2)])
qed

lemma lls_size_0_length: "lls_size_0 wr m = length ((if lls_has_tlls1 m then write_sint32 wr 1 (lls_tlls1 m) else []) @ (if lls_has_clls1 m then write_uint32 wr 2 (lls_clls1 m) else []) @ (if lls_has_flls1 m then write_sint32 wr 3 (lls_flls1 m) else []) @ (if lls_has_tlls2 m then write_sint32 wr 4 (lls_tlls2 m) else []) @ (if lls_has_clls2 m then write_uint32 wr 5 (lls_clls2 m) else []) @ (if lls_has_flls2 m then write_sint32 wr 6 (lls_flls2 m) else []) @ (if lls_has_tlls3 m then write_sint32 wr 7 (lls_tlls3 m) else []) @ (if lls_has_clls3 m then write_uint32 wr 8 (lls_clls3 m) else []))"
proof (cases "group_guard (lls_has_bits m) 0")
  case True
  then show ?thesis
    by (simp add: lls_size_0_def write_uint32_def write_sint32_def write_bytes_def value_size tag_size make_tag_def)
next
  case False
  then show ?thesis by (simp add: lls_size_0_def has_bit_simps group_guard_off)
qed

lemma lls_size_8_length: "lls_size_8 wr m = length ((if lls_has_flls3 m then write_sint32 wr 9 (lls_flls3 m) else []) @ (if lls_has_tlls4 m then write_sint32 wr 10 (lls_tlls4 m) else []) @ (if lls_has_clls4 m then write_uint32 wr 11 (lls_clls4 m) else []) @ (if lls_has_flls4 m then write_sint32 wr 12 (lls_flls4 m) else []) @ (if lls_has_tlls5 m then write_sint32 wr 13 (lls_tlls5 m) else []) @ (if lls_has_clls5 m then write_uint32 wr 14 (lls_clls5 m) else []) @ (if lls_has_flls5 m then write_sint32 wr 15 (lls_flls5 m) else []) @ (if lls_has_tlls6 m then write_sint32 wr 16 (lls_tlls6 m) else []))"
proof (cases "group_guard (lls_has_bits m) 8")
  case True
  then show ?thesis
    by (simp add: lls_size_8_def write_uint32_def write_sint32_def write_bytes_def value_size tag_size make_tag_def)
next
  case False
  then show ?thesis by (simp add: lls_size_8_def has_bit_simps group_guard_off)
qed

lemma lls_size_16_length: "lls_size_16 wr m = length ((if lls_has_clls6 m then write_uint32 wr 17 (lls_clls6 m) else []) @ (if lls_has_flls6 m then write_uint32 wr 18 (lls_flls6 m) else []))"
proof (cases "group_guard (lls_has_bits m) 16")
  case True
  then show ?thesis
    by (simp add: lls_size_16_def write_uint32_def write_sint32_def write_bytes_def value_size tag_size make_tag_def)
next
  case False
  then show ?thesis by (simp add: lls_size_16_def has_bit_simps group_guard_off)
qed

theorem lls_byte_size_length: "lls_byte_size wr m = length (lls_serialize wr m)"
  by (simp add: lls_byte_size_def lls_serialize_def lls_size_0_length lls_size_8_length lls_size_16_length value_size(4))

end

end
