(* ===== verification/Pb_LOG.thy ===== *)
theory Pb_LOG
  imports Pb_Wire
begin

text \<open>
  The generated class \<^verbatim>\<open>RecReg_LOG\<close>: one repeated string field. Its case jumps to itself while
  the next tag is the same field's. \<^verbatim>\<open>VerifyUTF8String\<close> only logs and is left out; \<^verbatim>\<open>add_debug\<close>
  appends an empty string before it is read, so a failed read leaves that element behind.
\<close>

record 'u log =
  log_has_bits :: u32
  log_unknown :: 'u
  log_debug :: "string list"

definition log_new :: "'u \<Rightarrow> 'u log" where
  "log_new u = \<lparr>log_has_bits = 0, log_unknown = u, log_debug = []\<rparr>"

definition log_clear :: "('s, 'u) runtime \<Rightarrow> 'u log \<Rightarrow> 'u log" where
  "log_clear rt m = m\<lparr>log_debug := [], log_has_bits := 0, log_unknown := rt_unknown_empty rt\<rparr>"

lemma log_clear_fresh: "log_clear rt m = log_new (rt_unknown_empty rt)"
  by (simp add: log_clear_def log_new_def)

definition log_merge_from :: "('s, 'u) runtime \<Rightarrow> 'u log \<Rightarrow> 'u log \<Rightarrow> 'u log" where
  "log_merge_from rt from m =
     m\<lparr>log_debug := log_debug m @ log_debug from,
       log_unknown := rt_unknown_merge rt (log_unknown m) (log_unknown from)\<rparr>"

definition log_is_initialized :: "'u log \<Rightarrow> bool" where
  "log_is_initialized m \<longleftrightarrow> True"

definition log_read_debug :: "('s, 'u) runtime \<Rightarrow> 's \<Rightarrow> 'u log \<Rightarrow> bool \<times> 's \<times> 'u log" where
  "log_read_debug rt s m =
     (case rt_read_bytes rt s [] of (ok, s', v) \<Rightarrow> (ok, s', m\<lparr>log_debug := log_debug m @ [v]\<rparr>))"

definition log_label :: "('s, 'u) runtime \<Rightarrow> nat \<Rightarrow> 's \<Rightarrow> 'u log \<Rightarrow> ('s, 'u log) flow" where
  "log_label rt k s m =
     (if k = 1 then
        (case log_read_debug rt s m of (ok, s', m') \<Rightarrow>
           if \<not> ok then Done False s' m'
           else (case rt_expect_tag rt 10 s' of (hit, s'') \<Rightarrow>
             if hit then Goto 1 s'' m' else then_end rt (True, s'', m')))
      else Out_of_fuel)"

definition log_switch :: "('s, 'u) runtime \<Rightarrow> u32 \<Rightarrow> 's \<Rightarrow> 'u log \<Rightarrow> ('s, 'u log) flow" where
  "log_switch rt tag s m =
     (let k = rt_tag_field rt tag; w = rt_tag_wire rt tag in
      if k = 1 \<and> w = WIRETYPE_LENGTH_DELIMITED then log_label rt 1 s m
      else handle_uninterpreted rt log_unknown (\<lambda>u. log_unknown_update (\<lambda>_. u)) tag s m)"

definition log_parse :: "nat \<Rightarrow> ('s, 'u) runtime \<Rightarrow> 's \<Rightarrow> 'u log \<Rightarrow> (bool \<times> 's \<times> 'u log) option" where
  "log_parse fuel rt s m = parse_loop fuel (rt_read_tag rt) (log_switch rt) (log_label rt) (Break s m)"

section \<open>Serialisation\<close>

definition log_serialize :: "'u writer \<Rightarrow> 'u log \<Rightarrow> byte list" where
  "log_serialize wr m = concat (map (write_bytes wr 1) (log_debug m)) @ wr_unknown wr (log_unknown m)"

definition log_byte_size :: "'u writer \<Rightarrow> 'u log \<Rightarrow> nat" where
  "log_byte_size wr m =
     1 * length (log_debug m) + sum_list (map (sz_bytes wr) (log_debug m)) + sz_unknown wr (log_unknown m)"

definition log_swap :: "'u log \<Rightarrow> 'u log \<Rightarrow> 'u log \<times> 'u log" where
  "log_swap m other =
     (m\<lparr>log_debug := log_debug other, log_has_bits := log_has_bits other, log_unknown := log_unknown other\<rparr>,
      other\<lparr>log_debug := log_debug m, log_has_bits := log_has_bits m, log_unknown := log_unknown m\<rparr>)"

lemma log_swap_exchanges: "log_swap m other = (other, m)"
  by (simp add: log_swap_def)

definition log_copy_from :: "('s, 'u) runtime \<Rightarrow> 'u log \<Rightarrow> 'u log \<Rightarrow> 'u log" where
  "log_copy_from rt from m = log_merge_from rt from (log_clear rt m)"

lemma log_copy_from_debug: "log_debug (log_copy_from rt from m) = log_debug from"
  by (simp add: log_copy_from_def log_merge_from_def log_clear_fresh log_new_def)

section \<open>The shape of a message\<close>

definition log_tag :: "nat \<Rightarrow> u32" where
  "log_tag k = make_tag k WIRETYPE_LENGTH_DELIMITED"

definition log_fields :: "nat set" where
  "log_fields = {1}"

definition log_complete :: "'u \<Rightarrow> 'u log \<Rightarrow> bool" where
  "log_complete u m \<longleftrightarrow> log_has_bits m = 0 \<and> log_unknown m = u"

definition log_fits :: "'u log \<Rightarrow> bool" where
  "log_fits m \<longleftrightarrow> list_all (\<lambda>b. length b < 2 ^ 31) (log_debug m)"

definition log_items :: "'u writer \<Rightarrow> 'u log \<Rightarrow> (nat \<times> byte list \<times> ('u log \<Rightarrow> 'u log)) list" where
  "log_items wr m = map (\<lambda>b. (1, wr_bytes wr b, \<lambda>x. x\<lparr>log_debug := log_debug x @ [b]\<rparr>)) (log_debug m)"

lemma log_items_fold: "fold item_upd (log_items wr m) x = x\<lparr>log_debug := log_debug x @ log_debug m\<rparr>"
proof -
  have "fold item_upd (map (\<lambda>b. (1, wr_bytes wr b, \<lambda>x. x\<lparr>log_debug := log_debug x @ [b]\<rparr>)) bs) x
      = x\<lparr>log_debug := log_debug x @ bs\<rparr>" for bs
    by (induction bs arbitrary: x) (simp_all add: item_upd_def)
  then show ?thesis by (simp add: log_items_def)
qed

lemma log_items_new: "log_complete u m \<Longrightarrow> fold item_upd (log_items wr m) (log_new u) = m"
  by (cases m) (simp add: log_items_fold log_new_def log_complete_def)

section \<open>The parser on the wire\<close>

context input_stream
begin

lemma log_label_within: "k \<in> log_fields \<Longrightarrow> flow_within log_fields (remaining s) (log_label rt k s m)"
proof -
  assume k: "k \<in> log_fields"
  obtain ok s1 v where rd: "rt_read_bytes rt s [] = (ok, s1, v)" by (metis prod_cases3)
  obtain hit s2 where ex: "rt_expect_tag rt 10 s1 = (hit, s2)" by fastforce
  have le: "remaining s1 \<le> remaining s" "remaining s2 \<le> remaining s1" "hit \<Longrightarrow> remaining s2 < remaining s1"
    using read_bytes_size [OF rd] expect_tag_size [OF ex] by simp_all
  have "flow_within log_fields (remaining s) (then_end rt (True, s2, x))" for x
    by (rule then_end_within) (use le in simp)
  with k le rd ex show ?thesis
    by (auto simp: log_fields_def log_label_def log_read_debug_def flow_within_simps)
qed

lemma log_switch_within: "flow_within log_fields (remaining s) (log_switch rt tag s m)"
  unfolding log_switch_def Let_def
  by (intro flow_within_if log_label_within handle_uninterpreted_within) (simp_all add: log_fields_def)

lemma log_parse_returns:
  "remaining s < fuel \<Longrightarrow> \<exists>ok s' m'. log_parse fuel rt s m = Some (ok, s', m') \<and> remaining s' \<le> remaining s"
  unfolding log_parse_def
  by (rule parse_loop_returns [OF log_switch_within log_label_within]) (simp_all add: flow_within_def)

end

context wire_format
begin

lemma log_switch_label:
  assumes "k \<in> log_fields"
  shows "log_tag k \<noteq> 0 \<and> log_switch rt (log_tag k) s m = log_label rt k s m"
  using assms make_tag_nonzero [of 1] tag_field_make [of 1] tag_wire_make [of 1]
  by (simp add: log_fields_def log_tag_def log_switch_def Let_def tag_field tag_wire)

lemma log_tag_inj: "inj_on log_tag log_fields"
  by (simp add: log_fields_def)

lemma log_end_group:
  assumes "tag_wire t = WIRETYPE_END_GROUP"
  shows "t \<noteq> 0 \<and> t \<notin> log_tag ` log_fields \<and> log_switch rt t s m = Done True s m"
proof (intro conjI)
  show "t \<noteq> 0" using assms by (auto simp: tag_wire_def)
  show "t \<notin> log_tag ` log_fields"
    using assms tag_wire_make [of 1] by (auto simp: log_tag_def log_fields_def)
  show "log_switch rt t s m = Done True s m"
    using assms by (simp add: log_switch_def Let_def tag_wire end_group_ends)
qed

text \<open>The case reads one string and may go on with the next, or see the end.\<close>

lemma log_reads_debug:
  assumes "length b < 2 ^ 31"
  shows "reads log_fields log_tag (log_label rt 1) (wr_bytes wr b) (\<lambda>x. x\<lparr>log_debug := log_debug x @ [b]\<rparr>)"
  unfolding reads_def
proof (intro allI impI)
  fix s and m :: "'u log" and rest assume "rem s = wr_bytes wr b @ rest"
  from read_bytes_written [OF this assms, of "[]"] obtain s1 where
    rd: "rt_read_bytes rt s [] = (True, s1, b)" "rem s1 = rest" by blast
  obtain hit s2 where ex: "rt_expect_tag rt 10 s1 = (hit, s2)" by fastforce
  obtain fin s3 where en: "rt_expect_at_end rt s2 = (fin, s3)" by fastforce
  have tag: "log_tag 1 = 10" by (simp add: log_tag_def make_tag_def)
  have hit: "hit \<Longrightarrow> rest = wr_tag wr (log_tag 1) @ rem s2" unfolding tag using ex rd(2) expect_tag_hit [of 10 s1 s2] by (cases hit) simp_all
  have miss: "\<not> hit \<Longrightarrow> rem s2 = rest" using ex rd(2) expect_tag_miss [of 10 s1 s2] by (cases hit) simp_all
  have fin: "fin \<Longrightarrow> rem s2 = [] \<and> rem s3 = []" using en expect_at_end_hit [of s2 s3] by (cases fin) simp_all
  have go: "\<not> fin \<Longrightarrow> rem s3 = rem s2" using en expect_at_end_miss [of s2 s3] by (cases fin) simp_all
  let ?m = "m\<lparr>log_debug := log_debug m @ [b]\<rparr>"
  have label: "log_label rt 1 s m = (if hit then Goto 1 s2 ?m else if fin then Done True s3 ?m else Break s3 ?m)"
    using rd(1) ex en by (simp add: log_label_def log_read_debug_def then_end_def)
  show "after log_fields log_tag rest ?m (log_label rt 1 s m)"
  proof (cases hit)
    case True
    with hit show ?thesis unfolding label by (simp add: after_def log_fields_def del: One_nat_def)
  next
    case False
    note miss = miss [OF False]
    show ?thesis
    proof (cases fin)
      case True
      with False fin miss show ?thesis unfolding label by (simp add: after_def)
    next
      case fin': False
      with False go miss show ?thesis unfolding label by (simp add: after_def)
    qed
  qed
qed

lemma log_items_read:
  assumes "log_fits m"
  shows "\<forall>(k, bs, upd) \<in> set (log_items wr m). k \<in> log_fields \<and> reads log_fields log_tag (log_label rt k) bs upd"
proof -
  have "length b < 2 ^ 31" if "b \<in> set (log_debug m)" for b
    using assms that unfolding log_fits_def list_all_iff by (rule bspec)
  then show ?thesis unfolding log_items_def
    by (auto simp del: One_nat_def intro!: log_reads_debug) (simp add: log_fields_def)
qed

lemma log_serialize_items:
  assumes "log_unknown m = rt_unknown_empty rt"
  shows "log_serialize wr m = concat (map (item_bytes wr log_tag) (log_items wr m))"
  using assms
  by (simp add: log_serialize_def log_items_def wr_unknown_empty item_bytes_def log_tag_def o_def
      write_bytes_def [abs_def] del: One_nat_def)

lemma log_parse_from:
  assumes "log_fits m"
    and "rem s = log_serialize wr m @ stop_bytes stop" and "log_unknown m = rt_unknown_empty rt"
    and "group_stop stop" and "length (log_serialize wr m) < fuel"
  shows "\<exists>s'. log_parse fuel rt s x = Some (True, s', fold item_upd (log_items wr m) x) \<and> stopped stop s'"
proof -
  note read = log_items_read [OF assms(1)]
  note ser = log_serialize_items [OF assms(3)]
  have "log_tag k \<noteq> 0" if "k \<in> log_fields" for k using log_switch_label [OF that] by blast
  from items_fewer_than_bytes [OF this read] assms(5) ser have fuel: "length (log_items wr m) + 1 \<le> fuel" by simp
  have stop: "t \<noteq> 0 \<and> t \<notin> log_tag ` log_fields \<and> (\<forall>s m. log_switch rt t s m = Done True s m)" if some: "stop = Some (t, r)" for t r
    using log_end_group group_stopD [OF assms(4) some] by blast
  have start: "after log_fields log_tag (concat (map (item_bytes wr log_tag) (log_items wr m)) @ stop_bytes stop) x (Break s x)"
    using assms(2) ser by (simp add: after_def)
  from parse_items [OF log_switch_label log_tag_inj stop read start fuel] show ?thesis by (simp add: log_parse_def)
qed

lemma log_byte_size_length: "log_byte_size wr m = length (log_serialize wr m)"
proof -
  have "length (concat (map (write_bytes wr 1) bs)) = length bs + sum_list (map (sz_bytes wr) bs)" for bs
    by (induction bs) (simp_all add: write_bytes_def value_size tag_size make_tag_def)
  then show ?thesis by (simp add: log_byte_size_def log_serialize_def value_size(4))
qed

end

end
