(* ===== verification/Pb_RecReg.thy ===== *)
theory Pb_RecReg
  imports Pb_General Pb_Photo Pb_NAV Pb_UniDt Pb_CanDt Pb_LLSDt Pb_LOG
begin

text \<open>
  The generated class \<^verbatim>\<open>RecReg\<close>, the message a controller packs into an information message: the
  list of message identifiers and seven optional groups. A group is a pointer that is null until
  \<^verbatim>\<open>mutable_\<close> allocates it; reading a null group gives the default instance.
\<close>

section \<open>Fields and accessors\<close>

record 'u recreg =
  rr_has_bits :: u32
  rr_unknown :: 'u
  rr_mid :: "u32 list"
  rr_general :: "'u general option"
  rr_photo :: "'u photo option"
  rr_nav :: "'u nav option"
  rr_unidt :: "'u unidt option"
  rr_candt :: "'u candt option"
  rr_llsdt :: "'u llsdt option"
  rr_log :: "'u log option"

definition rr_has_general :: "'u recreg \<Rightarrow> bool" where
  "rr_has_general m \<longleftrightarrow> rr_has_bits m AND 0x00000002 \<noteq> 0"

definition rr_get_general :: "('s, 'u) runtime \<Rightarrow> 'u recreg \<Rightarrow> 'u general" where
  "rr_get_general rt m = (case rr_general m of Some g \<Rightarrow> g | None \<Rightarrow> gen_new (rt_unknown_empty rt))"

definition rr_mutable_general :: "('s, 'u) runtime \<Rightarrow> 'u recreg \<Rightarrow> 'u recreg" where
  "rr_mutable_general rt m =
     (let m = m\<lparr>rr_has_bits := rr_has_bits m OR 0x00000002\<rparr>
      in if rr_general m = None then m\<lparr>rr_general := Some (gen_new (rt_unknown_empty rt))\<rparr> else m)"

definition rr_has_photo :: "'u recreg \<Rightarrow> bool" where
  "rr_has_photo m \<longleftrightarrow> rr_has_bits m AND 0x00000004 \<noteq> 0"

definition rr_get_photo :: "('s, 'u) runtime \<Rightarrow> 'u recreg \<Rightarrow> 'u photo" where
  "rr_get_photo rt m = (case rr_photo m of Some g \<Rightarrow> g | None \<Rightarrow> pho_new (rt_unknown_empty rt))"

definition rr_mutable_photo :: "('s, 'u) runtime \<Rightarrow> 'u recreg \<Rightarrow> 'u recreg" where
  "rr_mutable_photo rt m =
     (let m = m\<lparr>rr_has_bits := rr_has_bits m OR 0x00000004\<rparr>
      in if rr_photo m = None then m\<lparr>rr_photo := Some (pho_new (rt_unknown_empty rt))\<rparr> else m)"

definition rr_has_nav :: "'u recreg \<Rightarrow> bool" where
  "rr_has_nav m \<longleftrightarrow> rr_has_bits m AND 0x00000008 \<noteq> 0"

definition rr_get_nav :: "('s, 'u) runtime \<Rightarrow> 'u recreg \<Rightarrow> 'u nav" where
  "rr_get_nav rt m = (case rr_nav m of Some g \<Rightarrow> g | None \<Rightarrow> nav_new (rt_unknown_empty rt))"

definition rr_mutable_nav :: "('s, 'u) runtime \<Rightarrow> 'u recreg \<Rightarrow> 'u recreg" where
  "rr_mutable_nav rt m =
     (let m = m\<lparr>rr_has_bits := rr_has_bits m OR 0x00000008\<rparr>
      in if rr_nav m = None then m\<lparr>rr_nav := Some (nav_new (rt_unknown_empty rt))\<rparr> else m)"

definition rr_has_unidt :: "'u recreg \<Rightarrow> bool" where
  "rr_has_unidt m \<longleftrightarrow> rr_has_bits m AND 0x00000010 \<noteq> 0"

definition rr_get_unidt :: "('s, 'u) runtime \<Rightarrow> 'u recreg \<Rightarrow> 'u unidt" where
  "rr_get_unidt rt m = (case rr_unidt m of Some g \<Rightarrow> g | None \<Rightarrow> uni_new (rt_unknown_empty rt))"

definition rr_mutable_unidt :: "('s, 'u) runtime \<Rightarrow> 'u recreg \<Rightarrow> 'u recreg" where
  "rr_mutable_unidt rt m =
     (let m = m\<lparr>rr_has_bits := rr_has_bits m OR 0x00000010\<rparr>
      in if rr_unidt m = None then m\<lparr>rr_unidt := Some (uni_new (rt_unknown_empty rt))\<rparr> else m)"

definition rr_has_candt :: "'u recreg \<Rightarrow> bool" where
  "rr_has_candt m \<longleftrightarrow> rr_has_bits m AND 0x00000020 \<noteq> 0"

definition rr_get_candt :: "('s, 'u) runtime \<Rightarrow> 'u recreg \<Rightarrow> 'u candt" where
  "rr_get_candt rt m = (case rr_candt m of Some g \<Rightarrow> g | None \<Rightarrow> can_new (rt_unknown_empty rt))"

definition rr_mutable_candt :: "('s, 'u) runtime \<Rightarrow> 'u recreg \<Rightarrow> 'u recreg" where
  "rr_mutable_candt rt m =
     (let m = m\<lparr>rr_has_bits := rr_has_bits m OR 0x00000020\<rparr>
      in if rr_candt m = None then m\<lparr>rr_candt := Some (can_new (rt_unknown_empty rt))\<rparr> else m)"

definition rr_has_llsdt :: "'u recreg \<Rightarrow> bool" where
  "rr_has_llsdt m \<longleftrightarrow> rr_has_bits m AND 0x00000040 \<noteq> 0"

definition rr_get_llsdt :: "('s, 'u) runtime \<Rightarrow> 'u recreg \<Rightarrow> 'u llsdt" where
  "rr_get_llsdt rt m = (case rr_llsdt m of Some g \<Rightarrow> g | None \<Rightarrow> lls_new (rt_unknown_empty rt))"

definition rr_mutable_llsdt :: "('s, 'u) runtime \<Rightarrow> 'u recreg \<Rightarrow> 'u recreg" where
  "rr_mutable_llsdt rt m =
     (let m = m\<lparr>rr_has_bits := rr_has_bits m OR 0x00000040\<rparr>
      in if rr_llsdt m = None then m\<lparr>rr_llsdt := Some (lls_new (rt_unknown_empty rt))\<rparr> else m)"

definition rr_has_log :: "'u recreg \<Rightarrow> bool" where
  "rr_has_log m \<longleftrightarrow> rr_has_bits m AND 0x00000080 \<noteq> 0"

definition rr_get_log :: "('s, 'u) runtime \<Rightarrow> 'u recreg \<Rightarrow> 'u log" where
  "rr_get_log rt m = (case rr_log m of Some g \<Rightarrow> g | None \<Rightarrow> log_new (rt_unknown_empty rt))"

definition rr_mutable_log :: "('s, 'u) runtime \<Rightarrow> 'u recreg \<Rightarrow> 'u recreg" where
  "rr_mutable_log rt m =
     (let m = m\<lparr>rr_has_bits := rr_has_bits m OR 0x00000080\<rparr>
      in if rr_log m = None then m\<lparr>rr_log := Some (log_new (rt_unknown_empty rt))\<rparr> else m)"

lemma rr_has_bit [has_bit_simps]:
  "rr_has_general m \<longleftrightarrow> bit (rr_has_bits m) 1"
  "rr_has_photo m \<longleftrightarrow> bit (rr_has_bits m) 2"
  "rr_has_nav m \<longleftrightarrow> bit (rr_has_bits m) 3"
  "rr_has_unidt m \<longleftrightarrow> bit (rr_has_bits m) 4"
  "rr_has_candt m \<longleftrightarrow> bit (rr_has_bits m) 5"
  "rr_has_llsdt m \<longleftrightarrow> bit (rr_has_bits m) 6"
  "rr_has_log m \<longleftrightarrow> bit (rr_has_bits m) 7"
  using and_one_bit [of "rr_has_bits m" 1]
    and_one_bit [of "rr_has_bits m" 2]
    and_one_bit [of "rr_has_bits m" 3]
    and_one_bit [of "rr_has_bits m" 4]
    and_one_bit [of "rr_has_bits m" 5]
    and_one_bit [of "rr_has_bits m" 6]
    and_one_bit [of "rr_has_bits m" 7]
  by (simp_all add: rr_has_general_def rr_has_photo_def rr_has_nav_def rr_has_unidt_def rr_has_candt_def rr_has_llsdt_def rr_has_log_def)

lemma rr_or_bit [has_bit_simps]:
  "bit ((w :: u32) OR 0x00000002) n \<longleftrightarrow> bit w n \<or> n = 1"
  "bit ((w :: u32) OR 0x00000004) n \<longleftrightarrow> bit w n \<or> n = 2"
  "bit ((w :: u32) OR 0x00000008) n \<longleftrightarrow> bit w n \<or> n = 3"
  "bit ((w :: u32) OR 0x00000010) n \<longleftrightarrow> bit w n \<or> n = 4"
  "bit ((w :: u32) OR 0x00000020) n \<longleftrightarrow> bit w n \<or> n = 5"
  "bit ((w :: u32) OR 0x00000040) n \<longleftrightarrow> bit w n \<or> n = 6"
  "bit ((w :: u32) OR 0x00000080) n \<longleftrightarrow> bit w n \<or> n = 7"
  using or_one_bit [of 1 w n]
    or_one_bit [of 2 w n]
    or_one_bit [of 3 w n]
    or_one_bit [of 4 w n]
    or_one_bit [of 5 w n]
    or_one_bit [of 6 w n]
    or_one_bit [of 7 w n]
  by simp_all

lemmas rr_mutable_defs =
  rr_mutable_general_def
  rr_mutable_photo_def
  rr_mutable_nav_def
  rr_mutable_unidt_def
  rr_mutable_candt_def
  rr_mutable_llsdt_def
  rr_mutable_log_def

lemmas rr_get_defs =
  rr_get_general_def
  rr_get_photo_def
  rr_get_nav_def
  rr_get_unidt_def
  rr_get_candt_def
  rr_get_llsdt_def
  rr_get_log_def

section \<open>Construction, \<open>Clear\<close>, \<open>MergeFrom\<close>, \<open>IsInitialized\<close>\<close>

definition rr_new :: "'u \<Rightarrow> 'u recreg" where
  "rr_new u = \<lparr>rr_has_bits = 0, rr_unknown = u, rr_mid = [],
     rr_general = None, rr_photo = None, rr_nav = None, rr_unidt = None, rr_candt = None, rr_llsdt = None, rr_log = None\<rparr>"

definition rr_clear_1 :: "('s, 'u) runtime \<Rightarrow> 'u recreg \<Rightarrow> 'u recreg" where
  "rr_clear_1 rt m =
     (if group_guard (rr_has_bits m) 1
      then m\<lparr>rr_general := (if rr_has_general m then map_option (gen_clear rt) (rr_general m) else rr_general m),
        rr_photo := (if rr_has_photo m then map_option (pho_clear rt) (rr_photo m) else rr_photo m),
        rr_nav := (if rr_has_nav m then map_option (nav_clear rt) (rr_nav m) else rr_nav m),
        rr_unidt := (if rr_has_unidt m then map_option (uni_clear rt) (rr_unidt m) else rr_unidt m),
        rr_candt := (if rr_has_candt m then map_option (can_clear rt) (rr_candt m) else rr_candt m),
        rr_llsdt := (if rr_has_llsdt m then map_option (lls_clear rt) (rr_llsdt m) else rr_llsdt m),
        rr_log := (if rr_has_log m then map_option (log_clear rt) (rr_log m) else rr_log m)\<rparr>
      else m)"

definition rr_clear :: "('s, 'u) runtime \<Rightarrow> 'u recreg \<Rightarrow> 'u recreg" where
  "rr_clear rt m =
     (rr_clear_1 rt m)\<lparr>rr_mid := [], rr_has_bits := 0, rr_unknown := rt_unknown_empty rt\<rparr>"

definition rr_merge_general :: "('s, 'u) runtime \<Rightarrow> 'u recreg \<Rightarrow> 'u recreg \<Rightarrow> 'u recreg" where
  "rr_merge_general rt from m =
     (if rr_has_general from
      then (let m = rr_mutable_general rt m
            in m\<lparr>rr_general := Some (gen_merge_from rt (rr_get_general rt from) (rr_get_general rt m))\<rparr>)
      else m)"

definition rr_merge_photo :: "('s, 'u) runtime \<Rightarrow> 'u recreg \<Rightarrow> 'u recreg \<Rightarrow> 'u recreg" where
  "rr_merge_photo rt from m =
     (if rr_has_photo from
      then (let m = rr_mutable_photo rt m
            in m\<lparr>rr_photo := Some (pho_merge_from rt (rr_get_photo rt from) (rr_get_photo rt m))\<rparr>)
      else m)"

definition rr_merge_nav :: "('s, 'u) runtime \<Rightarrow> 'u recreg \<Rightarrow> 'u recreg \<Rightarrow> 'u recreg" where
  "rr_merge_nav rt from m =
     (if rr_has_nav from
      then (let m = rr_mutable_nav rt m
            in m\<lparr>rr_nav := Some (nav_merge_from rt (rr_get_nav rt from) (rr_get_nav rt m))\<rparr>)
      else m)"

definition rr_merge_unidt :: "('s, 'u) runtime \<Rightarrow> 'u recreg \<Rightarrow> 'u recreg \<Rightarrow> 'u recreg" where
  "rr_merge_unidt rt from m =
     (if rr_has_unidt from
      then (let m = rr_mutable_unidt rt m
            in m\<lparr>rr_unidt := Some (uni_merge_from rt (rr_get_unidt rt from) (rr_get_unidt rt m))\<rparr>)
      else m)"

definition rr_merge_candt :: "('s, 'u) runtime \<Rightarrow> 'u recreg \<Rightarrow> 'u recreg \<Rightarrow> 'u recreg" where
  "rr_merge_candt rt from m =
     (if rr_has_candt from
      then (let m = rr_mutable_candt rt m
            in m\<lparr>rr_candt := Some (can_merge_from rt (rr_get_candt rt from) (rr_get_candt rt m))\<rparr>)
      else m)"

definition rr_merge_llsdt :: "('s, 'u) runtime \<Rightarrow> 'u recreg \<Rightarrow> 'u recreg \<Rightarrow> 'u recreg" where
  "rr_merge_llsdt rt from m =
     (if rr_has_llsdt from
      then (let m = rr_mutable_llsdt rt m
            in m\<lparr>rr_llsdt := Some (lls_merge_from rt (rr_get_llsdt rt from) (rr_get_llsdt rt m))\<rparr>)
      else m)"

definition rr_merge_log :: "('s, 'u) runtime \<Rightarrow> 'u recreg \<Rightarrow> 'u recreg \<Rightarrow> 'u recreg" where
  "rr_merge_log rt from m =
     (if rr_has_log from
      then (let m = rr_mutable_log rt m
            in m\<lparr>rr_log := Some (log_merge_from rt (rr_get_log rt from) (rr_get_log rt m))\<rparr>)
      else m)"

definition rr_merge_1 :: "('s, 'u) runtime \<Rightarrow> 'u recreg \<Rightarrow> 'u recreg \<Rightarrow> 'u recreg" where
  "rr_merge_1 rt from m =
     (if group_guard (rr_has_bits from) 1 then
        let m = rr_merge_general rt from m;
            m = rr_merge_photo rt from m;
            m = rr_merge_nav rt from m;
            m = rr_merge_unidt rt from m;
            m = rr_merge_candt rt from m;
            m = rr_merge_llsdt rt from m;
            m = rr_merge_log rt from m
        in m
      else m)"

definition rr_merge_from :: "('s, 'u) runtime \<Rightarrow> 'u recreg \<Rightarrow> 'u recreg \<Rightarrow> 'u recreg" where
  "rr_merge_from rt from m =
     (let m = rr_merge_1 rt from (m\<lparr>rr_mid := rr_mid m @ rr_mid from\<rparr>)
      in m\<lparr>rr_unknown := rt_unknown_merge rt (rr_unknown m) (rr_unknown from)\<rparr>)"

definition rr_is_initialized :: "('s, 'u) runtime \<Rightarrow> 'u recreg \<Rightarrow> bool" where
  "rr_is_initialized rt m \<longleftrightarrow> \<not> (rr_has_nav m \<and> \<not> nav_is_initialized (rr_get_nav rt m))"

section \<open>\<open>MergePartialFromCodedStream\<close>\<close>

text \<open>
  \<^verbatim>\<open>ReadGroupNoVirtual(n, input, mutable_g())\<close>: the group is allocated and marked first, then the
  runtime enters the group, the group's parser runs, and the runtime checks the end tag.
\<close>

definition read_group ::
  "('s, 'u) runtime \<Rightarrow> nat \<Rightarrow> ('s \<Rightarrow> 'g \<Rightarrow> (bool \<times> 's \<times> 'g) option) \<Rightarrow> ('m \<Rightarrow> 'g) \<Rightarrow> ('g \<Rightarrow> 'm \<Rightarrow> 'm)
    \<Rightarrow> 's \<Rightarrow> 'm \<Rightarrow> (bool \<times> 's \<times> 'm) option" where
  "read_group rt n parse get put s m =
     (case rt_enter_group rt s of (ok, s1) \<Rightarrow>
        if \<not> ok then Some (False, s1, m)
        else (case parse s1 (get m) of
                None \<Rightarrow> None
              | Some (ok, s2, g) \<Rightarrow>
                  if \<not> ok then Some (False, s2, put g m)
                  else (case rt_leave_group rt n s2 of (ok, s3) \<Rightarrow> Some (ok, s3, put g m))))"

definition if_returned :: "'r option \<Rightarrow> ('r \<Rightarrow> ('s, 'm) flow) \<Rightarrow> ('s, 'm) flow" where
  "if_returned r f = (case r of None \<Rightarrow> Out_of_fuel | Some x \<Rightarrow> f x)"

definition rr_read_general :: "nat \<Rightarrow> ('s, 'u) runtime \<Rightarrow> 's \<Rightarrow> 'u recreg \<Rightarrow> (bool \<times> 's \<times> 'u recreg) option" where
  "rr_read_general fuel rt s m =
     read_group rt 2 (gen_parse fuel rt) (rr_get_general rt) (\<lambda>g m. m\<lparr>rr_general := Some g\<rparr>) s (rr_mutable_general rt m)"

definition rr_read_photo :: "nat \<Rightarrow> ('s, 'u) runtime \<Rightarrow> 's \<Rightarrow> 'u recreg \<Rightarrow> (bool \<times> 's \<times> 'u recreg) option" where
  "rr_read_photo fuel rt s m =
     read_group rt 4 (pho_parse fuel rt) (rr_get_photo rt) (\<lambda>g m. m\<lparr>rr_photo := Some g\<rparr>) s (rr_mutable_photo rt m)"

definition rr_read_nav :: "nat \<Rightarrow> ('s, 'u) runtime \<Rightarrow> 's \<Rightarrow> 'u recreg \<Rightarrow> (bool \<times> 's \<times> 'u recreg) option" where
  "rr_read_nav fuel rt s m =
     read_group rt 5 (nav_parse fuel rt) (rr_get_nav rt) (\<lambda>g m. m\<lparr>rr_nav := Some g\<rparr>) s (rr_mutable_nav rt m)"

definition rr_read_unidt :: "nat \<Rightarrow> ('s, 'u) runtime \<Rightarrow> 's \<Rightarrow> 'u recreg \<Rightarrow> (bool \<times> 's \<times> 'u recreg) option" where
  "rr_read_unidt fuel rt s m =
     read_group rt 6 (uni_parse fuel rt) (rr_get_unidt rt) (\<lambda>g m. m\<lparr>rr_unidt := Some g\<rparr>) s (rr_mutable_unidt rt m)"

definition rr_read_candt :: "nat \<Rightarrow> ('s, 'u) runtime \<Rightarrow> 's \<Rightarrow> 'u recreg \<Rightarrow> (bool \<times> 's \<times> 'u recreg) option" where
  "rr_read_candt fuel rt s m =
     read_group rt 7 (can_parse fuel rt) (rr_get_candt rt) (\<lambda>g m. m\<lparr>rr_candt := Some g\<rparr>) s (rr_mutable_candt rt m)"

definition rr_read_llsdt :: "nat \<Rightarrow> ('s, 'u) runtime \<Rightarrow> 's \<Rightarrow> 'u recreg \<Rightarrow> (bool \<times> 's \<times> 'u recreg) option" where
  "rr_read_llsdt fuel rt s m =
     read_group rt 8 (lls_parse fuel rt) (rr_get_llsdt rt) (\<lambda>g m. m\<lparr>rr_llsdt := Some g\<rparr>) s (rr_mutable_llsdt rt m)"

definition rr_read_log :: "nat \<Rightarrow> ('s, 'u) runtime \<Rightarrow> 's \<Rightarrow> 'u recreg \<Rightarrow> (bool \<times> 's \<times> 'u recreg) option" where
  "rr_read_log fuel rt s m =
     read_group rt 16 (log_parse fuel rt) (rr_get_log rt) (\<lambda>g m. m\<lparr>rr_log := Some g\<rparr>) s (rr_mutable_log rt m)"

definition rr_label :: "nat \<Rightarrow> ('s, 'u) runtime \<Rightarrow> nat \<Rightarrow> 's \<Rightarrow> 'u recreg \<Rightarrow> ('s, 'u recreg) flow" where
  "rr_label fuel rt k s m =
     (if k = 1 then
        then_expect rt 19 2 (read_mutable (rt_read_packed rt) rr_mid (\<lambda>v. rr_mid_update (\<lambda>_. v)) id s m)
      else if k = 2 then if_returned (rr_read_general fuel rt s m) (then_expect rt 35 4)
      else if k = 4 then if_returned (rr_read_photo fuel rt s m) (then_expect rt 43 5)
      else if k = 5 then if_returned (rr_read_nav fuel rt s m) (then_expect rt 51 6)
      else if k = 6 then if_returned (rr_read_unidt fuel rt s m) (then_expect rt 59 7)
      else if k = 7 then if_returned (rr_read_candt fuel rt s m) (then_expect rt 67 8)
      else if k = 8 then if_returned (rr_read_llsdt fuel rt s m) (then_expect rt 131 16)
      else if k = 16 then if_returned (rr_read_log fuel rt s m) (then_end rt)
      else Out_of_fuel)"

definition rr_switch :: "nat \<Rightarrow> ('s, 'u) runtime \<Rightarrow> u32 \<Rightarrow> 's \<Rightarrow> 'u recreg \<Rightarrow> ('s, 'u recreg) flow" where
  "rr_switch fuel rt tag s m =
     (let k = rt_tag_field rt tag; w = rt_tag_wire rt tag in
      if k = 1 \<and> w = WIRETYPE_LENGTH_DELIMITED then rr_label fuel rt 1 s m
      else if k = 1 \<and> w = WIRETYPE_VARINT then
        then_expect rt 19 2 (read_mutable (rt_read_repeated rt 10) rr_mid (\<lambda>v. rr_mid_update (\<lambda>_. v)) id s m)
      else if k = 2 \<and> w = WIRETYPE_START_GROUP then rr_label fuel rt 2 s m
      else if k = 4 \<and> w = WIRETYPE_START_GROUP then rr_label fuel rt 4 s m
      else if k = 5 \<and> w = WIRETYPE_START_GROUP then rr_label fuel rt 5 s m
      else if k = 6 \<and> w = WIRETYPE_START_GROUP then rr_label fuel rt 6 s m
      else if k = 7 \<and> w = WIRETYPE_START_GROUP then rr_label fuel rt 7 s m
      else if k = 8 \<and> w = WIRETYPE_START_GROUP then rr_label fuel rt 8 s m
      else if k = 16 \<and> w = WIRETYPE_START_GROUP then rr_label fuel rt 16 s m
      else handle_uninterpreted rt rr_unknown (\<lambda>u. rr_unknown_update (\<lambda>_. u)) tag s m)"

definition rr_parse :: "nat \<Rightarrow> ('s, 'u) runtime \<Rightarrow> 's \<Rightarrow> 'u recreg \<Rightarrow> (bool \<times> 's \<times> 'u recreg) option" where
  "rr_parse fuel rt s m =
     parse_loop fuel (rt_read_tag rt) (rr_switch fuel rt) (rr_label fuel rt) (Break s m)"

section \<open>What \<open>MergeFrom\<close> and \<open>Clear\<close> do to the groups\<close>

lemma rr_clear_has: "rr_has_bits (rr_clear rt m) = 0" "rr_mid (rr_clear rt m) = []"
  by (simp_all add: rr_clear_def)

text \<open>
  The set fields of a group, seen through the accessor: a group that is not set has none.
\<close>

definition rr_general_abs :: "('s, 'u) runtime \<Rightarrow> 'u recreg \<Rightarrow> (nat \<rightharpoonup> pval)" where
  "rr_general_abs rt m = gen_abs (rr_get_general rt m)"

definition rr_nav_abs :: "('s, 'u) runtime \<Rightarrow> 'u recreg \<Rightarrow> (nat \<rightharpoonup> pval)" where
  "rr_nav_abs rt m = nav_abs (rr_get_nav rt m)"

definition rr_llsdt_abs :: "('s, 'u) runtime \<Rightarrow> 'u recreg \<Rightarrow> (nat \<rightharpoonup> pval)" where
  "rr_llsdt_abs rt m = lls_abs (rr_get_llsdt rt m)"

section \<open>Serialisation\<close>

text \<open>
  \<^verbatim>\<open>SerializeWithCachedSizes\<close>, after \<^verbatim>\<open>ByteSize\<close> has cached the sizes. A group is written
  between its tags; \<^verbatim>\<open>ByteSize\<close> counts both.
\<close>

definition rr_serialize :: "('s, 'u) runtime \<Rightarrow> 'u writer \<Rightarrow> 'u recreg \<Rightarrow> byte list" where
  "rr_serialize rt wr m =
     write_packed wr 1 (rr_mid m) @
     (if rr_has_general m then write_group wr 2 (gen_serialize wr (rr_get_general rt m)) else []) @
     (if rr_has_photo m then write_group wr 4 (pho_serialize wr (rr_get_photo rt m)) else []) @
     (if rr_has_nav m then write_group wr 5 (nav_serialize wr (rr_get_nav rt m)) else []) @
     (if rr_has_unidt m then write_group wr 6 (uni_serialize wr (rr_get_unidt rt m)) else []) @
     (if rr_has_candt m then write_group wr 7 (can_serialize wr (rr_get_candt rt m)) else []) @
     (if rr_has_llsdt m then write_group wr 8 (lls_serialize wr (rr_get_llsdt rt m)) else []) @
     (if rr_has_log m then write_group wr 16 (log_serialize wr (rr_get_log rt m)) else []) @
     wr_unknown wr (rr_unknown m)"

definition rr_size_1 :: "('s, 'u) runtime \<Rightarrow> 'u writer \<Rightarrow> 'u recreg \<Rightarrow> nat" where
  "rr_size_1 rt wr m =
     (if group_guard (rr_has_bits m) 1
      then (if rr_has_general m then 2 + gen_byte_size wr (rr_get_general rt m) else 0)
         + (if rr_has_photo m then 2 + pho_byte_size wr (rr_get_photo rt m) else 0)
         + (if rr_has_nav m then 2 + nav_byte_size wr (rr_get_nav rt m) else 0)
         + (if rr_has_unidt m then 2 + uni_byte_size wr (rr_get_unidt rt m) else 0)
         + (if rr_has_candt m then 2 + can_byte_size wr (rr_get_candt rt m) else 0)
         + (if rr_has_llsdt m then 2 + lls_byte_size wr (rr_get_llsdt rt m) else 0)
         + (if rr_has_log m then 4 + log_byte_size wr (rr_get_log rt m) else 0)
      else 0)"

definition rr_byte_size :: "('s, 'u) runtime \<Rightarrow> 'u writer \<Rightarrow> 'u recreg \<Rightarrow> nat" where
  "rr_byte_size rt wr m =
     rr_size_1 rt wr m + packed_field_size wr 1 (rr_mid m) + sz_unknown wr (rr_unknown m)"

definition rr_swap :: "'u recreg \<Rightarrow> 'u recreg \<Rightarrow> 'u recreg \<times> 'u recreg" where
  "rr_swap m other =
     (m\<lparr>rr_mid := rr_mid other,
       rr_general := rr_general other,
       rr_photo := rr_photo other,
       rr_nav := rr_nav other,
       rr_unidt := rr_unidt other,
       rr_candt := rr_candt other,
       rr_llsdt := rr_llsdt other,
       rr_log := rr_log other,
       rr_has_bits := rr_has_bits other,
       rr_unknown := rr_unknown other\<rparr>,
      other\<lparr>rr_mid := rr_mid m,
       rr_general := rr_general m,
       rr_photo := rr_photo m,
       rr_nav := rr_nav m,
       rr_unidt := rr_unidt m,
       rr_candt := rr_candt m,
       rr_llsdt := rr_llsdt m,
       rr_log := rr_log m,
       rr_has_bits := rr_has_bits m,
       rr_unknown := rr_unknown m\<rparr>)"

lemma rr_swap_exchanges: "rr_swap m other = (other, m)"
  by (simp add: rr_swap_def)

definition rr_copy_from :: "('s, 'u) runtime \<Rightarrow> 'u recreg \<Rightarrow> 'u recreg \<Rightarrow> 'u recreg" where
  "rr_copy_from rt from m = rr_merge_from rt from (rr_clear rt m)"

section \<open>The shape of a message\<close>

definition rr_tag :: "nat \<Rightarrow> u32" where
  "rr_tag k = make_tag k (if k = 1 then WIRETYPE_LENGTH_DELIMITED else WIRETYPE_START_GROUP)"

definition rr_fields :: "nat set" where
  "rr_fields = {1, 2, 4, 5, 6, 7, 8, 16}"

definition rr_bits :: "nat list" where
  "rr_bits = [1, 2, 3, 4, 5, 6, 7]"

text \<open>A group is allocated exactly when its has-bit is set.\<close>

definition group_ok :: "bool \<Rightarrow> 'g option \<Rightarrow> ('g \<Rightarrow> bool) \<Rightarrow> bool" where
  "group_ok h g ok \<longleftrightarrow> (case g of None \<Rightarrow> \<not> h | Some x \<Rightarrow> h \<and> ok x)"

definition rr_complete :: "'u \<Rightarrow> 'u recreg \<Rightarrow> bool" where
  "rr_complete u m \<longleftrightarrow>
     bits_within (rr_has_bits m) rr_bits \<and> rr_unknown m = u \<and>
     group_ok (rr_has_general m) (rr_general m) (gen_complete u) \<and>
     group_ok (rr_has_photo m) (rr_photo m) (pho_complete u) \<and>
     group_ok (rr_has_nav m) (rr_nav m) (nav_complete u) \<and>
     group_ok (rr_has_unidt m) (rr_unidt m) (uni_complete u) \<and>
     group_ok (rr_has_candt m) (rr_candt m) (can_complete u) \<and>
     group_ok (rr_has_llsdt m) (rr_llsdt m) (lls_complete u) \<and>
     group_ok (rr_has_log m) (rr_log m) (log_complete u)"

definition rr_fits :: "'u writer \<Rightarrow> 'u recreg \<Rightarrow> bool" where
  "rr_fits wr m \<longleftrightarrow>
     packed_size wr (rr_mid m) < 2 ^ 31 \<and> pred_option gen_fits (rr_general m) \<and> pred_option pho_fits (rr_photo m) \<and> pred_option (can_fits wr) (rr_candt m) \<and> pred_option log_fits (rr_log m)"

lemma rr_complete_new: "rr_complete u (rr_new u)"
  by (simp add: rr_complete_def group_ok_def) (simp add: rr_new_def has_bit_simps)

text \<open>Reading a group allocates it and adds what is read.\<close>

definition rr_put_general :: "('s, 'u) runtime \<Rightarrow> 'u writer \<Rightarrow> 'u general \<Rightarrow> 'u recreg \<Rightarrow> 'u recreg" where
  "rr_put_general rt wr g x =
     (let x = rr_mutable_general rt x in x\<lparr>rr_general := Some (fold item_upd (gen_items wr g) (rr_get_general rt x))\<rparr>)"

definition rr_put_photo :: "('s, 'u) runtime \<Rightarrow> 'u writer \<Rightarrow> 'u photo \<Rightarrow> 'u recreg \<Rightarrow> 'u recreg" where
  "rr_put_photo rt wr g x =
     (let x = rr_mutable_photo rt x in x\<lparr>rr_photo := Some (fold item_upd (pho_items wr g) (rr_get_photo rt x))\<rparr>)"

definition rr_put_nav :: "('s, 'u) runtime \<Rightarrow> 'u writer \<Rightarrow> 'u nav \<Rightarrow> 'u recreg \<Rightarrow> 'u recreg" where
  "rr_put_nav rt wr g x =
     (let x = rr_mutable_nav rt x in x\<lparr>rr_nav := Some (fold item_upd (nav_items wr g) (rr_get_nav rt x))\<rparr>)"

definition rr_put_unidt :: "('s, 'u) runtime \<Rightarrow> 'u writer \<Rightarrow> 'u unidt \<Rightarrow> 'u recreg \<Rightarrow> 'u recreg" where
  "rr_put_unidt rt wr g x =
     (let x = rr_mutable_unidt rt x in x\<lparr>rr_unidt := Some (fold item_upd (uni_items wr g) (rr_get_unidt rt x))\<rparr>)"

definition rr_put_candt :: "('s, 'u) runtime \<Rightarrow> 'u writer \<Rightarrow> 'u candt \<Rightarrow> 'u recreg \<Rightarrow> 'u recreg" where
  "rr_put_candt rt wr g x =
     (let x = rr_mutable_candt rt x in x\<lparr>rr_candt := Some (fold item_upd (can_items wr g) (rr_get_candt rt x))\<rparr>)"

definition rr_put_llsdt :: "('s, 'u) runtime \<Rightarrow> 'u writer \<Rightarrow> 'u llsdt \<Rightarrow> 'u recreg \<Rightarrow> 'u recreg" where
  "rr_put_llsdt rt wr g x =
     (let x = rr_mutable_llsdt rt x in x\<lparr>rr_llsdt := Some (fold item_upd (lls_items wr g) (rr_get_llsdt rt x))\<rparr>)"

definition rr_put_log :: "('s, 'u) runtime \<Rightarrow> 'u writer \<Rightarrow> 'u log \<Rightarrow> 'u recreg \<Rightarrow> 'u recreg" where
  "rr_put_log rt wr g x =
     (let x = rr_mutable_log rt x in x\<lparr>rr_log := Some (fold item_upd (log_items wr g) (rr_get_log rt x))\<rparr>)"

lemmas rr_put_defs =
  rr_put_general_def
  rr_put_photo_def
  rr_put_nav_def
  rr_put_unidt_def
  rr_put_candt_def
  rr_put_llsdt_def
  rr_put_log_def

lemma rr_put_bits:
  "bit (rr_has_bits (upd_if h (rr_put_general rt wr g1) x)) n \<longleftrightarrow> bit (rr_has_bits x) n \<or> h \<and> n = 1"
  "bit (rr_has_bits (upd_if h (rr_put_photo rt wr g2) x)) n \<longleftrightarrow> bit (rr_has_bits x) n \<or> h \<and> n = 2"
  "bit (rr_has_bits (upd_if h (rr_put_nav rt wr g3) x)) n \<longleftrightarrow> bit (rr_has_bits x) n \<or> h \<and> n = 3"
  "bit (rr_has_bits (upd_if h (rr_put_unidt rt wr g4) x)) n \<longleftrightarrow> bit (rr_has_bits x) n \<or> h \<and> n = 4"
  "bit (rr_has_bits (upd_if h (rr_put_candt rt wr g5) x)) n \<longleftrightarrow> bit (rr_has_bits x) n \<or> h \<and> n = 5"
  "bit (rr_has_bits (upd_if h (rr_put_llsdt rt wr g6) x)) n \<longleftrightarrow> bit (rr_has_bits x) n \<or> h \<and> n = 6"
  "bit (rr_has_bits (upd_if h (rr_put_log rt wr g7) x)) n \<longleftrightarrow> bit (rr_has_bits x) n \<or> h \<and> n = 7"
  "rr_has_bits (upd_if h (\<lambda>x. x\<lparr>rr_mid := rr_mid x @ vs\<rparr>) x) = rr_has_bits x"
  by (simp_all add: upd_if_def rr_put_defs rr_mutable_defs Let_def has_bit_simps del: One_nat_def)

lemma rr_put_others:
  "rr_unknown (upd_if h (rr_put_general rt wr g1) x) = rr_unknown x"
  "rr_mid (upd_if h (rr_put_general rt wr g1) x) = rr_mid x"
  "rr_photo (upd_if h (rr_put_general rt wr g1) x) = rr_photo x"
  "rr_nav (upd_if h (rr_put_general rt wr g1) x) = rr_nav x"
  "rr_unidt (upd_if h (rr_put_general rt wr g1) x) = rr_unidt x"
  "rr_candt (upd_if h (rr_put_general rt wr g1) x) = rr_candt x"
  "rr_llsdt (upd_if h (rr_put_general rt wr g1) x) = rr_llsdt x"
  "rr_log (upd_if h (rr_put_general rt wr g1) x) = rr_log x"
  "rr_unknown (upd_if h (rr_put_photo rt wr g2) x) = rr_unknown x"
  "rr_mid (upd_if h (rr_put_photo rt wr g2) x) = rr_mid x"
  "rr_general (upd_if h (rr_put_photo rt wr g2) x) = rr_general x"
  "rr_nav (upd_if h (rr_put_photo rt wr g2) x) = rr_nav x"
  "rr_unidt (upd_if h (rr_put_photo rt wr g2) x) = rr_unidt x"
  "rr_candt (upd_if h (rr_put_photo rt wr g2) x) = rr_candt x"
  "rr_llsdt (upd_if h (rr_put_photo rt wr g2) x) = rr_llsdt x"
  "rr_log (upd_if h (rr_put_photo rt wr g2) x) = rr_log x"
  "rr_unknown (upd_if h (rr_put_nav rt wr g3) x) = rr_unknown x"
  "rr_mid (upd_if h (rr_put_nav rt wr g3) x) = rr_mid x"
  "rr_general (upd_if h (rr_put_nav rt wr g3) x) = rr_general x"
  "rr_photo (upd_if h (rr_put_nav rt wr g3) x) = rr_photo x"
  "rr_unidt (upd_if h (rr_put_nav rt wr g3) x) = rr_unidt x"
  "rr_candt (upd_if h (rr_put_nav rt wr g3) x) = rr_candt x"
  "rr_llsdt (upd_if h (rr_put_nav rt wr g3) x) = rr_llsdt x"
  "rr_log (upd_if h (rr_put_nav rt wr g3) x) = rr_log x"
  "rr_unknown (upd_if h (rr_put_unidt rt wr g4) x) = rr_unknown x"
  "rr_mid (upd_if h (rr_put_unidt rt wr g4) x) = rr_mid x"
  "rr_general (upd_if h (rr_put_unidt rt wr g4) x) = rr_general x"
  "rr_photo (upd_if h (rr_put_unidt rt wr g4) x) = rr_photo x"
  "rr_nav (upd_if h (rr_put_unidt rt wr g4) x) = rr_nav x"
  "rr_candt (upd_if h (rr_put_unidt rt wr g4) x) = rr_candt x"
  "rr_llsdt (upd_if h (rr_put_unidt rt wr g4) x) = rr_llsdt x"
  "rr_log (upd_if h (rr_put_unidt rt wr g4) x) = rr_log x"
  "rr_unknown (upd_if h (rr_put_candt rt wr g5) x) = rr_unknown x"
  "rr_mid (upd_if h (rr_put_candt rt wr g5) x) = rr_mid x"
  "rr_general (upd_if h (rr_put_candt rt wr g5) x) = rr_general x"
  "rr_photo (upd_if h (rr_put_candt rt wr g5) x) = rr_photo x"
  "rr_nav (upd_if h (rr_put_candt rt wr g5) x) = rr_nav x"
  "rr_unidt (upd_if h (rr_put_candt rt wr g5) x) = rr_unidt x"
  "rr_llsdt (upd_if h (rr_put_candt rt wr g5) x) = rr_llsdt x"
  "rr_log (upd_if h (rr_put_candt rt wr g5) x) = rr_log x"
  "rr_unknown (upd_if h (rr_put_llsdt rt wr g6) x) = rr_unknown x"
  "rr_mid (upd_if h (rr_put_llsdt rt wr g6) x) = rr_mid x"
  "rr_general (upd_if h (rr_put_llsdt rt wr g6) x) = rr_general x"
  "rr_photo (upd_if h (rr_put_llsdt rt wr g6) x) = rr_photo x"
  "rr_nav (upd_if h (rr_put_llsdt rt wr g6) x) = rr_nav x"
  "rr_unidt (upd_if h (rr_put_llsdt rt wr g6) x) = rr_unidt x"
  "rr_candt (upd_if h (rr_put_llsdt rt wr g6) x) = rr_candt x"
  "rr_log (upd_if h (rr_put_llsdt rt wr g6) x) = rr_log x"
  "rr_unknown (upd_if h (rr_put_log rt wr g7) x) = rr_unknown x"
  "rr_mid (upd_if h (rr_put_log rt wr g7) x) = rr_mid x"
  "rr_general (upd_if h (rr_put_log rt wr g7) x) = rr_general x"
  "rr_photo (upd_if h (rr_put_log rt wr g7) x) = rr_photo x"
  "rr_nav (upd_if h (rr_put_log rt wr g7) x) = rr_nav x"
  "rr_unidt (upd_if h (rr_put_log rt wr g7) x) = rr_unidt x"
  "rr_candt (upd_if h (rr_put_log rt wr g7) x) = rr_candt x"
  "rr_llsdt (upd_if h (rr_put_log rt wr g7) x) = rr_llsdt x"
  "rr_unknown (upd_if h (\<lambda>x. x\<lparr>rr_mid := rr_mid x @ vs\<rparr>) x) = rr_unknown x"
  "rr_general (upd_if h (\<lambda>x. x\<lparr>rr_mid := rr_mid x @ vs\<rparr>) x) = rr_general x"
  "rr_photo (upd_if h (\<lambda>x. x\<lparr>rr_mid := rr_mid x @ vs\<rparr>) x) = rr_photo x"
  "rr_nav (upd_if h (\<lambda>x. x\<lparr>rr_mid := rr_mid x @ vs\<rparr>) x) = rr_nav x"
  "rr_unidt (upd_if h (\<lambda>x. x\<lparr>rr_mid := rr_mid x @ vs\<rparr>) x) = rr_unidt x"
  "rr_candt (upd_if h (\<lambda>x. x\<lparr>rr_mid := rr_mid x @ vs\<rparr>) x) = rr_candt x"
  "rr_llsdt (upd_if h (\<lambda>x. x\<lparr>rr_mid := rr_mid x @ vs\<rparr>) x) = rr_llsdt x"
  "rr_log (upd_if h (\<lambda>x. x\<lparr>rr_mid := rr_mid x @ vs\<rparr>) x) = rr_log x"
  by (simp_all add: upd_if_def rr_put_defs rr_mutable_defs Let_def)

lemma rr_put_group:
  "rr_general (upd_if h (rr_put_general rt wr g1) x) =
    (if h then Some (fold item_upd (gen_items wr g1) (rr_get_general rt x)) else rr_general x)"
  "rr_photo (upd_if h (rr_put_photo rt wr g2) x) =
    (if h then Some (fold item_upd (pho_items wr g2) (rr_get_photo rt x)) else rr_photo x)"
  "rr_nav (upd_if h (rr_put_nav rt wr g3) x) =
    (if h then Some (fold item_upd (nav_items wr g3) (rr_get_nav rt x)) else rr_nav x)"
  "rr_unidt (upd_if h (rr_put_unidt rt wr g4) x) =
    (if h then Some (fold item_upd (uni_items wr g4) (rr_get_unidt rt x)) else rr_unidt x)"
  "rr_candt (upd_if h (rr_put_candt rt wr g5) x) =
    (if h then Some (fold item_upd (can_items wr g5) (rr_get_candt rt x)) else rr_candt x)"
  "rr_llsdt (upd_if h (rr_put_llsdt rt wr g6) x) =
    (if h then Some (fold item_upd (lls_items wr g6) (rr_get_llsdt rt x)) else rr_llsdt x)"
  "rr_log (upd_if h (rr_put_log rt wr g7) x) =
    (if h then Some (fold item_upd (log_items wr g7) (rr_get_log rt x)) else rr_log x)"
  "rr_mid (upd_if h (\<lambda>x. x\<lparr>rr_mid := rr_mid x @ vs\<rparr>) x) = (if h then rr_mid x @ vs else rr_mid x)"
  by (simp_all add: upd_if_def rr_put_defs rr_mutable_defs rr_get_defs Let_def split: option.split)

definition rr_items :: "('s, 'u) runtime \<Rightarrow> 'u writer \<Rightarrow> 'u recreg \<Rightarrow> (nat \<times> byte list \<times> ('u recreg \<Rightarrow> 'u recreg)) list" where
  "rr_items rt wr m =
     item (rr_mid m \<noteq> []) 1 (wr_varint32 wr (of_nat (packed_size wr (rr_mid m))) @ concat (map (wr_uint32 wr) (rr_mid m)))
       (\<lambda>x. x\<lparr>rr_mid := rr_mid x @ rr_mid m\<rparr>) @
     item (rr_has_general m) 2 (gen_serialize wr (rr_get_general rt m) @ wr_tag wr (make_tag 2 WIRETYPE_END_GROUP))
       (rr_put_general rt wr (rr_get_general rt m)) @
     item (rr_has_photo m) 4 (pho_serialize wr (rr_get_photo rt m) @ wr_tag wr (make_tag 4 WIRETYPE_END_GROUP))
       (rr_put_photo rt wr (rr_get_photo rt m)) @
     item (rr_has_nav m) 5 (nav_serialize wr (rr_get_nav rt m) @ wr_tag wr (make_tag 5 WIRETYPE_END_GROUP))
       (rr_put_nav rt wr (rr_get_nav rt m)) @
     item (rr_has_unidt m) 6 (uni_serialize wr (rr_get_unidt rt m) @ wr_tag wr (make_tag 6 WIRETYPE_END_GROUP))
       (rr_put_unidt rt wr (rr_get_unidt rt m)) @
     item (rr_has_candt m) 7 (can_serialize wr (rr_get_candt rt m) @ wr_tag wr (make_tag 7 WIRETYPE_END_GROUP))
       (rr_put_candt rt wr (rr_get_candt rt m)) @
     item (rr_has_llsdt m) 8 (lls_serialize wr (rr_get_llsdt rt m) @ wr_tag wr (make_tag 8 WIRETYPE_END_GROUP))
       (rr_put_llsdt rt wr (rr_get_llsdt rt m)) @
     item (rr_has_log m) 16 (log_serialize wr (rr_get_log rt m) @ wr_tag wr (make_tag 16 WIRETYPE_END_GROUP))
       (rr_put_log rt wr (rr_get_log rt m))"

lemma rr_items_new:
  assumes "rr_complete (rt_unknown_empty rt) m"
  shows "fold item_upd (rr_items rt wr m) (rr_new (rt_unknown_empty rt)) = m" (is "?x = m")
proof -
  have "rr_has_bits ?x = rr_has_bits m"
  proof (rule bits_within_eqI)
    show "bits_within (rr_has_bits m) rr_bits" using assms by (simp add: rr_complete_def)
    have bit: "bit (rr_has_bits ?x) n \<longleftrightarrow> n \<in> set rr_bits \<and> bit (rr_has_bits m) n" for n
      unfolding rr_items_def fold_append o_apply fold_item rr_put_bits rr_has_bit
      by (auto simp: rr_new_def rr_bits_def)
    then show "bits_within (rr_has_bits ?x) rr_bits" by (simp add: bits_within_def list_all_iff)
    show "\<forall>n \<in> set rr_bits. bit (rr_has_bits ?x) n = bit (rr_has_bits m) n" using bit by simp
  qed
  moreover have "rr_unknown ?x = rr_unknown m" "rr_mid ?x = rr_mid m"
    using assms unfolding rr_items_def fold_append o_apply fold_item rr_put_others rr_put_group
    by (simp_all add: rr_complete_def rr_new_def)
  moreover have "rr_general ?x = rr_general m"
    using assms unfolding rr_items_def fold_append o_apply fold_item rr_put_others rr_put_group rr_get_general_def
    by (simp add: rr_put_others rr_complete_def group_ok_def rr_new_def gen_items_new split: option.splits)
  moreover have "rr_photo ?x = rr_photo m"
    using assms unfolding rr_items_def fold_append o_apply fold_item rr_put_others rr_put_group rr_get_photo_def
    by (simp add: rr_put_others rr_complete_def group_ok_def rr_new_def pho_items_new split: option.splits)
  moreover have "rr_nav ?x = rr_nav m"
    using assms unfolding rr_items_def fold_append o_apply fold_item rr_put_others rr_put_group rr_get_nav_def
    by (simp add: rr_put_others rr_complete_def group_ok_def rr_new_def nav_items_new split: option.splits)
  moreover have "rr_unidt ?x = rr_unidt m"
    using assms unfolding rr_items_def fold_append o_apply fold_item rr_put_others rr_put_group rr_get_unidt_def
    by (simp add: rr_put_others rr_complete_def group_ok_def rr_new_def uni_items_new split: option.splits)
  moreover have "rr_candt ?x = rr_candt m"
    using assms unfolding rr_items_def fold_append o_apply fold_item rr_put_others rr_put_group rr_get_candt_def
    by (simp add: rr_put_others rr_complete_def group_ok_def rr_new_def can_items_new split: option.splits)
  moreover have "rr_llsdt ?x = rr_llsdt m"
    using assms unfolding rr_items_def fold_append o_apply fold_item rr_put_others rr_put_group rr_get_llsdt_def
    by (simp add: rr_put_others rr_complete_def group_ok_def rr_new_def lls_items_new split: option.splits)
  moreover have "rr_log ?x = rr_log m"
    using assms unfolding rr_items_def fold_append o_apply fold_item rr_put_others rr_put_group rr_get_log_def
    by (simp add: rr_put_others rr_complete_def group_ok_def rr_new_def log_items_new split: option.splits)
  ultimately show ?thesis by (intro recreg.equality) simp_all
qed

section \<open>The parser on the wire\<close>

lemma rr_fields_range: "k \<in> rr_fields \<Longrightarrow> 0 < k \<and> k < 2 ^ 29"
  unfolding rr_fields_def by (elim insertE emptyE) (simp_all del: One_nat_def)

lemma rr_tag_field: "k \<in> rr_fields \<Longrightarrow> tag_field (rr_tag k) = k"
  using rr_fields_range by (simp add: rr_tag_def tag_field_make)

lemma rr_tag_inj: "inj_on rr_tag rr_fields"
  by (rule inj_on_inverseI [where g = tag_field]) (rule rr_tag_field)

context input_stream
begin

lemma read_group_returns:
  assumes "\<And>s g. remaining s < fuel \<Longrightarrow> \<exists>ok s' g'. parse s g = Some (ok, s', g') \<and> remaining s' \<le> remaining s"
    and "remaining s < fuel"
  shows "\<exists>ok s' m'. read_group rt n parse get put s m = Some (ok, s', m') \<and> remaining s' \<le> remaining s"
proof -
  obtain ok1 s1 where en: "rt_enter_group rt s = (ok1, s1)" by fastforce
  note le1 = enter_group_size [OF en]
  show ?thesis
  proof (cases ok1)
    case True
    obtain ok2 s2 g where pa: "parse s1 (get m) = Some (ok2, s2, g)" "remaining s2 \<le> remaining s1"
      using assms(1) [of s1 "get m"] assms(2) le1 by auto
    obtain ok3 s3 where lv: "rt_leave_group rt n s2 = (ok3, s3)" by fastforce
    from leave_group_size [OF lv] True le1 en pa lv show ?thesis by (cases ok2) (auto simp: read_group_def)
  qed (use en le1 in \<open>auto simp: read_group_def\<close>)
qed

lemma if_returned_within:
  assumes "\<exists>ok s' m'. r = Some (ok, s', m') \<and> remaining s' \<le> n"
    and "\<And>x. remaining (fst (snd x)) \<le> n \<Longrightarrow> flow_within L n (f x)"
  shows "flow_within L n (if_returned r f)"
  using assms by (auto simp: if_returned_def)

lemma rr_read_returns:
  assumes "remaining s < fuel"
  shows "\<exists>ok s' m'. rr_read_general fuel rt s m = Some (ok, s', m') \<and> remaining s' \<le> remaining s"
    "\<exists>ok s' m'. rr_read_photo fuel rt s m = Some (ok, s', m') \<and> remaining s' \<le> remaining s"
    "\<exists>ok s' m'. rr_read_nav fuel rt s m = Some (ok, s', m') \<and> remaining s' \<le> remaining s"
    "\<exists>ok s' m'. rr_read_unidt fuel rt s m = Some (ok, s', m') \<and> remaining s' \<le> remaining s"
    "\<exists>ok s' m'. rr_read_candt fuel rt s m = Some (ok, s', m') \<and> remaining s' \<le> remaining s"
    "\<exists>ok s' m'. rr_read_llsdt fuel rt s m = Some (ok, s', m') \<and> remaining s' \<le> remaining s"
    "\<exists>ok s' m'. rr_read_log fuel rt s m = Some (ok, s', m') \<and> remaining s' \<le> remaining s"
  unfolding rr_read_general_def rr_read_photo_def rr_read_nav_def rr_read_unidt_def rr_read_candt_def rr_read_llsdt_def rr_read_log_def
  using assms by (blast intro: read_group_returns gen_parse_returns pho_parse_returns nav_parse_returns uni_parse_returns can_parse_returns lls_parse_returns log_parse_returns)+

lemma rr_label_within:
  "k \<in> rr_fields \<Longrightarrow> remaining s < fuel \<Longrightarrow> flow_within rr_fields (remaining s) (rr_label fuel rt k s m)"
  unfolding rr_label_def
  by (subst (asm) rr_fields_def)
    ((erule flow_within_chain,
      (intro within_intros if_returned_within rr_read_returns; (erule size_dests | assumption | simp add: rr_fields_def)))+; simp)

lemma rr_switch_within:
  "remaining s < fuel \<Longrightarrow> flow_within rr_fields (remaining s) (rr_switch fuel rt tag s m)"
  unfolding rr_switch_def Let_def
  by (intro flow_within_if rr_label_within handle_uninterpreted_within within_intros;
    (erule size_dests | assumption | simp add: rr_fields_def))

theorem rr_parse_returns:
  assumes "remaining s < fuel"
  shows "\<exists>ok s' m'. rr_parse fuel rt s m = Some (ok, s', m') \<and> remaining s' \<le> remaining s"
  unfolding rr_parse_def
  by (rule parse_loop_returns_below [where L = rr_fields and N = fuel])
    (use assms in \<open>simp_all add: rr_switch_within rr_label_within flow_within_simps\<close>)

end

context wire_format
begin

lemma rr_switch_label:
  assumes "k \<in> rr_fields"
  shows "rr_tag k \<noteq> 0 \<and> rr_switch fuel rt (rr_tag k) s m = rr_label fuel rt k s m"
proof
  show "rr_tag k \<noteq> 0" using rr_fields_range [OF assms] by (simp add: rr_tag_def make_tag_nonzero)
  have "rt_tag_field rt (rr_tag k) = k"
    "rt_tag_wire rt (rr_tag k) = (if k = 1 then WIRETYPE_LENGTH_DELIMITED else WIRETYPE_START_GROUP)"
    using rr_fields_range [OF assms] by (simp_all add: rr_tag_def tag_field tag_wire tag_field_make tag_wire_make)
  then show "rr_switch fuel rt (rr_tag k) s m = rr_label fuel rt k s m"
    using assms unfolding rr_switch_def rr_fields_def by (elim insertE emptyE) (simp_all add: Let_def del: One_nat_def)
qed

text \<open>A group is read back up to its end tag.\<close>

lemma read_group_written:
  assumes "n < 2 ^ 29"
    and "\<And>s1 x r. rem s1 = body @ stop_bytes (Some (make_tag n WIRETYPE_END_GROUP, r)) \<Longrightarrow>
      \<exists>s2. parse s1 x = Some (True, s2, upd x) \<and> stopped (Some (make_tag n WIRETYPE_END_GROUP, r)) s2"
    and "rem s = (body @ wr_tag wr (make_tag n WIRETYPE_END_GROUP)) @ rest"
  shows "\<exists>s'. read_group rt n parse get put s m = Some (True, s', put (upd (get m)) m) \<and> rem s' = rest"
proof -
  obtain s1 where s1: "rt_enter_group rt s = (True, s1)" "rem s1 = rem s" using enter_group_ok by blast
  then have "rem s1 = body @ stop_bytes (Some (make_tag n WIRETYPE_END_GROUP, rest))"
    using assms(3) by (simp add: stop_bytes_def)
  from assms(2) [OF this] obtain s2 where
    s2: "parse s1 (get m) = Some (True, s2, upd (get m))" "rem s2 = rest" "tag_was s2 (make_tag n WIRETYPE_END_GROUP)"
    by (fastforce simp: stopped_def)
  from leave_group_ok [OF s2(3)] obtain s3 where "rt_leave_group rt n s2 = (True, s3)" "rem s3 = rest"
    using s2(2) by auto
  with s1 s2 show ?thesis by (simp add: read_group_def)
qed

lemma reads_returned_expect:
  assumes "\<And>s m rest. rem s = bs @ rest \<Longrightarrow> \<exists>s'. rd s m = Some (True, s', upd m) \<and> rem s' = rest"
    and "k \<in> K" and "t = tag k"
  shows "reads K tag (\<lambda>s m. if_returned (rd s m) (then_expect rt t k)) bs upd"
proof -
  have *: "reads K tag (\<lambda>s m. then_expect rt t k (the (rd s m))) bs upd"
  proof (rule reads_expect)
    show "takes (\<lambda>s m. the (rd s m)) bs upd" by (rule takesI) (metis assms(1) option.sel)
  qed (rule assms(2), rule assms(3))
  show ?thesis unfolding reads_def
  proof (intro allI impI)
    fix s m rest assume s: "rem s = bs @ rest"
    from assms(1) [OF s, of m] obtain s' where "rd s m = Some (True, s', upd m)" by blast
    then show "after K tag rest (upd m) (if_returned (rd s m) (then_expect rt t k))"
      using * s by (simp add: reads_def if_returned_def) (metis option.sel)
  qed
qed

lemma reads_returned_end:
  assumes "\<And>s m rest. rem s = bs @ rest \<Longrightarrow> \<exists>s'. rd s m = Some (True, s', upd m) \<and> rem s' = rest"
  shows "reads K tag (\<lambda>s m. if_returned (rd s m) (then_end rt)) bs upd"
proof -
  have *: "reads K tag (\<lambda>s m. then_end rt (the (rd s m))) bs upd"
    by (rule reads_end) (rule takesI, metis assms(1) option.sel)
  show ?thesis unfolding reads_def
  proof (intro allI impI)
    fix s m rest assume s: "rem s = bs @ rest"
    from assms(1) [OF s, of m] obtain s' where "rd s m = Some (True, s', upd m)" by blast
    then show "after K tag rest (upd m) (if_returned (rd s m) (then_end rt))"
      using * s by (simp add: reads_def if_returned_def) (metis option.sel)
  qed
qed

lemma rr_reads_mid:
  assumes "packed_size wr vs < 2 ^ 31"
  shows "reads rr_fields rr_tag (rr_label fuel rt 1) (wr_varint32 wr (of_nat (packed_size wr vs)) @ concat (map (wr_uint32 wr) vs))
    (\<lambda>x. x\<lparr>rr_mid := rr_mid x @ vs\<rparr>)"
  by (simp add: rr_label_def [abs_def] del: One_nat_def)
    (rule reads_expect [OF takes_packed [OF assms]], simp, simp_all add: rr_fields_def rr_tag_def make_tag_def)

lemma rr_reads_general:
  assumes "gen_fits g" and "gen_unknown g = rt_unknown_empty rt" and "length (gen_serialize wr g) < fuel"
  shows "reads rr_fields rr_tag (rr_label fuel rt 2) (gen_serialize wr g @ wr_tag wr (make_tag 2 WIRETYPE_END_GROUP))
    (rr_put_general rt wr g)"
proof -
  have "reads rr_fields rr_tag (\<lambda>s m. if_returned (rr_read_general fuel rt s m) (then_expect rt 35 4))
      (gen_serialize wr g @ wr_tag wr (make_tag 2 WIRETYPE_END_GROUP)) (rr_put_general rt wr g)"
  proof (rule reads_returned_expect)
    fix s and m :: "'u recreg" and rest
    assume "rem s = (gen_serialize wr g @ wr_tag wr (make_tag 2 WIRETYPE_END_GROUP)) @ rest"
    note rest = this
    have group: "\<exists>s2. gen_parse fuel rt s1 x = Some (True, s2, fold item_upd (gen_items wr g) x)
        \<and> stopped (Some (make_tag 2 WIRETYPE_END_GROUP, r)) s2"
      if "rem s1 = gen_serialize wr g @ stop_bytes (Some (make_tag 2 WIRETYPE_END_GROUP, r))" for s1 x r
      by (rule gen_parse_from) (use assms that in \<open>simp_all add: group_stop_def tag_wire_make\<close>)
    show "\<exists>s'. rr_read_general fuel rt s m = Some (True, s', rr_put_general rt wr g m) \<and> rem s' = rest"
      unfolding rr_read_general_def rr_put_general_def Let_def
      by (rule read_group_written) (simp, erule group, rule rest)
  qed (simp_all add: rr_fields_def rr_tag_def make_tag_def)
  then show ?thesis by (simp add: rr_label_def [abs_def])
qed

lemma rr_reads_photo:
  assumes "pho_fits g" and "pho_unknown g = rt_unknown_empty rt" and "length (pho_serialize wr g) < fuel"
  shows "reads rr_fields rr_tag (rr_label fuel rt 4) (pho_serialize wr g @ wr_tag wr (make_tag 4 WIRETYPE_END_GROUP))
    (rr_put_photo rt wr g)"
proof -
  have "reads rr_fields rr_tag (\<lambda>s m. if_returned (rr_read_photo fuel rt s m) (then_expect rt 43 5))
      (pho_serialize wr g @ wr_tag wr (make_tag 4 WIRETYPE_END_GROUP)) (rr_put_photo rt wr g)"
  proof (rule reads_returned_expect)
    fix s and m :: "'u recreg" and rest
    assume "rem s = (pho_serialize wr g @ wr_tag wr (make_tag 4 WIRETYPE_END_GROUP)) @ rest"
    note rest = this
    have group: "\<exists>s2. pho_parse fuel rt s1 x = Some (True, s2, fold item_upd (pho_items wr g) x)
        \<and> stopped (Some (make_tag 4 WIRETYPE_END_GROUP, r)) s2"
      if "rem s1 = pho_serialize wr g @ stop_bytes (Some (make_tag 4 WIRETYPE_END_GROUP, r))" for s1 x r
      by (rule pho_parse_from) (use assms that in \<open>simp_all add: group_stop_def tag_wire_make\<close>)
    show "\<exists>s'. rr_read_photo fuel rt s m = Some (True, s', rr_put_photo rt wr g m) \<and> rem s' = rest"
      unfolding rr_read_photo_def rr_put_photo_def Let_def
      by (rule read_group_written) (simp, erule group, rule rest)
  qed (simp_all add: rr_fields_def rr_tag_def make_tag_def)
  then show ?thesis by (simp add: rr_label_def [abs_def])
qed

lemma rr_reads_nav:
  assumes "nav_unknown g = rt_unknown_empty rt" and "length (nav_serialize wr g) < fuel"
  shows "reads rr_fields rr_tag (rr_label fuel rt 5) (nav_serialize wr g @ wr_tag wr (make_tag 5 WIRETYPE_END_GROUP))
    (rr_put_nav rt wr g)"
proof -
  have "reads rr_fields rr_tag (\<lambda>s m. if_returned (rr_read_nav fuel rt s m) (then_expect rt 51 6))
      (nav_serialize wr g @ wr_tag wr (make_tag 5 WIRETYPE_END_GROUP)) (rr_put_nav rt wr g)"
  proof (rule reads_returned_expect)
    fix s and m :: "'u recreg" and rest
    assume "rem s = (nav_serialize wr g @ wr_tag wr (make_tag 5 WIRETYPE_END_GROUP)) @ rest"
    note rest = this
    have group: "\<exists>s2. nav_parse fuel rt s1 x = Some (True, s2, fold item_upd (nav_items wr g) x)
        \<and> stopped (Some (make_tag 5 WIRETYPE_END_GROUP, r)) s2"
      if "rem s1 = nav_serialize wr g @ stop_bytes (Some (make_tag 5 WIRETYPE_END_GROUP, r))" for s1 x r
      by (rule nav_parse_from) (use assms that in \<open>simp_all add: group_stop_def tag_wire_make\<close>)
    show "\<exists>s'. rr_read_nav fuel rt s m = Some (True, s', rr_put_nav rt wr g m) \<and> rem s' = rest"
      unfolding rr_read_nav_def rr_put_nav_def Let_def
      by (rule read_group_written) (simp, erule group, rule rest)
  qed (simp_all add: rr_fields_def rr_tag_def make_tag_def)
  then show ?thesis by (simp add: rr_label_def [abs_def])
qed

lemma rr_reads_unidt:
  assumes "uni_unknown g = rt_unknown_empty rt" and "length (uni_serialize wr g) < fuel"
  shows "reads rr_fields rr_tag (rr_label fuel rt 6) (uni_serialize wr g @ wr_tag wr (make_tag 6 WIRETYPE_END_GROUP))
    (rr_put_unidt rt wr g)"
proof -
  have "reads rr_fields rr_tag (\<lambda>s m. if_returned (rr_read_unidt fuel rt s m) (then_expect rt 59 7))
      (uni_serialize wr g @ wr_tag wr (make_tag 6 WIRETYPE_END_GROUP)) (rr_put_unidt rt wr g)"
  proof (rule reads_returned_expect)
    fix s and m :: "'u recreg" and rest
    assume "rem s = (uni_serialize wr g @ wr_tag wr (make_tag 6 WIRETYPE_END_GROUP)) @ rest"
    note rest = this
    have group: "\<exists>s2. uni_parse fuel rt s1 x = Some (True, s2, fold item_upd (uni_items wr g) x)
        \<and> stopped (Some (make_tag 6 WIRETYPE_END_GROUP, r)) s2"
      if "rem s1 = uni_serialize wr g @ stop_bytes (Some (make_tag 6 WIRETYPE_END_GROUP, r))" for s1 x r
      by (rule uni_parse_from) (use assms that in \<open>simp_all add: group_stop_def tag_wire_make\<close>)
    show "\<exists>s'. rr_read_unidt fuel rt s m = Some (True, s', rr_put_unidt rt wr g m) \<and> rem s' = rest"
      unfolding rr_read_unidt_def rr_put_unidt_def Let_def
      by (rule read_group_written) (simp, erule group, rule rest)
  qed (simp_all add: rr_fields_def rr_tag_def make_tag_def)
  then show ?thesis by (simp add: rr_label_def [abs_def])
qed

lemma rr_reads_candt:
  assumes "can_fits wr g" and "can_unknown g = rt_unknown_empty rt" and "length (can_serialize wr g) < fuel"
  shows "reads rr_fields rr_tag (rr_label fuel rt 7) (can_serialize wr g @ wr_tag wr (make_tag 7 WIRETYPE_END_GROUP))
    (rr_put_candt rt wr g)"
proof -
  have "reads rr_fields rr_tag (\<lambda>s m. if_returned (rr_read_candt fuel rt s m) (then_expect rt 67 8))
      (can_serialize wr g @ wr_tag wr (make_tag 7 WIRETYPE_END_GROUP)) (rr_put_candt rt wr g)"
  proof (rule reads_returned_expect)
    fix s and m :: "'u recreg" and rest
    assume "rem s = (can_serialize wr g @ wr_tag wr (make_tag 7 WIRETYPE_END_GROUP)) @ rest"
    note rest = this
    have group: "\<exists>s2. can_parse fuel rt s1 x = Some (True, s2, fold item_upd (can_items wr g) x)
        \<and> stopped (Some (make_tag 7 WIRETYPE_END_GROUP, r)) s2"
      if "rem s1 = can_serialize wr g @ stop_bytes (Some (make_tag 7 WIRETYPE_END_GROUP, r))" for s1 x r
      by (rule can_parse_from) (use assms that in \<open>simp_all add: group_stop_def tag_wire_make\<close>)
    show "\<exists>s'. rr_read_candt fuel rt s m = Some (True, s', rr_put_candt rt wr g m) \<and> rem s' = rest"
      unfolding rr_read_candt_def rr_put_candt_def Let_def
      by (rule read_group_written) (simp, erule group, rule rest)
  qed (simp_all add: rr_fields_def rr_tag_def make_tag_def)
  then show ?thesis by (simp add: rr_label_def [abs_def])
qed

lemma rr_reads_llsdt:
  assumes "lls_unknown g = rt_unknown_empty rt" and "length (lls_serialize wr g) < fuel"
  shows "reads rr_fields rr_tag (rr_label fuel rt 8) (lls_serialize wr g @ wr_tag wr (make_tag 8 WIRETYPE_END_GROUP))
    (rr_put_llsdt rt wr g)"
proof -
  have "reads rr_fields rr_tag (\<lambda>s m. if_returned (rr_read_llsdt fuel rt s m) (then_expect rt 131 16))
      (lls_serialize wr g @ wr_tag wr (make_tag 8 WIRETYPE_END_GROUP)) (rr_put_llsdt rt wr g)"
  proof (rule reads_returned_expect)
    fix s and m :: "'u recreg" and rest
    assume "rem s = (lls_serialize wr g @ wr_tag wr (make_tag 8 WIRETYPE_END_GROUP)) @ rest"
    note rest = this
    have group: "\<exists>s2. lls_parse fuel rt s1 x = Some (True, s2, fold item_upd (lls_items wr g) x)
        \<and> stopped (Some (make_tag 8 WIRETYPE_END_GROUP, r)) s2"
      if "rem s1 = lls_serialize wr g @ stop_bytes (Some (make_tag 8 WIRETYPE_END_GROUP, r))" for s1 x r
      by (rule lls_parse_from) (use assms that in \<open>simp_all add: group_stop_def tag_wire_make\<close>)
    show "\<exists>s'. rr_read_llsdt fuel rt s m = Some (True, s', rr_put_llsdt rt wr g m) \<and> rem s' = rest"
      unfolding rr_read_llsdt_def rr_put_llsdt_def Let_def
      by (rule read_group_written) (simp, erule group, rule rest)
  qed (simp_all add: rr_fields_def rr_tag_def make_tag_def)
  then show ?thesis by (simp add: rr_label_def [abs_def])
qed

lemma rr_reads_log:
  assumes "log_fits g" and "log_unknown g = rt_unknown_empty rt" and "length (log_serialize wr g) < fuel"
  shows "reads rr_fields rr_tag (rr_label fuel rt 16) (log_serialize wr g @ wr_tag wr (make_tag 16 WIRETYPE_END_GROUP))
    (rr_put_log rt wr g)"
proof -
  have "reads rr_fields rr_tag (\<lambda>s m. if_returned (rr_read_log fuel rt s m) (then_end rt))
      (log_serialize wr g @ wr_tag wr (make_tag 16 WIRETYPE_END_GROUP)) (rr_put_log rt wr g)"
  proof (rule reads_returned_end)
    fix s and m :: "'u recreg" and rest
    assume "rem s = (log_serialize wr g @ wr_tag wr (make_tag 16 WIRETYPE_END_GROUP)) @ rest"
    note rest = this
    have group: "\<exists>s2. log_parse fuel rt s1 x = Some (True, s2, fold item_upd (log_items wr g) x)
        \<and> stopped (Some (make_tag 16 WIRETYPE_END_GROUP, r)) s2"
      if "rem s1 = log_serialize wr g @ stop_bytes (Some (make_tag 16 WIRETYPE_END_GROUP, r))" for s1 x r
      by (rule log_parse_from) (use assms that in \<open>simp_all add: group_stop_def tag_wire_make\<close>)
    show "\<exists>s'. rr_read_log fuel rt s m = Some (True, s', rr_put_log rt wr g m) \<and> rem s' = rest"
      unfolding rr_read_log_def rr_put_log_def Let_def
      by (rule read_group_written) (simp, erule group, rule rest)
  qed
  then show ?thesis by (simp add: rr_label_def [abs_def])
qed

lemmas rr_reads = rr_reads_mid rr_reads_general rr_reads_photo rr_reads_nav rr_reads_unidt rr_reads_candt rr_reads_llsdt rr_reads_log

lemma rr_serialize_items:
  "rr_unknown m = rt_unknown_empty rt \<Longrightarrow> rr_serialize rt wr m = concat (map (item_bytes wr rr_tag) (rr_items rt wr m))"
  unfolding rr_serialize_def rr_items_def map_append concat_append concat_item write_group_def write_packed_def rr_tag_def
  by (simp add: wr_unknown_empty)

lemma rr_group_shorter:
  "rr_has_general m \<Longrightarrow> length (gen_serialize wr (rr_get_general rt m)) \<le> length (rr_serialize rt wr m)"
  "rr_has_photo m \<Longrightarrow> length (pho_serialize wr (rr_get_photo rt m)) \<le> length (rr_serialize rt wr m)"
  "rr_has_nav m \<Longrightarrow> length (nav_serialize wr (rr_get_nav rt m)) \<le> length (rr_serialize rt wr m)"
  "rr_has_unidt m \<Longrightarrow> length (uni_serialize wr (rr_get_unidt rt m)) \<le> length (rr_serialize rt wr m)"
  "rr_has_candt m \<Longrightarrow> length (can_serialize wr (rr_get_candt rt m)) \<le> length (rr_serialize rt wr m)"
  "rr_has_llsdt m \<Longrightarrow> length (lls_serialize wr (rr_get_llsdt rt m)) \<le> length (rr_serialize rt wr m)"
  "rr_has_log m \<Longrightarrow> length (log_serialize wr (rr_get_log rt m)) \<le> length (rr_serialize rt wr m)"
  by (simp_all add: rr_serialize_def write_group_def)

lemma rr_items_read:
  assumes "rr_fits wr m" and "rr_complete (rt_unknown_empty rt) m" and "length (rr_serialize rt wr m) < fuel"
  shows "\<forall>(k, bs, upd) \<in> set (rr_items rt wr m). k \<in> rr_fields \<and> reads rr_fields rr_tag (rr_label fuel rt k) bs upd"
proof -
  have general: "reads rr_fields rr_tag (rr_label fuel rt 2)
      (gen_serialize wr (rr_get_general rt m) @ wr_tag wr (make_tag 2 WIRETYPE_END_GROUP)) (rr_put_general rt wr (rr_get_general rt m))"
    if has: "rr_has_general m"
    by (rule rr_reads_general)
      (use assms rr_group_shorter(1) [OF has] has in
        \<open>auto simp: rr_fits_def rr_complete_def group_ok_def rr_get_general_def gen_complete_def split: option.splits\<close>)
  have photo: "reads rr_fields rr_tag (rr_label fuel rt 4)
      (pho_serialize wr (rr_get_photo rt m) @ wr_tag wr (make_tag 4 WIRETYPE_END_GROUP)) (rr_put_photo rt wr (rr_get_photo rt m))"
    if has: "rr_has_photo m"
    by (rule rr_reads_photo)
      (use assms rr_group_shorter(2) [OF has] has in
        \<open>auto simp: rr_fits_def rr_complete_def group_ok_def rr_get_photo_def pho_complete_def split: option.splits\<close>)
  have nav: "reads rr_fields rr_tag (rr_label fuel rt 5)
      (nav_serialize wr (rr_get_nav rt m) @ wr_tag wr (make_tag 5 WIRETYPE_END_GROUP)) (rr_put_nav rt wr (rr_get_nav rt m))"
    if has: "rr_has_nav m"
    by (rule rr_reads_nav)
      (use assms rr_group_shorter(3) [OF has] has in
        \<open>auto simp: rr_fits_def rr_complete_def group_ok_def rr_get_nav_def nav_complete_def split: option.splits\<close>)
  have unidt: "reads rr_fields rr_tag (rr_label fuel rt 6)
      (uni_serialize wr (rr_get_unidt rt m) @ wr_tag wr (make_tag 6 WIRETYPE_END_GROUP)) (rr_put_unidt rt wr (rr_get_unidt rt m))"
    if has: "rr_has_unidt m"
    by (rule rr_reads_unidt)
      (use assms rr_group_shorter(4) [OF has] has in
        \<open>auto simp: rr_fits_def rr_complete_def group_ok_def rr_get_unidt_def uni_complete_def split: option.splits\<close>)
  have candt: "reads rr_fields rr_tag (rr_label fuel rt 7)
      (can_serialize wr (rr_get_candt rt m) @ wr_tag wr (make_tag 7 WIRETYPE_END_GROUP)) (rr_put_candt rt wr (rr_get_candt rt m))"
    if has: "rr_has_candt m"
    by (rule rr_reads_candt)
      (use assms rr_group_shorter(5) [OF has] has in
        \<open>auto simp: rr_fits_def rr_complete_def group_ok_def rr_get_candt_def can_complete_def split: option.splits\<close>)
  have llsdt: "reads rr_fields rr_tag (rr_label fuel rt 8)
      (lls_serialize wr (rr_get_llsdt rt m) @ wr_tag wr (make_tag 8 WIRETYPE_END_GROUP)) (rr_put_llsdt rt wr (rr_get_llsdt rt m))"
    if has: "rr_has_llsdt m"
    by (rule rr_reads_llsdt)
      (use assms rr_group_shorter(6) [OF has] has in
        \<open>auto simp: rr_fits_def rr_complete_def group_ok_def rr_get_llsdt_def lls_complete_def split: option.splits\<close>)
  have log: "reads rr_fields rr_tag (rr_label fuel rt 16)
      (log_serialize wr (rr_get_log rt m) @ wr_tag wr (make_tag 16 WIRETYPE_END_GROUP)) (rr_put_log rt wr (rr_get_log rt m))"
    if has: "rr_has_log m"
    by (rule rr_reads_log)
      (use assms rr_group_shorter(7) [OF has] has in
        \<open>auto simp: rr_fits_def rr_complete_def group_ok_def rr_get_log_def log_complete_def split: option.splits\<close>)
  have mid: "packed_size wr (rr_mid m) < 2 ^ 31" using assms(1) by (simp add: rr_fits_def)
  show ?thesis unfolding rr_items_def
    by (simp add: ball_Un ball_item rr_reads_mid [OF mid] general photo nav unidt candt llsdt log del: One_nat_def)
      (simp add: rr_fields_def)
qed

theorem rr_parse_written:
  assumes "rr_fits wr m" and "rr_complete (rt_unknown_empty rt) m"
    and "rem s = rr_serialize rt wr m" and "length (rr_serialize rt wr m) < fuel"
  shows "\<exists>s'. rr_parse fuel rt s (rr_new (rt_unknown_empty rt)) = Some (True, s', m) \<and> rem s' = []"
proof -
  note read = rr_items_read [OF assms(1,2,4)]
  have ser: "rr_serialize rt wr m = concat (map (item_bytes wr rr_tag) (rr_items rt wr m))"
    using assms(2) by (intro rr_serialize_items) (simp add: rr_complete_def)
  have "rr_tag k \<noteq> 0" if "k \<in> rr_fields" for k using rr_switch_label [OF that] by blast
  from items_fewer_than_bytes [OF this read] assms(4) ser have fuel: "length (rr_items rt wr m) + 1 \<le> fuel" by simp
  have start: "after rr_fields rr_tag (concat (map (item_bytes wr rr_tag) (rr_items rt wr m)) @ stop_bytes None)
      (rr_new (rt_unknown_empty rt)) (Break s (rr_new (rt_unknown_empty rt)))"
    using assms(3) ser by (simp add: after_def stop_bytes_def)
  from parse_items [OF rr_switch_label rr_tag_inj _ read start fuel] show ?thesis
    by (simp add: rr_parse_def rr_items_new [OF assms(2)] stopped_def)
qed

lemma rr_size_1_length:
  "rr_size_1 rt wr m = length ((if rr_has_general m then write_group wr 2 (gen_serialize wr (rr_get_general rt m)) else []) @ (if rr_has_photo m then write_group wr 4 (pho_serialize wr (rr_get_photo rt m)) else []) @ (if rr_has_nav m then write_group wr 5 (nav_serialize wr (rr_get_nav rt m)) else []) @ (if rr_has_unidt m then write_group wr 6 (uni_serialize wr (rr_get_unidt rt m)) else []) @ (if rr_has_candt m then write_group wr 7 (can_serialize wr (rr_get_candt rt m)) else []) @ (if rr_has_llsdt m then write_group wr 8 (lls_serialize wr (rr_get_llsdt rt m)) else []) @ (if rr_has_log m then write_group wr 16 (log_serialize wr (rr_get_log rt m)) else []))"
proof (cases "group_guard (rr_has_bits m) 1")
  case True
  then show ?thesis
    by (simp add: rr_size_1_def write_group_def tag_size make_tag_def gen_byte_size_length pho_byte_size_length nav_byte_size_length uni_byte_size_length can_byte_size_length lls_byte_size_length log_byte_size_length)
next
  case False
  then show ?thesis by (simp add: rr_size_1_def has_bit_simps group_guard_off)
qed

theorem rr_byte_size_length: "rr_byte_size rt wr m = length (rr_serialize rt wr m)"
proof -
  have "packed_field_size wr 1 (rr_mid m) = length (write_packed wr 1 (rr_mid m))"
    by (rule packed_field_length) (simp add: tag_size make_tag_def)
  then show ?thesis by (simp add: rr_byte_size_def rr_serialize_def rr_size_1_length value_size(4))
qed

end

end
