(* ===== verification/Otime.thy ===== *)
theory Otime
  imports Prelude
begin

text \<open>
  \<^verbatim>\<open>otime_to_string\<close> of \<^verbatim>\<open>omnicomm/utils.cpp\<close>: seconds since 1 January 2009 as
  \<^verbatim>\<open>dd.mm.yyyy hh:mm:ss\<close>. \<^verbatim>\<open>gmtime\<close> of the C library is the Gregorian calendar in UTC without leap
  seconds, written here as the count of whole years and months since the epoch. A reader for the
  text is the reference: it gives the time back.
\<close>

section \<open>\<open>gmtime\<close>\<close>

record tm =
  tm_sec :: nat
  tm_min :: nat
  tm_hour :: nat
  tm_mday :: nat
  tm_mon :: nat
  tm_year :: nat

definition leap_year :: "nat \<Rightarrow> bool" where
  "leap_year y \<longleftrightarrow> y mod 4 = 0 \<and> (y mod 100 \<noteq> 0 \<or> y mod 400 = 0)"

definition year_days :: "nat \<Rightarrow> nat" where
  "year_days y = (if leap_year y then 366 else 365)"

definition month_lengths :: "nat \<Rightarrow> nat list" where
  "month_lengths y = [31, if leap_year y then 29 else 28, 31, 30, 31, 30, 31, 31, 30, 31, 30, 31]"

lemma year_days_bounds: "365 \<le> year_days y" "year_days y \<le> 366"
  by (simp_all add: year_days_def)

lemma sum_month_lengths: "sum_list (month_lengths y) = year_days y"
  by (simp add: month_lengths_def year_days_def)

text \<open>The year a day number falls in, counting from the first day of year \<open>y\<close>, and the day of that year.\<close>

function split_year :: "nat \<Rightarrow> nat \<Rightarrow> nat \<times> nat" where
  "split_year y d = (if d < year_days y then (y, d) else split_year (y + 1) (d - year_days y))"
  by pat_completeness auto
termination
proof (relation "measure snd")
  fix y d assume "\<not> d < year_days y"
  then show "((y + 1, d - year_days y), y, d) \<in> measure snd"
    using year_days_bounds [of y] by simp
qed simp

declare split_year.simps [simp del]

fun split_month :: "nat list \<Rightarrow> nat \<Rightarrow> nat \<Rightarrow> nat \<times> nat" where
  "split_month [] mon d = (mon, d)"
| "split_month (len # lens) mon d = (if d < len then (mon, d) else split_month lens (mon + 1) (d - len))"

definition gmtime :: "nat \<Rightarrow> tm" where
  "gmtime t =
     (let days = t div 86400; s = t mod 86400;
          (y, yday) = split_year 1970 days;
          (mon, mday) = split_month (month_lengths y) 0 yday
      in \<lparr>tm_sec = s mod 60, tm_min = s div 60 mod 60, tm_hour = s div 3600,
          tm_mday = mday + 1, tm_mon = mon, tm_year = y - 1900\<rparr>)"

section \<open>The text\<close>

definition omnicomm_time_base :: nat where
  "omnicomm_time_base = 1230768000"

text \<open>The argument is a \<^verbatim>\<open>size_t\<close>; the callers pass an \<^verbatim>\<open>unsigned\<close>, so the sum does not wrap.\<close>

definition otime_to_string :: "u64 \<Rightarrow> string" where
  "otime_to_string omnicomm_time =
     (let unix_time = unat (omnicomm_time + of_nat omnicomm_time_base);
          t = gmtime unix_time
      in pad0 2 (dec_nat (tm_mday t)) @ ''.'' @
         pad0 2 (dec_nat (tm_mon t + 1)) @ ''.'' @
         pad0 4 (dec_nat (1900 + tm_year t)) @ '' '' @
         pad0 2 (dec_nat (tm_hour t)) @ '':'' @
         pad0 2 (dec_nat (tm_min t)) @ '':'' @
         pad0 2 (dec_nat (tm_sec t)))"

section \<open>The calendar back to seconds\<close>

fun days_before_year :: "nat \<Rightarrow> nat \<Rightarrow> nat" where
  "days_before_year y 0 = 0"
| "days_before_year y (Suc n) = year_days y + days_before_year (y + 1) n"

definition seconds_of :: "tm \<Rightarrow> nat" where
  "seconds_of t =
     (days_before_year 1970 (1900 + tm_year t - 1970)
        + sum_list (take (tm_mon t) (month_lengths (1900 + tm_year t))) + (tm_mday t - 1)) * 86400
     + tm_hour t * 3600 + tm_min t * 60 + tm_sec t"

lemma split_year_sound:
  "split_year y d = (y', d') \<Longrightarrow> y \<le> y' \<and> d' < year_days y' \<and> days_before_year y (y' - y) + d' = d"
proof (induction y d rule: split_year.induct)
  case (1 y d)
  show ?case
  proof (cases "d < year_days y")
    case True
    with "1.prems" show ?thesis by (simp add: split_year.simps [of y d])
  next
    case False
    with "1.prems" have "split_year (y + 1) (d - year_days y) = (y', d')"
      by (simp add: split_year.simps [of y d])
    with "1.IH" False have IH: "y + 1 \<le> y' \<and> d' < year_days y'
        \<and> days_before_year (y + 1) (y' - (y + 1)) + d' = d - year_days y" by blast
    then have "y + 1 \<le> y'" by simp
    then have "y' - y = Suc (y' - (y + 1))" by arith
    with IH False show ?thesis by (auto simp: add.commute)
  qed
qed

lemma split_year_bound: "split_year y d = (y', d') \<Longrightarrow> y' \<le> y + d div 365"
proof (induction y d rule: split_year.induct)
  case (1 y d)
  show ?case
  proof (cases "d < year_days y")
    case True
    with "1.prems" show ?thesis by (simp add: split_year.simps [of y d])
  next
    case False
    with "1.prems" have "y' \<le> y + 1 + (d - year_days y) div 365"
      by (intro "1.IH") (simp_all add: split_year.simps [of y d])
    also have "(d - year_days y) div 365 \<le> (d - 365) div 365"
      using year_days_bounds [of y] by (intro div_le_mono) simp
    also have "y + 1 + (d - 365) div 365 = y + d div 365"
      using False year_days_bounds [of y] by (simp add: le_div_geq)
    finally show ?thesis by simp
  qed
qed

lemma split_month_sound:
  "d < sum_list lens \<Longrightarrow> split_month lens mon d = (mon', d') \<Longrightarrow>
     mon \<le> mon' \<and> mon' - mon < length lens \<and> d' < lens ! (mon' - mon)
     \<and> sum_list (take (mon' - mon) lens) + d' = d"
proof (induction lens mon d rule: split_month.induct)
  case (2 len lens mon d)
  show ?case
  proof (cases "d < len")
    case True
    with "2.prems" show ?thesis by simp
  next
    case False
    with 2 have IH: "mon + 1 \<le> mon' \<and> mon' - (mon + 1) < length lens \<and> d' < lens ! (mon' - (mon + 1))
        \<and> sum_list (take (mon' - (mon + 1)) lens) + d' = d - len"
      by auto
    then have "mon + 1 \<le> mon'" by simp
    then have "mon' - mon = Suc (mon' - (mon + 1))" by arith
    with IH False show ?thesis by auto
  qed
qed simp

lemma month_length_le: "i < 12 \<Longrightarrow> month_lengths y ! i \<le> 31"
  by (auto simp: month_lengths_def nth_Cons' less_Suc_eq numeral_eq_Suc)

text \<open>The fields of \<^verbatim>\<open>gmtime\<close> are in range and determine the time.\<close>

lemma gmtime_sound:
  assumes "gmtime t = r"
  shows "seconds_of r = t" "tm_sec r < 60" "tm_min r < 60" "tm_hour r < 24"
    "1 \<le> tm_mday r" "tm_mday r \<le> 31" "tm_mon r < 12" "70 \<le> tm_year r"
    "tm_year r \<le> 70 + t div 86400 div 365"
proof -
  obtain y yd where y: "split_year 1970 (t div 86400) = (y, yd)" by fastforce
  obtain mon d where m: "split_month (month_lengths y) 0 yd = (mon, d)" by fastforce
  note ys = split_year_sound [OF y]
  have "yd < sum_list (month_lengths y)" using ys by (simp add: sum_month_lengths)
  note ms = split_month_sound [OF this m]
  have mon: "mon < 12" using ms by (simp add: month_lengths_def)
  have r: "r = \<lparr>tm_sec = t mod 86400 mod 60, tm_min = t mod 86400 div 60 mod 60,
      tm_hour = t mod 86400 div 3600, tm_mday = d + 1, tm_mon = mon, tm_year = y - 1900\<rparr>"
    using assms by (simp add: gmtime_def Let_def y m)
  have hms: "s div 3600 * 3600 + s div 60 mod 60 * 60 + s mod 60 = s" for s :: nat
  proof -
    have "s div 3600 * 60 + s div 60 mod 60 = s div 60"
      using div_mult_mod_eq [of "s div 60" 60] by (simp flip: div_mult2_eq)
    then have "(s div 3600 * 60 + s div 60 mod 60) * 60 + s mod 60 = s"
      by (metis div_mult_mod_eq)
    then show ?thesis by (simp add: algebra_simps)
  qed
  have year: "1900 + (y - 1900) = y" using ys by simp
  have days: "days_before_year 1970 (y - 1970) + sum_list (take mon (month_lengths y)) + d = t div 86400"
    using ys ms by simp
  have "seconds_of r = (t div 86400) * 86400
      + (t mod 86400 div 3600 * 3600 + t mod 86400 div 60 mod 60 * 60 + t mod 86400 mod 60)"
    using days by (simp add: seconds_of_def r year)
  then show "seconds_of r = t" by (simp only: hms div_mult_mod_eq)
  show "tm_sec r < 60" "tm_min r < 60" "tm_hour r < 24" "1 \<le> tm_mday r" "tm_mon r < 12"
    using ys mon by (simp_all add: r less_mult_imp_div_less)
  have "1970 \<le> y" using ys by simp
  then show "70 \<le> tm_year r" by (simp add: r)
  show "tm_mday r \<le> 31"
    using ms mon month_length_le [of mon y] by (simp add: r)
  show "tm_year r \<le> 70 + t div 86400 div 365"
    using split_year_bound [OF y] by (simp add: r)
qed

section \<open>Reading the text\<close>

definition read_otime :: "string \<Rightarrow> nat" where
  "read_otime s =
     seconds_of \<lparr>tm_sec = read_nat 0 (take 2 (drop 17 s)), tm_min = read_nat 0 (take 2 (drop 14 s)),
       tm_hour = read_nat 0 (take 2 (drop 11 s)), tm_mday = read_nat 0 (take 2 s),
       tm_mon = read_nat 0 (take 2 (drop 3 s)) - 1, tm_year = read_nat 0 (take 4 (drop 6 s)) - 1900\<rparr>
     - omnicomm_time_base"

lemma read_pad0: "read_nat 0 (pad0 w (dec_nat n)) = n"
proof -
  have "read_nat 0 (replicate k (CHR ''0'') @ xs) = read_nat 0 xs" for k xs
    by (induction k) (simp_all add: undigit_def)
  then show ?thesis by (simp add: pad0_def read_dec_nat)
qed

lemma length_dec_nat: "n < 10 ^ Suc w \<Longrightarrow> length (dec_nat n) \<le> Suc w"
proof (induction w arbitrary: n)
  case 0
  then show ?case by (subst dec_nat.simps) simp
next
  case (Suc w)
  show ?case
  proof (cases "n < 10")
    case True
    then show ?thesis by (subst dec_nat.simps) simp
  next
    case False
    have "n div 10 < 10 ^ Suc w" using Suc.prems by (simp add: less_mult_imp_div_less)
    with False Suc.IH show ?thesis by (subst dec_nat.simps) simp
  qed
qed

lemma length_pad0: "0 < w \<Longrightarrow> n < 10 ^ w \<Longrightarrow> length (pad0 w (dec_nat n)) = w"
  using length_dec_nat [of n "w - 1"] by (simp add: pad0_def)

lemma length_pad2: "n < 100 \<Longrightarrow> length (pad0 2 (dec_nat n)) = 2"
  by (rule length_pad0) simp_all

lemma length_pad4: "n < 10000 \<Longrightarrow> length (pad0 4 (dec_nat n)) = 4"
  by (rule length_pad0) simp_all

lemma otime_unix: "unat (ucast (x :: u32) + of_nat omnicomm_time_base :: u64) = unat x + omnicomm_time_base"
proof -
  have "unat x < 2 ^ 32" using unsigned_less [of x] by (simp add: word_less_nat_alt)
  then have "unat x + omnicomm_time_base < 2 ^ 64" by (simp add: omnicomm_time_base_def)
  moreover have "(ucast x + of_nat omnicomm_time_base :: u64) = of_nat (unat x + omnicomm_time_base)"
    by simp
  ultimately show ?thesis by (simp only: unat_of_nat) (simp add: take_bit_nat_eq_self)
qed

lemma read_otime_to_string: "read_otime (otime_to_string (ucast (x :: u32))) = unat x"
proof -
  define u where "u = unat x + omnicomm_time_base"
  define t where "t = gmtime u"
  have "unat x < 2 ^ 32" using unsigned_less [of x] by (simp add: word_less_nat_alt)
  then have "u div 86400 div 365 \<le> 200" by (simp add: u_def omnicomm_time_base_def)
  note snd_t = gmtime_sound [OF t_def [symmetric]]
  have ranges: "tm_mday t < 100" "tm_mon t < 99" "1900 + tm_year t < 10000" "tm_hour t < 100"
      "tm_min t < 100" "tm_sec t < 100"
    using snd_t \<open>u div 86400 div 365 \<le> 200\<close> by linarith+
  have shown: "otime_to_string (ucast x) =
      pad0 2 (dec_nat (tm_mday t)) @ ''.'' @ pad0 2 (dec_nat (tm_mon t + 1)) @ ''.'' @
      pad0 4 (dec_nat (1900 + tm_year t)) @ '' '' @ pad0 2 (dec_nat (tm_hour t)) @ '':'' @
      pad0 2 (dec_nat (tm_min t)) @ '':'' @ pad0 2 (dec_nat (tm_sec t))"
    by (simp only: otime_to_string_def Let_def otime_unix t_def u_def)
  have "read_otime (otime_to_string (ucast x)) = seconds_of t - omnicomm_time_base"
    unfolding read_otime_def shown
    by (simp add: length_pad2 length_pad4 ranges read_pad0 seconds_of_def)
  then show ?thesis using snd_t(1) by (simp add: u_def)
qed

end
