(* ===== verification/Float_Text.thy ===== *)
theory Float_Text
  imports Prelude
begin

text \<open>
  The floating-point output of \<^verbatim>\<open>omnicomm/info_package.cpp\<close>: an integer field times a power of ten
  in \<^verbatim>\<open>float\<close> or \<^verbatim>\<open>double\<close>, printed with \<^verbatim>\<open>fixed << setprecision(d)\<close>. IEEE 754 arithmetic in
  round-to-nearest-even is exact integer arithmetic here: every value met is a natural number times
  a fixed power of two, far from overflow and from the subnormal range. The constants are the
  nearest binary numbers to the literals of the code, and the text is the correctly rounded decimal,
  as glibc prints it.
\<close>

section \<open>Rounding\<close>

text \<open>Division rounding to nearest, ties to even.\<close>

definition div_rne :: "nat \<Rightarrow> nat \<Rightarrow> nat" where
  "div_rne a b =
     (let q = a div b; r = a mod b
      in if 2 * r < b \<or> (2 * r = b \<and> even q) then q else q + 1)"

fun bit_length :: "nat \<Rightarrow> nat" where
  "bit_length n = (if n = 0 then 0 else Suc (bit_length (n div 2)))"

declare bit_length.simps [simp del]

text \<open>A natural number rounded to a significand of \<open>p\<close> bits.\<close>

definition round_sig :: "nat \<Rightarrow> nat \<Rightarrow> nat" where
  "round_sig p n =
     (if bit_length n \<le> p then n
      else (let ulp = 2 ^ (bit_length n - p) in div_rne n ulp * ulp))"

text \<open>The product of the integer \<open>n\<close>, converted to the format, with the constant \<open>man / 2 ^ sh\<close>.\<close>

definition fp_scale :: "nat \<Rightarrow> nat \<Rightarrow> nat \<Rightarrow> nat" where
  "fp_scale p man n = round_sig p (round_sig p n * man)"

text \<open>\<^verbatim>\<open>fixed << setprecision(d)\<close> of \<open>num / 2 ^ sh\<close>.\<close>

definition fixed_text :: "nat \<Rightarrow> nat \<Rightarrow> nat \<Rightarrow> string" where
  "fixed_text d num sh =
     (let q = div_rne (num * 10 ^ d) (2 ^ sh)
      in dec_nat (q div 10 ^ d) @ ''.'' @ pad0 d (dec_nat (q mod 10 ^ d)))"

text \<open>The literals \<open>1e-7f\<close>, \<open>1e-1f\<close> and \<open>1e-2\<close> as significand and binary exponent.\<close>

definition man_1e_7f :: nat where "man_1e_7f = 14073749"
definition exp_1e_7f :: nat where "exp_1e_7f = 47"
definition man_1e_1f :: nat where "man_1e_1f = 13421773"
definition exp_1e_1f :: nat where "exp_1e_1f = 27"
definition man_1e_2 :: nat where "man_1e_2 = 5764607523034235"
definition exp_1e_2 :: nat where "exp_1e_2 = 59"

text \<open>A signed field: the sign is printed when the value is negative, also when it rounds to zero.\<close>

definition signed_text :: "(nat \<Rightarrow> string) \<Rightarrow> u32 \<Rightarrow> string" where
  "signed_text f x = (if sint x < 0 then CHR ''-'' # f (nat (- sint x)) else f (nat (sint x)))"

definition text_1e_7f :: "u32 \<Rightarrow> string" where
  "text_1e_7f = signed_text (\<lambda>n. fixed_text 6 (fp_scale 24 man_1e_7f n) exp_1e_7f)"

definition text_1e_1f :: "nat \<Rightarrow> nat \<Rightarrow> string" where
  "text_1e_1f d n = fixed_text d (fp_scale 24 man_1e_1f n) exp_1e_1f"

definition text_1e_2 :: "u32 \<Rightarrow> string" where
  "text_1e_2 = signed_text (\<lambda>n. fixed_text 2 (fp_scale 53 man_1e_2 n) exp_1e_2)"

section \<open>Error of the rounding\<close>

lemma div_rne_error:
  assumes "0 < b"
  shows "2 * \<bar>int (div_rne a b) * int b - int a\<bar> \<le> int b"
proof -
  define q r where "q = a div b" and "r = a mod b"
  have a: "int a = int q * int b + int r"
    by (simp add: q_def r_def flip: of_nat_mult of_nat_add)
  have r: "r < b" using assms by (simp add: r_def)
  show ?thesis
  proof (cases "2 * r < b \<or> (2 * r = b \<and> even q)")
    case True
    then have "div_rne a b = q" by (simp add: div_rne_def Let_def q_def r_def)
    with True a show ?thesis by auto
  next
    case False
    then have "div_rne a b = q + 1" by (auto simp: div_rne_def Let_def q_def r_def)
    with False a r show ?thesis by (auto simp: algebra_simps)
  qed
qed

text \<open>A quotient whose numerator is within half the denominator of a multiple rounds to that multiple.\<close>

lemma div_rne_near:
  assumes "2 * \<bar>int a - int k * int b\<bar> < int b"
  shows "div_rne a b = k"
proof -
  have b: "0 < b" using assms by (cases b) auto
  have "2 * \<bar>int (div_rne a b) * int b - int k * int b\<bar> < 2 * int b"
  proof -
    have "2 * \<bar>x - z\<bar> < 2 * c" if "2 * \<bar>x - y\<bar> \<le> c" "2 * \<bar>y - z\<bar> < c" for x y z c :: int
      using that abs_triangle_ineq [of "x - y" "y - z"] by simp
    from this [OF div_rne_error [OF b] assms] show ?thesis .
  qed
  then have "2 * \<bar>(int (div_rne a b) - int k) * int b\<bar> < 2 * int b"
    by (simp only: left_diff_distrib)
  then have "\<bar>int (div_rne a b) - int k\<bar> * int b < 1 * int b"
    by (simp add: abs_mult)
  then have "\<bar>int (div_rne a b) - int k\<bar> < 1"
    by (rule mult_right_less_imp_less) simp
  then show ?thesis by simp
qed

lemma bit_length_less: "n < 2 ^ k \<Longrightarrow> bit_length n \<le> k"
proof (induction k arbitrary: n)
  case (Suc k)
  then have "n div 2 < 2 ^ k" by (simp add: less_mult_imp_div_less mult.commute)
  with Suc.IH show ?case by (subst bit_length.simps) simp
qed (simp add: bit_length.simps)

lemma round_sig_exact: "n < 2 ^ p \<Longrightarrow> round_sig p n = n"
  using bit_length_less [of n p] by (simp add: round_sig_def)

lemma round_sig_error:
  assumes "n < 2 ^ (p + k)"
  shows "2 * \<bar>int (round_sig p n) - int n\<bar> \<le> 2 ^ k"
proof (cases "bit_length n \<le> p")
  case False
  have "bit_length n - p \<le> k" using bit_length_less [OF assms] by simp
  then have "(2::int) ^ (bit_length n - p) \<le> 2 ^ k" by simp
  moreover have "2 * \<bar>int (round_sig p n) - int n\<bar> \<le> 2 ^ (bit_length n - p)"
    using div_rne_error [of "2 ^ (bit_length n - p)" n] False by (simp add: round_sig_def Let_def)
  ultimately show ?thesis by linarith
qed (simp add: round_sig_def)

section \<open>Decimal texts that are exact\<close>

text \<open>The exact decimal of \<open>n / 10 ^ d\<close>.\<close>

definition decimal_text :: "nat \<Rightarrow> nat \<Rightarrow> string" where
  "decimal_text d n = dec_nat (n div 10 ^ d) @ ''.'' @ pad0 d (dec_nat (n mod 10 ^ d))"

lemma fixed_text_near:
  assumes "2 * \<bar>int (num * 10 ^ d) - int k * 2 ^ sh\<bar> < 2 ^ sh"
  shows "fixed_text d num sh = decimal_text d k"
  using div_rne_near [of "num * 10 ^ d" k "2 ^ sh"] assms
  by (simp add: fixed_text_def decimal_text_def)

text \<open>Accelerations: \<open>sumacc * 1e-2\<close> in double precision prints the hundredths exactly.\<close>

lemma fixed_text_hundredths:
  assumes "n \<le> 2 ^ 31"
  shows "fixed_text 2 (fp_scale 53 man_1e_2 n) exp_1e_2 = decimal_text 2 n"
proof (rule fixed_text_near)
  have exact: "round_sig 53 n = n" by (rule round_sig_exact) (use assms in simp)
  define v where "v = n * man_1e_2"
  have "v < 2 ^ (53 + 31)" using assms by (simp add: v_def man_1e_2_def)
  from round_sig_error [OF this] have err: "2 * \<bar>int (round_sig 53 v) - int v\<bar> \<le> 2 ^ 31" .
  have "int v * 100 = int n * 2 ^ 59 + 12 * int n" by (simp add: v_def man_1e_2_def)
  with err assms have "2 * \<bar>int (round_sig 53 v) * 100 - int n * 2 ^ 59\<bar> < 2 ^ 59" by auto
  then show "2 * \<bar>int (fp_scale 53 man_1e_2 n * 10 ^ 2) - int n * 2 ^ exp_1e_2\<bar> < 2 ^ exp_1e_2"
    by (simp add: fp_scale_def exact v_def exp_1e_2_def)
qed

text \<open>Speeds and heights: \<open>n * 1e-1f\<close> in single precision prints the tenths of a 16-bit value exactly.\<close>

lemma fixed_text_tenths:
  assumes "n < 2 ^ 16" and "1 \<le> d" and "d \<le> 2"
  shows "text_1e_1f d n = decimal_text d (n * 10 ^ (d - 1))"
  unfolding text_1e_1f_def
proof (rule fixed_text_near)
  have exact: "round_sig 24 n = n" by (rule round_sig_exact) (use assms in simp)
  define v where "v = n * man_1e_1f"
  have "v < 2 ^ (24 + 16)" using assms by (simp add: v_def man_1e_1f_def)
  from round_sig_error [OF this] have err: "2 * \<bar>int (round_sig 24 v) - int v\<bar> \<le> 2 ^ 16" .
  have "int v * 10 = int n * 2 ^ 27 + 2 * int n" by (simp add: v_def man_1e_1f_def)
  with err assms(1) have "2 * \<bar>int (round_sig 24 v) * 10 - int n * 2 ^ 27\<bar> < 2 ^ 22" by auto
  moreover have "d = 1 \<or> d = 2" using assms by auto
  ultimately show "2 * \<bar>int (fp_scale 24 man_1e_1f n * 10 ^ d) - int (n * 10 ^ (d - 1)) * 2 ^ exp_1e_1f\<bar>
      < 2 ^ exp_1e_1f"
    by (auto simp: fp_scale_def exact v_def exp_1e_1f_def)
qed

section \<open>Coordinates\<close>

text \<open>
  A coordinate is a 32-bit integer of \<open>1e-7\<close> degrees, but \<open>float\<close> has 24 bits: the printed
  millionths of a degree can be off by 16. The bound holds for every coordinate up to 180 degrees.
\<close>

definition micro_degrees :: "nat \<Rightarrow> nat" where
  "micro_degrees n = div_rne (fp_scale 24 man_1e_7f n * 10 ^ 6) (2 ^ exp_1e_7f)"

lemma micro_degrees_text:
  "fixed_text 6 (fp_scale 24 man_1e_7f n) exp_1e_7f = decimal_text 6 (micro_degrees n)"
  by (simp add: fixed_text_def decimal_text_def micro_degrees_def Let_def)

lemma micro_degrees_error:
  assumes "n \<le> 1800000000"
  shows "\<bar>10 * int (micro_degrees n) - int n\<bar> \<le> 180"
proof -
  define c where "c = round_sig 24 n"
  define v where "v = c * man_1e_7f"
  define w where "w = round_sig 24 v"
  define m where "m = micro_degrees n"
  have "n < 2 ^ (24 + 7)" using assms by simp
  from round_sig_error [OF this] have e1: "2 * \<bar>int c - int n\<bar> \<le> 2 ^ 7" by (simp add: c_def)
  then have "c \<le> 1800000064" using assms by auto
  then have "v < 2 ^ (24 + 31)" by (simp add: v_def man_1e_7f_def)
  from round_sig_error [OF this] have e2: "2 * \<bar>int w - int v\<bar> \<le> 2 ^ 31" by (simp add: w_def)
  have m: "m = div_rne (w * 10 ^ 6) (2 ^ 47)"
    by (simp add: m_def micro_degrees_def fp_scale_def exp_1e_7f_def c_def v_def w_def)
  have e3: "2 * \<bar>int m * 2 ^ 47 - int w * 10 ^ 6\<bar> \<le> 2 ^ 47"
    using div_rne_error [of "2 ^ 47" "w * 10 ^ 6"] by (simp add: m)
  have v: "int v = int c * 14073749" by (simp add: v_def man_1e_7f_def)
  have "\<bar>10 * int m - int n\<bar> \<le> 180"
    using e1 e2 e3 v \<open>c \<le> 1800000064\<close> by simp
  then show ?thesis by (simp only: m_def)
qed

text \<open>The total acceleration is exact.\<close>

lemma hundredths_text: "text_1e_2 x = signed_text (decimal_text 2) x"
proof -
  have small: "nat \<bar>sint x\<bar> \<le> 2 ^ 31"
    using sint_range_size [of x] by (auto simp: word_size)
  show ?thesis
  proof (cases "sint x < 0")
    case True
    then have "nat (- sint x) \<le> 2 ^ 31" using small by simp
    with True show ?thesis by (simp add: text_1e_2_def signed_text_def fixed_text_hundredths)
  next
    case False
    then have "nat (sint x) \<le> 2 ^ 31" using small by simp
    with False show ?thesis by (simp add: text_1e_2_def signed_text_def fixed_text_hundredths)
  qed
qed

end
