(* ===== verification/String_Map.thy ===== *)
theory String_Map
  imports Prelude
begin

text \<open>
  \<^verbatim>\<open>std::map<std::string, std::string>\<close>: a list of pairs ordered by key, keys compared as
  \<^verbatim>\<open>std::string\<close> compares them (byte by byte, unsigned), and \<^verbatim>\<open>operator <<\<close> of
  \<^verbatim>\<open>info_package.cpp\<close>, which prints it as attributes. The laws of the map are a locale; the
  extraction functions only use those.
\<close>

type_synonym smap = "(string \<times> string) list"

lemma map_add_upd_before: "f(k \<mapsto> v) ++ map_of xs = f ++ map_of (xs @ [(k, v)])"
  by (rule ext) (simp add: map_add_def split: option.split)

section \<open>The interface\<close>

locale string_map =
  fixes empty :: 'm
    and put :: "string \<Rightarrow> string \<Rightarrow> 'm \<Rightarrow> 'm"
    and find :: "'m \<Rightarrow> string \<Rightarrow> string option"
    and invar :: "'m \<Rightarrow> bool"
  assumes find_empty: "find empty k = None"
    and find_put: "invar m \<Longrightarrow> find (put k v m) = (find m)(k \<mapsto> v)"
    and invar_empty: "invar empty"
    and invar_put: "invar m \<Longrightarrow> invar (put k v m)"
begin

lemma invar_puts: "invar m \<Longrightarrow> invar (foldl (\<lambda>m (k, v). put k v m) m kvs)"
  by (induction kvs arbitrary: m) (auto simp: invar_put split: prod.split)

lemma find_puts: "invar m \<Longrightarrow> find (foldl (\<lambda>m (k, v). put k v m) m kvs) = find m ++ map_of (rev kvs)"
proof (induction kvs arbitrary: m)
  case (Cons kv kvs)
  obtain k v where kv: "kv = (k, v)" by fastforce
  have "find (foldl (\<lambda>m (k, v). put k v m) (put k v m) kvs) = find (put k v m) ++ map_of (rev kvs)"
    by (rule Cons.IH [OF invar_put [OF Cons.prems]])
  then have "find (foldl (\<lambda>m (k, v). put k v m) (put k v m) kvs) = (find m)(k \<mapsto> v) ++ map_of (rev kvs)"
    by (simp only: find_put [OF Cons.prems])
  moreover have "(find m)(k \<mapsto> v) ++ map_of (rev kvs) = find m ++ map_of (rev kvs @ [(k, v)])"
    by (rule map_add_upd_before)
  ultimately show ?case by (simp only: kv foldl_Cons prod.case rev.simps)
qed simp

lemma untouched_key: "invar m \<Longrightarrow> k \<notin> fst ` set kvs \<Longrightarrow> find (foldl (\<lambda>m (k, v). put k v m) m kvs) k = find m k"
  by (simp add: find_puts map_add_def map_of_eq_None_iff [THEN iffD2] split: option.split)

end

section \<open>The ordered list\<close>

fun map_put :: "string \<Rightarrow> string \<Rightarrow> smap \<Rightarrow> smap" where
  "map_put k v [] = [(k, v)]"
| "map_put k v ((k', v') # rest) =
     (if k < k' then (k, v) # (k', v') # rest
      else if k = k' then (k, v) # rest
      else (k', v') # map_put k v rest)"

definition map_find :: "smap \<Rightarrow> string \<Rightarrow> string option" where
  "map_find = map_of"

definition map_sorted :: "smap \<Rightarrow> bool" where
  "map_sorted m \<longleftrightarrow> sorted_wrt (<) (map fst m)"

lemma set_map_put: "fst ` set (map_put k v m) = insert k (fst ` set m)"
  by (induction k v m rule: map_put.induct) auto

lemma map_sorted_put: "map_sorted m \<Longrightarrow> map_sorted (map_put k v m)"
  unfolding map_sorted_def
proof (induction k v m rule: map_put.induct)
  case (2 k v k' v' rest)
  then show ?case
    using set_map_put [of k v rest] by (auto simp: not_less_iff_gr_or_eq)
qed simp

lemma map_find_put: "map_sorted m \<Longrightarrow> map_find (map_put k v m) = (map_find m)(k \<mapsto> v)"
  unfolding map_sorted_def map_find_def
  by (induction k v m rule: map_put.induct) (auto simp: fun_eq_iff)

interpretation sm: string_map "[]" map_put map_find map_sorted
  by unfold_locales (simp_all add: map_find_put map_sorted_put, simp_all add: map_find_def map_sorted_def)

text \<open>\<^verbatim>\<open>if (c) data[k] = v;\<close>\<close>

definition put_if :: "bool \<Rightarrow> string \<Rightarrow> string \<Rightarrow> smap \<Rightarrow> smap" where
  "put_if c k v m = (if c then map_put k v m else m)"

lemma put_if_sorted [simp]: "map_sorted m \<Longrightarrow> map_sorted (put_if c k v m)"
  by (simp add: put_if_def map_sorted_put)

lemma map_put_sorted [simp]: "map_sorted m \<Longrightarrow> map_sorted (map_put k v m)"
  by (rule map_sorted_put)

lemma map_sorted_Nil [simp]: "map_sorted []"
  by (simp add: map_sorted_def)

named_theorems find_simps "lookups after writes"

lemma find_put_if [find_simps]:
  "map_sorted m \<Longrightarrow> map_find (put_if c k v m) k' = (if c \<and> k' = k then Some v else map_find m k')"
  by (simp add: put_if_def map_find_put)

lemma find_map_put [find_simps]:
  "map_sorted m \<Longrightarrow> map_find (map_put k v m) k' = (if k' = k then Some v else map_find m k')"
  by (simp add: map_find_put)

lemma find_Nil [find_simps]: "map_find [] k = None"
  by (simp add: map_find_def)

section \<open>Attributes\<close>

definition quote :: char where
  "quote = CHR 0x22"

definition attribute :: "string \<times> string \<Rightarrow> string" where
  "attribute kv = fst kv @ ''='' @ [quote] @ snd kv @ [quote]"

text \<open>\<^verbatim>\<open>operator <<\<close>: a space before every pair but the first.\<close>

fun render_rest :: "smap \<Rightarrow> string" where
  "render_rest [] = []"
| "render_rest (kv # rest) = '' '' @ attribute kv @ render_rest rest"

fun render :: "smap \<Rightarrow> string" where
  "render [] = []"
| "render (kv # rest) = attribute kv @ render_rest rest"

text \<open>A reader of attributes, the reference for \<open>render\<close>.\<close>

function read_attributes :: "string \<Rightarrow> smap" where
  "read_attributes s =
     (case dropWhile (\<lambda>c. c \<noteq> CHR ''='') s of
        _ # _ # rest \<Rightarrow>
          (takeWhile (\<lambda>c. c \<noteq> CHR ''='') s, takeWhile (\<lambda>c. c \<noteq> quote) rest)
            # (case dropWhile (\<lambda>c. c \<noteq> quote) rest of
                 _ # _ # more \<Rightarrow> read_attributes more
               | _ \<Rightarrow> [])
      | _ \<Rightarrow> [])"
  by pat_completeness auto
termination
proof (relation "measure length")
  fix s :: string and a rest' b rest c more' d more
  assume "dropWhile (\<lambda>c. c \<noteq> CHR ''='') s = a # rest'" and "rest' = b # rest"
    and "dropWhile (\<lambda>c. c \<noteq> quote) rest = c # more'" and "more' = d # more"
  then show "(more, s) \<in> measure length"
    using dropWhile_length_le [of "\<lambda>c. c \<noteq> CHR ''=''" s] dropWhile_length_le [of "\<lambda>c. c \<noteq> quote" rest]
    by simp
qed simp

declare read_attributes.simps [simp del]

definition plain_pair :: "string \<times> string \<Rightarrow> bool" where
  "plain_pair kv \<longleftrightarrow> CHR ''='' \<notin> set (fst kv) \<and> quote \<notin> set (snd kv)"

lemma takeWhile_until: "c \<notin> set xs \<Longrightarrow> takeWhile (\<lambda>x. x \<noteq> c) (xs @ c # ys) = xs"
  by (induction xs) auto

lemma dropWhile_until: "c \<notin> set xs \<Longrightarrow> dropWhile (\<lambda>x. x \<noteq> c) (xs @ c # ys) = c # ys"
  by (induction xs) auto

lemma read_last_attribute: "plain_pair kv \<Longrightarrow> read_attributes (attribute kv) = [kv]"
  by (subst read_attributes.simps)
    (simp add: attribute_def plain_pair_def takeWhile_until dropWhile_until)

lemma read_one_attribute:
  "plain_pair kv \<Longrightarrow> read_attributes (attribute kv @ c # more) = kv # read_attributes more"
  by (subst read_attributes.simps)
    (simp add: attribute_def plain_pair_def takeWhile_until dropWhile_until)

lemma read_render: "list_all plain_pair m \<Longrightarrow> read_attributes (render m) = m"
proof (induction m)
  case Nil
  then show ?case by (simp add: read_attributes.simps)
next
  case (Cons kv rest)
  then show ?case
    by (cases rest) (simp_all add: read_one_attribute read_last_attribute)
qed

end
