(* ===== verification/Info_Extract.thy ===== *)
theory Info_Extract
  imports Pb_RecReg Otime Float_Text String_Map
begin

text \<open>
  The extraction functions of \<^verbatim>\<open>omnicomm/info_package.cpp\<close>: from a parsed \<^verbatim>\<open>RecReg\<close> to the
  ordered map of attribute texts. The file has them twice, as free functions (\<open>extract_message\<close>, the ones
  the protocol uses) and as members of \<^verbatim>\<open>info_protocol_t\<close> (\<open>ip_extract_message\<close>); both are here, with
  the lemmas that relate the copies. \<^verbatim>\<open>str << x\<close> is \<open>dec_u32\<close> or \<open>dec_i32\<close> by the type of the
  accessor; a group that is not set is read through its default instance.
\<close>

text \<open>A one-bit field of \<^verbatim>\<open>reg_flags\<close>, printed as an unsigned number.\<close>

definition flag_text :: "u32 \<Rightarrow> nat \<Rightarrow> string" where
  "flag_text flg n = dec_u32 (of_bool (bit flg n))"

section \<open>The free functions\<close>

definition extract_general :: "'u general \<Rightarrow> smap \<Rightarrow> smap" where
  "extract_general message data =
     (let data = put_if (gen_has_time message) ''time'' (otime_to_string (ucast (gen_time message))) data;
          data = put_if (gen_has_idfas message) ''controller_id'' (dec_u32 (gen_idfas message)) data;
          data = put_if (gen_has_flg message) ''ignition'' (flag_text (gen_flg message) 0) data;
          data = put_if (gen_has_flg message) ''gsm_status'' (flag_text (gen_flg message) 1) data;
          data = put_if (gen_has_flg message) ''gps_status'' (flag_text (gen_flg message) 2) data;
          data = put_if (gen_has_flg message) ''roaming'' (flag_text (gen_flg message) 3) data;
          data = put_if (gen_has_flg message) ''power_status'' (flag_text (gen_flg message) 4) data;
          data = put_if (gen_has_flg message) ''alarm'' (flag_text (gen_flg message) 5) data;
          data = put_if (gen_has_flg message) ''open_case'' (flag_text (gen_flg message) 6) data;
          data = put_if (gen_has_flg message) ''discrete_input'' (flag_text (gen_flg message) 7) data;
          data = put_if (gen_has_flg message) ''flags'' (dec_u32 (gen_flg message)) data;
          data = put_if (gen_has_mileage message) ''mileage'' (dec_u32 (gen_mileage message)) data;
          data = put_if (gen_has_vimp message) ''speed_by_sensor'' (dec_u32 (gen_vimp message)) data;
          data = put_if (gen_has_timp message) ''engine_speed'' (dec_u32 (gen_timp message)) data;
          data = put_if (gen_has_uboard message) ''power_main'' (dec_u32 (gen_uboard message * 100)) data;
          data = put_if (gen_has_batlife message) ''battery_level'' (dec_u32 (gen_batlife message)) data;
          data = put_if (gen_has_sumacc message) ''a_total'' (text_1e_2 (gen_sumacc message)) data;
          data = put_if (gen_has_phone message) ''phone'' (gen_phone message) data;
          data = put_if (gen_has_amtrx message) ''a_x'' (dec_i32 (gen_amtrx message)) data;
          data = put_if (gen_has_amtry message) ''a_y'' (dec_i32 (gen_amtry message)) data;
          data = put_if (gen_has_amtrz message) ''a_z'' (dec_i32 (gen_amtrz message)) data
      in data)"

definition extract_nav :: "'u nav \<Rightarrow> smap \<Rightarrow> smap" where
  "extract_nav message data =
     (let data = map_put ''lat'' (text_1e_7f (nav_lat message)) data;
          data = map_put ''lon'' (text_1e_7f (nav_lon message)) data;
          data = map_put ''speed_by_gps'' (text_1e_1f 1 (unat (nav_gpsvel message))) data;
          data = map_put ''course'' (dec_i32 (nav_gpsdir message)) data;
          data = map_put ''satellites'' (dec_u32 (nav_gpsnsat message)) data;
          data = map_put ''altitude'' (signed_text (text_1e_1f 2) (nav_gpsalt message)) data
      in data)"

definition extract_unidt :: "'u unidt \<Rightarrow> smap \<Rightarrow> smap" where
  "extract_unidt message data =
     (let data = put_if (uni_has_unival0 message) ''univ0'' (dec_i32 (uni_unival0 message)) data;
          data = put_if (uni_has_unival1 message) ''univ1'' (dec_i32 (uni_unival1 message)) data;
          data = put_if (uni_has_unival2 message) ''univ2'' (dec_i32 (uni_unival2 message)) data;
          data = put_if (uni_has_unival3 message) ''univ3'' (dec_i32 (uni_unival3 message)) data
      in data)"

definition extract_candt :: "'u candt \<Rightarrow> smap \<Rightarrow> smap" where
  "extract_candt message data = data"

definition extract_llsdt :: "'u llsdt \<Rightarrow> smap \<Rightarrow> smap" where
  "extract_llsdt message data =
     (let data = put_if (lls_has_clls1 message) ''lls1_value'' (dec_u32 (lls_clls1 message)) data;
          data = put_if (lls_has_tlls1 message) ''lls1_temp'' (dec_i32 (lls_tlls1 message)) data;
          data = put_if (lls_has_flls1 message) ''lls1_flags'' (dec_i32 (lls_flls1 message)) data;
          data = put_if (lls_has_clls2 message) ''lls2_value'' (dec_u32 (lls_clls2 message)) data;
          data = put_if (lls_has_tlls2 message) ''lls2_temp'' (dec_i32 (lls_tlls2 message)) data;
          data = put_if (lls_has_flls2 message) ''lls2_flags'' (dec_i32 (lls_flls2 message)) data;
          data = put_if (lls_has_clls3 message) ''lls3_value'' (dec_u32 (lls_clls3 message)) data;
          data = put_if (lls_has_tlls3 message) ''lls3_temp'' (dec_i32 (lls_tlls3 message)) data;
          data = put_if (lls_has_flls3 message) ''lls3_flags'' (dec_i32 (lls_flls3 message)) data;
          data = put_if (lls_has_clls4 message) ''lls4_value'' (dec_u32 (lls_clls4 message)) data;
          data = put_if (lls_has_tlls4 message) ''lls4_temp'' (dec_i32 (lls_tlls4 message)) data;
          data = put_if (lls_has_flls4 message) ''lls4_flags'' (dec_i32 (lls_flls4 message)) data;
          data = put_if (lls_has_clls5 message) ''lls5_value'' (dec_u32 (lls_clls5 message)) data;
          data = put_if (lls_has_tlls5 message) ''lls5_temp'' (dec_i32 (lls_tlls5 message)) data;
          data = put_if (lls_has_flls5 message) ''lls5_flags'' (dec_i32 (lls_flls5 message)) data;
          data = put_if (lls_has_clls6 message) ''lls6_value'' (dec_u32 (lls_clls6 message)) data;
          data = put_if (lls_has_tlls6 message) ''lls6_temp'' (dec_i32 (lls_tlls6 message)) data;
          data = put_if (lls_has_flls6 message) ''lls6_flags'' (dec_u32 (lls_flls6 message)) data
      in data)"

definition extract_log :: "'u log \<Rightarrow> smap \<Rightarrow> smap" where
  "extract_log message data = data"

definition extract_message :: "('s, 'u) runtime \<Rightarrow> u32 \<Rightarrow> 'u recreg \<Rightarrow> smap \<Rightarrow> smap" where
  "extract_message rt message_id message data =
     (let data = map_put ''message_type'' (dec_u32 message_id) data;
          data = (if rr_has_general message then extract_general (rr_get_general rt message) data else data);
          data = (if rr_has_nav message then extract_nav (rr_get_nav rt message) data else data);
          data = (if rr_has_unidt message then extract_unidt (rr_get_unidt rt message) data else data);
          data = (if rr_has_llsdt message then extract_llsdt (rr_get_llsdt rt message) data else data);
          data = (if rr_has_candt message then extract_candt (rr_get_candt rt message) data else data);
          data = (if rr_has_log message then extract_log (rr_get_log rt message) data else data)
      in data)"

section \<open>The members of \<^verbatim>\<open>info_protocol_t\<close>\<close>

record info_protocol =
  ip_controller_id :: u32
  ip_firmware_version :: u32

text \<open>
  The constructor sets neither member; they hold what was in the memory, the arguments, until
  \<^verbatim>\<open>controller_ident\<close> has run. The overloads for photos and logs have no map to add to and do nothing.
\<close>

definition info_protocol_new :: "u32 \<Rightarrow> u32 \<Rightarrow> info_protocol" where
  "info_protocol_new held_id held_version = \<lparr>ip_controller_id = held_id, ip_firmware_version = held_version\<rparr>"

definition ip_extract_photo :: "'u photo \<Rightarrow> info_protocol \<Rightarrow> info_protocol" where
  "ip_extract_photo message self = self"

definition ip_extract_log :: "'u log \<Rightarrow> info_protocol \<Rightarrow> info_protocol" where
  "ip_extract_log message self = self"

definition ip_extract_general :: "'u general \<Rightarrow> smap \<Rightarrow> smap" where
  "ip_extract_general message data =
     (let data = put_if (gen_has_time message) ''time'' (otime_to_string (ucast (gen_time message))) data;
          data = put_if (gen_has_idfas message) ''controller_id'' (dec_u32 (gen_idfas message)) data;
          data = put_if (gen_has_flg message) ''ignition'' (flag_text (gen_flg message) 0) data;
          data = put_if (gen_has_flg message) ''gsm_status'' (flag_text (gen_flg message) 1) data;
          data = put_if (gen_has_flg message) ''gps_status'' (flag_text (gen_flg message) 2) data;
          data = put_if (gen_has_flg message) ''roaming'' (flag_text (gen_flg message) 3) data;
          data = put_if (gen_has_flg message) ''power_status'' (flag_text (gen_flg message) 4) data;
          data = put_if (gen_has_flg message) ''alarm'' (flag_text (gen_flg message) 5) data;
          data = put_if (gen_has_flg message) ''open_case'' (flag_text (gen_flg message) 6) data;
          data = put_if (gen_has_flg message) ''discrete_input'' (flag_text (gen_flg message) 7) data;
          data = put_if (gen_has_flg message) ''flags'' (dec_u32 (gen_flg message)) data;
          data = put_if (gen_has_mileage message) ''mileage'' (dec_u32 (gen_mileage message)) data;
          data = put_if (gen_has_vimp message) ''speed_by_sensor'' (dec_u32 (gen_vimp message)) data;
          data = put_if (gen_has_timp message) ''engine_speed'' (dec_u32 (gen_timp message)) data;
          data = put_if (gen_has_uboard message) ''power_main'' (dec_u32 (gen_uboard message * 100)) data;
          data = put_if (gen_has_batlife message) ''battery_level'' (dec_u32 (gen_batlife message)) data;
          data = put_if (gen_has_sumacc message) ''a_total'' (text_1e_2 (gen_sumacc message)) data;
          data = put_if (gen_has_phone message) ''phone'' (gen_phone message) data;
          data = put_if (gen_has_amtrx message) ''a_x'' (dec_i32 (gen_amtrx message)) data;
          data = put_if (gen_has_amtry message) ''a_y'' (dec_i32 (gen_amtry message)) data;
          data = put_if (gen_has_amtrz message) ''a_z'' (dec_i32 (gen_amtrz message)) data
      in data)"

definition ip_extract_nav :: "'u nav \<Rightarrow> smap \<Rightarrow> smap" where
  "ip_extract_nav message data =
     (let data = map_put ''lat'' (text_1e_7f (nav_lat message)) data;
          data = map_put ''lon'' (text_1e_7f (nav_lon message)) data;
          data = map_put ''speed_by_gps'' (text_1e_1f 1 (unat (nav_gpsvel message))) data;
          data = map_put ''course'' (dec_u32 (nav_gpsdir message)) data;
          data = map_put ''satellites'' (dec_u32 (nav_gpsnsat message)) data;
          data = map_put ''altitude'' (signed_text (text_1e_1f 2) (nav_gpsalt message)) data
      in data)"

definition ip_extract_unidt :: "'u unidt \<Rightarrow> smap \<Rightarrow> smap" where
  "ip_extract_unidt message data =
     (let data = put_if (uni_has_unival0 message) ''univ0'' (dec_i32 (uni_unival0 message)) data;
          data = put_if (uni_has_unival1 message) ''univ1'' (dec_i32 (uni_unival1 message)) data;
          data = put_if (uni_has_unival2 message) ''univ2'' (dec_i32 (uni_unival2 message)) data;
          data = put_if (uni_has_unival3 message) ''univ3'' (dec_i32 (uni_unival3 message)) data
      in data)"

definition ip_extract_candt :: "'u candt \<Rightarrow> smap \<Rightarrow> smap" where
  "ip_extract_candt message data = data"

definition ip_extract_llsdt :: "'u llsdt \<Rightarrow> smap \<Rightarrow> smap" where
  "ip_extract_llsdt message data =
     (let data = put_if (lls_has_clls1 message) ''lls1_value'' (dec_u32 (lls_clls1 message)) data;
          data = put_if (lls_has_tlls1 message) ''lls1_temp'' (dec_i32 (lls_tlls1 message)) data;
          data = put_if (lls_has_flls1 message) ''lls1_flags'' (dec_i32 (lls_flls1 message)) data;
          data = put_if (lls_has_clls2 message) ''lls2_value'' (dec_u32 (lls_clls2 message)) data;
          data = put_if (lls_has_tlls2 message) ''lls2_temp'' (dec_i32 (lls_tlls2 message)) data;
          data = put_if (lls_has_flls2 message) ''lls2_flags'' (dec_i32 (lls_flls2 message)) data;
          data = put_if (lls_has_clls3 message) ''lls3_value'' (dec_u32 (lls_clls3 message)) data;
          data = put_if (lls_has_tlls3 message) ''lls3_temp'' (dec_i32 (lls_tlls3 message)) data;
          data = put_if (lls_has_flls3 message) ''lls3_flags'' (dec_i32 (lls_flls3 message)) data;
          data = put_if (lls_has_clls4 message) ''lls4_value'' (dec_u32 (lls_clls4 message)) data;
          data = put_if (lls_has_tlls4 message) ''lls4_temp'' (dec_i32 (lls_tlls4 message)) data;
          data = put_if (lls_has_flls4 message) ''lls4_flags'' (dec_i32 (lls_flls4 message)) data;
          data = put_if (lls_has_clls5 message) ''lls5_value'' (dec_u32 (lls_clls5 message)) data;
          data = put_if (lls_has_tlls5 message) ''lls5_temp'' (dec_i32 (lls_tlls5 message)) data;
          data = put_if (lls_has_flls5 message) ''lls5_flags'' (dec_i32 (lls_flls5 message)) data;
          data = put_if (lls_has_clls6 message) ''lls6_value'' (dec_u32 (lls_clls6 message)) data;
          data = put_if (lls_has_tlls6 message) ''lls6_temp'' (dec_i32 (lls_tlls6 message)) data;
          data = put_if (lls_has_flls6 message) ''lls6_flags'' (dec_u32 (lls_flls6 message)) data
      in data)"

definition ip_extract_message :: "info_protocol \<Rightarrow> ('s, 'u) runtime \<Rightarrow> u32 \<Rightarrow> 'u recreg \<Rightarrow> smap \<Rightarrow> smap" where
  "ip_extract_message self rt message_id message data =
     (let data = map_put ''message_id'' (dec_u32 message_id) data;
          data = map_put ''controller_id'' (dec_u32 (ip_controller_id self)) data;
          data = map_put ''firmware'' (dec_u32 (ip_firmware_version self)) data;
          data = (if rr_has_general message then ip_extract_general (rr_get_general rt message) data else data);
          data = (if rr_has_nav message then ip_extract_nav (rr_get_nav rt message) data else data);
          data = (if rr_has_unidt message then ip_extract_unidt (rr_get_unidt rt message) data else data);
          data = (if rr_has_llsdt message then ip_extract_llsdt (rr_get_llsdt rt message) data else data);
          data = (if rr_has_candt message then ip_extract_candt (rr_get_candt rt message) data else data)
      in data)"

section \<open>Order and lookups\<close>

lemmas extract_defs =
  extract_general_def extract_nav_def extract_unidt_def extract_candt_def extract_llsdt_def extract_log_def

lemma extract_general_sorted [simp]: "map_sorted data \<Longrightarrow> map_sorted (extract_general message data)"
  by (simp add: extract_general_def)

lemma extract_nav_sorted [simp]: "map_sorted data \<Longrightarrow> map_sorted (extract_nav message data)"
  by (simp add: extract_nav_def)

lemma extract_unidt_sorted [simp]: "map_sorted data \<Longrightarrow> map_sorted (extract_unidt message data)"
  by (simp add: extract_unidt_def)

lemma extract_llsdt_sorted [simp]: "map_sorted data \<Longrightarrow> map_sorted (extract_llsdt message data)"
  by (simp add: extract_llsdt_def)

lemma extract_message_sorted: "map_sorted data \<Longrightarrow> map_sorted (extract_message rt message_id message data)"
  by (simp add: extract_message_def Let_def extract_candt_def extract_log_def)

definition general_keys :: "string set" where
  "general_keys = {''time'', ''controller_id'', ''ignition'', ''gsm_status'', ''gps_status'', ''roaming'',
     ''power_status'', ''alarm'', ''open_case'', ''discrete_input'', ''flags'', ''mileage'',
     ''speed_by_sensor'', ''engine_speed'', ''power_main'', ''battery_level'', ''a_total'', ''phone'',
     ''a_x'', ''a_y'', ''a_z''}"

definition nav_keys :: "string set" where
  "nav_keys = {''lat'', ''lon'', ''speed_by_gps'', ''course'', ''satellites'', ''altitude''}"

definition unidt_keys :: "string set" where
  "unidt_keys = {''univ0'', ''univ1'', ''univ2'', ''univ3''}"

definition llsdt_keys :: "string set" where
  "llsdt_keys = {''lls1_value'', ''lls1_temp'', ''lls1_flags'', ''lls2_value'', ''lls2_temp'', ''lls2_flags'',
     ''lls3_value'', ''lls3_temp'', ''lls3_flags'', ''lls4_value'', ''lls4_temp'', ''lls4_flags'',
     ''lls5_value'', ''lls5_temp'', ''lls5_flags'', ''lls6_value'', ''lls6_temp'', ''lls6_flags''}"

lemma extract_general_other [find_simps]:
  "map_sorted data \<Longrightarrow> k \<notin> general_keys \<Longrightarrow> map_find (extract_general message data) k = map_find data k"
  by (simp add: extract_general_def general_keys_def find_simps)

lemma extract_nav_other [find_simps]:
  "map_sorted data \<Longrightarrow> k \<notin> nav_keys \<Longrightarrow> map_find (extract_nav message data) k = map_find data k"
  by (simp add: extract_nav_def nav_keys_def find_simps)

lemma extract_unidt_other [find_simps]:
  "map_sorted data \<Longrightarrow> k \<notin> unidt_keys \<Longrightarrow> map_find (extract_unidt message data) k = map_find data k"
  by (simp add: extract_unidt_def unidt_keys_def find_simps)

lemma extract_llsdt_other [find_simps]:
  "map_sorted data \<Longrightarrow> k \<notin> llsdt_keys \<Longrightarrow> map_find (extract_llsdt message data) k = map_find data k"
  by (simp add: extract_llsdt_def llsdt_keys_def find_simps)

section \<open>The two copies\<close>

lemma ip_extract_general_eq: "ip_extract_general = extract_general"
  by (simp add: fun_eq_iff ip_extract_general_def extract_general_def)

lemma ip_extract_unidt_eq: "ip_extract_unidt = extract_unidt"
  by (simp add: fun_eq_iff ip_extract_unidt_def extract_unidt_def)

lemma ip_extract_llsdt_eq: "ip_extract_llsdt = extract_llsdt"
  by (simp add: fun_eq_iff ip_extract_llsdt_def extract_llsdt_def)

lemma ip_extract_nav_eq: "unat (nav_gpsdir message) < 2 ^ 31 \<Longrightarrow> ip_extract_nav message = extract_nav message"
  by (simp add: fun_eq_iff ip_extract_nav_def extract_nav_def dec_i32_small)

end
