(* ===== verification/Crc16.thy ===== *)
theory Crc16
  imports Prelude
begin

text \<open>
  The checksum of \<^verbatim>\<open>omnicomm/utils.cpp\<close>: a table-driven CRC-16 with the polynomial 0x1021
  and the initial value 0xFFFF. The table is the code's, entry by entry. The reference is the
  bit-serial shift register; the table-driven routine is proved equal to it, and from the
  register's injectivity comes the error detection the transport protocol relies on.
\<close>

definition crc_table :: "u16 list" where
  "crc_table = [0x0000, 0x1021, 0x2042, 0x3063, 0x4084, 0x50A5, 0x60C6, 0x70E7,
     0x8108, 0x9129, 0xA14A, 0xB16B, 0xC18C, 0xD1AD, 0xE1CE, 0xF1EF,
     0x1231, 0x0210, 0x3273, 0x2252, 0x52B5, 0x4294, 0x72F7, 0x62D6,
     0x9339, 0x8318, 0xB37B, 0xA35A, 0xD3BD, 0xC39C, 0xF3FF, 0xE3DE,
     0x2462, 0x3443, 0x0420, 0x1401, 0x64E6, 0x74C7, 0x44A4, 0x5485,
     0xA56A, 0xB54B, 0x8528, 0x9509, 0xE5EE, 0xF5CF, 0xC5AC, 0xD58D,
     0x3653, 0x2672, 0x1611, 0x0630, 0x76D7, 0x66F6, 0x5695, 0x46B4,
     0xB75B, 0xA77A, 0x9719, 0x8738, 0xF7DF, 0xE7FE, 0xD79D, 0xC7BC,
     0x48C4, 0x58E5, 0x6886, 0x78A7, 0x0840, 0x1861, 0x2802, 0x3823,
     0xC9CC, 0xD9ED, 0xE98E, 0xF9AF, 0x8948, 0x9969, 0xA90A, 0xB92B,
     0x5AF5, 0x4AD4, 0x7AB7, 0x6A96, 0x1A71, 0x0A50, 0x3A33, 0x2A12,
     0xDBFD, 0xCBDC, 0xFBBF, 0xEB9E, 0x9B79, 0x8B58, 0xBB3B, 0xAB1A,
     0x6CA6, 0x7C87, 0x4CE4, 0x5CC5, 0x2C22, 0x3C03, 0x0C60, 0x1C41,
     0xEDAE, 0xFD8F, 0xCDEC, 0xDDCD, 0xAD2A, 0xBD0B, 0x8D68, 0x9D49,
     0x7E97, 0x6EB6, 0x5ED5, 0x4EF4, 0x3E13, 0x2E32, 0x1E51, 0x0E70,
     0xFF9F, 0xEFBE, 0xDFDD, 0xCFFC, 0xBF1B, 0xAF3A, 0x9F59, 0x8F78,
     0x9188, 0x81A9, 0xB1CA, 0xA1EB, 0xD10C, 0xC12D, 0xF14E, 0xE16F,
     0x1080, 0x00A1, 0x30C2, 0x20E3, 0x5004, 0x4025, 0x7046, 0x6067,
     0x83B9, 0x9398, 0xA3FB, 0xB3DA, 0xC33D, 0xD31C, 0xE37F, 0xF35E,
     0x02B1, 0x1290, 0x22F3, 0x32D2, 0x4235, 0x5214, 0x6277, 0x7256,
     0xB5EA, 0xA5CB, 0x95A8, 0x8589, 0xF56E, 0xE54F, 0xD52C, 0xC50D,
     0x34E2, 0x24C3, 0x14A0, 0x0481, 0x7466, 0x6447, 0x5424, 0x4405,
     0xA7DB, 0xB7FA, 0x8799, 0x97B8, 0xE75F, 0xF77E, 0xC71D, 0xD73C,
     0x26D3, 0x36F2, 0x0691, 0x16B0, 0x6657, 0x7676, 0x4615, 0x5634,
     0xD94C, 0xC96D, 0xF90E, 0xE92F, 0x99C8, 0x89E9, 0xB98A, 0xA9AB,
     0x5844, 0x4865, 0x7806, 0x6827, 0x18C0, 0x08E1, 0x3882, 0x28A3,
     0xCB7D, 0xDB5C, 0xEB3F, 0xFB1E, 0x8BF9, 0x9BD8, 0xABBB, 0xBB9A,
     0x4A75, 0x5A54, 0x6A37, 0x7A16, 0x0AF1, 0x1AD0, 0x2AB3, 0x3A92,
     0xFD2E, 0xED0F, 0xDD6C, 0xCD4D, 0xBDAA, 0xAD8B, 0x9DE8, 0x8DC9,
     0x7C26, 0x6C07, 0x5C64, 0x4C45, 0x3CA2, 0x2C83, 0x1CE0, 0x0CC1,
     0xEF1F, 0xFF3E, 0xCF5D, 0xDF7C, 0xAF9B, 0xBFBA, 0x8FD9, 0x9FF8,
     0x6E17, 0x7E36, 0x4E55, 0x5E74, 0x2E93, 0x3EB2, 0x0ED1, 0x1EF0]"

text \<open>
  One round of the loop. The operands are promoted to \<^verbatim>\<open>int\<close> and the result is truncated to
  \<^verbatim>\<open>unsigned short\<close>, so the left shift loses the bits above 15.
\<close>

definition crc_step :: "u16 \<Rightarrow> byte \<Rightarrow> u16" where
  "crc_step crc b =
     crc_table ! unat ((drop_bit 8 crc XOR ucast b) AND 0xFF) XOR push_bit 8 crc"

text \<open>The bytes are those the pointer and the length of the call delimit.\<close>

definition crc16 :: "byte list \<Rightarrow> u16" where
  "crc16 data = foldl crc_step 0xFFFF data"

section \<open>The bit-serial register\<close>

definition crc_bit :: "u16 \<Rightarrow> u16" where
  "crc_bit crc = (if bit crc 15 then push_bit 1 crc XOR 0x1021 else push_bit 1 crc)"

definition crc_byte :: "u16 \<Rightarrow> byte \<Rightarrow> u16" where
  "crc_byte crc b = (crc_bit ^^ 8) (crc XOR push_bit 8 (ucast b))"

definition crc_serial :: "byte list \<Rightarrow> u16" where
  "crc_serial data = foldl crc_byte 0xFFFF data"

lemma crc_bit_xor: "crc_bit (x XOR y) = crc_bit x XOR crc_bit y"
  by (rule bit_word_eqI) (auto simp: crc_bit_def bit_simps)

lemma crc_bits_xor: "(crc_bit ^^ n) (x XOR y) = (crc_bit ^^ n) x XOR (crc_bit ^^ n) y"
  by (induction n) (simp_all add: crc_bit_xor)

lemma crc_bit_inj: "crc_bit x = crc_bit y \<Longrightarrow> x = y"
proof -
  assume eq: "crc_bit x = crc_bit y"
  have b: "bit (crc_bit z) 0 = bit z 15" for z
    by (simp add: crc_bit_def bit_simps bit_0 even_xor_iff)
  with eq have top: "bit x 15 = bit y 15" by metis
  have low: "bit x n = bit y n" if "n < 15" for n
  proof -
    have "bit (push_bit 1 z) (Suc n) = bit z n" for z :: u16
      using that by (simp add: mult.commute [of z] bit_double_iff)
    moreover have "push_bit 1 x = push_bit 1 y"
    proof (cases "bit x 15")
      case True
      with eq top have "(push_bit 1 x XOR 0x1021) XOR 0x1021 = (push_bit 1 y XOR 0x1021) XOR 0x1021"
        by (simp only: crc_bit_def if_True)
      then show ?thesis by (simp only: xor.assoc xor_self_eq xor.right_neutral)
    next
      case False
      with eq top show ?thesis by (simp add: crc_bit_def)
    qed
    ultimately show ?thesis by metis
  qed
  show "x = y"
  proof (rule bit_word_eqI)
    fix n assume "n < LENGTH(16)"
    then have "n < 15 \<or> n = 15" by auto
    with top low show "bit x n = bit y n" by auto
  qed
qed

lemma crc_bits_inj: "(crc_bit ^^ n) x = (crc_bit ^^ n) y \<Longrightarrow> x = y"
  by (induction n) (auto dest: crc_bit_inj)

lemma crc_byte_inj_crc: "crc_byte x b = crc_byte y b \<Longrightarrow> x = y"
proof -
  assume "crc_byte x b = crc_byte y b"
  then have "x XOR push_bit 8 (ucast b) = y XOR push_bit 8 (ucast b)"
    unfolding crc_byte_def by (rule crc_bits_inj)
  then have "(x XOR push_bit 8 (ucast b)) XOR push_bit 8 (ucast b)
      = (y XOR push_bit 8 (ucast b)) XOR push_bit 8 (ucast b)" by (rule arg_cong)
  then show "x = y" by (simp only: xor.assoc xor_self_eq xor.right_neutral)
qed

lemma crc_byte_inj_byte: "crc_byte x b = crc_byte x c \<Longrightarrow> b = c"
proof -
  assume "crc_byte x b = crc_byte x c"
  then have "x XOR push_bit 8 (ucast b) = x XOR push_bit 8 (ucast c)"
    unfolding crc_byte_def by (rule crc_bits_inj)
  then have eq: "push_bit 8 (ucast b :: u16) = push_bit 8 (ucast c)"
    by (metis (no_types) bit.xor_left_self)
  show "b = c"
  proof (rule bit_word_eqI)
    fix n assume n: "n < LENGTH(8)"
    have "bit (push_bit 8 (ucast z :: u16)) (8 + n) = bit z n" for z :: byte
      using n by (simp add: bit_simps)
    with eq show "bit b n = bit c n" by metis
  qed
qed

section \<open>The table against the register\<close>

text \<open>Eight rounds on a value below 256 meet no carry: they only shift.\<close>

lemma crc_bits_low: "n + k \<le> 16 \<Longrightarrow> (\<forall>i\<ge>k. \<not> bit x i) \<Longrightarrow> (crc_bit ^^ n) x = push_bit n x"
proof (induction n)
  case 0
  then show ?case by simp
next
  case (Suc n)
  then have "(crc_bit ^^ n) x = push_bit n x" by simp
  moreover have "\<not> bit (push_bit n x) 15"
    using Suc.prems by (auto simp: bit_simps)
  ultimately show ?case
    by (simp add: crc_bit_def [of "push_bit n x"] push_bit_double ac_simps)
qed

lemma length_crc_table [simp]: "length crc_table = 256"
  by (simp add: crc_table_def)

lemma unat_word_bound: "unat (x :: u16) < 0x10000"
  using unsigned_less [of x] by (simp add: word_less_nat_alt)

lemma crc_bit_compare: "crc_bit x = (if 0x8000 \<le> x then 2 * x XOR 0x1021 else 2 * x)"
proof -
  have "bit x 15 \<longleftrightarrow> bit (unat x) 15" by (simp add: bit_unsigned_iff)
  also have "\<dots> \<longleftrightarrow> odd (unat x div 2 ^ 15)" by (simp only: bit_iff_odd)
  also have "\<dots> \<longleftrightarrow> 0x8000 \<le> unat x"
  proof -
    have "unat x div 2 ^ 15 < 2"
      using unat_word_bound [of x] by (simp add: less_mult_imp_div_less)
    moreover have "odd n \<longleftrightarrow> 0 < n" if "n < 2" for n :: nat using that by (cases n) auto
    ultimately show ?thesis by (simp add: div_greater_zero_iff)
  qed
  finally show ?thesis by (simp add: crc_bit_def word_le_nat_alt mult.commute [of x])
qed

text \<open>
  Row \<open>2 i\<close> of the table is one register round after row \<open>i\<close>, and row \<open>2 i + 1\<close> differs from
  it by the polynomial. One evaluation of this equation checks all 256 entries.
\<close>

lemma crc_table_doubles:
  "concat (map (\<lambda>x. [crc_bit x, crc_bit x XOR 0x1021]) (take 128 crc_table)) = crc_table"
  by (simp add: crc_table_def crc_bit_compare)

lemma crc_table_even: "j < 128 \<Longrightarrow> crc_table ! (2 * j) = crc_bit (crc_table ! j)"
  using nth_concat_pairs(1) [of j "take 128 crc_table" crc_bit "\<lambda>x. crc_bit x XOR 0x1021"]
  unfolding crc_table_doubles by simp

lemma crc_table_odd: "j < 128 \<Longrightarrow> crc_table ! (2 * j + 1) = crc_bit (crc_table ! j) XOR 0x1021"
  using nth_concat_pairs(2) [of j "take 128 crc_table" crc_bit "\<lambda>x. crc_bit x XOR 0x1021"]
  unfolding crc_table_doubles by simp

lemma crc_bit_shifted:
  assumes "j < 128"
  shows "crc_bit (push_bit 8 (of_nat j)) = push_bit 8 (of_nat (2 * j))"
proof -
  have "\<not> bit j 7" using assms by (simp add: bit_iff_odd)
  then have "\<not> bit (push_bit 8 (of_nat j) :: u16) 15" by (simp add: bit_simps)
  moreover have "push_bit 8 (of_nat (2 * j)) = push_bit 1 (push_bit 8 (of_nat j) :: u16)"
    by (simp add: push_bit_eq_mult)
  ultimately show ?thesis by (simp add: crc_bit_def)
qed

lemma crc_serial_one: "(crc_bit ^^ 8) (push_bit 8 1) = 0x1021"
  by (simp add: numeral_eq_Suc funpow_Suc_right del: funpow.simps) (simp add: crc_bit_compare)

lemma crc_table_serial: "i < 256 \<Longrightarrow> crc_table ! i = (crc_bit ^^ 8) (push_bit 8 (of_nat i))"
proof (induction i rule: less_induct)
  case (less i)
  have even_row: "crc_table ! (2 * j) = (crc_bit ^^ 8) (push_bit 8 (of_nat (2 * j)))"
    if "2 * j \<le> i" "0 < j" for j
  proof -
    have "crc_table ! (2 * j) = crc_bit ((crc_bit ^^ 8) (push_bit 8 (of_nat j)))"
      using less that by (simp add: crc_table_even)
    also have "\<dots> = (crc_bit ^^ 8) (crc_bit (push_bit 8 (of_nat j)))"
      by (rule funpow_swap1)
    finally show ?thesis using crc_bit_shifted [of j] less.prems that by simp
  qed
  have zero_row: "crc_table ! 0 = (crc_bit ^^ 8) (push_bit 8 (of_nat 0))"
    using crc_bits_low [of 8 0 0] by (simp add: crc_table_def)
  show ?case
  proof (cases "even i")
    case True
    then obtain j where "i = 2 * j" by blast
    with even_row [of j] zero_row show ?thesis by (cases "j = 0") auto
  next
    case False
    then obtain j where j: "i = 2 * j + 1" by (rule oddE)
    have row: "crc_table ! (2 * j) = (crc_bit ^^ 8) (push_bit 8 (of_nat (2 * j)))"
      using even_row [of j] zero_row j by (cases "j = 0") auto
    have "of_nat i = (of_nat (2 * j) XOR 1 :: u16)"
      by (simp add: j xor_one_eq)
    then have "(crc_bit ^^ 8) (push_bit 8 (of_nat i)) = crc_table ! (2 * j) XOR 0x1021"
      by (simp only: push_bit_xor crc_bits_xor crc_serial_one row)
    with crc_table_even [of j] crc_table_odd [of j] less.prems j show ?thesis by simp
  qed
qed

lemma crc_step_serial: "crc_step crc b = crc_byte crc b"
proof -
  define hi :: u16 where "hi = (drop_bit 8 crc XOR ucast b) AND 0xFF"
  have hi_small: "unat hi < 256"
    using word_and_le1 [of "drop_bit 8 crc XOR ucast b" "0xFF"]
    by (simp add: hi_def word_le_nat_alt)
  have split: "crc XOR push_bit 8 (ucast b) = push_bit 8 hi XOR (crc AND 0xFF)"
    unfolding hi_def mask_8_word by (rule bit_word_eqI) (auto simp: bit_simps)
  have low: "(crc_bit ^^ 8) (crc AND 0xFF) = push_bit 8 (crc AND 0xFF)"
    unfolding mask_8_word by (rule crc_bits_low [where k = 8]) (auto simp: bit_simps)
  have cut: "push_bit 8 (crc AND 0xFF) = push_bit 8 crc"
    unfolding mask_8_word by (rule bit_word_eqI) (auto simp: bit_simps)
  have "crc_byte crc b = crc_table ! unat hi XOR push_bit 8 crc"
    unfolding crc_byte_def split crc_bits_xor low cut
    using crc_table_serial [OF hi_small] by simp
  then show ?thesis by (simp add: crc_step_def hi_def)
qed

lemma crc16_serial: "crc16 data = crc_serial data"
proof -
  have "crc_step = crc_byte" by (intro ext) (rule crc_step_serial)
  then show ?thesis by (simp add: crc16_def crc_serial_def)
qed

section \<open>Error detection\<close>

lemma crc_fold_inj: "foldl crc_step x data = foldl crc_step y data \<Longrightarrow> x = y"
  by (induction data arbitrary: x y) (auto simp: crc_step_serial dest: crc_byte_inj_crc)

lemma crc16_one_byte_error:
  assumes "crc16 (pre @ b # post) = crc16 (pre @ c # post)"
  shows "b = c"
proof -
  have "crc_step (foldl crc_step 0xFFFF pre) b = crc_step (foldl crc_step 0xFFFF pre) c"
    using assms by (auto simp: crc16_def dest: crc_fold_inj)
  then show ?thesis unfolding crc_step_serial by (rule crc_byte_inj_byte)
qed

end
