(* ===== verification/Stuffing.thy ===== *)
theory Stuffing
  imports Crc16
begin

text \<open>
  Byte stuffing of the transport protocol (\<^verbatim>\<open>omnicomm/protocol.cpp\<close>: \<^verbatim>\<open>stuff_byte_to_buffer\<close>,
  \<^verbatim>\<open>store_data\<close> and the buffer that \<^verbatim>\<open>send\<close> builds). On the wire 0xC0 only starts a message:
  inside one, 0xC0 is sent as DB DC and 0xDB as DB DD. The receiver undoes this byte by byte
  and keeps, between two reads of the socket, whether the last byte was an unfinished escape.
\<close>

section \<open>The interface of an escaping scheme\<close>

text \<open>
  What the framing relies on: one encoded byte, decoded from the idle state, gives that byte
  and returns to the idle state, and no encoding contains the delimiter.
\<close>

locale byte_stuffing =
  fixes encode :: "'b \<Rightarrow> 'b list"
    and decode_step :: "'s \<Rightarrow> 'b \<Rightarrow> 's \<times> 'b list"
    and idle :: 's
    and delimiter :: 'b
  assumes decode_encode:
      "foldl (\<lambda>(s, out) b. (fst (decode_step s b), out @ snd (decode_step s b))) (idle, out) (encode x)
        = (idle, out @ [x])"
    and encode_clean: "delimiter \<notin> set (encode x)"
begin

lemma decode_encode_all:
  "foldl (\<lambda>(s, out) b. (fst (decode_step s b), out @ snd (decode_step s b))) (idle, out)
     (concat (map encode xs)) = (idle, out @ xs)"
  by (induction xs arbitrary: out) (simp_all add: decode_encode)

lemma encode_all_clean: "delimiter \<notin> set (concat (map encode xs))"
  using encode_clean by auto

end

section \<open>Sending\<close>

definition stuff_byte_to_buffer :: "byte \<Rightarrow> byte list \<Rightarrow> byte list" where
  "stuff_byte_to_buffer b buffer =
     (if 0xC0 = b then (buffer @ [0xDB]) @ [0xDC]
      else if 0xDB = b then (buffer @ [0xDB]) @ [0xDD]
      else buffer @ [b])"

text \<open>
  The buffer \<^verbatim>\<open>send\<close> fills: the first byte as it is, the rest stuffed, then the checksum of
  everything but the first byte, its low byte first. An empty message sends nothing.
\<close>

definition send_buffer :: "byte list \<Rightarrow> byte list option" where
  "send_buffer data =
     (case data of
        [] \<Rightarrow> None
      | first # rest \<Rightarrow>
          (let buffer = foldl (\<lambda>buf b. stuff_byte_to_buffer b buf) [first] rest;
               crc = crc16 rest;
               buffer = stuff_byte_to_buffer (ucast (crc AND 0xFF)) buffer
           in Some (stuff_byte_to_buffer (ucast (drop_bit 8 crc)) buffer)))"

section \<open>Receiving\<close>

datatype stuff_state = normal | possible_stuff

text \<open>One round of the loop of \<^verbatim>\<open>store_data\<close>.\<close>

fun store_byte :: "stuff_state \<times> byte list \<Rightarrow> byte \<Rightarrow> stuff_state \<times> byte list" where
  "store_byte (normal, buffer) b =
     (if 0xDB = b then (possible_stuff, buffer) else (normal, buffer @ [b]))"
| "store_byte (possible_stuff, buffer) b =
     (normal,
      if 0xDC = b then buffer @ [0xC0]
      else if 0xDD = b then buffer @ [0xDB]
      else (buffer @ [0xDB]) @ [b])"

definition store_bytes :: "stuff_state \<Rightarrow> byte list \<Rightarrow> byte list \<Rightarrow> stuff_state \<times> byte list" where
  "store_bytes st buffer data = foldl store_byte (st, buffer) data"

section \<open>The scheme as an instance of the interface\<close>

definition stuff :: "byte \<Rightarrow> byte list" where
  "stuff b = stuff_byte_to_buffer b []"

definition unstuff :: "stuff_state \<Rightarrow> byte \<Rightarrow> stuff_state \<times> byte list" where
  "unstuff st b = store_byte (st, []) b"

lemma stuff_byte_append: "stuff_byte_to_buffer b buffer = buffer @ stuff b"
  by (simp add: stuff_byte_to_buffer_def stuff_def)

lemma stuff_fold: "foldl (\<lambda>buf b. stuff_byte_to_buffer b buf) buffer bs = buffer @ concat (map stuff bs)"
  by (induction bs arbitrary: buffer) (simp_all add: stuff_byte_append)

lemma store_byte_unstuff:
  "store_byte (st, buffer) b = (fst (unstuff st b), buffer @ snd (unstuff st b))"
  by (cases st) (simp_all add: unstuff_def)

lemma store_byte_as_step:
  "store_byte = (\<lambda>(s, out) b. (fst (unstuff s b), out @ snd (unstuff s b)))"
  by (auto simp: fun_eq_iff store_byte_unstuff)

interpretation bs: byte_stuffing stuff unstuff normal "0xC0"
  by unfold_locales (auto simp: stuff_def stuff_byte_to_buffer_def unstuff_def)

lemma store_bytes_append:
  "store_bytes st buffer (a @ b) =
     (case store_bytes st buffer a of (st', buffer') \<Rightarrow> store_bytes st' buffer' b)"
  by (simp add: store_bytes_def split: prod.split)

lemma store_bytes_frame: "store_bytes st buffer data = (st', buffer @ added) \<longleftrightarrow> store_bytes st [] data = (st', added)"
proof -
  have "foldl store_byte (st, buffer @ out) data =
      (fst (foldl store_byte (st, out) data), buffer @ snd (foldl store_byte (st, out) data))" for out
  proof (induction data arbitrary: st out)
    case (Cons b data)
    show ?case
      using Cons.IH [of "fst (unstuff st b)" "out @ snd (unstuff st b)"]
      by (simp add: store_byte_unstuff)
  qed simp
  from this [of "[]"] show ?thesis
    by (auto simp: store_bytes_def prod_eq_iff)
qed

lemma store_stuffed: "store_bytes normal buffer (concat (map stuff bs)) = (normal, buffer @ bs)"
  unfolding store_bytes_def store_byte_as_step by (rule bs.decode_encode_all)

lemma store_delimiter: "store_bytes normal buffer [0xC0] = (normal, buffer @ [0xC0])"
  by (simp add: store_bytes_def)

lemma stuffed_clean: "0xC0 \<notin> set (concat (map stuff bs))"
  by (rule bs.encode_all_clean)

text \<open>What goes over the wire for a message that starts with the delimiter.\<close>

definition with_crc_le :: "byte list \<Rightarrow> byte list" where
  "with_crc_le rest = rest @ [ucast (crc16 rest AND 0xFF), ucast (drop_bit 8 (crc16 rest))]"

lemma send_buffer_Cons: "send_buffer (first # rest) = Some (first # concat (map stuff (with_crc_le rest)))"
  unfolding send_buffer_def Let_def stuff_fold list.case with_crc_le_def
  by (simp add: stuff_byte_append)

lemma length_stuff: "length (stuff b) \<le> 2"
  by (simp add: stuff_def stuff_byte_to_buffer_def)

lemma length_stuff_all: "length (concat (map stuff bs)) \<le> 2 * length bs"
proof (induction bs)
  case (Cons b bs)
  with length_stuff [of b] show ?case by simp
qed simp

end
