(* ===== verification/Transport_Messages.thy ===== *)
theory Transport_Messages
  imports Stuffing
begin

text \<open>
  The packed structures of \<^verbatim>\<open>omnicomm/transport_messages.hpp\<close>. The code overlays them on the
  receive buffer: a header is a pointer into the buffer, and reading a field reads the bytes at
  that place. Here a header is the rest of the buffer from that pointer, a field is a read at its
  offset, and a read past the end of the buffer is \<open>None\<close>. Outgoing messages are the bytes of
  the object the code builds on the stack.
\<close>

section \<open>Message codes\<close>

definition c_controller_ident :: byte where "c_controller_ident = 0x80"
definition s_server_ident :: byte where "s_server_ident = 0x81"
definition s_data_request :: byte where "s_data_request = 0x85"
definition c_archive_data :: byte where "c_archive_data = 0x86"
definition s_delete_data :: byte where "s_delete_data = 0x87"
definition c_delete_confirm :: byte where "c_delete_confirm = 0x88"
definition c_current_data :: byte where "c_current_data = 0x95"

lemmas tm_code_defs =
  c_controller_ident_def s_server_ident_def s_data_request_def c_archive_data_def
  s_delete_data_def c_delete_confirm_def c_current_data_def

section \<open>Sizes of the packed structures\<close>

definition sizeof_transport_header :: nat where "sizeof_transport_header = 1 + 1 + 2"
definition sizeof_controller_ident :: nat where "sizeof_controller_ident = sizeof_transport_header + 4 + 4"
definition sizeof_data_request :: nat where "sizeof_data_request = sizeof_transport_header + 4"
definition sizeof_data_response :: nat where "sizeof_data_response = sizeof_transport_header + 4 + 4 + 1"
definition sizeof_info_message :: nat where "sizeof_info_message = 2"

lemmas sizeof_defs =
  sizeof_transport_header_def sizeof_controller_ident_def sizeof_data_request_def
  sizeof_data_response_def sizeof_info_message_def

section \<open>The header\<close>

definition hdr_prefix :: "byte list \<Rightarrow> byte option" where
  "hdr_prefix mem = rd8 mem 0"

definition hdr_cmd :: "byte list \<Rightarrow> byte option" where
  "hdr_cmd mem = rd8 mem 1"

definition hdr_data_len :: "byte list \<Rightarrow> u16 option" where
  "hdr_data_len mem = rd16 mem 2"

definition get_data :: "byte list \<Rightarrow> byte list" where
  [simp]: "get_data mem = drop sizeof_transport_header mem"

text \<open>\<^verbatim>\<open>data_len\<close> is at most 65535, so the sum cannot wrap in \<^verbatim>\<open>size_t\<close>.\<close>

definition get_full_length :: "byte list \<Rightarrow> nat option" where
  "get_full_length mem = do {
     data_len \<leftarrow> hdr_data_len mem;
     Some (sizeof_transport_header + unat data_len + 2)
   }"

definition get_crc :: "byte list \<Rightarrow> u16 option" where
  "get_crc mem = do {
     data_len \<leftarrow> hdr_data_len mem;
     hi \<leftarrow> rd8 (get_data mem) (unat data_len);
     lo \<leftarrow> rd8 (get_data mem) (unat data_len + 1);
     Some (push_bit 8 (ucast hi) OR ucast lo)
   }"

text \<open>The checksum runs over the command, the length field and the data.\<close>

definition calc_crc :: "byte list \<Rightarrow> u16 option" where
  "calc_crc mem = do {
     data_len \<leftarrow> hdr_data_len mem;
     (if 1 + (unat data_len + 1 + 2) \<le> length mem
      then Some (crc16 (take (unat data_len + 1 + 2) (drop 1 mem))) else None)
   }"

definition check_crc :: "byte list \<Rightarrow> bool option" where
  "check_crc mem = do {
     stored \<leftarrow> get_crc mem;
     computed \<leftarrow> calc_crc mem;
     Some (stored = computed)
   }"

text \<open>\<^verbatim>\<open>check_length\<close> of the message type with the given size.\<close>

definition check_length :: "nat \<Rightarrow> byte list \<Rightarrow> unit outcome" where
  "check_length sizeof_T mem =
     (case hdr_data_len mem of
        None \<Rightarrow> Undefined
      | Some data_len \<Rightarrow>
          if sizeof_transport_header + unat data_len + 2 < sizeof_T
          then Throw (Length_error ''Wrong message size'') else Return ())"

section \<open>The messages\<close>

definition ident_controller_id :: "byte list \<Rightarrow> u32 option" where
  "ident_controller_id mem = rd32 mem sizeof_transport_header"

definition ident_firmware_version :: "byte list \<Rightarrow> u32 option" where
  "ident_firmware_version mem = rd32 mem (sizeof_transport_header + 4)"

definition resp_last_mes_number :: "byte list \<Rightarrow> u32 option" where
  "resp_last_mes_number mem = rd32 mem sizeof_transport_header"

definition resp_first_mes_time :: "byte list \<Rightarrow> u32 option" where
  "resp_first_mes_time mem = rd32 mem (sizeof_transport_header + 4)"

definition resp_priority :: "byte list \<Rightarrow> byte option" where
  "resp_priority mem = rd8 mem (sizeof_transport_header + 4 + 4)"

definition resp_im_data :: "byte list \<Rightarrow> byte list" where
  "resp_im_data mem = drop sizeof_data_response mem"

text \<open>
  \<^verbatim>\<open>get_full_length() - sizeof(data_response_t) - 2\<close> in \<^verbatim>\<open>size_t\<close>: unsigned, so it wraps where
  the message is shorter than the structure.
\<close>

definition get_im_length :: "byte list \<Rightarrow> u64 option" where
  "get_im_length mem = do {
     full \<leftarrow> get_full_length mem;
     Some (of_nat full - of_nat sizeof_data_response - 2)
   }"

definition confirm_mes_number :: "byte list \<Rightarrow> u32 option" where
  "confirm_mes_number mem = rd32 mem sizeof_transport_header"

text \<open>
  \<^verbatim>\<open>transport_header_t(command, len)\<close>, the constructor of \<^verbatim>\<open>transport_message_t<C, T>\<close>, and the two
  messages the server sends.
\<close>

definition header_bytes :: "byte \<Rightarrow> u16 \<Rightarrow> byte list" where
  "header_bytes command len = [0xC0, command] @ le16 len"

definition message_bytes :: "byte \<Rightarrow> nat \<Rightarrow> byte list" where
  [simp]: "message_bytes C sizeof_T = header_bytes C (of_nat (sizeof_T - sizeof_transport_header))"

definition data_request_bytes :: "u32 \<Rightarrow> byte list" where
  "data_request_bytes mes_number =
     message_bytes s_data_request sizeof_data_request @ le32 mes_number"

definition delete_data_bytes :: "u32 \<Rightarrow> byte list" where
  "delete_data_bytes mes_number =
     message_bytes s_delete_data sizeof_data_request @ le32 mes_number"

text \<open>\<^verbatim>\<open>info_message_t\<close> at an offset of the block: its length field and its total size.\<close>

definition info_data_size :: "byte list \<Rightarrow> nat \<Rightarrow> u16 option" where
  "info_data_size mem i = rd16 mem i"

definition info_size :: "u16 \<Rightarrow> nat" where
  "info_size data_size = unat data_size + sizeof_info_message"

section \<open>A frame as a controller builds it\<close>

text \<open>
  A reference for incoming messages: header, data, and the checksum with its high byte first,
  as \<^verbatim>\<open>get_crc\<close> reads it.
\<close>

definition frame_body :: "byte \<Rightarrow> byte list \<Rightarrow> byte list" where
  "frame_body cmd payload = cmd # le16 (of_nat (length payload)) @ payload"

definition controller_frame :: "byte \<Rightarrow> byte list \<Rightarrow> byte list" where
  "controller_frame cmd payload =
     0xC0 # frame_body cmd payload
       @ [ucast (drop_bit 8 (crc16 (frame_body cmd payload))), ucast (crc16 (frame_body cmd payload))]"

lemma unat_of_nat_u16: "n < 0x10000 \<Longrightarrow> unat (of_nat n :: u16) = n"
  by (simp add: unat_of_nat take_bit_nat_eq_self)

lemma length_controller_frame [simp]: "length (controller_frame cmd payload) = length payload + 6"
  by (simp add: controller_frame_def frame_body_def)

lemma frame_data_len [wire_simps]:
  "hdr_data_len (controller_frame cmd payload @ post) = Some (of_nat (length payload))"
proof -
  have "controller_frame cmd payload @ post
      = [0xC0, cmd] @ le16 (of_nat (length payload)) @ drop 4 (controller_frame cmd payload @ post)"
    by (simp add: controller_frame_def frame_body_def le16_def)
  then show ?thesis unfolding hdr_data_len_def
    using rd16_le16 [of "[0xC0, cmd]"] by (metis length_Cons list.size(3) numeral_2_eq_2)
qed

lemma frame_cmd [wire_simps]: "hdr_cmd (controller_frame cmd payload @ post) = Some cmd"
  by (simp add: hdr_cmd_def controller_frame_def frame_body_def rd8_def)

lemma frame_full_length [wire_simps]:
  "length payload < 0x10000 \<Longrightarrow>
   get_full_length (controller_frame cmd payload @ post) = Some (length payload + 6)"
  by (simp add: get_full_length_def frame_data_len unat_of_nat_u16 sizeof_defs)

lemma join_crc: "push_bit 8 (ucast (ucast (drop_bit 8 x) :: byte)) OR ucast (ucast x :: byte) = (x :: u16)"
  using join_le16 [of x] by (simp add: or.commute)

lemma frame_check_crc [wire_simps]:
  assumes "length payload < 0x10000"
  shows "check_crc (controller_frame cmd payload @ post) = Some True"
proof -
  let ?body = "frame_body cmd payload"
  have len: "length ?body = length payload + 3" by (simp add: frame_body_def)
  have split: "controller_frame cmd payload @ post =
      (0xC0 # ?body) @ [ucast (drop_bit 8 (crc16 ?body)), ucast (crc16 ?body)] @ post"
    by (simp add: controller_frame_def)
  have "get_crc (controller_frame cmd payload @ post) = Some (crc16 ?body)"
    unfolding get_crc_def frame_data_len rd8_def
    by (simp add: split unat_of_nat_u16 [OF assms] sizeof_defs len nth_append join_crc)
  moreover have "calc_crc (controller_frame cmd payload @ post) = Some (crc16 ?body)"
    unfolding calc_crc_def frame_data_len
    by (simp add: split unat_of_nat_u16 [OF assms] len)
  ultimately show ?thesis by (simp add: check_crc_def)
qed

section \<open>The length of the information block\<close>

lemma im_length_value:
  assumes "hdr_data_len mem = Some n" and "9 \<le> unat n"
  shows "get_im_length mem = Some (of_nat (unat n - 9))"
  using assms by (simp add: get_im_length_def get_full_length_def sizeof_defs of_nat_diff)

lemma im_length_wraps:
  assumes "hdr_data_len mem = Some n" and "unat n < 9"
  shows "map_option unat (get_im_length mem) = Some (2 ^ 64 - 9 + unat n)"
proof -
  have "(ucast n :: u64) - 9 = of_nat (2 ^ 64 - 9 + unat n)"
    by simp
  then have "unat ((ucast n :: u64) - 9) = 2 ^ 64 - 9 + unat n"
    using assms(2) by (simp add: unat_of_nat take_bit_nat_eq_self del: of_nat_add)
  then show ?thesis using assms(1)
    by (simp add: get_im_length_def get_full_length_def sizeof_defs)
qed

end
