(* ===== verification/Info_Package.thy ===== *)
theory Info_Package
  imports Info_Extract Transport_Messages
begin

text \<open>
  \<^verbatim>\<open>parse_info_package\<close> of \<^verbatim>\<open>omnicomm/info_package.cpp\<close> and the class \<^verbatim>\<open>info_protocol_t\<close> of the
  same file. The data block of a response is a sequence of records, each a 16-bit length and a
  protobuf message; every message gives one text per identifier in its \<^verbatim>\<open>mid\<close> list.
  \<^verbatim>\<open>ParseFromArray\<close> belongs to the protobuf library: it is the parameter \<open>parse\<close>, which returns
  whether it succeeded and the message it filled.

  \<open>mem\<close> is the memory from \<^verbatim>\<open>im_data\<close> to the end of the receive buffer, and \<open>len\<close> the length the
  code computed for the block. The two can differ, and a read past \<open>mem\<close> is \<open>Undefined\<close>. The
  texts pushed to \<^verbatim>\<open>messages\<close> before an exception stay there, so they are part of the result.
\<close>

section \<open>The loop over the block\<close>

definition message_texts ::
  "('s, 'u) runtime \<Rightarrow> (u32 \<Rightarrow> 'u recreg \<Rightarrow> smap \<Rightarrow> smap) \<Rightarrow> 'u recreg \<Rightarrow> string list" where
  "message_texts rt ext message = map (\<lambda>mid. render (ext mid message [])) (rr_mid message)"

function info_loop ::
  "(byte list \<Rightarrow> bool \<times> 'u recreg) \<Rightarrow> ('u recreg \<Rightarrow> string list) \<Rightarrow> byte list \<Rightarrow> nat \<Rightarrow> nat
     \<Rightarrow> string list \<Rightarrow> string list \<times> unit outcome" where
  "info_loop parse texts mem len i messages =
     (if i < len then
        (case info_data_size mem i of
           None \<Rightarrow> (messages, Undefined)
         | Some data_size \<Rightarrow>
             if i + info_size data_size > len then
               (messages, Throw (Length_error ''Unexpected end of information message data block''))
             else if length mem < i + sizeof_info_message + unat data_size then (messages, Undefined)
             else (case parse (take (unat data_size) (drop (i + sizeof_info_message) mem)) of
                     (ok, message) \<Rightarrow>
                       info_loop parse texts mem len (i + info_size data_size) (messages @ texts message)))
      else (messages, Return ()))"
  by pat_completeness auto
termination
  by (relation "measure (\<lambda>(_, _, _, len, i, _). len - i)") (auto simp: info_size_def sizeof_defs)

declare info_loop.simps [simp del]

definition parse_info_package ::
  "('s, 'u) runtime \<Rightarrow> (byte list \<Rightarrow> bool \<times> 'u recreg) \<Rightarrow> byte list \<Rightarrow> string list
     \<Rightarrow> string list \<times> unit outcome" where
  "parse_info_package rt parse msg_pack messages =
     (case get_im_length msg_pack of
        None \<Rightarrow> (messages, Undefined)
      | Some im_data_size \<Rightarrow>
          info_loop parse (message_texts rt (extract_message rt)) (resp_im_data msg_pack)
            (unat im_data_size) 0 messages)"

section \<open>The class \<open>info_protocol_t\<close>\<close>

text \<open>Its loop is the same code; only the extraction functions are the members.\<close>

definition ip_process_info_messages ::
  "info_protocol \<Rightarrow> ('s, 'u) runtime \<Rightarrow> (byte list \<Rightarrow> bool \<times> 'u recreg) \<Rightarrow> byte list \<Rightarrow> string list
     \<Rightarrow> string list \<times> nat outcome" where
  "ip_process_info_messages self rt parse response messages =
     (case get_im_length response of
        None \<Rightarrow> (messages, Undefined)
      | Some im_data_size \<Rightarrow>
          (case info_loop parse (message_texts rt (ip_extract_message self rt)) (resp_im_data response)
                  (unat im_data_size) 0 messages of
             (messages, result) \<Rightarrow> (messages, and_then result (\<lambda>_. Return 0))))"

definition ip_controller_ident :: "info_protocol \<Rightarrow> byte list \<Rightarrow> info_protocol \<times> byte list outcome" where
  "ip_controller_ident self hdr =
     (case check_length sizeof_controller_ident hdr of
        Throw e \<Rightarrow> (self, Throw e)
      | Undefined \<Rightarrow> (self, Undefined)
      | Return _ \<Rightarrow>
          (case (ident_controller_id hdr, ident_firmware_version hdr) of
             (Some cid, Some version) \<Rightarrow>
               (self\<lparr>ip_controller_id := cid, ip_firmware_version := version\<rparr>, Return (data_request_bytes 0))
           | _ \<Rightarrow> (self, Undefined)))"

definition ip_data_response ::
  "info_protocol \<Rightarrow> ('s, 'u) runtime \<Rightarrow> (byte list \<Rightarrow> bool \<times> 'u recreg) \<Rightarrow> byte list \<Rightarrow> string list
     \<Rightarrow> string list \<times> byte list outcome" where
  "ip_data_response self rt parse hdr messages =
     (case check_length sizeof_data_response hdr of
        Throw e \<Rightarrow> (messages, Throw e)
      | Undefined \<Rightarrow> (messages, Undefined)
      | Return _ \<Rightarrow>
          (case ip_process_info_messages self rt parse hdr messages of
             (messages, result) \<Rightarrow> (messages, and_then result (\<lambda>_. Return []))))"

text \<open>\<^verbatim>\<open>info_protocol_t::parse\<close>: the dispatch is commented out, and nothing is done.\<close>

definition ip_parse :: "byte list \<Rightarrow> string list \<Rightarrow> string list \<times> byte list" where
  "ip_parse hdr messages = (messages, [])"

section \<open>The block as a sequence of records\<close>

definition record_fits :: "byte list \<Rightarrow> bool" where
  "record_fits d \<longleftrightarrow> length d < 0x10000"

definition encode_records :: "byte list list \<Rightarrow> byte list" where
  "encode_records ds = concat (map (\<lambda>d. le16 (of_nat (length d)) @ d) ds)"

definition record_texts ::
  "(byte list \<Rightarrow> bool \<times> 'u recreg) \<Rightarrow> ('u recreg \<Rightarrow> string list) \<Rightarrow> byte list list \<Rightarrow> string list" where
  "record_texts parse texts ds = concat (map (\<lambda>d. texts (snd (parse d))) ds)"

lemma encode_records_simps [simp]:
  "encode_records [] = []"
  "encode_records (d # ds) = le16 (of_nat (length d)) @ d @ encode_records ds"
  by (simp_all add: encode_records_def)

lemma record_texts_simps [simp]:
  "record_texts parse texts [] = []"
  "record_texts parse texts (d # ds) = texts (snd (parse d)) @ record_texts parse texts ds"
  by (simp_all add: record_texts_def)

lemma encode_records_append: "encode_records (ds @ es) = encode_records ds @ encode_records es"
  by (simp add: encode_records_def)

lemma info_size_of_record: "record_fits d \<Longrightarrow> info_size (of_nat (length d)) = length d + 2"
  by (simp add: info_size_def sizeof_defs unat_of_nat_u16 record_fits_def)

text \<open>One record at the front of what is left.\<close>

lemma info_loop_record:
  assumes "record_fits d" and "length pre + length d + 2 \<le> len"
  shows "info_loop parse texts (pre @ le16 (of_nat (length d)) @ d @ post) len (length pre) messages =
    info_loop parse texts (pre @ le16 (of_nat (length d)) @ d @ post) len (length pre + length d + 2)
      (messages @ texts (snd (parse d)))"
proof -
  have size: "info_data_size (pre @ le16 (of_nat (length d)) @ d @ post) (length pre) = Some (of_nat (length d))"
    by (simp add: info_data_size_def rd16_le16)
  have len: "unat (of_nat (length d) :: u16) = length d"
    using assms(1) by (simp add: record_fits_def unat_of_nat_u16)
  show ?thesis
    using assms(2) info_size_of_record [OF assms(1)]
    by (subst info_loop.simps) (simp add: size len sizeof_defs add.assoc split: prod.split)
qed

lemma info_loop_records:
  assumes "list_all record_fits ds" and "i = length pre" and "i + length (encode_records ds) \<le> len"
  shows "info_loop parse texts (pre @ encode_records ds @ post) len i messages =
    info_loop parse texts (pre @ encode_records ds @ post) len (i + length (encode_records ds))
      (messages @ record_texts parse texts ds)"
  using assms
proof (induction ds arbitrary: pre i messages)
  case (Cons d ds)
  let ?rec = "le16 (of_nat (length d)) @ d"
  have "info_loop parse texts (pre @ encode_records (d # ds) @ post) len i messages =
    info_loop parse texts ((pre @ ?rec) @ encode_records ds @ post) len (i + length d + 2)
      (messages @ texts (snd (parse d)))"
    using info_loop_record [of d pre len parse texts "encode_records ds @ post" messages] Cons.prems
    by simp
  also have "\<dots> = info_loop parse texts ((pre @ ?rec) @ encode_records ds @ post) len
      (i + length d + 2 + length (encode_records ds))
      ((messages @ texts (snd (parse d))) @ record_texts parse texts ds)"
    using Cons.prems by (intro Cons.IH) simp_all
  finally show ?case by (simp add: add.assoc)
qed simp

lemma info_loop_done [simp]: "len \<le> i \<Longrightarrow> info_loop parse texts mem len i messages = (messages, Return ())"
  by (subst info_loop.simps) simp

text \<open>A well-formed block gives the texts of all its records, in order.\<close>

lemma info_loop_complete:
  assumes "list_all record_fits ds" and "len = length (encode_records ds)"
  shows "info_loop parse texts (encode_records ds @ post) len 0 messages =
    (messages @ record_texts parse texts ds, Return ())"
  using info_loop_records [of ds 0 "[]" len parse texts post messages] assms by simp

text \<open>Whatever the block is, the result is explained by the records it starts with.\<close>

lemma info_loop_step:
  assumes "i < len" and "info_data_size mem i = Some n" and "i + info_size n \<le> len"
    and "i + 2 + unat n \<le> length mem"
  shows "info_loop parse texts mem len i messages = info_loop parse texts mem len (i + info_size n)
    (messages @ texts (snd (parse (take (unat n) (drop (i + 2) mem)))))"
  using assms by (subst info_loop.simps) (simp add: sizeof_defs split: prod.split)

lemma le16_at:
  assumes "info_data_size mem i = Some n" and "i + 2 + unat n \<le> length mem"
  shows "take (2 + unat n) (drop i mem) = le16 (of_nat (unat n)) @ take (unat n) (drop (i + 2) mem)"
proof -
  have lt: "i + 1 < length mem" and n: "n = ucast (mem ! i) OR push_bit 8 (ucast (mem ! (i + 1)))"
    using assms(1) by (auto simp: info_data_size_def rd16_def split: if_splits)
  have "le16 n = [mem ! i, mem ! (i + 1)]"
    unfolding n le16_def
    using bit_imp_le_length [of "mem ! i"] by (fastforce intro!: bit_word_eqI simp: bit_simps)
  moreover have "drop i mem = mem ! i # mem ! (i + 1) # drop (i + 2) mem"
    using lt by (metis Cons_nth_drop_Suc Suc_eq_plus1 Suc_lessD add_2_eq_Suc')
  ultimately show ?thesis by simp
qed

lemma info_loop_sound:
  assumes "info_loop parse texts mem len i messages = (result, Return ())" and "i \<le> len"
    and "len \<le> length mem"
  shows "\<exists>ds. list_all record_fits ds \<and> take (len - i) (drop i mem) = encode_records ds
    \<and> result = messages @ record_texts parse texts ds"
  using assms
proof (induction parse texts mem len i messages rule: info_loop.induct)
  case (1 parse texts mem len i messages)
  show ?case
  proof (cases "i < len")
    case True
    with "1.prems"(1) obtain n where n: "info_data_size mem i = Some n"
        and fits: "i + info_size n \<le> len" "i + 2 + unat n \<le> length mem"
      by (subst (asm) info_loop.simps) (auto simp: sizeof_defs split: option.splits if_splits)
    let ?d = "take (unat n) (drop (i + 2) mem)"
    obtain ok message where p: "parse ?d = (ok, message)" by fastforce
    have rest: "info_loop parse texts mem len (i + info_size n) (messages @ texts message) = (result, Return ())"
      using "1.prems"(1) info_loop_step [OF True n fits, of parse texts messages] p by simp
    have "\<exists>ds. list_all record_fits ds
        \<and> take (len - (i + info_size n)) (drop (i + info_size n) mem) = encode_records ds
        \<and> result = (messages @ texts message) @ record_texts parse texts ds"
      using "1.IH" [OF True n, of ok message] rest fits p "1.prems"(3) by (simp add: sizeof_defs)
    then obtain ds where ds: "list_all record_fits ds"
        "take (len - (i + info_size n)) (drop (i + info_size n) mem) = encode_records ds"
        "result = (messages @ texts message) @ record_texts parse texts ds" by blast
    have len: "length ?d = unat n" using fits by simp
    have "take (len - i) (drop i mem) =
        take (2 + unat n) (drop i mem) @ take (len - (i + info_size n)) (drop (i + info_size n) mem)"
    proof -
      have "len - i = (2 + unat n) + (len - (i + info_size n))"
        using fits by (simp add: info_size_def sizeof_defs)
      then show ?thesis
        by (simp only: take_add drop_drop) (simp add: info_size_def sizeof_defs add.commute add.left_commute)
    qed
    also have "\<dots> = encode_records (?d # ds)"
      using le16_at [OF n fits(2)] ds(2) len by simp
    finally have "take (len - i) (drop i mem) = encode_records (?d # ds)" .
    moreover have "list_all record_fits (?d # ds)"
      using ds(1) len unsigned_less [of n, where 'a = nat] by (simp add: record_fits_def)
    moreover have "result = messages @ record_texts parse texts (?d # ds)"
      using ds(3) p by simp
    ultimately show ?thesis by blast
  next
    case False
    with "1.prems" show ?thesis by (intro exI [of _ "[]"]) simp
  qed
qed

text \<open>Inside the buffer, with the two checksum bytes behind the block, no read is out of bounds.\<close>

lemma info_loop_defined:
  assumes "len + 2 \<le> length mem"
  shows "snd (info_loop parse texts mem len i messages) \<noteq> Undefined"
  using assms
proof (induction parse texts mem len i messages rule: info_loop.induct)
  case (1 parse texts mem len i messages)
  have "info_data_size mem i \<noteq> None" if "i < len"
    using that "1.prems" by (simp add: info_data_size_def rd16_def)
  then show ?case
    using "1.IH" "1.prems"
    by (subst info_loop.simps) (auto simp: sizeof_defs info_size_def split: option.splits prod.splits)
qed

text \<open>A length beyond the memory is always an out-of-bounds read: neither a result nor an error.\<close>

lemma info_loop_beyond:
  assumes "length mem + 0x10000 < len" and "i \<le> length mem"
  shows "snd (info_loop parse texts mem len i messages) = Undefined"
  using assms
proof (induction parse texts mem len i messages rule: info_loop.induct)
  case (1 parse texts mem len i messages)
  have small: "info_size n < 0x10000 + 2" for n
    using unsigned_less [of n, where 'a = nat] by (simp add: info_size_def sizeof_defs)
  have bound: "i + info_size n \<le> len" for n
    using "1.prems" small [of n] by linarith
  show ?case
  proof (cases "info_data_size mem i")
    case None
    with "1.prems" show ?thesis by (subst info_loop.simps) simp
  next
    case (Some n)
    show ?thesis
    proof (cases "length mem < i + 2 + unat n")
      case True
      with Some bound [of n] "1.prems" show ?thesis
        by (subst info_loop.simps) (simp add: sizeof_defs not_less)
    next
      case False
      obtain ok message where p: "parse (take (unat n) (drop (i + 2) mem)) = (ok, message)" by fastforce
      have "snd (info_loop parse texts mem len (i + info_size n) (messages @ texts message)) = Undefined"
        using "1.IH" [of n ok message] Some False bound [of n] p "1.prems"
        by (simp add: sizeof_defs info_size_def)
      with info_loop_step [of i len mem n parse texts messages] Some False bound [of n] p "1.prems"
      show ?thesis by simp
    qed
  qed
qed

end
