(* ===== verification/Settings.thy ===== *)
theory Settings
  imports Prelude
begin

text \<open>
  \<^verbatim>\<open>settings.hpp\<close> and \<^verbatim>\<open>settings.cpp\<close>: the options of the service and how they are read. The
  configuration file is parsed by libconfig, which is a parameter: a \<open>config\<close> answers lookups by
  path, each with the value, with "not found", or with another exception of the library (a value
  of the wrong type) and its message.
\<close>

section \<open>The options\<close>

record storage_options =
  so_kind :: string
  so_ip_addr :: string
  so_tcp_port :: u32
  so_db_name :: string
  so_login :: string
  so_password :: string

record 'g options =
  op_name :: string
  op_protocol :: string
  op_workers :: u32
  op_listen_ip_addr :: string
  op_listen_tcp_port :: u32
  op_settings :: "'g option"
  op_storage :: storage_options

section \<open>libconfig\<close>

datatype 'v fetch = Found 'v | Not_found | Failed string

record 'g config =
  cf_string :: "string \<Rightarrow> string fetch"
  cf_unsigned :: "string \<Rightarrow> u32 fetch"
  cf_member :: "string \<Rightarrow> string \<Rightarrow> 'g fetch"
  cf_names :: "string list"

text \<open>\<^verbatim>\<open>Config::readFile\<close>: the parsed file, or one of the two exceptions.\<close>

datatype 'g file_result = File_read "'g config" | File_io_error | Parse_error string nat string

section \<open>\<open>parse_settings\<close>\<close>

definition not_found :: "string \<Rightarrow> exn" where
  "not_found opt_name = Runtime_error (''Option '' @ [CHR 0x27] @ opt_name @ [CHR 0x27] @ '' not found!'')"

definition fetch_as :: "string \<Rightarrow> 'v fetch \<Rightarrow> 'v outcome" where
  "fetch_as opt_name r =
     (case r of Found v \<Rightarrow> Return v | Not_found \<Rightarrow> Throw (not_found opt_name) | Failed w \<Rightarrow> Throw (Std_exception w))"

definition fetch_string :: "'g config \<Rightarrow> string \<Rightarrow> string outcome" where
  "fetch_string config opt_name = fetch_as opt_name (cf_string config opt_name)"

definition fetch_unsigned :: "'g config \<Rightarrow> string \<Rightarrow> u32 outcome" where
  "fetch_unsigned config opt_name = fetch_as opt_name (cf_unsigned config opt_name)"

text \<open>The inner \<^verbatim>\<open>try\<close>: only "not found" is caught, and leaves the pointer null.\<close>

definition fetch_settings1 :: "'g config \<Rightarrow> string \<Rightarrow> 'g option outcome" where
  "fetch_settings1 config root =
     (case cf_member config root ''settings1'' of
        Found s \<Rightarrow> Return (Some s) | Not_found \<Rightarrow> Return None | Failed w \<Rightarrow> Throw (Std_exception w))"

definition parse_settings :: "'g config \<Rightarrow> string \<Rightarrow> 'g options outcome" where
  "parse_settings config root =
     and_then (fetch_string config (root @ ''.protocol'')) (\<lambda>protocol.
     and_then (fetch_unsigned config (root @ ''.workers'')) (\<lambda>workers.
     and_then (fetch_string config (root @ ''.listen.address'')) (\<lambda>listen_addr.
     and_then (fetch_unsigned config (root @ ''.listen.port'')) (\<lambda>listen_port.
     and_then (fetch_settings1 config root) (\<lambda>setting.
     and_then (fetch_string config (root @ ''.storage.kind'')) (\<lambda>storage.
     and_then (fetch_string config (root @ ''.storage.address'')) (\<lambda>storage_ip.
     and_then (fetch_unsigned config (root @ ''.storage.port'')) (\<lambda>storage_port.
     and_then (fetch_string config (root @ ''.storage.name'')) (\<lambda>storage_name.
     and_then (fetch_string config (root @ ''.storage.username'')) (\<lambda>storage_login.
     and_then (fetch_string config (root @ ''.storage.password'')) (\<lambda>storage_password.
     Return \<lparr>op_name = root, op_protocol = protocol, op_workers = workers,
       op_listen_ip_addr = listen_addr, op_listen_tcp_port = listen_port, op_settings = setting,
       op_storage = \<lparr>so_kind = storage, so_ip_addr = storage_ip, so_tcp_port = storage_port,
         so_db_name = storage_name, so_login = storage_login, so_password = storage_password\<rparr>\<rparr>)))))))))))"

section \<open>\<open>read_settings_from_file\<close>\<close>

fun what :: "exn \<Rightarrow> string" where
  "what (Length_error w) = w"
| "what (Overflow_error w) = w"
| "what (Runtime_error w) = w"
| "what (Invalid_argument w) = w"
| "what (Sql_exception w) = w"
| "what (Std_exception w) = w"
| "what Thread_interrupted = []"
| "what Other_exception = []"

fun parse_all :: "'g config \<Rightarrow> string list \<Rightarrow> 'g options list outcome" where
  "parse_all config [] = Return []"
| "parse_all config (name # names) =
     and_then (parse_settings config name) (\<lambda>o1. and_then (parse_all config names) (\<lambda>os. Return (o1 # os)))"

text \<open>The new vector is only assigned to \<^verbatim>\<open>options\<close> once it is complete.\<close>

definition read_settings_from_file ::
  "string \<Rightarrow> 'g file_result \<Rightarrow> 'g options list \<Rightarrow> 'g options list \<times> unit outcome" where
  "read_settings_from_file config_path file options =
     (case file of
        File_io_error \<Rightarrow>
          (options, Throw (Runtime_error (''Error opening cofiguration file '' @ [CHR 0x27] @ config_path @ [CHR 0x27])))
      | Parse_error f line err \<Rightarrow>
          (options, Throw (Runtime_error (''Parse error at '' @ f @ '':'' @ dec_nat line @ '' - '' @ err)))
      | File_read config \<Rightarrow>
          (case parse_all config (cf_names config) of
             Return result \<Rightarrow> (result, Return ())
           | Throw Thread_interrupted \<Rightarrow>
               (options, Throw (Runtime_error ''Unexpected exception while reading configuration file''))
           | Throw Other_exception \<Rightarrow>
               (options, Throw (Runtime_error ''Unexpected exception while reading configuration file''))
           | Throw e \<Rightarrow> (options, Throw (Runtime_error (what e)))
           | Undefined \<Rightarrow> (options, Undefined)))"

section \<open>\<open>get_settings\<close>\<close>

definition daemon_keywords :: "string list" where
  "daemon_keywords =
     [''daemon'', ''-daemon'', ''--daemon'', ''/daemon'', [CHR 0x5C] @ ''daemon'',
      ''service'', ''-service'', ''--service'', ''/service'', [CHR 0x5C] @ ''service'']"

text \<open>\<open>argv\<close> is the list of arguments with the program name first; the result is the daemon flag and the options.\<close>

definition get_settings ::
  "string list \<Rightarrow> 'g file_result \<Rightarrow> 'g options list \<Rightarrow> bool \<Rightarrow> ('g options list \<times> bool) \<times> unit outcome" where
  "get_settings argv file options daemon_mode =
     (if 1 < length argv \<and> argv ! 1 \<notin> set daemon_keywords then
        ((options, daemon_mode),
         Throw (Runtime_error (''Unknown option: '' @ [CHR 0x27] @ argv ! 1 @ [CHR 0x27] @ ''. Valid values are ''
           @ [CHR 0x27] @ ''daemon'' @ [CHR 0x27] @ '' or '' @ [CHR 0x27] @ ''service'' @ [CHR 0x27, CHR 0x0A])))
      else
        (case read_settings_from_file ''communicator.conf'' file options of
           (options, result) \<Rightarrow> ((options, daemon_mode \<or> 1 < length argv), result)))"

section \<open>What is read\<close>

text \<open>The paths a section must have, in the order they are looked up.\<close>

definition required_paths :: "string list" where
  "required_paths = [''.protocol'', ''.workers'', ''.listen.address'', ''.listen.port'', ''.storage.kind'',
     ''.storage.address'', ''.storage.port'', ''.storage.name'', ''.storage.username'', ''.storage.password'']"

definition path_is_unsigned :: "string \<Rightarrow> bool" where
  "path_is_unsigned p \<longleftrightarrow> p \<in> {''.workers'', ''.listen.port'', ''.storage.port''}"

definition path_found :: "'g config \<Rightarrow> string \<Rightarrow> string \<Rightarrow> bool" where
  "path_found config root p =
     (if path_is_unsigned p then (\<exists>v. cf_unsigned config (root @ p) = Found v)
      else (\<exists>v. cf_string config (root @ p) = Found v))"

lemma fetch_as_Return: "fetch_as n r = Return v \<longleftrightarrow> r = Found v"
  by (simp add: fetch_as_def split: fetch.split)

lemma parse_settings_Return:
  assumes "parse_settings config root = Return os"
  shows "op_name os = root" and "list_all (path_found config root) required_paths"
proof -
  show "op_name os = root" using assms by (auto simp: parse_settings_def and_then_Return)
  show "list_all (path_found config root) required_paths"
    using assms unfolding required_paths_def parse_settings_def and_then_Return fetch_string_def
      fetch_unsigned_def fetch_as_Return
    by (elim exE conjE) (simp add: path_found_def path_is_unsigned_def)
qed

lemma parse_all_names: "parse_all config names = Return os \<Longrightarrow> map op_name os = names"
  by (induction names arbitrary: os) (auto simp: and_then_Return parse_settings_Return(1))

lemma parse_all_found:
  "parse_all config names = Return os \<Longrightarrow> name \<in> set names \<Longrightarrow> list_all (path_found config name) required_paths"
  by (induction names arbitrary: os) (auto simp: and_then_Return dest: parse_settings_Return(2))

end
