(* ===== verification/Backend.thy ===== *)
theory Backend
  imports Settings
begin

text \<open>
  \<^verbatim>\<open>backends/base.hpp\<close> and \<^verbatim>\<open>backends/base.cpp\<close>: the queue of messages the protocol fills, and the
  thread that hands them to a storage. The three virtual functions of the class are an interface,
  the record \<open>storage\<close>; \<open>Oracle\<close> and \<open>Factory\<close> give its implementations.

  The thread is modelled as a step relation. Each step is what happens between two points where
  another thread can interfere: the sleep, the call of a virtual function, the exchange of the
  queue under the mutex, the interruption point. The other threads add messages, and \<^verbatim>\<open>stop\<close> asks
  for an interruption; a request is remembered until an interruption point raises it and clears it.
\<close>

section \<open>The queue\<close>

record base_impl =
  be_max_messages :: nat
  be_ip_addr :: string
  be_tcp_port :: u32
  be_login :: string
  be_password :: string
  be_db_name :: string
  be_sleep_interval :: "nat option"
  be_messages :: "string list"

text \<open>\<^verbatim>\<open>sleep_interval_\<close> is not initialised: it has no value until it is set.\<close>

definition base_impl_new :: "storage_options \<Rightarrow> base_impl" where
  "base_impl_new options =
     \<lparr>be_max_messages = 4096, be_ip_addr = so_ip_addr options, be_tcp_port = so_tcp_port options,
      be_login = so_login options, be_password = so_password options, be_db_name = so_db_name options,
      be_sleep_interval = None, be_messages = []\<rparr>"

definition add_message :: "string \<Rightarrow> 'a base_impl_scheme \<Rightarrow> 'a base_impl_scheme \<times> nat outcome" where
  "add_message msg b =
     (if be_max_messages b \<le> length (be_messages b)
      then (b, Throw (Overflow_error ''Message buffer capacity exceeded''))
      else (let b = b\<lparr>be_messages := be_messages b @ [msg]\<rparr> in (b, Return (length (be_messages b)))))"

definition backend_size :: "'a base_impl_scheme \<Rightarrow> nat" where
  "backend_size b = length (be_messages b)"

definition get_capacity :: "'a base_impl_scheme \<Rightarrow> nat" where
  "get_capacity b = be_max_messages b"

definition get_ip_addr :: "'a base_impl_scheme \<Rightarrow> string" where
  "get_ip_addr b = be_ip_addr b"

definition get_tcp_port :: "'a base_impl_scheme \<Rightarrow> u32" where
  "get_tcp_port b = be_tcp_port b"

definition get_login :: "'a base_impl_scheme \<Rightarrow> string" where
  "get_login b = be_login b"

definition get_password :: "'a base_impl_scheme \<Rightarrow> string" where
  "get_password b = be_password b"

definition get_db_name :: "'a base_impl_scheme \<Rightarrow> string" where
  "get_db_name b = be_db_name b"

lemmas getter_defs = get_capacity_def get_ip_addr_def get_tcp_port_def get_login_def get_password_def get_db_name_def

definition set_capacity :: "nat \<Rightarrow> 'a base_impl_scheme \<Rightarrow> 'a base_impl_scheme" where
  "set_capacity capacity b = b\<lparr>be_max_messages := capacity\<rparr>"

definition get_sleep_interval :: "'a base_impl_scheme \<Rightarrow> nat outcome" where
  "get_sleep_interval b = read_or_undefined (be_sleep_interval b)"

definition set_sleep_interval :: "nat \<Rightarrow> 'a base_impl_scheme \<Rightarrow> 'a base_impl_scheme" where
  "set_sleep_interval interval b = b\<lparr>be_sleep_interval := Some interval\<rparr>"

definition within_capacity :: "'a base_impl_scheme \<Rightarrow> bool" where
  "within_capacity b \<longleftrightarrow> length (be_messages b) \<le> be_max_messages b"

lemma add_message_within: "within_capacity b \<Longrightarrow> within_capacity (fst (add_message msg b))"
  by (simp add: within_capacity_def add_message_def Let_def)

lemma add_message_frame [frame_simps]:
  "be_max_messages (fst (add_message msg b)) = be_max_messages b"
  "be_ip_addr (fst (add_message msg b)) = be_ip_addr b"
  "be_db_name (fst (add_message msg b)) = be_db_name b"
  by (simp_all add: add_message_def Let_def)

text \<open>Queueing a list of messages until one does not fit.\<close>

fun add_messages :: "string list \<Rightarrow> 'a base_impl_scheme \<Rightarrow> 'a base_impl_scheme \<times> unit outcome" where
  "add_messages [] b = (b, Return ())"
| "add_messages (m # ms) b =
     (case add_message m b of
        (b, Return _) \<Rightarrow> add_messages ms b
      | (b, Throw e) \<Rightarrow> (b, Throw e)
      | (b, Undefined) \<Rightarrow> (b, Undefined))"

lemma add_messages_all:
  "length (be_messages b) + length ms \<le> be_max_messages b \<Longrightarrow>
   add_messages ms b = (b\<lparr>be_messages := be_messages b @ ms\<rparr>, Return ())"
  by (induction ms arbitrary: b) (simp_all add: add_message_def Let_def)

lemma add_messages_overflow:
  "be_max_messages b < length (be_messages b) + length ms \<Longrightarrow> within_capacity b \<Longrightarrow>
   add_messages ms b =
     (b\<lparr>be_messages := be_messages b @ take (be_max_messages b - length (be_messages b)) ms\<rparr>,
      Throw (Overflow_error ''Message buffer capacity exceeded''))"
proof (induction ms arbitrary: b)
  case (Cons m ms)
  show ?case
  proof (cases "be_max_messages b \<le> length (be_messages b)")
    case True
    with Cons.prems show ?thesis by (simp add: add_message_def within_capacity_def)
  next
    case False
    with Cons show ?thesis
      by (simp add: add_message_def Let_def within_capacity_def take_Cons' Suc_diff_Suc)
  qed
qed (simp add: within_capacity_def)

section \<open>The storage\<close>

record 's storage =
  st_begin_batch :: "nat \<Rightarrow> 's \<Rightarrow> 's \<times> unit outcome"
  st_save_message :: "string \<Rightarrow> 's \<Rightarrow> 's \<times> unit outcome"
  st_end_batch :: "'s \<Rightarrow> 's \<times> unit outcome"

text \<open>The base class: \<^verbatim>\<open>begin_batch_impl\<close> and \<^verbatim>\<open>end_batch_impl\<close> do nothing.\<close>

definition base_begin_batch :: "nat \<Rightarrow> 's \<Rightarrow> 's \<times> unit outcome" where
  "base_begin_batch num_messages s = (s, Return ())"

definition base_end_batch :: "'s \<Rightarrow> 's \<times> unit outcome" where
  "base_end_batch s = (s, Return ())"

text \<open>The public functions call the virtual ones.\<close>

definition begin_batch :: "'s storage \<Rightarrow> nat \<Rightarrow> 's \<Rightarrow> 's \<times> unit outcome" where
  [simp]: "begin_batch st num_messages s = st_begin_batch st num_messages s"

definition end_batch :: "'s storage \<Rightarrow> 's \<Rightarrow> 's \<times> unit outcome" where
  [simp]: "end_batch st s = st_end_batch st s"

section \<open>The thread\<close>

text \<open>
  Where the thread is: asleep at the top of the loop, about to call \<^verbatim>\<open>begin_batch\<close>, about to take
  the queue, with messages left to save, at the interruption point after one was saved, or ended.
\<close>

datatype work_point =
    Asleep
  | Begin
  | Take
  | Save "string list"
  | Saved "string list"
  | Ended

record 's backend = base_impl +
  bk_thread :: "work_point option"
  bk_interrupt :: bool
  bk_batch :: "string list"
  bk_store :: 's

definition backend_start :: "'s backend \<Rightarrow> 's backend" where
  "backend_start b =
     (if bk_thread b = None then b\<lparr>bk_thread := Some Asleep, bk_interrupt := False, bk_batch := []\<rparr> else b)"

text \<open>
  \<^verbatim>\<open>stop\<close> is two steps: it asks for the interruption, and its \<^verbatim>\<open>join\<close> returns when the thread has
  ended.
\<close>

definition stop_interrupt :: "'s backend \<Rightarrow> 's backend" where
  "stop_interrupt b = (if bk_thread b = None then b else b\<lparr>bk_interrupt := True\<rparr>)"

definition stop_join :: "'s backend \<Rightarrow> 's backend option" where
  "stop_join b =
     (case bk_thread b of
        None \<Rightarrow> Some b
      | Some Ended \<Rightarrow> Some (b\<lparr>bk_thread := None\<rparr>)
      | Some _ \<Rightarrow> None)"

text \<open>What a step does to messages: it puts one in the queue, stores one, or gives some up.\<close>

datatype event = Queued string | Stored string | Lost "string list"

text \<open>
  One step of \<^verbatim>\<open>work_proc\<close>. Whatever a virtual function throws is caught inside the loop, and so is
  an interruption raised at the interruption point; only the sleep is outside that handler.
\<close>

definition work_step :: "'s storage \<Rightarrow> 's backend \<Rightarrow> (event list \<times> 's backend) option" where
  "work_step st b =
     (case bk_thread b of
        None \<Rightarrow> None
      | Some Ended \<Rightarrow> None
      | Some Asleep \<Rightarrow>
          Some ([], if bk_interrupt b then b\<lparr>bk_interrupt := False, bk_thread := Some Ended\<rparr>
                    else b\<lparr>bk_thread := Some Begin\<rparr>)
      | Some Begin \<Rightarrow>
          (case begin_batch st (length (bk_batch b)) (bk_store b) of
             (s, Return _) \<Rightarrow> Some ([], b\<lparr>bk_store := s, bk_thread := Some Take\<rparr>)
           | (s, Throw e) \<Rightarrow> Some ([], b\<lparr>bk_store := s, bk_thread := Some Asleep\<rparr>)
           | (s, Undefined) \<Rightarrow> None)
      | Some Take \<Rightarrow>
          Some ([], b\<lparr>bk_batch := be_messages b, be_messages := [], bk_thread := Some (Save (be_messages b))\<rparr>)
      | Some (Save []) \<Rightarrow>
          (case end_batch st (bk_store b) of
             (s, Undefined) \<Rightarrow> None
           | (s, _) \<Rightarrow> Some ([], b\<lparr>bk_store := s, bk_thread := Some Asleep\<rparr>))
      | Some (Save (msg # rest)) \<Rightarrow>
          (case st_save_message st msg (bk_store b) of
             (s, Return _) \<Rightarrow> Some ([Stored msg], b\<lparr>bk_store := s, bk_thread := Some (Saved rest)\<rparr>)
           | (s, Throw e) \<Rightarrow> Some ([Lost (msg # rest)], b\<lparr>bk_store := s, bk_thread := Some Asleep\<rparr>)
           | (s, Undefined) \<Rightarrow> None)
      | Some (Saved rest) \<Rightarrow>
          Some (if bk_interrupt b
                then ([Lost rest], b\<lparr>bk_interrupt := False, bk_thread := Some Asleep\<rparr>)
                else ([], b\<lparr>bk_thread := Some (Save rest)\<rparr>)))"

text \<open>The thread together with the callers of \<^verbatim>\<open>add_message\<close> and \<^verbatim>\<open>stop\<close>.\<close>

inductive thread_step :: "'s storage \<Rightarrow> 's backend \<Rightarrow> event list \<Rightarrow> 's backend \<Rightarrow> bool"
  for st :: "'s storage" where
  work: "work_step st b = Some (evs, b') \<Longrightarrow> thread_step st b evs b'"
| queue: "add_message msg b = (b', Return n) \<Longrightarrow> thread_step st b [Queued msg] b'"
| refuse: "add_message msg b = (b', Throw e) \<Longrightarrow> thread_step st b [] b'"

inductive backend_step :: "'s storage \<Rightarrow> 's backend \<Rightarrow> event list \<Rightarrow> 's backend \<Rightarrow> bool"
  for st :: "'s storage" where
  thread: "thread_step st b evs b' \<Longrightarrow> backend_step st b evs b'"
| interrupt: "backend_step st b [] (stop_interrupt b)"

text \<open>Runs of a relation whose steps are labelled with lists of events; the events of a run in order.\<close>

inductive run :: "('b \<Rightarrow> 'e list \<Rightarrow> 'b \<Rightarrow> bool) \<Rightarrow> 'b \<Rightarrow> 'e list \<Rightarrow> 'b \<Rightarrow> bool"
  for R :: "'b \<Rightarrow> 'e list \<Rightarrow> 'b \<Rightarrow> bool" where
  stay: "run R b [] b"
| step: "run R b evs b' \<Longrightarrow> R b' evs' b'' \<Longrightarrow> run R b (evs @ evs') b''"

inductive_cases thread_stepE: "thread_step st b evs b'"
inductive_cases backend_stepE: "backend_step st b evs b'"

section \<open>Every message is queued, then stored or lost, once and in order\<close>

definition at_hand :: "'s backend \<Rightarrow> string list" where
  "at_hand b = (case bk_thread b of Some (Save rest) \<Rightarrow> rest | Some (Saved rest) \<Rightarrow> rest | _ \<Rightarrow> [])"

fun accepted :: "event \<Rightarrow> string list" where
  "accepted (Queued msg) = [msg]"
| "accepted _ = []"

fun settled :: "event \<Rightarrow> string list" where
  "settled (Stored msg) = [msg]"
| "settled (Lost msgs) = msgs"
| "settled (Queued msg) = []"

definition conserves :: "'s backend \<Rightarrow> event list \<Rightarrow> 's backend \<Rightarrow> bool" where
  "conserves b evs b' \<longleftrightarrow>
     at_hand b @ be_messages b @ concat (map accepted evs) =
       concat (map settled evs) @ at_hand b' @ be_messages b'"

lemma work_step_conserves: "work_step st b = Some (evs, b') \<Longrightarrow> conserves b evs b'"
  unfolding work_step_def conserves_def at_hand_def
  by (auto split: option.splits work_point.splits list.splits prod.splits outcome.splits if_splits)

lemma add_message_conserves:
  "add_message msg b = (b', Return n) \<Longrightarrow> conserves b [Queued msg] b'"
  "add_message msg b = (b', Throw e) \<Longrightarrow> b' = b"
  by (auto simp: add_message_def Let_def conserves_def at_hand_def split: if_splits)

lemma stop_interrupt_conserves: "conserves b [] (stop_interrupt b)"
  by (simp add: conserves_def stop_interrupt_def at_hand_def)

lemma backend_step_conserves: "backend_step st b evs b' \<Longrightarrow> conserves b evs b'"
  by (auto elim!: backend_stepE thread_stepE intro: work_step_conserves stop_interrupt_conserves
      add_message_conserves(1) dest!: add_message_conserves(2) simp: conserves_def [of b "[]" b])

lemma run_conserves: "run (backend_step st) b evs b' \<Longrightarrow> conserves b evs b'"
proof (induction rule: run.induct)
  case (step b evs b' evs' b'')
  from step.IH backend_step_conserves [OF step.hyps(2)] show ?case
    unfolding conserves_def by (metis append.assoc concat_append map_append)
qed (simp add: conserves_def)

section \<open>Capacity\<close>

lemma work_step_capacity:
  "work_step st b = Some (evs, b') \<Longrightarrow> within_capacity b \<Longrightarrow> within_capacity b'"
  unfolding work_step_def within_capacity_def
  by (auto split: option.splits work_point.splits list.splits prod.splits outcome.splits if_splits)

lemma backend_step_capacity:
  assumes "backend_step st b evs b'" and "within_capacity b"
  shows "within_capacity b'"
  using assms(1)
proof (cases rule: backend_step.cases)
  case thread
  then show ?thesis
    using work_step_capacity [OF _ assms(2)] add_message_within [OF assms(2)]
    by (auto elim!: thread_stepE) (metis fst_conv)+
next
  case interrupt
  with assms(2) show ?thesis by (simp add: stop_interrupt_def within_capacity_def)
qed

lemma run_capacity: "run (backend_step st) b evs b' \<Longrightarrow> within_capacity b \<Longrightarrow> within_capacity b'"
  by (induction rule: run.induct) (auto intro: backend_step_capacity)

section \<open>Stopping\<close>

lemma work_step_uninterrupted:
  "work_step st b = Some (evs, b') \<Longrightarrow> \<not> bk_interrupt b \<Longrightarrow> bk_thread b \<notin> {None, Some Ended} \<Longrightarrow>
   \<not> bk_interrupt b' \<and> bk_thread b' \<notin> {None, Some Ended}"
  unfolding work_step_def
  by (auto split: option.splits work_point.splits list.splits prod.splits outcome.splits if_splits)

lemma thread_step_uninterrupted:
  "thread_step st b evs b' \<Longrightarrow> \<not> bk_interrupt b \<Longrightarrow> bk_thread b \<notin> {None, Some Ended} \<Longrightarrow>
   \<not> bk_interrupt b' \<and> bk_thread b' \<notin> {None, Some Ended}"
  by (auto elim!: thread_stepE dest!: work_step_uninterrupted
      simp: add_message_def Let_def split: if_splits)

text \<open>With no request pending the thread does not end, so \<^verbatim>\<open>join\<close> does not return.\<close>

lemma run_uninterrupted:
  assumes "run (thread_step st) b evs b'" and "\<not> bk_interrupt b" and "bk_thread b \<notin> {None, Some Ended}"
  shows "\<not> bk_interrupt b' \<and> bk_thread b' \<notin> {None, Some Ended}"
  using assms by (induction rule: run.induct) (use thread_step_uninterrupted in blast)+

lemma stop_join_blocked: "bk_thread b \<notin> {None, Some Ended} \<Longrightarrow> stop_join b = None"
  by (auto simp: stop_join_def split: option.split work_point.split)

fun work_steps :: "nat \<Rightarrow> 's storage \<Rightarrow> 's backend \<Rightarrow> 's backend option" where
  "work_steps 0 st b = Some b"
| "work_steps (Suc n) st b =
     (case work_step st b of None \<Rightarrow> None | Some (evs, b') \<Rightarrow> work_steps n st b')"

text \<open>A storage whose functions return or throw.\<close>

definition storage_defined :: "'s storage \<Rightarrow> bool" where
  "storage_defined st \<longleftrightarrow>
     (\<forall>n s. snd (st_begin_batch st n s) \<noteq> Undefined) \<and> (\<forall>m s. snd (st_save_message st m s) \<noteq> Undefined)
       \<and> (\<forall>s. snd (st_end_batch st s) \<noteq> Undefined)"

definition ends_within :: "nat \<Rightarrow> 's storage \<Rightarrow> 's backend \<Rightarrow> bool" where
  "ends_within n st b \<longleftrightarrow> (\<exists>k\<le>n. \<exists>b'. work_steps k st b = Some b' \<and> bk_thread b' = Some Ended)"

lemma ends_within_step:
  assumes "work_step st b = Some (evs, b')" and "ends_within n st b'"
  shows "ends_within (Suc n) st b"
proof -
  obtain k b'' where "k \<le> n" "work_steps k st b' = Some b''" "bk_thread b'' = Some Ended"
    using assms(2) unfolding ends_within_def by blast
  then show ?thesis
    unfolding ends_within_def by (intro exI [of _ "Suc k"]) (simp add: assms(1))
qed

lemma ends_within_mono: "ends_within m st b \<Longrightarrow> m \<le> n \<Longrightarrow> ends_within n st b"
  unfolding ends_within_def using le_trans by blast

lemma ends_asleep:
  assumes "bk_interrupt b" and "bk_thread b = Some Asleep"
  shows "ends_within 1 st b"
  using assms unfolding ends_within_def
  by (intro exI [of _ "Suc 0"]) (simp add: work_step_def)

lemma ends_save:
  assumes "storage_defined st" and "bk_interrupt b" and "bk_thread b = Some (Save [])"
  shows "ends_within 2 st b"
proof -
  obtain s r where sr: "st_end_batch st (bk_store b) = (s, r)" by fastforce
  have "snd (st_end_batch st (bk_store b)) \<noteq> Undefined" using assms(1) by (simp add: storage_defined_def)
  then have s: "work_step st b = Some ([], b\<lparr>bk_store := s, bk_thread := Some Asleep\<rparr>)"
    using assms(3) sr by (auto simp: work_step_def split: outcome.split)
  from ends_within_step [OF s ends_asleep] assms(2) show ?thesis by (simp add: numeral_2_eq_2)
qed

lemma ends_take:
  assumes "storage_defined st" and "bk_interrupt b" and "be_messages b = []" and "bk_thread b = Some Take"
  shows "ends_within 3 st b"
proof -
  have s: "work_step st b = Some ([], b\<lparr>bk_batch := be_messages b, be_messages := [], bk_thread := Some (Save (be_messages b))\<rparr>)"
    using assms(4) by (simp add: work_step_def)
  from ends_within_step [OF s ends_save] assms show ?thesis by (simp add: numeral_3_eq_3 numeral_2_eq_2)
qed

lemma ends_begin:
  assumes "storage_defined st" and "bk_interrupt b" and "be_messages b = []" and "bk_thread b = Some Begin"
  shows "ends_within 4 st b"
proof -
  obtain s r where sr: "st_begin_batch st (length (bk_batch b)) (bk_store b) = (s, r)" by fastforce
  have "snd (st_begin_batch st (length (bk_batch b)) (bk_store b)) \<noteq> Undefined"
    using assms(1) by (simp add: storage_defined_def)
  then have "work_step st b = Some ([], b\<lparr>bk_store := s, bk_thread := Some Take\<rparr>)
      \<or> work_step st b = Some ([], b\<lparr>bk_store := s, bk_thread := Some Asleep\<rparr>)"
    using assms(4) sr by (auto simp: work_step_def split: outcome.split)
  then show ?thesis
  proof
    assume "work_step st b = Some ([], b\<lparr>bk_store := s, bk_thread := Some Take\<rparr>)"
    from ends_within_step [OF this ends_take] assms show ?thesis by (simp add: eval_nat_numeral)
  next
    assume "work_step st b = Some ([], b\<lparr>bk_store := s, bk_thread := Some Asleep\<rparr>)"
    from ends_within_step [OF this ends_asleep] assms show ?thesis
      by (auto intro: ends_within_mono)
  qed
qed

text \<open>
  A call of \<^verbatim>\<open>stop\<close>, from the request to the return of \<^verbatim>\<open>join\<close>, with what the thread and the callers of
  \<^verbatim>\<open>add_message\<close> do meanwhile; the destructor is such a call.
\<close>

definition stopping :: "'s storage \<Rightarrow> 's backend \<Rightarrow> event list \<Rightarrow> 's backend \<Rightarrow> bool" where
  "stopping st b evs b' \<longleftrightarrow>
     (if bk_thread b = None then evs = [] \<and> b' = b
      else \<exists>b''. run (thread_step st) (stop_interrupt b) evs b'' \<and> stop_join b'' = Some b')"

definition base_impl_destroy :: "'s storage \<Rightarrow> 's backend \<Rightarrow> event list \<Rightarrow> 's backend \<Rightarrow> bool" where
  "base_impl_destroy st b evs b' \<longleftrightarrow> stopping st b evs b'"

text \<open>
  When it returns there is no thread, and every message that had been put in the queue was stored, was
  lost, or is in the queue, which nothing empties any more.
\<close>

lemma thread_run_backend: "run (thread_step st) b evs b' \<Longrightarrow> run (backend_step st) b evs b'"
  by (induction rule: run.induct) (auto intro: run.intros backend_step.thread)

lemma stop_join_Some: "stop_join b = Some b' \<Longrightarrow> bk_thread b' = None \<and> at_hand b = [] \<and> be_messages b' = be_messages b"
  by (auto simp: stop_join_def at_hand_def split: option.splits work_point.splits)

lemma destroyed_returns:
  assumes "base_impl_destroy st b evs b'"
  shows "bk_thread b' = None
    \<and> at_hand b @ be_messages b @ concat (map accepted evs) = concat (map settled evs) @ be_messages b'"
proof (cases "bk_thread b = None")
  case True
  with assms show ?thesis by (simp add: base_impl_destroy_def stopping_def at_hand_def)
next
  case False
  with assms obtain b'' where run: "run (thread_step st) (stop_interrupt b) evs b''" and j: "stop_join b'' = Some b'"
    by (auto simp: base_impl_destroy_def stopping_def)
  have "conserves (stop_interrupt b) evs b''" by (rule run_conserves [OF thread_run_backend [OF run]])
  with stop_join_Some [OF j] show ?thesis by (simp add: conserves_def stop_interrupt_def at_hand_def False)
qed

section \<open>What a storage promises\<close>

text \<open>
  A storage may need something, say an open connection, from the begin of a batch to its end. The
  contract: a begin that returns establishes it, and saving keeps it. Then it holds whenever the
  thread calls the storage inside a batch.
\<close>

definition in_batch :: "'s backend \<Rightarrow> bool" where
  "in_batch b \<longleftrightarrow> (case bk_thread b of Some Take \<Rightarrow> True | Some (Save ms) \<Rightarrow> True | Some (Saved ms) \<Rightarrow> True | _ \<Rightarrow> False)"

locale storage_contract =
  fixes st :: "'s storage"
    and ready :: "'s \<Rightarrow> bool"
  assumes begin_ready: "st_begin_batch st n s = (s', Return u) \<Longrightarrow> ready s'"
    and save_ready: "ready s \<Longrightarrow> st_save_message st m s = (s', r) \<Longrightarrow> ready s'"
begin

lemma work_step_ready:
  assumes "work_step st b = Some (evs, b')" and "in_batch b \<Longrightarrow> ready (bk_store b)"
  shows "in_batch b' \<Longrightarrow> ready (bk_store b')"
  using assms unfolding work_step_def in_batch_def
  by (auto split: option.splits work_point.splits list.splits prod.splits outcome.splits if_splits
      intro: begin_ready save_ready)

lemma backend_step_ready:
  assumes "backend_step st b evs b'" and "in_batch b \<Longrightarrow> ready (bk_store b)" and "in_batch b'"
  shows "ready (bk_store b')"
  using assms(1)
proof (cases rule: backend_step.cases)
  case thread
  then show ?thesis
  proof (cases rule: thread_step.cases)
    case work
    from work_step_ready [OF this assms(2) assms(3)] show ?thesis by simp
  qed (use assms(2,3) in \<open>auto simp: add_message_def Let_def in_batch_def split: if_splits\<close>)
next
  case interrupt
  with assms(2,3) show ?thesis by (auto simp: stop_interrupt_def in_batch_def split: if_splits)
qed

lemma run_ready:
  assumes "run (backend_step st) b evs b'" and "\<not> in_batch b"
  shows "in_batch b' \<longrightarrow> ready (bk_store b')"
  using assms by (induction rule: run.induct) (auto intro: backend_step_ready)

end

section \<open>What reaches the database\<close>

text \<open>
  A storage records messages when the database can be viewed as a list to which each save that
  returns adds one element, and which nothing else changes.
\<close>

definition records_messages :: "'s storage \<Rightarrow> ('s \<Rightarrow> 'e list) \<Rightarrow> (string \<Rightarrow> 'e) \<Rightarrow> bool" where
  "records_messages st view element \<longleftrightarrow>
     (\<forall>n s. view (fst (st_begin_batch st n s)) = view s) \<and> (\<forall>s. view (fst (st_end_batch st s)) = view s)
     \<and> (\<forall>m s s' u. st_save_message st m s = (s', Return u) \<longrightarrow> view s' = view s @ [element m])
     \<and> (\<forall>m s s' e. st_save_message st m s = (s', Throw e) \<longrightarrow> view s' = view s)"

fun stored :: "event \<Rightarrow> string list" where
  "stored (Stored m) = [m]"
| "stored _ = []"

lemma records_begin: "records_messages st view el \<Longrightarrow> st_begin_batch st n s = (s', r) \<Longrightarrow> view s' = view s"
  unfolding records_messages_def by (metis fst_conv)

lemma records_end: "records_messages st view el \<Longrightarrow> st_end_batch st s = (s', r) \<Longrightarrow> view s' = view s"
  unfolding records_messages_def by (metis fst_conv)

lemma records_save:
  "records_messages st view el \<Longrightarrow> st_save_message st m s = (s', Return u) \<Longrightarrow> view s' = view s @ [el m]"
  "records_messages st view el \<Longrightarrow> st_save_message st m s = (s', Throw e) \<Longrightarrow> view s' = view s"
  unfolding records_messages_def by blast+

lemma work_step_records:
  assumes "records_messages st view el" and "work_step st b = Some (evs, b')"
  shows "view (bk_store b') = view (bk_store b) @ map el (concat (map stored evs))"
  using assms(2) unfolding work_step_def
  by (auto split: option.splits work_point.splits list.splits prod.splits outcome.splits if_splits
      dest: records_begin [OF assms(1)] records_end [OF assms(1)] records_save [OF assms(1)])

lemma backend_step_records:
  assumes "records_messages st view el" and "backend_step st b evs b'"
  shows "view (bk_store b') = view (bk_store b) @ map el (concat (map stored evs))"
  using assms(2) work_step_records [OF assms(1)]
  by (auto elim!: backend_stepE thread_stepE simp: add_message_def stop_interrupt_def Let_def split: if_splits)

lemma run_records:
  assumes "records_messages st view el" and "run (backend_step st) b evs b'"
  shows "view (bk_store b') = view (bk_store b) @ map el (concat (map stored evs))"
  using assms(2) by (induction rule: run.induct) (simp_all add: backend_step_records [OF assms(1)])

end
