(* ===== verification/Protocol.thy ===== *)
theory Protocol
  imports Info_Package Backend
begin

text \<open>
  \<^verbatim>\<open>omnicomm/protocol.cpp\<close>: the transport protocol of one connection, with the table of the last
  message numbers all connections share. The state is one record. Its first part, \<open>env\<close>, is what
  outlives a connection: the counters and their file, and the queue of the storage. The rest is
  the connection: the socket (open or not, and the buffers handed to \<^verbatim>\<open>async_send\<close>), and the
  members of \<^verbatim>\<open>transport_protocol_t\<close>. \<^verbatim>\<open>io_service_.run()\<close> is called by one thread, so a handler runs
  to its end before the next; the storage thread can only shorten the queue meanwhile.

  The parts that are not in the repository are the fields of \<open>platform\<close>: the protobuf runtime and
  \<^verbatim>\<open>ParseFromArray\<close>, and the text archive of boost (what it writes for a map, and the map after
  reading a file).
\<close>

section \<open>State\<close>

record ('s, 'u, 'f) platform =
  pf_runtime :: "('s, 'u) runtime"
  pf_parse :: "byte list \<Rightarrow> bool \<times> 'u recreg"
  pf_archive_write :: "(u32 \<rightharpoonup> u32) \<Rightarrow> 'f"
  pf_archive_read :: "'f \<Rightarrow> (u32 \<rightharpoonup> u32) \<Rightarrow> (u32 \<rightharpoonup> u32)"

datatype protocol_state =
    wait_initial
  | wait_initial_delete_confirm
  | process_archive
  | process_current
  | wait_final_delete_confirm

record 'f env =
  en_counters :: "u32 \<rightharpoonup> u32"
  en_file :: "'f option"
  en_file_opens :: bool
  en_backend :: base_impl

record 'f session = "'f env" +
  se_open :: bool
  se_sent :: "byte list list"
  se_state :: stuff_state
  se_protocol_state :: protocol_state
  se_controller_id :: u32
  se_firmware_version :: u32
  se_buffer :: "byte list"

section \<open>Counters\<close>

definition load_counters :: "('s, 'u, 'f) platform \<Rightarrow> ('f, 'z) env_scheme \<Rightarrow> ('f, 'z) env_scheme" where
  "load_counters pf e =
     (case en_file e of
        Some f \<Rightarrow> if en_file_opens e then e\<lparr>en_counters := pf_archive_read pf f (en_counters e)\<rparr> else e
      | None \<Rightarrow> e)"

definition save_counters :: "('s, 'u, 'f) platform \<Rightarrow> ('f, 'z) env_scheme \<Rightarrow> ('f, 'z) env_scheme" where
  "save_counters pf e =
     (if en_file_opens e then e\<lparr>en_file := Some (pf_archive_write pf (en_counters e))\<rparr> else e)"

definition init_protocol :: "('s, 'u, 'f) platform \<Rightarrow> ('f, 'z) env_scheme \<Rightarrow> ('f, 'z) env_scheme" where
  "init_protocol pf e = load_counters pf e"

definition get_last_counter :: "u32 \<Rightarrow> ('f, 'z) env_scheme \<Rightarrow> u32" where
  "get_last_counter controller_id e =
     (case en_counters e controller_id of Some counter \<Rightarrow> counter | None \<Rightarrow> 0)"

definition set_last_counter ::
  "('s, 'u, 'f) platform \<Rightarrow> u32 \<Rightarrow> u32 \<Rightarrow> ('f, 'z) env_scheme \<Rightarrow> ('f, 'z) env_scheme" where
  "set_last_counter pf controller_id counter e =
     save_counters pf (e\<lparr>en_counters := (en_counters e)(controller_id \<mapsto> counter)\<rparr>)"

section \<open>A new connection\<close>

definition transport_protocol_new :: "'f env \<Rightarrow> 'f session" where
  "transport_protocol_new e =
     env.extend e (session.fields True [] normal wait_initial 0 0 [])"

section \<open>The socket\<close>

text \<open>\<^verbatim>\<open>client_t::send\<close> and \<^verbatim>\<open>client_t::stop\<close>, as the protocol calls them.\<close>

definition client_send :: "byte list \<Rightarrow> 'f session \<Rightarrow> 'f session" where
  "client_send data s = s\<lparr>se_sent := se_sent s @ [data]\<rparr>"

definition client_stop :: "'f session \<Rightarrow> 'f session" where
  "client_stop s = s\<lparr>se_open := False\<rparr>"

section \<open>Sending\<close>

definition send :: "byte list \<Rightarrow> 'f session \<Rightarrow> 'f session" where
  "send data s = (case send_buffer data of None \<Rightarrow> s | Some buffer \<Rightarrow> client_send buffer s)"

definition send_delete :: "'f session \<Rightarrow> 'f session" where
  "send_delete s =
     (let last_counter = get_last_counter (se_controller_id s) s
      in if 0 \<noteq> last_counter then send (delete_data_bytes last_counter) s else s)"

definition send_request :: "'f session \<Rightarrow> 'f session" where
  "send_request s =
     (let message = get_last_counter (se_controller_id s) s;
          message = (if message \<noteq> 0 then message + 1 else message)
      in send (data_request_bytes message) s)"

section \<open>Information messages\<close>

definition quoted :: "string \<Rightarrow> string" where
  "quoted s = [quote] @ s @ [quote]"

definition numbered_text :: "u32 \<Rightarrow> u32 \<Rightarrow> int \<Rightarrow> string \<Rightarrow> string" where
  "numbered_text controller_id firmware_version n msg =
     ''control_id='' @ quoted (dec_u32 controller_id) @ '' firmware='' @ quoted (dec_u32 firmware_version)
       @ '' mes_number='' @ quoted (dec_int n) @ '' '' @ msg"

text \<open>
  The loop that queues the texts; \<open>n\<close> is \<^verbatim>\<open>mes_number + i\<close>, a sum of two \<^verbatim>\<open>int\<close>s, which has no meaning
  when it overflows.
\<close>

fun queue_messages :: "int \<Rightarrow> string list \<Rightarrow> 'f session \<Rightarrow> 'f session \<times> unit outcome" where
  "queue_messages n [] s = (s, Return ())"
| "queue_messages n (msg # msgs) s =
     (if n \<ge> 2 ^ 31 then (s, Undefined)
      else (case add_message (numbered_text (se_controller_id s) (se_firmware_version s) n msg) (en_backend s) of
              (b, Return _) \<Rightarrow> queue_messages (n + 1) msgs (s\<lparr>en_backend := b\<rparr>)
            | (b, Throw e) \<Rightarrow> (s\<lparr>en_backend := b\<rparr>, Throw e)
            | (b, Undefined) \<Rightarrow> (s\<lparr>en_backend := b\<rparr>, Undefined)))"

definition process_info_messages ::
  "('s, 'u, 'f) platform \<Rightarrow> byte list \<Rightarrow> 'f session \<Rightarrow> 'f session \<times> unit outcome" where
  "process_info_messages pf msg s =
     (case parse_info_package (pf_runtime pf) (pf_parse pf) msg [] of
        (messages, Return _) \<Rightarrow>
          (case resp_last_mes_number msg of
             None \<Rightarrow> (s, Undefined)
           | Some last_mes_number \<Rightarrow>
               (let mes_number = sint (last_mes_number - of_nat (length messages))
                in queue_messages mes_number messages s))
      | (messages, Throw e) \<Rightarrow> (s, Throw e)
      | (messages, Undefined) \<Rightarrow> (s, Undefined))"

section \<open>The handlers of the messages\<close>

definition process_delete_confirmation :: "'f session \<Rightarrow> 'f session \<times> unit outcome" where
  "process_delete_confirmation s =
     (if wait_initial_delete_confirm = se_protocol_state s
      then ((send_request s)\<lparr>se_protocol_state := process_archive\<rparr>, Return ())
      else (s, Return ()))"

definition process_controller_ident :: "byte list \<Rightarrow> 'f session \<Rightarrow> 'f session \<times> unit outcome" where
  "process_controller_ident hdr s =
     (case check_length sizeof_controller_ident hdr of
        Throw e \<Rightarrow> (s, Throw e)
      | Undefined \<Rightarrow> (s, Undefined)
      | Return _ \<Rightarrow>
          (case (ident_controller_id hdr, ident_firmware_version hdr) of
             (Some cid, Some version) \<Rightarrow>
               (let s = s\<lparr>se_controller_id := cid, se_firmware_version := version\<rparr>
                in if 0 = get_last_counter cid s
                   then ((send_request s)\<lparr>se_protocol_state := process_archive\<rparr>, Return ())
                   else ((send_delete s)\<lparr>se_protocol_state := wait_initial_delete_confirm\<rparr>, Return ()))
           | _ \<Rightarrow> (s, Undefined)))"

text \<open>The common part of the two data handlers: queue the messages, then advance the counter.\<close>

definition accept_data ::
  "('s, 'u, 'f) platform \<Rightarrow> byte list \<Rightarrow> 'f session \<Rightarrow> 'f session \<times> unit outcome" where
  "accept_data pf hdr s =
     (case check_length sizeof_data_response hdr of
        Throw e \<Rightarrow> (s, Throw e)
      | Undefined \<Rightarrow> (s, Undefined)
      | Return _ \<Rightarrow>
          (case process_info_messages pf hdr s of
             (s, Return _) \<Rightarrow>
               (case resp_last_mes_number hdr of
                  None \<Rightarrow> (s, Undefined)
                | Some n \<Rightarrow> (set_last_counter pf (se_controller_id s) n s, Return ()))
           | (s, Throw e) \<Rightarrow> (s, Throw e)
           | (s, Undefined) \<Rightarrow> (s, Undefined)))"

definition process_archive_data ::
  "('s, 'u, 'f) platform \<Rightarrow> byte list \<Rightarrow> 'f session \<Rightarrow> 'f session \<times> unit outcome" where
  "process_archive_data pf hdr s =
     (case hdr_data_len hdr of
        None \<Rightarrow> (s, Undefined)
      | Some data_len \<Rightarrow>
          if 0 = data_len
          then ((send_delete s)\<lparr>se_protocol_state := wait_final_delete_confirm\<rparr>, Return ())
          else accept_data pf hdr s)"

definition process_current_data ::
  "('s, 'u, 'f) platform \<Rightarrow> byte list \<Rightarrow> 'f session \<Rightarrow> 'f session \<times> unit outcome" where
  "process_current_data pf hdr s =
     (case accept_data pf hdr s of
        (s, Return _) \<Rightarrow> ((send_delete s)\<lparr>se_protocol_state := wait_final_delete_confirm\<rparr>, Return ())
      | (s, r) \<Rightarrow> (s, r))"

definition dispatch_message ::
  "('s, 'u, 'f) platform \<Rightarrow> byte list \<Rightarrow> 'f session \<Rightarrow> 'f session \<times> unit outcome" where
  "dispatch_message pf hdr s =
     (case hdr_cmd hdr of
        None \<Rightarrow> (s, Undefined)
      | Some cmd \<Rightarrow>
          if cmd = c_controller_ident then process_controller_ident hdr s
          else if cmd = c_current_data then process_current_data pf hdr s
          else if cmd = c_archive_data then process_archive_data pf hdr s
          else if cmd = c_delete_confirm then process_delete_confirmation s
          else (s, Return ()))"

text \<open>Whatever a handler throws, the connection is closed and the exception goes on.\<close>

definition process_message ::
  "('s, 'u, 'f) platform \<Rightarrow> byte list \<Rightarrow> 'f session \<Rightarrow> 'f session \<times> unit outcome" where
  "process_message pf hdr s =
     (case dispatch_message pf hdr s of
        (s, Throw e) \<Rightarrow> (client_stop s, Throw e)
      | (s, r) \<Rightarrow> (s, r))"

section \<open>Receiving\<close>

definition store_data :: "byte list \<Rightarrow> 'f session \<Rightarrow> 'f session" where
  "store_data data s =
     (case store_bytes (se_state s) (se_buffer s) data of
        (st, buffer) \<Rightarrow> s\<lparr>se_state := st, se_buffer := buffer\<rparr>)"

text \<open>\<^verbatim>\<open>std::find\<close> on the buffer, positions instead of iterators.\<close>

definition find_from :: "byte list \<Rightarrow> nat \<Rightarrow> byte \<Rightarrow> nat" where
  "find_from buf start b = start + length (takeWhile (\<lambda>x. x \<noteq> b) (drop start buf))"

text \<open>
  The loop of \<^verbatim>\<open>recive_impl\<close> over the buffer, which no handler changes. The result is the final
  value of \<^verbatim>\<open>end\<close>, up to which the buffer will be erased.
\<close>

function recive_loop ::
  "('s, 'u, 'f) platform \<Rightarrow> byte list \<Rightarrow> nat \<Rightarrow> nat \<Rightarrow> 'f session \<Rightarrow> nat \<times> 'f session \<times> unit outcome" where
  "recive_loop pf buf start fin s =
     (if length buf \<le> start then (fin, s, Return ())
      else (let start = find_from buf start 0xC0
            in if length buf \<le> start then (fin, s, Return ())
               else (let remain_len = length buf - start; hdr = drop start buf
                     in if remain_len < sizeof_transport_header then (fin, s, Return ())
                        else (case get_full_length hdr of
                                None \<Rightarrow> (fin, s, Undefined)
                              | Some full \<Rightarrow>
                                  if remain_len < full then (fin, s, Return ())
                                  else (case check_crc hdr of
                                          None \<Rightarrow> (fin, s, Undefined)
                                        | Some ok \<Rightarrow>
                                            if \<not> ok then (fin, client_stop s, Return ())
                                            else (case process_message pf hdr s of
                                                    (s, Return _) \<Rightarrow>
                                                      recive_loop pf buf (start + full) (start + full) s
                                                  | (s, r) \<Rightarrow> (fin, s, r)))))))"
  by pat_completeness auto
termination
  by (relation "measure (\<lambda>(_, buf, start, _, _). length buf - start)")
    (auto simp: find_from_def get_full_length_def sizeof_defs split: option.splits bind_splits)

declare recive_loop.simps [simp del]

definition recive_impl ::
  "('s, 'u, 'f) platform \<Rightarrow> byte list \<Rightarrow> 'f session \<Rightarrow> 'f session \<times> unit outcome" where
  "recive_impl pf data s =
     (let s = store_data data s
      in case recive_loop pf (se_buffer s) 0 0 s of
           (fin, s, Return _) \<Rightarrow> (s\<lparr>se_buffer := drop fin (se_buffer s)\<rparr>, Return ())
         | (fin, s, r) \<Rightarrow> (s, r))"

end
