(* ===== verification/Protocol_Framing.thy ===== *)
theory Protocol_Framing
  imports Protocol
begin

text \<open>
  What the receiver makes of the byte stream. A handler sees a pointer into the buffer, so first:
  no handler that returns or throws depends on the bytes behind its message, and none changes the
  buffer. Then the loop is described on the rest of the buffer, two reads of the socket are one
  read of the joined bytes, and a stream of well-formed frames calls the handlers on those frames,
  in order, however the stream is cut.
\<close>

section \<open>Reads do not depend on what follows\<close>

lemma rd8_mono: "rd8 mem i = Some v \<Longrightarrow> rd8 (mem @ post) i = Some v"
  by (auto simp: rd8_def nth_append split: if_splits)

lemma rd16_mono: "rd16 mem i = Some v \<Longrightarrow> rd16 (mem @ post) i = Some v"
  by (auto simp: rd16_def nth_append split: if_splits)

lemma rd32_mono: "rd32 mem i = Some v \<Longrightarrow> rd32 (mem @ post) i = Some v"
  by (auto simp: rd32_def nth_append split: if_splits)

named_theorems mono_simps "reads that stay the same when bytes follow"

lemma hdr_cmd_mono [mono_simps]: "hdr_cmd mem = Some v \<Longrightarrow> hdr_cmd (mem @ post) = Some v"
  by (simp add: hdr_cmd_def rd8_mono)

lemma hdr_data_len_mono [mono_simps]: "hdr_data_len mem = Some v \<Longrightarrow> hdr_data_len (mem @ post) = Some v"
  by (simp add: hdr_data_len_def rd16_mono)

lemma get_full_length_mono [mono_simps]:
  "get_full_length mem = Some v \<Longrightarrow> get_full_length (mem @ post) = Some v"
  by (auto simp: get_full_length_def bind_eq_Some_conv hdr_data_len_mono)

lemma get_im_length_mono [mono_simps]: "get_im_length mem = Some v \<Longrightarrow> get_im_length (mem @ post) = Some v"
  by (auto simp: get_im_length_def bind_eq_Some_conv get_full_length_mono)

lemma check_crc_mono [mono_simps]: "check_crc mem = Some v \<Longrightarrow> check_crc (mem @ post) = Some v"
  by (auto simp: check_crc_def get_crc_def calc_crc_def bind_eq_Some_conv hdr_data_len_mono rd8_mono
      split: if_splits)

lemma ident_mono [mono_simps]:
  "ident_controller_id mem = Some v \<Longrightarrow> ident_controller_id (mem @ post) = Some v"
  "ident_firmware_version mem = Some v \<Longrightarrow> ident_firmware_version (mem @ post) = Some v"
  by (simp_all add: ident_controller_id_def ident_firmware_version_def rd32_mono)

lemma resp_last_mes_number_mono [mono_simps]:
  "resp_last_mes_number mem = Some v \<Longrightarrow> resp_last_mes_number (mem @ post) = Some v"
  by (simp add: resp_last_mes_number_def rd32_mono)

lemma check_length_mono:
  "check_length n mem \<noteq> Undefined \<Longrightarrow> check_length n (mem @ post) = check_length n mem"
  by (auto simp: check_length_def hdr_data_len_mono split: option.splits)

lemma info_loop_mono:
  "snd (info_loop parse texts mem len i messages) \<noteq> Undefined \<Longrightarrow>
   info_loop parse texts (mem @ post) len i messages = info_loop parse texts mem len i messages"
proof (induction parse texts mem len i messages rule: info_loop.induct)
  case (1 parse texts mem len i messages)
  show ?case
  proof (cases "i < len")
    case True
    with "1.prems" obtain n where n: "info_data_size mem i = Some n"
      by (cases "info_data_size mem i") (simp_all add: info_loop.simps [of parse texts mem])
    then have n': "info_data_size (mem @ post) i = Some n" by (simp add: info_data_size_def rd16_mono)
    show ?thesis
    proof (cases "i + info_size n \<le> len")
      case fits: True
      with "1.prems" True n have inside: "i + sizeof_info_message + unat n \<le> length mem"
        by (subst (asm) info_loop.simps) (simp split: if_splits)
      obtain ok message where p:
        "parse (take (unat n) (drop (i + sizeof_info_message) mem)) = (ok, message)" by fastforce
      have same: "take (unat n) (drop (i + sizeof_info_message) (mem @ post)) =
          take (unat n) (drop (i + sizeof_info_message) mem)"
        using inside by simp
      have one: "info_loop parse texts mem len i messages =
          info_loop parse texts mem len (i + info_size n) (messages @ texts message)"
        using True n fits inside p by (subst info_loop.simps) simp
      have two: "info_loop parse texts (mem @ post) len i messages =
          info_loop parse texts (mem @ post) len (i + info_size n) (messages @ texts message)"
        using True n' fits inside same p by (subst info_loop.simps) simp
      from "1.IH" [OF True n] fits inside p "1.prems" one two show ?thesis
        by (simp add: not_less)
    next
      case False
      with True n n' show ?thesis by (simp add: info_loop.simps [of parse texts])
    qed
  qed simp
qed

lemma parse_info_package_mono:
  assumes "snd (parse_info_package rt parse mem messages) \<noteq> Undefined"
  shows "parse_info_package rt parse (mem @ post) messages = parse_info_package rt parse mem messages"
proof -
  obtain len where len: "get_im_length mem = Some len"
    using assms by (auto simp: parse_info_package_def split: option.splits)
  show ?thesis
  proof (cases "sizeof_data_response \<le> length mem")
    case True
    then have "resp_im_data (mem @ post) = resp_im_data mem @ post" by (simp add: resp_im_data_def)
    with assms len show ?thesis
      by (simp add: parse_info_package_def get_im_length_mono [OF len] info_loop_mono)
  next
    case False
    then have empty: "resp_im_data mem = []" by (simp add: resp_im_data_def)
    have "info_data_size [] 0 = None" by (simp add: info_data_size_def rd16_def)
    with assms len empty have "unat len = 0"
      by (cases "unat len") (simp_all add: parse_info_package_def info_loop.simps [of _ _ _ _ 0])
    then show ?thesis by (simp add: parse_info_package_def get_im_length_mono [OF len] len)
  qed
qed

section \<open>Handlers\<close>

definition same_when_defined :: "('a \<times> 'b outcome) \<Rightarrow> ('a \<times> 'b outcome) \<Rightarrow> bool" where
  "same_when_defined long short \<longleftrightarrow> (snd short \<noteq> Undefined \<longrightarrow> long = short)"

lemma process_info_messages_mono:
  "same_when_defined (process_info_messages pf (mem @ post) s) (process_info_messages pf mem s)"
  using parse_info_package_mono [of "pf_runtime pf" "pf_parse pf" mem "[]" post]
  by (auto simp: same_when_defined_def process_info_messages_def mono_simps
      split: prod.splits outcome.splits option.splits)

lemma accept_data_mono:
  "same_when_defined (accept_data pf (mem @ post) s) (accept_data pf mem s)"
  using process_info_messages_mono [of pf mem post s] check_length_mono [of sizeof_data_response mem post]
  by (auto simp: same_when_defined_def accept_data_def mono_simps
      split: prod.splits outcome.splits option.splits)

lemma process_controller_ident_mono:
  "same_when_defined (process_controller_ident (mem @ post) s) (process_controller_ident mem s)"
  using check_length_mono [of sizeof_controller_ident mem post]
  by (auto simp: same_when_defined_def process_controller_ident_def mono_simps
      split: outcome.splits option.splits)

lemma dispatch_message_mono:
  "same_when_defined (dispatch_message pf (mem @ post) s) (dispatch_message pf mem s)"
  using accept_data_mono [of pf mem post s] process_controller_ident_mono [of mem post s]
  by (auto simp: same_when_defined_def dispatch_message_def process_current_data_def process_archive_data_def
      mono_simps split: prod.splits outcome.splits option.splits)

lemma process_message_mono:
  "snd (process_message pf mem s) \<noteq> Undefined \<Longrightarrow> process_message pf (mem @ post) s = process_message pf mem s"
  using dispatch_message_mono [of pf mem post s]
  by (auto simp: same_when_defined_def process_message_def split: prod.splits outcome.splits)

section \<open>What the handlers leave alone\<close>

definition same_receiver :: "'f session \<Rightarrow> 'f session \<Rightarrow> bool" where
  "same_receiver s s' \<longleftrightarrow> se_buffer s' = se_buffer s \<and> se_state s' = se_state s"

lemma same_receiver_refl [frame_simps]: "same_receiver s s"
  by (simp add: same_receiver_def)

lemma same_receiver_trans: "same_receiver s s' \<Longrightarrow> same_receiver s' s'' \<Longrightarrow> same_receiver s s''"
  by (simp add: same_receiver_def)

lemma same_receiver_upd [frame_simps]:
  "same_receiver s (s'\<lparr>se_protocol_state := p\<rparr>) = same_receiver s s'"
  "same_receiver s (s'\<lparr>en_backend := b\<rparr>) = same_receiver s s'"
  "same_receiver s (s'\<lparr>se_sent := x\<rparr>) = same_receiver s s'"
  "same_receiver s (s'\<lparr>se_open := c\<rparr>) = same_receiver s s'"
  "same_receiver s (s'\<lparr>se_controller_id := i\<rparr>) = same_receiver s s'"
  "same_receiver s (s'\<lparr>se_firmware_version := i\<rparr>) = same_receiver s s'"
  "same_receiver s (s'\<lparr>en_counters := m\<rparr>) = same_receiver s s'"
  "same_receiver s (s'\<lparr>en_file := f\<rparr>) = same_receiver s s'"
  by (simp_all add: same_receiver_def)

lemma send_receiver [frame_simps]:
  "same_receiver s (send data s') = same_receiver s s'"
  "same_receiver s (send_delete s') = same_receiver s s'"
  "same_receiver s (send_request s') = same_receiver s s'"
  "same_receiver s (client_stop s') = same_receiver s s'"
  by (simp_all add: send_def client_send_def client_stop_def send_delete_def send_request_def Let_def frame_simps
      split: option.split)

lemma set_last_counter_receiver [frame_simps]:
  "same_receiver s (set_last_counter pf c n s') = same_receiver s s'"
  by (simp add: set_last_counter_def save_counters_def frame_simps)

lemma queue_messages_receiver: "queue_messages n msgs s = (s', r) \<Longrightarrow> same_receiver s s'"
proof (induction n msgs s rule: queue_messages.induct)
  case (2 n msg msgs s)
  show ?case
  proof (cases "n \<ge> 2 ^ 31")
    case False
    obtain b x where b: "add_message (numbered_text (se_controller_id s) (se_firmware_version s) n msg) (en_backend s) = (b, x)"
      by fastforce
    show ?thesis
    proof (cases x)
      case (Return k)
      with "2.prems" False b have "queue_messages (n + 1) msgs (s\<lparr>en_backend := b\<rparr>) = (s', r)" by simp
      from "2.IH" [OF False b [symmetric] Return this] show ?thesis by (simp add: same_receiver_def)
    qed (use "2.prems" False b in \<open>auto simp: frame_simps\<close>)
  qed (use "2.prems" in \<open>auto simp: frame_simps\<close>)
qed (auto simp: frame_simps)

lemma process_info_messages_receiver: "process_info_messages pf hdr s = (s', r) \<Longrightarrow> same_receiver s s'"
  by (auto simp: process_info_messages_def Let_def frame_simps split: prod.splits outcome.splits option.splits
      dest: queue_messages_receiver)

lemma accept_data_receiver: "accept_data pf hdr s = (s', r) \<Longrightarrow> same_receiver s s'"
  by (auto simp: accept_data_def frame_simps split: prod.splits outcome.splits option.splits
      dest: process_info_messages_receiver)

lemma dispatch_message_receiver: "dispatch_message pf hdr s = (s', r) \<Longrightarrow> same_receiver s s'"
  by (auto simp: dispatch_message_def process_controller_ident_def process_current_data_def
      process_archive_data_def process_delete_confirmation_def Let_def frame_simps
      split: prod.splits outcome.splits option.splits if_splits dest: accept_data_receiver)

lemma process_message_receiver: "process_message pf hdr s = (s', r) \<Longrightarrow> same_receiver s s'"
  by (auto simp: process_message_def frame_simps split: prod.splits outcome.splits
      dest: dispatch_message_receiver)

section \<open>The loop\<close>

lemma find_from_ge: "start \<le> find_from buf start b"
  by (simp add: find_from_def)

text \<open>What one round of the loop finds, apart from calling a handler.\<close>

datatype look = Waiting | Unreadable | Corrupt | Complete nat nat

definition look_for :: "byte list \<Rightarrow> nat \<Rightarrow> look" where
  "look_for buf start =
     (let pos = find_from buf start 0xC0; hdr = drop pos buf
      in if length buf < pos + sizeof_transport_header then Waiting
         else (case get_full_length hdr of
                 None \<Rightarrow> Unreadable
               | Some full \<Rightarrow>
                   if length buf < pos + full then Waiting
                   else (case check_crc hdr of
                           None \<Rightarrow> Unreadable
                         | Some ok \<Rightarrow> if ok then Complete pos full else Corrupt)))"

lemma recive_loop_look:
  "recive_loop pf buf start fin s =
     (case look_for buf start of
        Waiting \<Rightarrow> (fin, s, Return ())
      | Unreadable \<Rightarrow> (fin, s, Undefined)
      | Corrupt \<Rightarrow> (fin, client_stop s, Return ())
      | Complete pos full \<Rightarrow>
          (case process_message pf (drop pos buf) s of
             (s, Return _) \<Rightarrow> recive_loop pf buf (pos + full) (pos + full) s
           | (s, r) \<Rightarrow> (fin, s, r)))"
proof -
  let ?pos = "find_from buf start 0xC0"
  have le: "length buf \<le> start \<Longrightarrow> length buf \<le> ?pos"
    using find_from_ge order_trans by blast
  have size: "0 < sizeof_transport_header" by (simp add: sizeof_defs)
  show ?thesis
  proof (cases "length buf < ?pos + sizeof_transport_header")
    case True
    then show ?thesis
      using le size by (subst recive_loop.simps) (auto simp: look_for_def Let_def)
  next
    case False
    then have "\<not> length buf \<le> ?pos" "\<not> length buf \<le> start" "\<not> length buf - ?pos < sizeof_transport_header"
      using le size by auto
    with False show ?thesis
      by (subst recive_loop.simps)
        (auto simp: look_for_def Let_def split: option.split)
  qed
qed

lemma look_for_Complete:
  assumes "look_for buf start = Complete pos full"
  shows "start \<le> pos" and "pos + full \<le> length buf" and "6 \<le> full"
    and "get_full_length (drop pos buf) = Some full"
  using assms find_from_ge
  by (auto simp: look_for_def Let_def get_full_length_def sizeof_defs bind_eq_Some_conv
      split: if_splits option.splits)

definition shift_look :: "nat \<Rightarrow> look \<Rightarrow> look" where
  "shift_look k l = (case l of Complete pos full \<Rightarrow> Complete (k + pos) full | _ \<Rightarrow> l)"

lemma find_from_shift: "find_from buf (k + i) b = k + find_from (drop k buf) i b"
  by (simp add: find_from_def add.commute)

lemma look_for_shift:
  assumes "k \<le> length buf"
  shows "look_for buf (k + i) = shift_look k (look_for (drop k buf) i)"
proof -
  have pos: "find_from buf (k + i) 0xC0 = k + find_from (drop k buf) i 0xC0" by (rule find_from_shift)
  have l: "length buf = k + length (drop k buf)" using assms by simp
  show ?thesis
    unfolding look_for_def Let_def pos
    by (subst (1 2) l)
      (simp add: shift_look_def add.commute add.left_commute del: length_drop split: option.split)
qed

text \<open>Bytes already passed do not matter.\<close>

definition shift_result :: "nat \<Rightarrow> nat \<times> 's \<times> 'r \<Rightarrow> nat \<times> 's \<times> 'r" where
  "shift_result k r = (case r of (fin, s, x) \<Rightarrow> (k + fin, s, x))"

lemma recive_loop_shift:
  assumes "k \<le> length buf"
  shows "recive_loop pf buf (k + i) (k + j) s = shift_result k (recive_loop pf (drop k buf) i j s)"
proof (induction "length buf - i" arbitrary: i j s rule: less_induct)
  case less
  note look = look_for_shift [OF assms, of i]
  show ?case
  proof (cases "look_for (drop k buf) i")
    case (Complete pos full)
    have d: "drop (k + pos) buf = drop pos (drop k buf)" by (simp add: add.commute)
    obtain s1 r where p: "process_message pf (drop pos (drop k buf)) s = (s1, r)" by fastforce
    have "length buf - (pos + full) < length buf - i"
      using look_for_Complete [OF Complete] by simp
    from less [OF this, of "pos + full" s1]
    have "recive_loop pf buf (k + pos + full) (k + pos + full) s1 =
        shift_result k (recive_loop pf (drop k buf) (pos + full) (pos + full) s1)"
      by (simp add: add.assoc)
    with Complete look p d show ?thesis
      by (subst (1 2) recive_loop_look)
        (cases r; simp add: shift_look_def shift_result_def del: drop_drop)
  qed (use look in \<open>simp_all add: recive_loop_look [of pf buf] recive_loop_look [of pf "drop k buf"]
      shift_look_def shift_result_def\<close>)
qed

section \<open>Handlers do not read the receiver's state\<close>

definition put_receiver :: "stuff_state \<Rightarrow> byte list \<Rightarrow> 'f session \<Rightarrow> 'f session" where
  "put_receiver st buf s = s\<lparr>se_state := st, se_buffer := buf\<rparr>"

lemma put_receiver_fields [frame_simps]:
  "en_counters (put_receiver st buf s) = en_counters s"
  "en_file (put_receiver st buf s) = en_file s"
  "en_file_opens (put_receiver st buf s) = en_file_opens s"
  "en_backend (put_receiver st buf s) = en_backend s"
  "se_sent (put_receiver st buf s) = se_sent s"
  "se_open (put_receiver st buf s) = se_open s"
  "se_protocol_state (put_receiver st buf s) = se_protocol_state s"
  "se_controller_id (put_receiver st buf s) = se_controller_id s"
  "se_firmware_version (put_receiver st buf s) = se_firmware_version s"
  "se_buffer (put_receiver st buf s) = buf"
  "se_state (put_receiver st buf s) = st"
  by (simp_all add: put_receiver_def)

lemma put_receiver_upd:
  "(put_receiver st buf s)\<lparr>en_backend := b\<rparr> = put_receiver st buf (s\<lparr>en_backend := b\<rparr>)"
  "(put_receiver st buf s)\<lparr>se_sent := x\<rparr> = put_receiver st buf (s\<lparr>se_sent := x\<rparr>)"
  "(put_receiver st buf s)\<lparr>se_open := c\<rparr> = put_receiver st buf (s\<lparr>se_open := c\<rparr>)"
  "(put_receiver st buf s)\<lparr>se_protocol_state := p\<rparr> = put_receiver st buf (s\<lparr>se_protocol_state := p\<rparr>)"
  "(put_receiver st buf s)\<lparr>se_controller_id := i\<rparr> = put_receiver st buf (s\<lparr>se_controller_id := i\<rparr>)"
  "(put_receiver st buf s)\<lparr>se_firmware_version := i\<rparr> = put_receiver st buf (s\<lparr>se_firmware_version := i\<rparr>)"
  "(put_receiver st buf s)\<lparr>en_counters := m\<rparr> = put_receiver st buf (s\<lparr>en_counters := m\<rparr>)"
  "(put_receiver st buf s)\<lparr>en_file := f\<rparr> = put_receiver st buf (s\<lparr>en_file := f\<rparr>)"
  by (simp_all add: put_receiver_def)

lemma put_receiver_again: "put_receiver st buf (put_receiver st' buf' s) = put_receiver st buf s"
  by (simp add: put_receiver_def)

lemma put_receiver_send:
  "send data (put_receiver st buf s) = put_receiver st buf (send data s)"
  "send_delete (put_receiver st buf s) = put_receiver st buf (send_delete s)"
  "send_request (put_receiver st buf s) = put_receiver st buf (send_request s)"
  "client_stop (put_receiver st buf s) = put_receiver st buf (client_stop s)"
  "set_last_counter pf c n (put_receiver st buf s) = put_receiver st buf (set_last_counter pf c n s)"
  by (simp_all add: send_def client_send_def client_stop_def send_delete_def send_request_def set_last_counter_def
      save_counters_def get_last_counter_def Let_def frame_simps put_receiver_upd split: option.split)

lemmas put_receiver_simps = frame_simps put_receiver_upd put_receiver_send

definition on_state :: "('s \<Rightarrow> 's) \<Rightarrow> 's \<times> 'r \<Rightarrow> 's \<times> 'r" where
  "on_state f r = (f (fst r), snd r)"

lemma on_state_pair [simp]: "on_state f (s, r) = (f s, r)"
  by (simp add: on_state_def)

lemma queue_messages_put:
  "queue_messages n msgs (put_receiver st buf s) = on_state (put_receiver st buf) (queue_messages n msgs s)"
proof (induction n msgs s rule: queue_messages.induct)
  case (2 n msg msgs s)
  then show ?case
    by (auto simp: put_receiver_simps get_last_counter_def split: prod.split outcome.split)
qed simp

lemma accept_data_put:
  "accept_data pf hdr (put_receiver st buf s) = on_state (put_receiver st buf) (accept_data pf hdr s)"
proof -
  have "process_info_messages pf hdr (put_receiver st buf s) =
      on_state (put_receiver st buf) (process_info_messages pf hdr s)"
    by (simp add: process_info_messages_def Let_def queue_messages_put split: prod.split outcome.split option.split)
  then show ?thesis
    by (simp add: accept_data_def put_receiver_simps split: prod.split outcome.split option.split)
qed

lemma dispatch_message_put:
  "dispatch_message pf hdr (put_receiver st buf s) = on_state (put_receiver st buf) (dispatch_message pf hdr s)"
  by (simp add: dispatch_message_def process_controller_ident_def process_current_data_def accept_data_put
      process_archive_data_def process_delete_confirmation_def Let_def put_receiver_simps get_last_counter_def
      split: prod.split outcome.split option.split)

lemma process_message_put:
  "process_message pf hdr (put_receiver st buf s) = on_state (put_receiver st buf) (process_message pf hdr s)"
  by (simp add: process_message_def dispatch_message_put put_receiver_simps split: prod.split outcome.split)

definition on_result :: "('s \<Rightarrow> 's) \<Rightarrow> nat \<times> 's \<times> 'r \<Rightarrow> nat \<times> 's \<times> 'r" where
  "on_result f r = (case r of (fin, s, x) \<Rightarrow> (fin, f s, x))"

lemma recive_loop_put:
  "recive_loop pf buf i j (put_receiver st b s) = on_result (put_receiver st b) (recive_loop pf buf i j s)"
proof (induction "length buf - i" arbitrary: i j s rule: less_induct)
  case less
  show ?case
  proof (cases "look_for buf i")
    case (Complete pos full)
    obtain s1 r where p: "process_message pf (drop pos buf) s = (s1, r)" by fastforce
    have "length buf - (pos + full) < length buf - i"
      using look_for_Complete [OF Complete] by simp
    from less [OF this, of "pos + full" s1] Complete p show ?thesis
      by (subst (1 2) recive_loop_look) (cases r; simp add: process_message_put on_result_def)
  qed (simp_all add: recive_loop_look [of pf buf i] on_result_def put_receiver_send)
qed

section \<open>Two reads are one read of the joined bytes\<close>

lemma takeWhile_append_found: "length (takeWhile P xs) < length xs \<Longrightarrow> takeWhile P (xs @ ys) = takeWhile P xs"
  by (induction xs) auto

lemma find_from_append:
  assumes "find_from buf start b < length buf"
  shows "find_from (buf @ post) start b = find_from buf start b"
proof -
  have "start \<le> length buf" using assms find_from_ge [of start buf b] by linarith
  moreover have "length (takeWhile (\<lambda>x. x \<noteq> b) (drop start buf)) < length (drop start buf)"
    using assms by (simp add: find_from_def)
  ultimately show ?thesis by (simp add: find_from_def takeWhile_append_found)
qed

lemma look_for_append:
  "look_for buf start = Complete pos full \<Longrightarrow> look_for (buf @ post) start = Complete pos full"
  "look_for buf start = Corrupt \<Longrightarrow> look_for (buf @ post) start = Corrupt"
proof -
  have found: "look_for (buf @ post) start = look_for buf start"
    if looked: "look_for buf start \<noteq> Waiting" "look_for buf start \<noteq> Unreadable"
  proof -
    define pos where "pos = find_from buf start 0xC0"
    have pos: "pos + 4 \<le> length buf"
      using looked(1) by (simp add: look_for_def Let_def pos_def sizeof_defs not_less split: if_splits)
    then have same: "find_from (buf @ post) start 0xC0 = pos"
      using find_from_append [of buf start "0xC0" post] by (simp add: pos_def)
    obtain full where full: "get_full_length (drop pos buf) = Some full"
      using looked pos by (cases "get_full_length (drop pos buf)")
        (simp_all add: look_for_def Let_def sizeof_defs flip: pos_def)
    have fits: "pos + full \<le> length buf"
      using looked pos full by (simp add: look_for_def Let_def sizeof_defs flip: pos_def split: if_splits)
    obtain ok where ok: "check_crc (drop pos buf) = Some ok"
      using looked pos full fits by (cases "check_crc (drop pos buf)")
        (simp_all add: look_for_def Let_def sizeof_defs flip: pos_def)
    have d: "drop pos (buf @ post) = drop pos buf @ post" using pos by simp
    show ?thesis
      unfolding look_for_def Let_def same pos_def [symmetric] d
      by (simp add: full ok get_full_length_mono [OF full] check_crc_mono [OF ok]) (use pos fits in \<open>simp add: sizeof_defs\<close>)
  qed
  then show "look_for buf start = Complete pos full \<Longrightarrow> look_for (buf @ post) start = Complete pos full"
    and "look_for buf start = Corrupt \<Longrightarrow> look_for (buf @ post) start = Corrupt"
    by simp_all
qed

lemma recive_loop_continue:
  assumes "recive_loop pf buf i i s = (fin, s', Return ())"
  shows "recive_loop pf (buf @ post) i i s = recive_loop pf (buf @ post) fin fin s' \<and> (i \<le> length buf \<longrightarrow> fin \<le> length buf)"
  using assms
proof (induction "length buf - i" arbitrary: i s rule: less_induct)
  case less
  show ?case
  proof (cases "look_for buf i")
    case Waiting
    with less.prems show ?thesis by (simp add: recive_loop_look [of pf buf i])
  next
    case Unreadable
    with less.prems show ?thesis by (simp add: recive_loop_look [of pf buf i])
  next
    case Corrupt
    then have "fin = i" "s' = client_stop s" using less.prems by (simp_all add: recive_loop_look [of pf buf i])
    with look_for_append(2) [OF Corrupt, of post] show ?thesis
      by (simp add: recive_loop_look [of pf "buf @ post" i] client_stop_def)
  next
    case (Complete pos full)
    obtain s1 where p: "process_message pf (drop pos buf) s = (s1, Return ())"
        and rest: "recive_loop pf buf (pos + full) (pos + full) s1 = (fin, s', Return ())"
      using less.prems Complete
      by (auto simp: recive_loop_look [of pf buf i] split: prod.splits outcome.splits)
    note bounds = look_for_Complete [OF Complete]
    then have "length buf - (pos + full) < length buf - i" by simp
    from less.hyps [OF this rest]
    have IH: "recive_loop pf (buf @ post) (pos + full) (pos + full) s1 = recive_loop pf (buf @ post) fin fin s'"
      and fin: "fin \<le> length buf" using bounds by simp_all
    have "process_message pf (drop pos (buf @ post)) s = (s1, Return ())"
      using process_message_mono [of pf "drop pos buf" s post] p bounds by simp
    with look_for_append(1) [OF Complete, of post] IH fin show ?thesis
      by (simp add: recive_loop_look [of pf "buf @ post" i])
  qed
qed

text \<open>Two results are the same but for the receive buffer, which an exception leaves unerased.\<close>

definition same_but_buffer :: "'f session \<times> 'r \<Rightarrow> 'f session \<times> 'r \<Rightarrow> bool" where
  "same_but_buffer r r' \<longleftrightarrow> snd r = snd r' \<and> (fst r)\<lparr>se_buffer := []\<rparr> = (fst r')\<lparr>se_buffer := []\<rparr>"

definition recive_end :: "nat \<times> 'f session \<times> unit outcome \<Rightarrow> 'f session \<times> unit outcome" where
  "recive_end r =
     (case r of (fin, s, Return _) \<Rightarrow> (s\<lparr>se_buffer := drop fin (se_buffer s)\<rparr>, Return ())
              | (fin, s, x) \<Rightarrow> (s, x))"

lemma recive_impl_end:
  "recive_impl pf data s = recive_end (recive_loop pf (se_buffer (store_data data s)) 0 0 (store_data data s))"
  by (simp add: recive_impl_def recive_end_def Let_def split: prod.split outcome.split)

lemma store_data_put:
  "store_data data s = put_receiver (fst (store_bytes (se_state s) [] data))
     (se_buffer s @ snd (store_bytes (se_state s) [] data)) s"
proof -
  obtain st added where b: "store_bytes (se_state s) [] data = (st, added)" by fastforce
  then have "store_bytes (se_state s) (se_buffer s) data = (st, se_buffer s @ added)"
    by (simp add: store_bytes_frame)
  with b show ?thesis by (simp add: store_data_def put_receiver_def)
qed

lemma recive_loop_same_receiver:
  "recive_loop pf buf i j s = (fin, s', r) \<Longrightarrow> same_receiver s s'"
proof (induction "length buf - i" arbitrary: i j s rule: less_induct)
  case less
  show ?case
  proof (cases "look_for buf i")
    case (Complete pos full)
    obtain s1 x where p: "process_message pf (drop pos buf) s = (s1, x)" by fastforce
    have "length buf - (pos + full) < length buf - i"
      using look_for_Complete [OF Complete] by simp
    from less.hyps [OF this, of "pos + full" s1] less.prems Complete p process_message_receiver [OF p]
    show ?thesis
      by (cases x) (auto simp: recive_loop_look [of pf buf i] intro: same_receiver_trans)
  qed (use less.prems in \<open>auto simp: recive_loop_look [of pf buf i] frame_simps\<close>)
qed

lemma recive_split:
  assumes "recive_impl pf a s = (s', Return ())"
  shows "same_but_buffer (recive_impl pf (a @ b) s) (recive_impl pf b s')
    \<and> (snd (recive_impl pf b s') = Return () \<longrightarrow> recive_impl pf (a @ b) s = recive_impl pf b s')"
proof -
  define t where "t = store_data a s"
  define A where "A = se_buffer t"
  obtain st B where sb: "store_bytes (se_state t) [] b = (st, B)" by fastforce
  obtain fin t' where loop: "recive_loop pf A 0 0 t = (fin, t', Return ())"
      and s': "s' = t'\<lparr>se_buffer := drop fin (se_buffer t')\<rparr>"
    using assms
    by (auto simp: recive_impl_end recive_end_def t_def A_def split: prod.splits outcome.splits)
  have t': "se_buffer t' = A" "se_state t' = se_state t"
    using recive_loop_same_receiver [OF loop] by (simp_all add: same_receiver_def A_def)
  have fin: "fin \<le> length A"
    and cont: "recive_loop pf (A @ B) 0 0 t = recive_loop pf (A @ B) fin fin t'"
    using recive_loop_continue [OF loop, of B] by simp_all
  have whole: "store_data (a @ b) s = put_receiver st (A @ B) t"
  proof -
    have "store_data (a @ b) s = store_data b t"
      by (simp add: store_data_def t_def store_bytes_append split: prod.split)
    then show ?thesis using sb by (simp add: store_data_put [of b t] A_def)
  qed
  have next_part: "store_data b s' = put_receiver st (drop fin A @ B) t'"
    unfolding store_data_put [of b s'] using sb t' s' by (simp add: put_receiver_def)
  obtain f2 s2 r2 where rest: "recive_loop pf (drop fin A @ B) 0 0 t' = (f2, s2, r2)"
    by (metis prod_cases3)
  have "recive_loop pf (A @ B) fin fin t' = (fin + f2, s2, r2)"
    using recive_loop_shift [of fin "A @ B" pf 0 0 t'] fin rest by (simp add: shift_result_def)
  then have one: "recive_impl pf (a @ b) s = recive_end (fin + f2, put_receiver st (A @ B) s2, r2)"
    by (simp add: recive_impl_end whole frame_simps recive_loop_put cont on_result_def)
  have two: "recive_impl pf b s' = recive_end (f2, put_receiver st (drop fin A @ B) s2, r2)"
    by (simp add: recive_impl_end next_part frame_simps recive_loop_put rest on_result_def)
  have "drop (fin + f2) (A @ B) = drop f2 (drop fin A @ B)"
    using fin by (simp add: add.commute flip: drop_drop)
  then show ?thesis
    by (cases r2) (simp_all add: one two recive_end_def same_but_buffer_def put_receiver_def)
qed

section \<open>Well-formed frames\<close>

definition wire_frame :: "byte \<times> byte list \<Rightarrow> byte list" where
  "wire_frame f = (case f of (cmd, payload) \<Rightarrow> 0xC0 # concat (map stuff (tl (controller_frame cmd payload))))"

definition frame_bytes :: "byte \<times> byte list \<Rightarrow> byte list" where
  "frame_bytes f = controller_frame (fst f) (snd f)"

definition frame_fits :: "byte \<times> byte list \<Rightarrow> bool" where
  "frame_fits f \<longleftrightarrow> length (snd f) < 0x10000"

fun handle_frames ::
  "('s, 'u, 'f) platform \<Rightarrow> (byte \<times> byte list) list \<Rightarrow> 'f session \<Rightarrow> 'f session \<times> unit outcome" where
  "handle_frames pf [] s = (s, Return ())"
| "handle_frames pf (f # fs) s =
     (case process_message pf (frame_bytes f) s of
        (s, Return _) \<Rightarrow> handle_frames pf fs s
      | (s, r) \<Rightarrow> (s, r))"

text \<open>One call of \<^verbatim>\<open>recive\<close> per read of the socket, until one throws.\<close>

fun recive_all ::
  "('s, 'u, 'f) platform \<Rightarrow> byte list list \<Rightarrow> 'f session \<Rightarrow> 'f session \<times> unit outcome" where
  "recive_all pf [] s = (s, Return ())"
| "recive_all pf (c # cs) s =
     (case recive_impl pf c s of
        (s, Return _) \<Rightarrow> recive_all pf cs s
      | (s, r) \<Rightarrow> (s, r))"

definition idle_receiver :: "'f session \<Rightarrow> bool" where
  "idle_receiver s \<longleftrightarrow> se_buffer s = [] \<and> se_state s = normal"

lemma frame_bytes_Cons: "\<exists>rest. frame_bytes f = 0xC0 # rest"
  by (simp add: frame_bytes_def controller_frame_def)

lemma length_frame_bytes: "length (frame_bytes f) = length (snd f) + 6"
  by (simp add: frame_bytes_def)

lemma store_wire_frame: "store_bytes normal buffer (wire_frame f) = (normal, buffer @ frame_bytes f)"
proof -
  obtain cmd payload where f: "f = (cmd, payload)" by fastforce
  have "store_bytes normal buffer (0xC0 # concat (map stuff (tl (controller_frame cmd payload)))) =
      (normal, (buffer @ [0xC0]) @ tl (controller_frame cmd payload))"
    using store_bytes_append [of normal buffer "[0xC0]"] store_delimiter store_stuffed by simp
  then show ?thesis by (simp add: f wire_frame_def frame_bytes_def controller_frame_def)
qed

lemma store_wire_frames:
  "store_bytes normal buffer (concat (map wire_frame fs)) = (normal, buffer @ concat (map frame_bytes fs))"
proof (induction fs arbitrary: buffer)
  case (Cons f fs)
  then show ?case by (simp add: store_bytes_append store_wire_frame)
qed (simp add: store_bytes_def)

lemma look_for_frame:
  assumes "frame_fits f"
  shows "look_for (frame_bytes f @ post) 0 = Complete 0 (length (frame_bytes f))"
proof -
  have "find_from (frame_bytes f @ post) 0 0xC0 = 0"
    using frame_bytes_Cons [of f] by (auto simp: find_from_def)
  moreover have "get_full_length (frame_bytes f @ post) = Some (length (frame_bytes f))"
    using assms by (simp add: frame_bytes_def frame_full_length frame_fits_def)
  moreover have "check_crc (frame_bytes f @ post) = Some True"
    using assms by (simp add: frame_bytes_def frame_check_crc frame_fits_def)
  ultimately show ?thesis
    by (simp add: look_for_def Let_def sizeof_defs length_frame_bytes)
qed

lemma look_for_partial_frame:
  assumes "frame_fits f" and "n < length (frame_bytes f)"
  shows "look_for (take n (frame_bytes f)) 0 = Waiting"
proof (cases "n < 4")
  case True
  then show ?thesis
    using find_from_ge [of 0 "take n (frame_bytes f)" "0xC0"] by (simp add: look_for_def Let_def sizeof_defs min_def)
next
  case False
  have pos: "find_from (take n (frame_bytes f)) 0 0xC0 = 0"
    using False frame_bytes_Cons [of f] by (cases n) (auto simp: find_from_def)
  have full: "get_full_length (frame_bytes f) = Some (length (frame_bytes f))"
    using assms frame_full_length [of "snd f" "fst f" "[]"] by (simp add: frame_bytes_def frame_fits_def)
  have "hdr_data_len (take n (frame_bytes f)) = hdr_data_len (frame_bytes f)"
    using False assms(2) by (simp add: hdr_data_len_def rd16_def)
  then have "get_full_length (take n (frame_bytes f)) = Some (length (frame_bytes f))"
    using full by (simp add: get_full_length_def)
  with pos False assms(2) show ?thesis by (simp add: look_for_def Let_def sizeof_defs)
qed

lemma recive_loop_empty [simp]: "recive_loop pf [] i j s = (j, s, Return ())"
  by (simp add: recive_loop.simps [of pf "[]"])

text \<open>The loop over the first \<open>n\<close> bytes of the frames handles the frames that are complete.\<close>

lemma recive_loop_prefix:
  assumes "list_all frame_fits fs" and "handle_frames pf fs s = (s', Return ())"
  shows "\<exists>fin s1. recive_loop pf (take n (concat (map frame_bytes fs))) 0 0 s = (fin, s1, Return ())
    \<and> (length (concat (map frame_bytes fs)) \<le> n \<longrightarrow> fin = length (concat (map frame_bytes fs)) \<and> s1 = s')"
  using assms
proof (induction fs arbitrary: n s)
  case (Cons f fs)
  let ?f = "frame_bytes f" and ?rest = "concat (map frame_bytes fs)"
  have fit: "frame_fits f" using Cons.prems(1) by simp
  show ?case
  proof (cases "n < length ?f")
    case True
    then have "recive_loop pf (take n (concat (map frame_bytes (f # fs)))) 0 0 s = (0, s, Return ())"
      using look_for_partial_frame [OF fit True] by (simp add: recive_loop_look)
    with True show ?thesis by simp
  next
    case False
    then have buf: "take n (concat (map frame_bytes (f # fs))) = ?f @ take (n - length ?f) ?rest" by simp
    obtain s1 where p: "process_message pf ?f s = (s1, Return ())"
        and rest: "handle_frames pf fs s1 = (s', Return ())"
      using Cons.prems(2) by (auto split: prod.splits outcome.splits)
    from Cons.IH [OF _ rest, of "n - length ?f"] Cons.prems(1) obtain fin s2 where
      IH: "recive_loop pf (take (n - length ?f) ?rest) 0 0 s1 = (fin, s2, Return ())"
        "length ?rest \<le> n - length ?f \<longrightarrow> fin = length ?rest \<and> s2 = s'" by auto
    have "process_message pf (?f @ take (n - length ?f) ?rest) s = (s1, Return ())"
      using process_message_mono [of pf ?f s] p by simp
    then have "recive_loop pf (?f @ take (n - length ?f) ?rest) 0 0 s =
        recive_loop pf (?f @ take (n - length ?f) ?rest) (length ?f) (length ?f) s1"
      using look_for_frame [OF fit] by (subst recive_loop_look) simp
    also have "\<dots> = (length ?f + fin, s2, Return ())"
      using recive_loop_shift [of "length ?f" "?f @ take (n - length ?f) ?rest" pf 0 0 s1] IH(1)
      by (simp add: shift_result_def)
    finally show ?thesis using buf IH(2) False by auto
  qed
qed simp

section \<open>A stream of frames, however it is cut\<close>

lemma store_bytes_prefix:
  assumes "store_bytes st [] (a @ b) = (st', out)"
  shows "\<exists>n. snd (store_bytes st [] a) = take n out"
proof -
  obtain st1 out1 where a: "store_bytes st [] a = (st1, out1)" by fastforce
  obtain st2 out2 where b: "store_bytes st1 [] b = (st2, out2)" by fastforce
  then have "store_bytes st1 out1 b = (st2, out1 @ out2)" by (simp add: store_bytes_frame)
  with assms a have "out = out1 @ out2" by (simp add: store_bytes_append)
  with a show ?thesis by (intro exI [of _ "length out1"]) simp
qed

lemma handle_frames_put:
  "handle_frames pf fs (put_receiver st buf s) = on_state (put_receiver st buf) (handle_frames pf fs s)"
proof (induction fs arbitrary: s)
  case (Cons f fs)
  then show ?case by (auto simp: process_message_put split: prod.split outcome.split)
qed simp

lemma recive_prefix_returns:
  assumes "list_all frame_fits fs" and "handle_frames pf fs s = (s', Return ())" and "idle_receiver s"
    and "a @ b = concat (map wire_frame fs)"
  shows "\<exists>s1. recive_impl pf a s = (s1, Return ())"
proof -
  have idle: "se_buffer s = []" "se_state s = normal" using assms(3) by (simp_all add: idle_receiver_def)
  have "store_bytes normal [] (a @ b) = (normal, concat (map frame_bytes fs))"
    using store_wire_frames [of "[]" fs] assms(4) by simp
  from store_bytes_prefix [OF this] obtain n where
    n: "snd (store_bytes normal [] a) = take n (concat (map frame_bytes fs))" by blast
  obtain st where st: "store_data a s = put_receiver st (take n (concat (map frame_bytes fs))) s"
    using n idle by (simp add: store_data_put)
  have "handle_frames pf fs (store_data a s) =
      (put_receiver st (take n (concat (map frame_bytes fs))) s', Return ())"
    by (simp add: st handle_frames_put assms(2))
  from recive_loop_prefix [OF assms(1) this, of n] show ?thesis
    by (auto simp: recive_impl_end recive_end_def st frame_simps)
qed

lemma recive_frames:
  assumes "list_all frame_fits fs" and "handle_frames pf fs s = (s', Return ())" and "idle_receiver s"
  shows "recive_impl pf (concat (map wire_frame fs)) s = (s', Return ())" and "idle_receiver s'"
proof -
  let ?all = "concat (map frame_bytes fs)"
  have idle: "se_buffer s = []" "se_state s = normal" using assms(3) by (simp_all add: idle_receiver_def)
  have put: "put_receiver normal [] s = s" using idle by (simp add: put_receiver_def)
  then have s': "s' = put_receiver normal [] s'"
    using handle_frames_put [of pf fs normal "[]" s] assms(2) by simp
  then show "idle_receiver s'" by (metis idle_receiver_def put_receiver_fields(10,11))
  have st: "store_data (concat (map wire_frame fs)) s = put_receiver normal ?all s"
    using idle by (simp add: store_data_put store_wire_frames)
  have "handle_frames pf fs (put_receiver normal ?all s) = (put_receiver normal ?all s', Return ())"
    by (simp add: handle_frames_put assms(2))
  from recive_loop_prefix [OF assms(1) this, of "length ?all"]
  have "recive_loop pf ?all 0 0 (put_receiver normal ?all s) = (length ?all, put_receiver normal ?all s', Return ())"
    by auto
  moreover have "(put_receiver normal ?all s')\<lparr>se_buffer := []\<rparr> = s'"
    by (subst (2) s') (simp add: put_receiver_def)
  ultimately show "recive_impl pf (concat (map wire_frame fs)) s = (s', Return ())"
    by (simp add: recive_impl_end recive_end_def st frame_simps)
qed

lemma recive_all_snoc:
  "recive_all pf (cs @ [c]) s =
     (case recive_all pf cs s of (s, Return _) \<Rightarrow> recive_impl pf c s | (s, r) \<Rightarrow> (s, r))"
  by (induction cs arbitrary: s) (auto split: prod.split outcome.split)

lemma recive_all_frames:
  assumes "list_all frame_fits fs" and "handle_frames pf fs s = (s', Return ())" and "idle_receiver s"
    and "concat cs @ b = concat (map wire_frame fs)"
  shows "recive_all pf cs s = recive_impl pf (concat cs) s"
  using assms(4)
proof (induction cs arbitrary: b rule: rev_induct)
  case Nil
  from assms(3) show ?case
    by (simp add: recive_impl_end recive_end_def store_data_def store_bytes_def idle_receiver_def)
next
  case (snoc c cs)
  from snoc.prems have "concat cs @ (c @ b) = concat (map wire_frame fs)" by simp
  from recive_prefix_returns [OF assms(1-3) this] snoc.IH [OF this] obtain s1
    where one: "recive_impl pf (concat cs) s = (s1, Return ())"
      and all: "recive_all pf cs s = (s1, Return ())" by auto
  from recive_prefix_returns [OF assms(1-3) snoc.prems] obtain s2
    where two: "recive_impl pf (concat cs @ c) s = (s2, Return ())" by auto
  from recive_split [OF one, of c] two have "recive_impl pf c s1 = (s2, Return ())"
    by (auto simp: same_but_buffer_def)
  with all two show ?case by (simp add: recive_all_snoc)
qed

end
