(* ===== verification/Protocol_Facts.thy ===== *)
theory Protocol_Facts
  imports Protocol_Framing
begin

text \<open>
  What the handlers do to the state that matters outside the connection: the queue of messages,
  the counters and their file, and the replies. The point of the protocol is that a controller is
  told to delete messages only when they are in the queue: a delete carries the counter of the
  controller, and a counter only moves when all texts of a data message have been queued.
\<close>

section \<open>Queueing\<close>

fun numbered_texts :: "u32 \<Rightarrow> u32 \<Rightarrow> int \<Rightarrow> string list \<Rightarrow> string list" where
  "numbered_texts cid fw n [] = []"
| "numbered_texts cid fw n (m # ms) = numbered_text cid fw n m # numbered_texts cid fw (n + 1) ms"

lemma length_numbered_texts [simp]: "length (numbered_texts cid fw n ms) = length ms"
  by (induction ms arbitrary: n) simp_all

lemma nth_numbered_texts: "i < length ms \<Longrightarrow> numbered_texts cid fw n ms ! i = numbered_text cid fw (n + int i) (ms ! i)"
  by (induction ms arbitrary: n i) (auto simp: nth_Cons' algebra_simps)

definition queue_room :: "nat \<Rightarrow> 'f session \<Rightarrow> bool" where
  "queue_room k s \<longleftrightarrow> length (be_messages (en_backend s)) + k \<le> be_max_messages (en_backend s)"

definition put_queue :: "string list \<Rightarrow> 'f session \<Rightarrow> 'f session" where
  "put_queue ms s = s\<lparr>en_backend := (en_backend s)\<lparr>be_messages := be_messages (en_backend s) @ ms\<rparr>\<rparr>"

lemma put_queue_simps [simp]:
  "put_queue [] s = s"
  "put_queue ms (put_queue ms' s) = put_queue (ms' @ ms) s"
  "se_controller_id (put_queue ms s) = se_controller_id s"
  "se_firmware_version (put_queue ms s) = se_firmware_version s"
  "se_protocol_state (put_queue ms s) = se_protocol_state s"
  "se_sent (put_queue ms s) = se_sent s"
  "se_open (put_queue ms s) = se_open s"
  "en_counters (put_queue ms s) = en_counters s"
  "en_file (put_queue ms s) = en_file s"
  "en_file_opens (put_queue ms s) = en_file_opens s"
  by (simp_all add: put_queue_def)

lemma queue_messages_fit:
  assumes "queue_room (length ms) s" and "n + int (length ms) \<le> 2 ^ 31"
  shows "queue_messages n ms s =
    (put_queue (numbered_texts (se_controller_id s) (se_firmware_version s) n ms) s, Return ())"
  using assms
proof (induction ms arbitrary: n s)
  case (Cons m ms)
  let ?t = "numbered_text (se_controller_id s) (se_firmware_version s) n m"
  have add: "add_message ?t (en_backend s) =
      (en_backend (put_queue [?t] s), Return (Suc (length (be_messages (en_backend s)))))"
    using Cons.prems(1) by (simp add: add_message_def queue_room_def put_queue_def)
  have "queue_room (length ms) (put_queue [?t] s)"
    using Cons.prems(1) by (simp add: queue_room_def put_queue_def)
  from Cons.IH [OF this, of "n + 1"] Cons.prems(2)
  have "queue_messages (n + 1) ms (put_queue [?t] s) =
      (put_queue (?t # numbered_texts (se_controller_id s) (se_firmware_version s) (n + 1) ms) s, Return ())"
    by simp
  then show ?case using Cons.prems(2) by (simp add: add) (simp add: put_queue_def)
qed simp

text \<open>A queue that cannot take all of them takes those it has room for.\<close>

definition free_places :: "'f session \<Rightarrow> nat" where
  "free_places s = be_max_messages (en_backend s) - length (be_messages (en_backend s))"

lemma queue_messages_overflow:
  assumes "within_capacity (en_backend s)" and "\<not> queue_room (length ms) s" and "n + int (length ms) \<le> 2 ^ 31"
  shows "queue_messages n ms s =
    (put_queue (take (free_places s) (numbered_texts (se_controller_id s) (se_firmware_version s) n ms)) s,
     Throw (Overflow_error ''Message buffer capacity exceeded''))"
  using assms
proof (induction ms arbitrary: n s)
  case (Cons m ms)
  let ?t = "numbered_text (se_controller_id s) (se_firmware_version s) n m"
  show ?case
  proof (cases "be_max_messages (en_backend s) \<le> length (be_messages (en_backend s))")
    case True
    with Cons.prems(3) show ?thesis by (simp add: add_message_def free_places_def)
  next
    case False
    have add: "add_message ?t (en_backend s) =
        (en_backend (put_queue [?t] s), Return (Suc (length (be_messages (en_backend s)))))"
      using False by (simp add: add_message_def put_queue_def)
    have upd: "s\<lparr>en_backend := en_backend (put_queue [?t] s)\<rparr> = put_queue [?t] s" by (simp add: put_queue_def)
    have places: "free_places s = Suc (free_places (put_queue [?t] s))"
      using False by (simp add: free_places_def put_queue_def)
    have "within_capacity (en_backend (put_queue [?t] s))" "\<not> queue_room (length ms) (put_queue [?t] s)"
      using False Cons.prems(2) by (simp_all add: within_capacity_def queue_room_def put_queue_def)
    from Cons.IH [OF this, of "n + 1"] Cons.prems(3) show ?thesis by (simp add: add upd places)
  qed
qed (simp add: queue_room_def within_capacity_def)

text \<open>However it ends, queueing only appends some of the texts to the queue.\<close>

lemma queue_messages_prefix:
  "queue_messages n ms s = (s', r) \<Longrightarrow>
   \<exists>k. s' = put_queue (take k (numbered_texts (se_controller_id s) (se_firmware_version s) n ms)) s
     \<and> (r = Return () \<longrightarrow> k = length ms)"
proof (induction n ms s rule: queue_messages.induct)
  case (2 n m ms s)
  let ?t = "numbered_text (se_controller_id s) (se_firmware_version s) n m"
  show ?case
  proof (cases "n \<ge> 2 ^ 31 \<or> be_max_messages (en_backend s) \<le> length (be_messages (en_backend s))")
    case True
    with "2.prems" show ?thesis
      by (intro exI [of _ 0]) (auto simp: add_message_def split: if_splits)
  next
    case False
    then have add: "add_message ?t (en_backend s) =
        (en_backend (put_queue [?t] s), Return (Suc (length (be_messages (en_backend s)))))"
      by (simp add: add_message_def put_queue_def)
    have upd: "s\<lparr>en_backend := en_backend (put_queue [?t] s)\<rparr> = put_queue [?t] s"
      by (simp add: put_queue_def)
    have "\<not> 2 ^ 31 \<le> n" using False by simp
    from "2.IH" [OF this add [symmetric] refl] "2.prems" False add upd obtain k where
      "s' = put_queue (take k (numbered_texts (se_controller_id s) (se_firmware_version s) (n + 1) ms)) (put_queue [?t] s)"
      "r = Return () \<longrightarrow> k = length ms" by auto
    then show ?thesis by (intro exI [of _ "Suc k"]) simp
  qed
qed simp

section \<open>Data messages: all or nothing\<close>

definition package_texts ::
  "('s, 'u, 'f) platform \<Rightarrow> byte list \<Rightarrow> string list \<times> unit outcome" where
  "package_texts pf hdr = parse_info_package (pf_runtime pf) (pf_parse pf) hdr []"

text \<open>
  The texts a data message puts in the queue. The last of \<open>k\<close> texts gets the number \<open>num - 1\<close>, the
  first \<open>num - k\<close>.
\<close>

definition data_texts ::
  "('s, 'u, 'f) platform \<Rightarrow> byte list \<Rightarrow> u32 \<Rightarrow> 'f session \<Rightarrow> string list" where
  "data_texts pf hdr num s =
     (let texts = fst (package_texts pf hdr)
      in numbered_texts (se_controller_id s) (se_firmware_version s)
           (sint (num - of_nat (length texts))) texts)"

lemma accept_data_Return:
  assumes "accept_data pf hdr s = (s', Return ())"
  shows "\<exists>num. resp_last_mes_number hdr = Some num \<and> snd (package_texts pf hdr) = Return ()
    \<and> s' = set_last_counter pf (se_controller_id s) num (put_queue (data_texts pf hdr num s) s)"
proof -
  obtain s1 num where info: "process_info_messages pf hdr s = (s1, Return ())"
      and num: "resp_last_mes_number hdr = Some num"
      and s': "s' = set_last_counter pf (se_controller_id s1) num s1"
    using assms by (auto simp: accept_data_def split: prod.splits outcome.splits option.splits)
  obtain texts where texts: "package_texts pf hdr = (texts, Return ())"
      and q: "queue_messages (sint (num - of_nat (length texts))) texts s = (s1, Return ())"
    using info num by (auto simp: process_info_messages_def package_texts_def Let_def
        split: prod.splits outcome.splits option.splits)
  from queue_messages_prefix [OF q] have "s1 = put_queue (data_texts pf hdr num s) s"
    by (auto simp: data_texts_def texts)
  with num texts s' show ?thesis by auto
qed

lemma accept_data_fails:
  assumes "accept_data pf hdr s = (s', r)" and "r \<noteq> Return ()"
  shows "en_counters s' = en_counters s" and "en_file s' = en_file s" and "se_sent s' = se_sent s"
    and "se_protocol_state s' = se_protocol_state s" and "se_controller_id s' = se_controller_id s"
  using assms queue_messages_prefix
  by (auto simp: accept_data_def process_info_messages_def Let_def
      split: prod.splits outcome.splits option.splits) fastforce+

section \<open>Replies\<close>

definition wire :: "byte list \<Rightarrow> byte list" where
  "wire data = (case send_buffer data of Some buffer \<Rightarrow> buffer | None \<Rightarrow> [])"

lemma send_data: "data \<noteq> [] \<Longrightarrow> send data s = s\<lparr>se_sent := se_sent s @ [wire data]\<rparr>"
  by (cases data) (simp_all add: send_def wire_def client_send_def send_buffer_Cons)

lemma message_bytes_nonempty [simp]: "delete_data_bytes n \<noteq> []" "data_request_bytes n \<noteq> []"
  by (simp_all add: delete_data_bytes_def data_request_bytes_def header_bytes_def)

lemma send_delete_eq:
  "send_delete s =
     (if get_last_counter (se_controller_id s) s = 0 then s
      else s\<lparr>se_sent := se_sent s @ [wire (delete_data_bytes (get_last_counter (se_controller_id s) s))]\<rparr>)"
  by (simp add: send_delete_def send_data Let_def)

definition request_number :: "u32 \<Rightarrow> u32" where
  "request_number counter = (if counter = 0 then 0 else counter + 1)"

lemma send_request_eq:
  "send_request s =
     s\<lparr>se_sent := se_sent s @ [wire (data_request_bytes (request_number (get_last_counter (se_controller_id s) s)))]\<rparr>"
  by (simp add: send_request_def send_data request_number_def Let_def)

lemma set_last_counter_eq:
  "set_last_counter pf cid n s =
     (if en_file_opens s
      then s\<lparr>en_counters := (en_counters s)(cid \<mapsto> n), en_file := Some (pf_archive_write pf ((en_counters s)(cid \<mapsto> n)))\<rparr>
      else s\<lparr>en_counters := (en_counters s)(cid \<mapsto> n)\<rparr>)" for s :: "'f session"
  by (simp add: set_last_counter_def save_counters_def)

lemma set_last_counter_fields [simp]:
  fixes s :: "'f session"
  shows "en_counters (set_last_counter pf cid n s) = (en_counters s)(cid \<mapsto> n)"
    and "se_sent (set_last_counter pf cid n s) = se_sent s"
    and "se_controller_id (set_last_counter pf cid n s) = se_controller_id s"
    and "se_protocol_state (set_last_counter pf cid n s) = se_protocol_state s"
    and "en_backend (set_last_counter pf cid n s) = en_backend s"
    and "se_open (set_last_counter pf cid n s) = se_open s"
  by (simp_all add: set_last_counter_eq)

section \<open>Deletes\<close>

text \<open>
  What one message may do: the counters stay, or the counter of this controller becomes the number
  of a data message whose texts are all in the queue; and then at most one reply is sent, a delete
  with the counter of this controller, which is not 0, or a request.
\<close>

definition counter_step ::
  "('s, 'u, 'f) platform \<Rightarrow> byte list \<Rightarrow> 'f session \<Rightarrow> 'f session \<Rightarrow> bool" where
  "counter_step pf hdr s s' \<longleftrightarrow>
     en_counters s' = en_counters s
     \<or> (\<exists>num queued. resp_last_mes_number hdr = Some num \<and> snd (package_texts pf hdr) = Return ()
          \<and> be_messages (en_backend s') = be_messages (en_backend s) @ queued
          \<and> queued = data_texts pf hdr num s
          \<and> en_counters s' = (en_counters s)(se_controller_id s \<mapsto> num))"

definition reply_step :: "'f session \<Rightarrow> 'f session \<Rightarrow> bool" where
  "reply_step s s' \<longleftrightarrow>
     (let n = get_last_counter (se_controller_id s') s'
      in se_sent s' = se_sent s
         \<or> n \<noteq> 0 \<and> se_sent s' = se_sent s @ [wire (delete_data_bytes n)]
         \<or> se_sent s' = se_sent s @ [wire (data_request_bytes (request_number n))])"

lemma put_queue_messages [simp]:
  "be_messages (en_backend (put_queue ms s)) = be_messages (en_backend s) @ ms"
  by (simp add: put_queue_def)

lemma accept_data_step:
  assumes "accept_data pf hdr s = (s', r)"
  shows "counter_step pf hdr s s'" and "se_sent s' = se_sent s" and "se_controller_id s' = se_controller_id s"
    and "se_protocol_state s' = se_protocol_state s"
proof -
  have "counter_step pf hdr s s' \<and> se_sent s' = se_sent s \<and> se_controller_id s' = se_controller_id s
      \<and> se_protocol_state s' = se_protocol_state s"
  proof (cases "r = Return ()")
    case True
    with accept_data_Return [of pf hdr s s'] assms show ?thesis
      by (auto simp: counter_step_def)
  next
    case False
    from accept_data_fails [OF assms False] show ?thesis by (simp add: counter_step_def)
  qed
  then show "counter_step pf hdr s s'" "se_sent s' = se_sent s" "se_controller_id s' = se_controller_id s"
    "se_protocol_state s' = se_protocol_state s" by simp_all
qed

lemma send_delete_step:
  "en_counters (send_delete s) = en_counters s" "se_controller_id (send_delete s) = se_controller_id s"
  "en_backend (send_delete s) = en_backend s" "reply_step s (send_delete s)"
  by (simp_all add: send_delete_eq reply_step_def get_last_counter_def Let_def)

lemma send_request_step:
  "en_counters (send_request s) = en_counters s" "se_controller_id (send_request s) = se_controller_id s"
  "en_backend (send_request s) = en_backend s" "reply_step s (send_request s)"
  by (simp_all add: send_request_eq reply_step_def get_last_counter_def Let_def)

lemma reply_step_upd [simp]: "reply_step s (s'\<lparr>se_protocol_state := p\<rparr>) = reply_step s s'"
  "reply_step s (s'\<lparr>se_open := c\<rparr>) = reply_step s s'"
  "reply_step (s\<lparr>se_controller_id := i, se_firmware_version := v\<rparr>) s' = reply_step s s'"
  by (simp_all add: reply_step_def get_last_counter_def)

lemma reply_step_from: "se_sent s1 = se_sent s \<Longrightarrow> reply_step s1 s' \<Longrightarrow> reply_step s s'"
  by (simp add: reply_step_def)

lemma dispatch_message_step:
  assumes "dispatch_message pf hdr s = (s', r)"
  shows "counter_step pf hdr s s' \<and> reply_step s s'"
proof -
  have same: "counter_step pf hdr s s \<and> reply_step s s"
    by (simp add: counter_step_def reply_step_def Let_def)
  have after_ident:
    "reply_step s (send_delete (s\<lparr>se_controller_id := c, se_firmware_version := v\<rparr>))"
    "reply_step s (send_request (s\<lparr>se_controller_id := c, se_firmware_version := v\<rparr>))" for c v
    using send_delete_step(4) [of "s\<lparr>se_controller_id := c, se_firmware_version := v\<rparr>"]
      send_request_step(4) [of "s\<lparr>se_controller_id := c, se_firmware_version := v\<rparr>"]
    by (simp_all only: reply_step_upd)
  have ident: "counter_step pf hdr s s' \<and> reply_step s s'" if "process_controller_ident hdr s = (s', r)"
    using that same after_ident
    by (auto simp: process_controller_ident_def Let_def counter_step_def send_delete_step send_request_step
        split: outcome.splits option.splits if_splits)
  have confirm: "counter_step pf hdr s s' \<and> reply_step s s'" if "process_delete_confirmation s = (s', r)"
    using that same
    by (auto simp: process_delete_confirmation_def counter_step_def send_request_step split: if_splits)
  have data: "counter_step pf hdr s s1 \<and> reply_step s s1" if "accept_data pf hdr s = (s1, r1)" for s1 r1
    using accept_data_step [OF that] by (simp add: reply_step_def Let_def)
  have archive: "counter_step pf hdr s s' \<and> reply_step s s'" if "process_archive_data pf hdr s = (s', r)"
    using that same data
    by (auto simp: process_archive_data_def counter_step_def send_delete_step split: option.splits if_splits)
  have current: "counter_step pf hdr s s' \<and> reply_step s s'" if cur: "process_current_data pf hdr s = (s', r)"
  proof -
    obtain s1 r1 where a: "accept_data pf hdr s = (s1, r1)" by fastforce
    have "s' = (send_delete s1)\<lparr>se_protocol_state := wait_final_delete_confirm\<rparr> \<or> s' = s1"
      using cur a by (cases r1) (auto simp: process_current_data_def)
    then show ?thesis
      using data [OF a] accept_data_step(2) [OF a] reply_step_from [of s1 s "send_delete s1"]
      by (auto simp: counter_step_def send_delete_step)
  qed
  from assms same ident confirm archive current show ?thesis
    by (auto simp: dispatch_message_def split: option.splits if_splits)
qed

lemma client_stop_step:
  "counter_step pf hdr s (client_stop s') = counter_step pf hdr s s'"
  "reply_step s (client_stop s') = reply_step s s'"
  by (simp_all add: client_stop_def counter_step_def)

lemma process_message_step:
  "process_message pf hdr s = (s', r) \<Longrightarrow> counter_step pf hdr s s' \<and> reply_step s s'"
  using dispatch_message_step [of pf hdr s]
  by (auto simp: process_message_def client_stop_step split: prod.splits outcome.splits)

section \<open>States and errors\<close>

lemma send_state [simp]:
  "se_protocol_state (send_delete s) = se_protocol_state s"
  "se_protocol_state (send_request s) = se_protocol_state s"
  "se_open (send_delete s) = se_open s"
  "se_open (send_request s) = se_open s"
  by (simp_all add: send_delete_eq send_request_eq)

lemma process_message_state:
  assumes "process_message pf hdr s = (s', r)"
  shows "se_protocol_state s' \<in> {se_protocol_state s, process_archive, wait_initial_delete_confirm, wait_final_delete_confirm}"
  using assms accept_data_step(4) [of pf hdr s]
  by (auto simp: process_message_def dispatch_message_def process_controller_ident_def process_current_data_def
      process_archive_data_def process_delete_confirmation_def client_stop_def Let_def
      split: prod.splits outcome.splits option.splits if_splits)

lemma process_message_Throw: "process_message pf hdr s = (s', Throw e) \<Longrightarrow> \<not> se_open s'"
  by (auto simp: process_message_def client_stop_def split: prod.splits outcome.splits)

lemma recive_loop_induct:
  assumes "recive_loop pf buf i j s = (fin, s', r)" and "P s"
    and "\<And>hdr s s' r. P s \<Longrightarrow> process_message pf hdr s = (s', r) \<Longrightarrow> P s'"
    and "\<And>s. P s \<Longrightarrow> P (client_stop s)"
  shows "P s'"
  using assms(1,2)
proof (induction "length buf - i" arbitrary: i j s rule: less_induct)
  case less
  show ?case
  proof (cases "look_for buf i")
    case (Complete pos full)
    obtain s1 x where p: "process_message pf (drop pos buf) s = (s1, x)" by fastforce
    have "length buf - (pos + full) < length buf - i"
      using look_for_Complete [OF Complete] by simp
    from less.hyps [OF this, of "pos + full" s1] less.prems Complete p assms(3) [OF less.prems(2) p]
    show ?thesis by (cases x) (auto simp: recive_loop_look [of pf buf i])
  qed (use less.prems assms(4) in \<open>auto simp: recive_loop_look [of pf buf i]\<close>)
qed

lemma recive_impl_induct:
  assumes "recive_impl pf data s = (s', r)" and "P s"
    and "\<And>hdr s s' r. P s \<Longrightarrow> process_message pf hdr s = (s', r) \<Longrightarrow> P s'"
    and "\<And>s. P s \<Longrightarrow> P (client_stop s)"
    and "\<And>st buf s. P s \<Longrightarrow> P (put_receiver st buf s)"
  shows "P s'"
proof -
  obtain fin s1 x where loop: "recive_loop pf (se_buffer (store_data data s)) 0 0 (store_data data s) = (fin, s1, x)"
    by (metis prod_cases3)
  have "P (store_data data s)" using assms(5) [OF assms(2)] by (simp add: store_data_put)
  from recive_loop_induct [OF loop this assms(3) assms(4)] have "P s1" .
  moreover have "s1\<lparr>se_buffer := b\<rparr> = put_receiver (se_state s1) b s1" for b by (simp add: put_receiver_def)
  ultimately show ?thesis
    using assms(1,5) loop by (cases x) (auto simp: recive_impl_end recive_end_def)
qed

lemma recive_loop_Throw:
  "recive_loop pf buf i j s = (fin, s', Throw e) \<Longrightarrow> \<not> se_open s'"
proof (induction "length buf - i" arbitrary: i j s rule: less_induct)
  case less
  show ?case
  proof (cases "look_for buf i")
    case (Complete pos full)
    obtain s1 x where p: "process_message pf (drop pos buf) s = (s1, x)" by fastforce
    have "length buf - (pos + full) < length buf - i"
      using look_for_Complete [OF Complete] by simp
    from less.hyps [OF this, of "pos + full" s1] less.prems Complete p process_message_Throw [of pf "drop pos buf" s]
    show ?thesis by (cases x) (auto simp: recive_loop_look [of pf buf i])
  qed (use less.prems in \<open>auto simp: recive_loop_look [of pf buf i]\<close>)
qed

lemma recive_impl_Throw: "recive_impl pf data s = (s', Throw e) \<Longrightarrow> \<not> se_open s'"
  by (auto simp: recive_impl_end recive_end_def split: prod.splits outcome.splits dest: recive_loop_Throw)

section \<open>Reading the fields of a frame\<close>

lemma sizeof_values:
  "sizeof_transport_header = 4" "sizeof_controller_ident = 12" "sizeof_data_request = 8"
  "sizeof_data_response = 13" "sizeof_info_message = 2"
  by (simp_all add: sizeof_defs)

lemma rd32_drop: "k \<le> length mem \<Longrightarrow> rd32 mem (k + i) = rd32 (drop k mem) i"
  by (auto simp: rd32_def add.assoc)

definition frame_crc :: "byte \<Rightarrow> byte list \<Rightarrow> byte list" where
  "frame_crc cmd payload =
     [ucast (drop_bit 8 (crc16 (frame_body cmd payload))), ucast (crc16 (frame_body cmd payload))]"

lemma frame_payload: "drop 4 (controller_frame cmd payload) = payload @ frame_crc cmd payload"
  by (simp add: controller_frame_def frame_body_def frame_crc_def le16_def)

lemma frame_rd32: "rd32 (controller_frame cmd payload) (4 + i) = rd32 (payload @ frame_crc cmd payload) i"
  by (simp add: rd32_drop frame_payload)

lemma frame_im_data: "resp_im_data (controller_frame cmd payload) = drop 9 (payload @ frame_crc cmd payload)"
  using frame_payload [of cmd payload] drop_drop [of 9 4 "controller_frame cmd payload"]
  by (simp add: resp_im_data_def sizeof_values)

lemma rd32_first: "rd32 (le32 x @ post) 0 = Some x"
  using rd32_le32 [of "[]" x post] by simp

lemma rd32_second: "rd32 (le32 x @ le32 y @ post) 4 = Some y"
  using rd32_le32 [of "le32 x" y post] by simp

section \<open>Messages of a controller\<close>

definition ident_frame :: "u32 \<Rightarrow> u32 \<Rightarrow> byte \<times> byte list" where
  "ident_frame cid fw = (c_controller_ident, le32 cid @ le32 fw)"

definition confirm_frame :: "u32 \<Rightarrow> byte \<times> byte list" where
  "confirm_frame n = (c_delete_confirm, le32 n)"

definition data_payload :: "u32 \<Rightarrow> u32 \<Rightarrow> byte \<Rightarrow> byte list list \<Rightarrow> byte list" where
  "data_payload num time priority ds = le32 num @ le32 time @ [priority] @ encode_records ds"

definition archive_frame :: "u32 \<Rightarrow> u32 \<Rightarrow> byte \<Rightarrow> byte list list \<Rightarrow> byte \<times> byte list" where
  "archive_frame num time priority ds = (c_archive_data, data_payload num time priority ds)"

definition current_frame :: "u32 \<Rightarrow> u32 \<Rightarrow> byte \<Rightarrow> byte list list \<Rightarrow> byte \<times> byte list" where
  "current_frame num time priority ds = (c_current_data, data_payload num time priority ds)"

definition end_frame :: "byte \<times> byte list" where
  "end_frame = (c_archive_data, [])"

lemmas frame_defs = ident_frame_def confirm_frame_def archive_frame_def current_frame_def end_frame_def

lemma frame_data_len0: "hdr_data_len (controller_frame cmd payload) = Some (of_nat (length payload))"
  using frame_data_len [of cmd payload "[]"] by simp

lemma frame_cmd0: "hdr_cmd (controller_frame cmd payload) = Some cmd"
  using frame_cmd [of cmd payload "[]"] by simp

lemma frame_check_length:
  "length payload < 0x10000 \<Longrightarrow> check_length n (controller_frame cmd payload) =
     (if length payload + 6 < n then Throw (Length_error ''Wrong message size'') else Return ())"
  by (simp add: check_length_def frame_data_len0 unat_of_nat_u16 sizeof_values)

lemma process_ident_frame:
  "process_message pf (frame_bytes (ident_frame cid fw)) s =
     (let s = s\<lparr>se_controller_id := cid, se_firmware_version := fw\<rparr>
      in (if get_last_counter cid s = 0 then (send_request s)\<lparr>se_protocol_state := process_archive\<rparr>
          else (send_delete s)\<lparr>se_protocol_state := wait_initial_delete_confirm\<rparr>, Return ()))"
proof -
  let ?m = "controller_frame c_controller_ident (le32 cid @ le32 fw)"
  have "ident_controller_id ?m = Some cid" "ident_firmware_version ?m = Some fw"
    using frame_rd32 [of c_controller_ident "le32 cid @ le32 fw" 0]
      frame_rd32 [of c_controller_ident "le32 cid @ le32 fw" 4]
    by (simp_all add: ident_controller_id_def ident_firmware_version_def sizeof_values rd32_first rd32_second)
  then show ?thesis
    by (simp add: frame_bytes_def ident_frame_def process_message_def dispatch_message_def frame_cmd0
        process_controller_ident_def frame_check_length sizeof_values Let_def)
qed

lemma process_confirm_frame:
  "process_message pf (frame_bytes (confirm_frame n)) s = process_delete_confirmation s"
  by (simp add: frame_bytes_def confirm_frame_def process_message_def dispatch_message_def frame_cmd0
      tm_code_defs process_delete_confirmation_def)

lemma process_end_frame:
  "process_message pf (frame_bytes end_frame) s =
     ((send_delete s)\<lparr>se_protocol_state := wait_final_delete_confirm\<rparr>, Return ())"
  by (simp add: frame_bytes_def end_frame_def process_message_def dispatch_message_def frame_cmd0
      tm_code_defs process_archive_data_def frame_data_len0)

definition platform_texts :: "('s, 'u, 'f) platform \<Rightarrow> byte list list \<Rightarrow> string list" where
  "platform_texts pf ds =
     record_texts (pf_parse pf) (message_texts (pf_runtime pf) (extract_message (pf_runtime pf))) ds"

definition payload_fits :: "byte list list \<Rightarrow> bool" where
  "payload_fits ds \<longleftrightarrow> length (encode_records ds) + 9 < 0x10000"

lemma payload_fits_records: "payload_fits ds \<Longrightarrow> list_all record_fits ds"
proof (induction ds)
  case (Cons d ds)
  then show ?case by (simp add: payload_fits_def record_fits_def)
qed simp

lemma data_frame_texts:
  assumes "payload_fits ds"
  shows "package_texts pf (controller_frame cmd (data_payload num time priority ds)) = (platform_texts pf ds, Return ())"
    and "resp_last_mes_number (controller_frame cmd (data_payload num time priority ds)) = Some num"
proof -
  let ?p = "data_payload num time priority ds"
  have len: "length ?p = length (encode_records ds) + 9" by (simp add: data_payload_def)
  then have short: "length ?p < 0x10000" using assms by (simp add: payload_fits_def)
  have n: "unat (of_nat (length ?p) :: u16) = length ?p" by (rule unat_of_nat_u16 [OF short])
  have "get_im_length (controller_frame cmd ?p) = Some (of_nat (unat (of_nat (length ?p) :: u16) - 9))"
    by (rule im_length_value [OF frame_data_len0]) (use n len in simp)
  then have "get_im_length (controller_frame cmd ?p) = Some (of_nat (length ?p - 9))"
    by (simp only: n)
  moreover have "unat (of_nat (length ?p - 9) :: u64) = length (encode_records ds)"
    using short len by (simp add: unat_of_nat take_bit_nat_eq_self)
  moreover have "resp_im_data (controller_frame cmd ?p) = encode_records ds @ frame_crc cmd ?p"
    by (simp add: frame_im_data data_payload_def)
  ultimately show "package_texts pf (controller_frame cmd ?p) = (platform_texts pf ds, Return ())"
    by (simp add: package_texts_def parse_info_package_def platform_texts_def
        info_loop_complete [OF payload_fits_records [OF assms] refl])
  show "resp_last_mes_number (controller_frame cmd ?p) = Some num"
    using frame_rd32 [of cmd ?p 0] rd32_first [of num]
    by (simp add: resp_last_mes_number_def sizeof_values data_payload_def)
qed

text \<open>The texts a data frame queues, and when that succeeds.\<close>

definition frame_texts ::
  "('s, 'u, 'f) platform \<Rightarrow> u32 \<Rightarrow> byte list list \<Rightarrow> 'f session \<Rightarrow> string list" where
  "frame_texts pf num ds s =
     numbered_texts (se_controller_id s) (se_firmware_version s)
       (sint (num - of_nat (length (platform_texts pf ds)))) (platform_texts pf ds)"

definition can_queue ::
  "('s, 'u, 'f) platform \<Rightarrow> u32 \<Rightarrow> byte list list \<Rightarrow> 'f session \<Rightarrow> bool" where
  "can_queue pf num ds s \<longleftrightarrow>
     payload_fits ds \<and> queue_room (length (platform_texts pf ds)) s
     \<and> sint (num - of_nat (length (platform_texts pf ds))) + int (length (platform_texts pf ds)) \<le> 2 ^ 31"

lemma accept_data_frame:
  assumes "can_queue pf num ds s"
  shows "accept_data pf (controller_frame cmd (data_payload num time priority ds)) s =
    (set_last_counter pf (se_controller_id s) num (put_queue (frame_texts pf num ds s) s), Return ())"
proof -
  have fits: "payload_fits ds" using assms by (simp add: can_queue_def)
  have len: "length (data_payload num time priority ds) < 0x10000"
      "9 \<le> length (data_payload num time priority ds)"
    using fits by (simp_all add: data_payload_def payload_fits_def)
  have "process_info_messages pf (controller_frame cmd (data_payload num time priority ds)) s =
      (put_queue (frame_texts pf num ds s) s, Return ())"
    using data_frame_texts(1) [OF fits, of pf cmd num time priority]
      data_frame_texts(2) [OF fits, of cmd num time priority] assms
    by (simp add: process_info_messages_def package_texts_def Let_def frame_texts_def can_queue_def queue_messages_fit)
  with len data_frame_texts(2) [OF fits, of cmd num time priority] show ?thesis
    by (simp add: accept_data_def frame_check_length sizeof_values)
qed

lemma process_archive_frame:
  assumes "can_queue pf num ds s"
  shows "process_message pf (frame_bytes (archive_frame num time priority ds)) s =
    (set_last_counter pf (se_controller_id s) num (put_queue (frame_texts pf num ds s) s), Return ())"
proof -
  have "length (data_payload num time priority ds) < 0x10000" "9 \<le> length (data_payload num time priority ds)"
    using assms by (simp_all add: data_payload_def payload_fits_def can_queue_def)
  then have "(0 :: u16) \<noteq> of_nat (length (data_payload num time priority ds))"
    using unat_of_nat_u16 [of "length (data_payload num time priority ds)"] by (metis le_zero_eq unat_0 zero_neq_numeral)
  then show ?thesis
    using accept_data_frame [OF assms]
    by (simp add: frame_bytes_def archive_frame_def process_message_def dispatch_message_def frame_cmd0
        tm_code_defs process_archive_data_def frame_data_len0)
qed

text \<open>
  The same frame when the queue has too little room: the texts before the overflow stay in the queue.
\<close>

definition overflows ::
  "('s, 'u, 'f) platform \<Rightarrow> u32 \<Rightarrow> byte list list \<Rightarrow> 'f session \<Rightarrow> bool" where
  "overflows pf num ds s \<longleftrightarrow>
     payload_fits ds \<and> within_capacity (en_backend s) \<and> \<not> queue_room (length (platform_texts pf ds)) s
     \<and> sint (num - of_nat (length (platform_texts pf ds))) + int (length (platform_texts pf ds)) \<le> 2 ^ 31"

lemma process_archive_overflow:
  assumes "overflows pf num ds s"
  shows "process_message pf (frame_bytes (archive_frame num time priority ds)) s =
    (client_stop (put_queue (take (free_places s) (frame_texts pf num ds s)) s),
     Throw (Overflow_error ''Message buffer capacity exceeded''))"
proof -
  let ?p = "data_payload num time priority ds"
  have fits: "payload_fits ds" using assms by (simp add: overflows_def)
  have len: "length ?p < 0x10000" "9 \<le> length ?p" using fits by (simp_all add: data_payload_def payload_fits_def)
  then have "(0 :: u16) \<noteq> of_nat (length ?p)"
    using unat_of_nat_u16 [of "length ?p"] by (metis le_zero_eq unat_0 zero_neq_numeral)
  moreover have "process_info_messages pf (controller_frame c_archive_data ?p) s =
      (put_queue (take (free_places s) (frame_texts pf num ds s)) s,
       Throw (Overflow_error ''Message buffer capacity exceeded''))"
    using data_frame_texts(1) [OF fits, of pf c_archive_data num time priority]
      data_frame_texts(2) [OF fits, of c_archive_data num time priority] assms
    by (simp add: process_info_messages_def package_texts_def Let_def frame_texts_def overflows_def queue_messages_overflow)
  ultimately show ?thesis using len
    by (simp add: frame_bytes_def archive_frame_def process_message_def dispatch_message_def frame_cmd0
        tm_code_defs process_archive_data_def frame_data_len0 accept_data_def frame_check_length sizeof_values)
qed

lemma process_current_frame:
  assumes "can_queue pf num ds s"
  shows "process_message pf (frame_bytes (current_frame num time priority ds)) s =
    ((send_delete (set_last_counter pf (se_controller_id s) num (put_queue (frame_texts pf num ds s) s)))
       \<lparr>se_protocol_state := wait_final_delete_confirm\<rparr>, Return ())"
  using accept_data_frame [OF assms]
  by (simp add: frame_bytes_def current_frame_def process_message_def dispatch_message_def frame_cmd0
      tm_code_defs process_current_data_def)

section \<open>Damaged frames\<close>

text \<open>The bytes of a message as they go over the wire: the first as it is, the others stuffed.\<close>

definition wire_bytes :: "byte list \<Rightarrow> byte list" where
  "wire_bytes bs = (case bs of [] \<Rightarrow> [] | b # rest \<Rightarrow> b # concat (map stuff rest))"

lemma wire_frame_bytes: "wire_frame f = wire_bytes (frame_bytes f)"
  by (simp add: wire_frame_def wire_bytes_def frame_bytes_def controller_frame_def split: prod.split)

lemma store_wire_bytes:
  "store_bytes normal buffer (wire_bytes (0xC0 # rest)) = (normal, buffer @ 0xC0 # rest)"
proof -
  have "store_bytes normal buffer (0xC0 # concat (map stuff rest)) = (normal, (buffer @ [0xC0]) @ rest)"
    using store_bytes_append [of normal buffer "[0xC0]"] store_delimiter store_stuffed by simp
  then show ?thesis by (simp add: wire_bytes_def)
qed

text \<open>One wrong byte in the command or in the data, with the length field intact.\<close>

definition damaged :: "byte \<times> byte list \<Rightarrow> nat \<Rightarrow> byte \<Rightarrow> byte list" where
  "damaged f i b = (frame_bytes f)[i := b]"

definition damages :: "byte \<times> byte list \<Rightarrow> nat \<Rightarrow> byte \<Rightarrow> bool" where
  "damages f i b \<longleftrightarrow> (i = 1 \<or> 4 \<le> i \<and> i < length (snd f) + 4) \<and> b \<noteq> frame_bytes f ! i"

lemma damaged_check_crc:
  assumes "frame_fits f" and "damages f i b"
  shows "check_crc (damaged f i b) = Some False" and "get_full_length (damaged f i b) = Some (length (frame_bytes f))"
proof -
  obtain cmd payload where f: "f = (cmd, payload)" by fastforce
  let ?body = "frame_body cmd payload" and ?m = "damaged f i b"
  have len: "length ?body = length payload + 3" by (simp add: frame_body_def)
  have i: "0 < i" "i - 1 < length ?body" "i \<noteq> 2" "i \<noteq> 3"
    using assms(2) len by (auto simp: damages_def f)
  have bytes: "frame_bytes f = 0xC0 # ?body @ frame_crc cmd payload"
    by (simp add: f frame_bytes_def controller_frame_def frame_crc_def)
  have m: "?m = 0xC0 # ?body[i - 1 := b] @ frame_crc cmd payload"
    using i by (cases i) (simp_all add: damaged_def bytes list_update_append)
  have data_len: "hdr_data_len ?m = Some (of_nat (length payload))"
  proof -
    have "hdr_data_len ?m = hdr_data_len (frame_bytes f)"
      using i(3,4) by (simp add: hdr_data_len_def rd16_def damaged_def)
    then show ?thesis using frame_data_len0 [of cmd payload] by (simp add: f frame_bytes_def)
  qed
  have n: "unat (of_nat (length payload) :: u16) = length payload"
    using assms(1) by (intro unat_of_nat_u16) (simp add: frame_fits_def f)
  show "get_full_length ?m = Some (length (frame_bytes f))"
    by (simp add: get_full_length_def data_len n sizeof_values length_frame_bytes) (simp add: f)
  have stored: "get_crc ?m = Some (crc16 ?body)"
    unfolding get_crc_def data_len rd8_def
    by (simp add: m n sizeof_values len nth_append frame_crc_def join_crc)
  have computed: "calc_crc ?m = Some (crc16 (?body[i - 1 := b]))"
    unfolding calc_crc_def data_len by (simp add: m n len)
  have "?body ! (i - 1) \<noteq> b"
    using assms(2) i by (cases i) (auto simp: damages_def bytes nth_append)
  then have "crc16 ?body \<noteq> crc16 (?body[i - 1 := b])"
    using crc16_one_byte_error [of "take (i - 1) ?body" "?body ! (i - 1)" "drop (Suc (i - 1)) ?body" b]
      id_take_nth_drop [OF i(2)] upd_conv_take_nth_drop [OF i(2), of b] by metis
  with stored computed show "check_crc ?m = Some False" by (simp add: check_crc_def)
qed

lemma recive_damaged:
  assumes "frame_fits f" and "damages f i b" and "idle_receiver s"
  shows "recive_impl pf (wire_bytes (damaged f i b)) s =
    ((client_stop s)\<lparr>se_buffer := damaged f i b\<rparr>, Return ())"
proof -
  let ?m = "damaged f i b"
  have idle: "se_buffer s = []" "se_state s = normal" using assms(3) by (simp_all add: idle_receiver_def)
  obtain rest where rest: "?m = 0xC0 # rest"
    using frame_bytes_Cons [of f] assms(2) by (cases i) (auto simp: damaged_def damages_def)
  have st: "store_data (wire_bytes ?m) s = put_receiver normal ?m s"
    using idle store_wire_bytes [of "[]" rest] by (simp add: store_data_put rest)
  have "find_from ?m 0 0xC0 = 0" by (simp add: find_from_def rest)
  then have "look_for ?m 0 = Corrupt"
    using damaged_check_crc [OF assms(1,2)]
    by (simp add: look_for_def Let_def sizeof_values) (simp add: damaged_def length_frame_bytes)
  then have "recive_loop pf ?m 0 0 (put_receiver normal ?m s) = (0, client_stop (put_receiver normal ?m s), Return ())"
    by (simp add: recive_loop_look)
  with idle show ?thesis
    by (simp add: recive_impl_end recive_end_def st frame_simps client_stop_def put_receiver_def)
qed

section \<open>Messages shorter than their structure\<close>

lemma short_data_undefined:
  assumes "length payload = 7 \<or> length payload = 8" and "cmd = c_archive_data \<or> cmd = c_current_data"
    and "length post < 2 ^ 62"
  shows "snd (process_message pf (controller_frame cmd payload @ post) s) = Undefined"
proof -
  let ?m = "controller_frame cmd payload @ post"
  have short: "length payload < 0x10000" using assms(1) by auto
  have n: "hdr_data_len ?m = Some (of_nat (length payload))" by (rule frame_data_len)
  have u: "unat (of_nat (length payload) :: u16) = length payload" by (rule unat_of_nat_u16 [OF short])
  obtain len where len: "get_im_length ?m = Some len" "unat len = 2 ^ 64 - 9 + length payload"
    using im_length_wraps [OF n] u assms(1) by auto
  have mem: "length (resp_im_data ?m) + 0x10000 < unat len"
    using len(2) assms(1,3) by (auto simp: resp_im_data_def sizeof_values)
  have "snd (package_texts pf ?m) = Undefined"
    using info_loop_beyond [OF mem, of 0] by (simp add: package_texts_def parse_info_package_def len(1))
  then have "snd (process_info_messages pf ?m s) = Undefined"
    by (auto simp: process_info_messages_def package_texts_def split: prod.splits outcome.splits)
  moreover have "check_length sizeof_data_response ?m = Return ()"
    using assms(1) by (auto simp: check_length_def n u sizeof_values)
  ultimately obtain s1 where acc: "accept_data pf ?m s = (s1, Undefined)"
    by (cases "process_info_messages pf ?m s") (simp add: accept_data_def)
  have nonzero: "of_nat (length payload) \<noteq> (0 :: u16)"
    using u assms(1) by (metis unat_0 zero_neq_numeral)
  have "dispatch_message pf ?m s = (s1, Undefined)"
    using assms(2) nonzero n acc
    by (elim disjE) (simp_all add: dispatch_message_def frame_cmd process_archive_data_def process_current_data_def
        tm_code_defs)
  then show ?thesis by (simp add: process_message_def)
qed

lemma short_ident_reads_crc:
  assumes "length payload = 6"
  shows "check_length sizeof_controller_ident (controller_frame c_controller_ident payload) = Return ()"
    and "\<exists>v. ident_firmware_version (controller_frame c_controller_ident payload) = Some v
      \<and> [ucast (drop_bit 16 v), ucast (drop_bit 24 v)] = frame_crc c_controller_ident payload"
proof -
  show "check_length sizeof_controller_ident (controller_frame c_controller_ident payload) = Return ()"
    using assms by (simp add: frame_check_length sizeof_values)
  obtain a b where crc: "frame_crc c_controller_ident payload = [a, b]" by (simp add: frame_crc_def)
  have "ident_firmware_version (controller_frame c_controller_ident payload) = rd32 (payload @ [a, b]) 4"
    using frame_rd32 [of c_controller_ident payload 4] by (simp add: ident_firmware_version_def sizeof_values crc)
  also have "\<dots> = Some (ucast (payload ! 4) OR push_bit 8 (ucast (payload ! 5))
      OR push_bit 16 (ucast a) OR push_bit 24 (ucast b))"
    using assms by (simp add: rd32_def nth_append)
  finally obtain v where v: "ident_firmware_version (controller_frame c_controller_ident payload) = Some v"
    "v = ucast (payload ! 4) OR push_bit 8 (ucast (payload ! 5)) OR push_bit 16 (ucast a) OR push_bit 24 (ucast b)"
    by blast
  have "ucast (drop_bit 16 v) = a" "ucast (drop_bit 24 v) = b"
    unfolding v(2) using bit_imp_le_length [of "payload ! 4"] bit_imp_le_length [of "payload ! 5"] bit_imp_le_length [of a]
    by (fastforce intro!: bit_word_eqI simp: bit_simps)+
  with v(1) crc show "\<exists>v. ident_firmware_version (controller_frame c_controller_ident payload) = Some v
      \<and> [ucast (drop_bit 16 v), ucast (drop_bit 24 v)] = frame_crc c_controller_ident payload" by auto
qed

end
