(* ===== verification/Client.thy ===== *)
theory Client
  imports Protocol_Facts
begin

text \<open>
  \<^verbatim>\<open>client.cpp\<close> and \<^verbatim>\<open>protocol_base.cpp\<close>: one connection. boost.asio is outside: an asynchronous
  operation that was started is a flag, and its completion is a call of the handler with an error
  code and, for a read, the bytes it put in \<^verbatim>\<open>async_buffer_\<close>. The protocol of a client is the session
  the record extends; \<^verbatim>\<open>protocol_base_t\<close> only forwards to it. \<open>cl_manipulator\<close> says whether its pointer
  to the client is set, \<open>cl_written\<close> counts the writes that have completed: the buffers after them in
  \<open>se_sent\<close> are being sent.

  Closing a socket does not call handlers; the operations pending at that moment complete later
  with \<^verbatim>\<open>operation_aborted\<close>. \<^verbatim>\<open>endpoint\<close> is \<open>None\<close> when \<^verbatim>\<open>remote_endpoint()\<close> throws.
\<close>

datatype error_code = Success | Operation_aborted | Other_error

record 'f client = "'f session" +
  cl_endpoint_name :: string
  cl_manipulator :: bool
  cl_perm_buffer :: "byte list"
  cl_reading :: bool
  cl_written :: nat

definition async_buffer_size :: nat where
  "async_buffer_size = 8192"

text \<open>\<^verbatim>\<open>protocol_base_impl_t<transport_protocol_t>::create\<close>, the function the server is given.\<close>

definition protocol_create :: "'f env \<Rightarrow> 'f session" where
  "protocol_create e = transport_protocol_new e"

text \<open>\<^verbatim>\<open>perm_buffer_\<close> starts as zeros.\<close>

definition client_new :: "'f session \<Rightarrow> 'f client" where
  "client_new impl = session.extend impl (client.fields [] False (replicate async_buffer_size 0) False 0)"

definition client_create :: "'f session \<Rightarrow> 'f client" where
  "client_create impl = client_new impl"

text \<open>The session inside a client, and putting one back.\<close>

definition cl_session :: "'f client \<Rightarrow> 'f session" where
  "cl_session c = session.truncate c"

definition cl_put :: "'f session \<Rightarrow> 'f client \<Rightarrow> 'f client" where
  "cl_put s c = session.extend s (client.fields (cl_endpoint_name c) (cl_manipulator c) (cl_perm_buffer c) (cl_reading c)
     (cl_written c))"

definition client_close :: "'f client \<Rightarrow> 'f client" where
  "client_close c = cl_put (client_stop (cl_session c)) c"

text \<open>
  \<^verbatim>\<open>protocol_base_t::init\<close>, \<^verbatim>\<open>get_manipulator\<close>, \<^verbatim>\<open>connect\<close> and \<^verbatim>\<open>recive\<close>. The protocol calls
  \<^verbatim>\<open>get_manipulator\<close> whenever it sends; without a client it asserts, or hands out a null pointer. The
  virtual functions \<^verbatim>\<open>init_impl\<close> and \<^verbatim>\<open>connect_impl\<close> of \<^verbatim>\<open>transport_protocol_t\<close> do nothing.
\<close>

definition init_impl :: "'f client \<Rightarrow> 'f client" where
  [simp]: "init_impl c = c"

definition connect_impl :: "'f client \<Rightarrow> 'f client" where
  [simp]: "connect_impl c = c"

definition protocol_init :: "'f client \<Rightarrow> 'f client" where
  "protocol_init c = (let c = c\<lparr>cl_manipulator := True\<rparr> in init_impl c)"

definition get_manipulator :: "'f client \<Rightarrow> unit outcome" where
  "get_manipulator c = (if cl_manipulator c then Return () else Undefined)"

definition protocol_connect :: "'f client \<Rightarrow> 'f client" where
  "protocol_connect c = connect_impl c"

definition protocol_recive ::
  "('s, 'u, 'f) platform \<Rightarrow> byte list \<Rightarrow> 'f client \<Rightarrow> 'f client \<times> unit outcome" where
  "protocol_recive pf data c =
     (case recive_impl pf data (cl_session c) of (s, r) \<Rightarrow> (cl_put s c, r))"

definition client_start :: "string option \<Rightarrow> 'f client \<Rightarrow> 'f client" where
  "client_start endpoint c =
     (case endpoint of
        Some name \<Rightarrow> (protocol_init (c\<lparr>cl_endpoint_name := name\<rparr>))\<lparr>cl_reading := True\<rparr>
      | None \<Rightarrow> client_close c)"

text \<open>
  \<^verbatim>\<open>handle_read\<close>: the completed read is no longer pending; the next one is started before the bytes
  are given to the protocol. Every exception is caught, and closes the connection.
\<close>

definition handle_read ::
  "('s, 'u, 'f) platform \<Rightarrow> error_code \<Rightarrow> byte list \<Rightarrow> 'f client \<Rightarrow> 'f client \<times> unit outcome" where
  "handle_read pf error data c =
     (let c = c\<lparr>cl_reading := False\<rparr>
      in if error = Success then
           (if 0 < length data \<and> length data < async_buffer_size then
              (let c = c\<lparr>cl_perm_buffer := data, cl_reading := True\<rparr>
               in case protocol_recive pf data c of
                    (c, Return _) \<Rightarrow> (c, Return ())
                  | (c, Throw e) \<Rightarrow> (client_close c, Return ())
                  | (c, Undefined) \<Rightarrow> (c, Undefined))
            else (client_close c, Return ()))
         else if error \<noteq> Operation_aborted then (client_close c, Return ())
         else (c, Return ()))"

definition handle_write :: "error_code \<Rightarrow> 'f client \<Rightarrow> 'f client" where
  "handle_write error c =
     (if error = Success then c else if error \<noteq> Operation_aborted then client_close c else c)"

section \<open>Facts\<close>

lemma cl_put_fields [simp]:
  "cl_session (cl_put s c) = s"
  "cl_reading (cl_put s c) = cl_reading c"
  "cl_perm_buffer (cl_put s c) = cl_perm_buffer c"
  "cl_endpoint_name (cl_put s c) = cl_endpoint_name c"
  "cl_manipulator (cl_put s c) = cl_manipulator c"
  "cl_written (cl_put s c) = cl_written c"
  "se_open (cl_put s c) = se_open s"
  "se_sent (cl_put s c) = se_sent s"
  "en_counters (cl_put s c) = en_counters s"
  "en_backend (cl_put s c) = en_backend s"
  "se_controller_id (cl_put s c) = se_controller_id s"
  by (simp_all add: cl_put_def cl_session_def session.defs client.defs)

lemma cl_session_fields [simp]:
  "se_open (cl_session c) = se_open c"
  "se_sent (cl_session c) = se_sent c"
  "en_counters (cl_session c) = en_counters c"
  "en_backend (cl_session c) = en_backend c"
  "en_file (cl_session c) = en_file c"
  "se_controller_id (cl_session c) = se_controller_id c"
  by (simp_all add: cl_session_def session.defs)

lemma cl_session_upd [simp]:
  "cl_session (c\<lparr>cl_reading := r\<rparr>) = cl_session c"
  "cl_session (c\<lparr>cl_perm_buffer := b\<rparr>) = cl_session c"
  "cl_session (c\<lparr>cl_endpoint_name := n\<rparr>) = cl_session c"
  "cl_session (c\<lparr>cl_manipulator := m\<rparr>) = cl_session c"
  "cl_session (c\<lparr>cl_written := w\<rparr>) = cl_session c"
  by (simp_all add: cl_session_def session.defs)

lemma client_close_fields [simp]:
  "\<not> se_open (client_close c)" "cl_reading (client_close c) = cl_reading c"
  "se_sent (client_close c) = se_sent c" "en_counters (client_close c) = en_counters c"
  "en_backend (client_close c) = en_backend c"
  "cl_manipulator (client_close c) = cl_manipulator c" "cl_written (client_close c) = cl_written c"
  "cl_session (client_close c) = client_stop (cl_session c)"
  by (simp_all add: client_close_def) (simp_all add: client_stop_def)

text \<open>A client that is open is waiting for data.\<close>

definition waiting_if_open :: "'f client \<Rightarrow> bool" where
  "waiting_if_open c \<longleftrightarrow> (se_open c \<longrightarrow> cl_reading c)"

lemma client_start_waits: "waiting_if_open (client_start endpoint c)"
  by (simp add: waiting_if_open_def client_start_def protocol_init_def split: option.split)

lemma waiting_upd [simp]: "waiting_if_open (c\<lparr>cl_written := w\<rparr>) = waiting_if_open c"
  by (simp add: waiting_if_open_def)

lemma handle_write_waits: "waiting_if_open c \<Longrightarrow> waiting_if_open (handle_write error c)"
  by (simp add: waiting_if_open_def handle_write_def)

lemma handle_read_outcome:
  assumes "handle_read pf error data c = (c', r)"
  shows "r = Return () \<or> r = Undefined"
    and "r = Return () \<Longrightarrow> error \<noteq> Operation_aborted \<Longrightarrow> waiting_if_open c'"
  using assms
  by (auto simp: handle_read_def protocol_recive_def waiting_if_open_def Let_def
      split: prod.splits outcome.splits if_splits)

text \<open>
  The shape of a client: a read is only started after the protocol was given its client, and no more
  writes complete than were started.
\<close>

definition client_wf :: "'f client \<Rightarrow> bool" where
  "client_wf c \<longleftrightarrow> (cl_reading c \<longrightarrow> cl_manipulator c) \<and> cl_written c \<le> length (se_sent c)"

lemma client_wf_new: "client_wf (client_new s)"
  by (simp add: client_wf_def client_new_def session.defs client.defs)

lemma client_wf_close: "client_wf c \<Longrightarrow> client_wf (client_close c)"
  by (simp add: client_wf_def)

lemma client_wf_start: "client_wf c \<Longrightarrow> client_wf (client_start endpoint c)"
  by (simp add: client_wf_def client_start_def protocol_init_def split: option.split)

lemma recive_impl_sent:
  assumes "recive_impl pf data s = (s', r)"
  shows "length (se_sent s) \<le> length (se_sent s')"
proof (rule recive_impl_induct [OF assms, where P = "\<lambda>x. length (se_sent s) \<le> length (se_sent x)"])
  fix hdr x x' q assume "length (se_sent s) \<le> length (se_sent x)" and "process_message pf hdr x = (x', q)"
  then show "length (se_sent s) \<le> length (se_sent x')"
    using process_message_step [of pf hdr x x' q] by (auto simp: reply_step_def Let_def)
qed (simp_all add: client_stop_def put_receiver_def)

lemma client_wf_read:
  assumes "handle_read pf error data c = (c', r)" and "client_wf c" and "cl_manipulator c"
  shows "client_wf c' \<and> cl_manipulator c'"
  using assms recive_impl_sent [of pf data "cl_session c"]
  by (fastforce simp: handle_read_def protocol_recive_def client_wf_def Let_def
      split: prod.splits outcome.splits if_splits)

lemma client_wf_write:
  "client_wf c \<Longrightarrow> cl_written c < length (se_sent c) \<Longrightarrow>
   client_wf (handle_write error (c\<lparr>cl_written := Suc (cl_written c)\<rparr>))"
  by (simp add: client_wf_def handle_write_def)

lemma handle_read_data:
  assumes "0 < length data" and "length data < async_buffer_size"
  shows "handle_read pf Success data c =
    (let c1 = c\<lparr>cl_perm_buffer := data, cl_reading := True\<rparr>
     in case recive_impl pf data (cl_session c) of
          (s, Return _) \<Rightarrow> (cl_put s c1, Return ())
        | (s, Throw e) \<Rightarrow> (client_close (cl_put s c1), Return ())
        | (s, Undefined) \<Rightarrow> (cl_put s c1, Undefined))"
proof -
  have "(c\<lparr>cl_reading := False\<rparr>)\<lparr>cl_perm_buffer := data, cl_reading := True\<rparr> =
      c\<lparr>cl_perm_buffer := data, cl_reading := True\<rparr>" by simp
  with assms show ?thesis
    by (simp add: handle_read_def protocol_recive_def Let_def split: prod.split outcome.split)
qed

end
