(* ===== verification/Oracle.thy ===== *)
theory Oracle
  imports Backend
begin

text \<open>
  The storages of \<^verbatim>\<open>backends/oracle.cpp\<close> and \<^verbatim>\<open>backends/rabbitmq.cpp\<close>, and the choice between them
  in \<^verbatim>\<open>backends/factory.cpp\<close>. The database client OCCI is a parameter, the record \<open>occi\<close>: its calls
  act on a state \<open>'d\<close> of the database and can throw. A statement that the code creates, runs and
  terminates in one scope is one call here. A null \<^verbatim>\<open>shared_ptr\<close> is \<open>None\<close>; calling through it is
  \<open>Undefined\<close>.
\<close>

section \<open>The database client\<close>

record ('c, 'd) occi =
  oc_create_connection :: "string \<Rightarrow> string \<Rightarrow> string \<Rightarrow> 'd \<Rightarrow> 'd \<times> 'c outcome"
  oc_terminate_connection :: "'c \<Rightarrow> 'd \<Rightarrow> 'd"
  oc_query_int :: "'c \<Rightarrow> string \<Rightarrow> 'd \<Rightarrow> 'd \<times> int option outcome"
  oc_update :: "'c \<Rightarrow> string \<Rightarrow> string \<Rightarrow> 'd \<Rightarrow> 'd \<times> unit outcome"
  oc_commit :: "'c \<Rightarrow> 'd \<Rightarrow> 'd \<times> unit outcome"

text \<open>\<^verbatim>\<open>std::string::c_str()\<close> read as a C string: up to the first zero byte.\<close>

definition c_str :: "string \<Rightarrow> string" where
  "c_str s = takeWhile (\<lambda>c. c \<noteq> CHR 0x00) s"

text \<open>The three handlers every function of the class ends with.\<close>

fun as_runtime_error :: "string \<Rightarrow> exn \<Rightarrow> exn" where
  "as_runtime_error unexpected Thread_interrupted = Runtime_error unexpected"
| "as_runtime_error unexpected Other_exception = Runtime_error unexpected"
| "as_runtime_error unexpected e = Runtime_error (what e)"

section \<open>\<open>oracle_t\<close>\<close>

record ('c, 'd) oracle_state =
  or_login :: string
  or_password :: string
  or_connection_string :: string
  or_connection :: "'c option"
  or_db :: 'd

definition oracle_connection_string :: "storage_options \<Rightarrow> string" where
  "oracle_connection_string options =
     ''(DESCRIPTION=(ADDRESS=(PROTOCOL=TCP)(HOST='' @ so_ip_addr options @ '')(PORT='' @
     dec_u32 (so_tcp_port options) @ ''))(CONNECT_DATA=(SID='' @ so_db_name options @ '')))''"

definition reset_connection :: "('c, 'd) occi \<Rightarrow> ('c, 'd) oracle_state \<Rightarrow> ('c, 'd) oracle_state" where
  "reset_connection oc s =
     (case or_connection s of
        None \<Rightarrow> s
      | Some c \<Rightarrow> s\<lparr>or_connection := None, or_db := oc_terminate_connection oc c (or_db s)\<rparr>)"

text \<open>The first \<^verbatim>\<open>if\<close> of \<^verbatim>\<open>open_connection\<close>.\<close>

definition ensure_connection :: "('c, 'd) occi \<Rightarrow> ('c, 'd) oracle_state \<Rightarrow> ('c, 'd) oracle_state \<times> 'c outcome" where
  "ensure_connection oc s =
     (case or_connection s of
        Some c \<Rightarrow> (s, Return c)
      | None \<Rightarrow>
          (case oc_create_connection oc (c_str (or_login s)) (c_str (or_password s))
                  (c_str (or_connection_string s)) (or_db s) of
             (d, Return c) \<Rightarrow> (s\<lparr>or_connection := Some c, or_db := d\<rparr>, Return c)
           | (d, Throw e) \<Rightarrow> (s\<lparr>or_db := d\<rparr>, Throw e)
           | (d, Undefined) \<Rightarrow> (s\<lparr>or_db := d\<rparr>, Undefined)))"

definition check_connection ::
  "('c, 'd) occi \<Rightarrow> 'c \<Rightarrow> ('c, 'd) oracle_state \<Rightarrow> ('c, 'd) oracle_state \<times> unit outcome" where
  "check_connection oc c s =
     (case oc_query_int oc c ''select 1 from dual'' (or_db s) of
        (d, Return row) \<Rightarrow>
          (s\<lparr>or_db := d\<rparr>,
           if row \<noteq> Some 1 then Throw (Runtime_error ''Oracle connection check failed'') else Return ())
      | (d, Throw e) \<Rightarrow> (s\<lparr>or_db := d\<rparr>, Throw e)
      | (d, Undefined) \<Rightarrow> (s\<lparr>or_db := d\<rparr>, Undefined))"

text \<open>\<^verbatim>\<open>get_servicename\<close> reads the base part.\<close>

definition get_servicename :: "'a base_impl_scheme \<Rightarrow> string" where
  "get_servicename b = get_db_name b"

definition open_connection :: "('c, 'd) occi \<Rightarrow> ('c, 'd) oracle_state \<Rightarrow> ('c, 'd) oracle_state \<times> unit outcome" where
  "open_connection oc s =
     (case (case ensure_connection oc s of
              (s, Return c) \<Rightarrow> check_connection oc c s
            | (s, Throw e) \<Rightarrow> (s, Throw e)
            | (s, Undefined) \<Rightarrow> (s, Undefined)) of
        (s, Throw e) \<Rightarrow>
          (reset_connection oc s,
           Throw (as_runtime_error ''Unexpected exception while connecting Oracle'' e))
      | (s, r) \<Rightarrow> (s, r))"

definition oracle_new ::
  "('c, 'd) occi \<Rightarrow> storage_options \<Rightarrow> bool \<Rightarrow> 'd \<Rightarrow> ('c, 'd) oracle_state \<times> unit outcome" where
  "oracle_new oc options test_connection d =
     (let s = \<lparr>or_login = so_login options, or_password = so_password options,
                or_connection_string = oracle_connection_string options, or_connection = None, or_db = d\<rparr>
      in if test_connection then open_connection oc s else (s, Return ()))"

definition oracle_begin_batch ::
  "('c, 'd) occi \<Rightarrow> nat \<Rightarrow> ('c, 'd) oracle_state \<Rightarrow> ('c, 'd) oracle_state \<times> unit outcome" where
  "oracle_begin_batch oc num_messages s = open_connection oc s"

definition oracle_message :: "string \<Rightarrow> string" where
  "oracle_message msg = ''<Message '' @ msg @ ''/>''"

definition oracle_save_message ::
  "('c, 'd) occi \<Rightarrow> string \<Rightarrow> ('c, 'd) oracle_state \<Rightarrow> ('c, 'd) oracle_state \<times> unit outcome" where
  "oracle_save_message oc msg s =
     (case or_connection s of
        None \<Rightarrow> (s, Undefined)
      | Some c \<Rightarrow>
          (case oc_update oc c ''insert into omnicomm(message) values (:msg)'' (c_str (oracle_message msg)) (or_db s) of
             (d, Throw e) \<Rightarrow> (s\<lparr>or_db := d\<rparr>, Throw (as_runtime_error ''Unexpected exception while storing message'' e))
           | (d, r) \<Rightarrow> (s\<lparr>or_db := d\<rparr>, r)))"

definition oracle_end_batch ::
  "('c, 'd) occi \<Rightarrow> ('c, 'd) oracle_state \<Rightarrow> ('c, 'd) oracle_state \<times> unit outcome" where
  "oracle_end_batch oc s =
     (case or_connection s of
        None \<Rightarrow> (s, Undefined)
      | Some c \<Rightarrow> (case oc_commit oc c (or_db s) of (d, r) \<Rightarrow> (s\<lparr>or_db := d\<rparr>, r)))"

definition oracle_storage :: "('c, 'd) occi \<Rightarrow> ('c, 'd) oracle_state storage" where
  "oracle_storage oc =
     \<lparr>st_begin_batch = oracle_begin_batch oc, st_save_message = oracle_save_message oc,
      st_end_batch = oracle_end_batch oc\<rparr>"

section \<open>\<open>rabbitmq_t\<close>: a storage that keeps nothing\<close>

definition rabbitmq_new :: "storage_options \<Rightarrow> base_impl" where
  "rabbitmq_new options = base_impl_new options"

definition rabbitmq_save_message :: "string \<Rightarrow> 's \<Rightarrow> 's \<times> unit outcome" where
  "rabbitmq_save_message msg s = (s, Return ())"

definition rabbitmq_storage :: "'s storage" where
  "rabbitmq_storage =
     \<lparr>st_begin_batch = base_begin_batch, st_save_message = rabbitmq_save_message,
      st_end_batch = base_end_batch\<rparr>"

section \<open>The factory\<close>

datatype ('c, 'd) created = Rabbitmq base_impl | Oracle_db base_impl "('c, 'd) oracle_state"

definition create_rabbitmq :: "storage_options \<Rightarrow> 'd \<Rightarrow> ('c, 'd) created outcome" where
  "create_rabbitmq options d = Return (Rabbitmq (rabbitmq_new options))"

definition create_oracle :: "('c, 'd) occi \<Rightarrow> storage_options \<Rightarrow> 'd \<Rightarrow> ('c, 'd) created outcome" where
  "create_oracle oc options d =
     (case oracle_new oc options True d of
        (s, r) \<Rightarrow> and_then r (\<lambda>_. Return (Oracle_db (base_impl_new options) s)))"

text \<open>
  The map of creators, with the two that \<^verbatim>\<open>config.h\<close> enables.
\<close>

definition backends ::
  "('c, 'd) occi \<Rightarrow> string \<Rightarrow> (storage_options \<Rightarrow> 'd \<Rightarrow> ('c, 'd) created outcome) option" where
  "backends oc = [''rabbit'' \<mapsto> create_rabbitmq, ''oracle'' \<mapsto> create_oracle oc]"

definition factory_create :: "('c, 'd) occi \<Rightarrow> storage_options \<Rightarrow> 'd \<Rightarrow> ('c, 'd) created outcome" where
  "factory_create oc options d =
     (case backends oc (so_kind options) of
        None \<Rightarrow> Throw (Invalid_argument ''Specified storage backend not supported'')
      | Some create \<Rightarrow> create options d)"

section \<open>The repository's own test\<close>

text \<open>
  \<^verbatim>\<open>test/params.cpp\<close>: an Oracle storage made without a test connection gives back what it was
  configured with.
\<close>

definition test_oracle_options :: storage_options where
  "test_oracle_options =
     \<lparr>so_kind = ''oracle'', so_ip_addr = ''10.10.3.23'', so_tcp_port = 1234, so_db_name = ''v3'',
      so_login = ''login'', so_password = ''password''\<rparr>"

lemma test_oracle_backend_construct:
  "snd (oracle_new oc test_oracle_options False d) = Return ()"
  "get_login (base_impl_new test_oracle_options) = ''login''"
  "get_password (base_impl_new test_oracle_options) = ''password''"
  "get_ip_addr (base_impl_new test_oracle_options) = ''10.10.3.23''"
  "get_tcp_port (base_impl_new test_oracle_options) = 1234"
  "get_servicename (base_impl_new test_oracle_options) = ''v3''"
  by (simp_all add: oracle_new_def base_impl_new_def get_servicename_def getter_defs test_oracle_options_def)

section \<open>The connection is open whenever a message is saved\<close>

lemma reset_connection_None [simp]: "or_connection (reset_connection oc s) = None"
  by (simp add: reset_connection_def split: option.split)

lemma ensure_connection_Return: "ensure_connection oc s = (s', Return c) \<Longrightarrow> or_connection s' = Some c"
  by (auto simp: ensure_connection_def split: option.splits prod.splits outcome.splits)

lemma check_connection_frame: "check_connection oc c s = (s', r) \<Longrightarrow> or_connection s' = or_connection s"
  by (auto simp: check_connection_def split: prod.splits outcome.splits)

lemma open_connection_Return:
  assumes "open_connection oc s = (s', Return u)"
  shows "or_connection s' \<noteq> None"
proof -
  obtain s1 c where "ensure_connection oc s = (s1, Return c)" and "check_connection oc c s1 = (s', Return u)"
    using assms by (auto simp: open_connection_def split: prod.splits outcome.splits)
  then show ?thesis using ensure_connection_Return check_connection_frame by (metis option.distinct(1))
qed

lemma as_runtime_error_kind: "\<exists>w. as_runtime_error u e = Runtime_error w"
  by (cases e) simp_all

lemma open_connection_Throw:
  assumes "open_connection oc s = (s', Throw e)"
  shows "or_connection s' = None" and "\<exists>w. e = Runtime_error w"
  using assms as_runtime_error_kind
  by (auto simp: open_connection_def split: prod.splits outcome.splits)

lemma oracle_save_frame: "or_connection (fst (oracle_save_message oc msg s)) = or_connection s"
  by (simp add: oracle_save_message_def split: option.split prod.split outcome.split)

text \<open>OCCI calls return or throw.\<close>

definition occi_defined :: "('c, 'd) occi \<Rightarrow> bool" where
  "occi_defined oc \<longleftrightarrow>
     (\<forall>l p cs d. snd (oc_create_connection oc l p cs d) \<noteq> Undefined)
       \<and> (\<forall>c q d. snd (oc_query_int oc c q d) \<noteq> Undefined)
       \<and> (\<forall>c q m d. snd (oc_update oc c q m d) \<noteq> Undefined)
       \<and> (\<forall>c d. snd (oc_commit oc c d) \<noteq> Undefined)"

interpretation orc: storage_contract "oracle_storage oc" "\<lambda>s. or_connection s \<noteq> None" for oc
proof
  show "st_begin_batch (oracle_storage oc) n s = (s', Return u) \<Longrightarrow> or_connection s' \<noteq> None" for n s s' u
    by (simp add: oracle_storage_def oracle_begin_batch_def open_connection_Return)
  show "or_connection s \<noteq> None \<Longrightarrow> st_save_message (oracle_storage oc) m s = (s', r) \<Longrightarrow> or_connection s' \<noteq> None"
    for s m s' r
    using oracle_save_frame [of oc m s] by (simp add: oracle_storage_def)
qed

interpretation rab: storage_contract rabbitmq_storage "\<lambda>s. True"
  by unfold_locales simp_all

definition connected_in_batch :: "('c, 'd) oracle_state backend \<Rightarrow> bool" where
  "connected_in_batch b \<longleftrightarrow> (in_batch b \<longrightarrow> or_connection (bk_store b) \<noteq> None)"

lemma work_step_connected:
  "work_step (oracle_storage oc) b = Some (evs, b') \<Longrightarrow> connected_in_batch b \<Longrightarrow> connected_in_batch b'"
  using orc.work_step_ready [of oc b evs b'] by (simp add: connected_in_batch_def)

lemma open_connection_defined: "occi_defined oc \<Longrightarrow> snd (open_connection oc s) \<noteq> Undefined"
  unfolding open_connection_def ensure_connection_def check_connection_def occi_defined_def
  by (auto split: option.split prod.split outcome.split) (metis snd_conv)+

text \<open>So the worker never gets stuck on a null connection.\<close>

lemma oracle_work_step_defined:
  assumes "occi_defined oc" and "connected_in_batch b" and "bk_thread b \<notin> {None, Some Ended}"
  shows "work_step (oracle_storage oc) b \<noteq> None"
proof -
  have upd: "snd (oc_update oc c q m d) \<noteq> Undefined" and cmt: "snd (oc_commit oc c d) \<noteq> Undefined" for c q m d
    using assms(1) by (auto simp: occi_defined_def)
  have opn: "snd (open_connection oc s) \<noteq> Undefined" for s
    by (rule open_connection_defined [OF assms(1)])
  show ?thesis
    using assms(2,3) unfolding work_step_def connected_in_batch_def in_batch_def oracle_storage_def
    by (auto simp: oracle_begin_batch_def oracle_save_message_def oracle_end_batch_def
        split: option.splits work_point.splits list.splits prod.splits outcome.splits if_splits)
      (metis upd cmt opn snd_conv)+
qed

section \<open>The rows of the table\<close>

text \<open>
  An update that returns inserts one row, and no other call of the client changes what was inserted.
\<close>

definition occi_appends :: "('c, 'd) occi \<Rightarrow> ('d \<Rightarrow> string list) \<Rightarrow> bool" where
  "occi_appends oc rows \<longleftrightarrow>
     (\<forall>l p cs d. rows (fst (oc_create_connection oc l p cs d)) = rows d)
     \<and> (\<forall>c d. rows (oc_terminate_connection oc c d) = rows d)
     \<and> (\<forall>c q d. rows (fst (oc_query_int oc c q d)) = rows d)
     \<and> (\<forall>c d. rows (fst (oc_commit oc c d)) = rows d)
     \<and> (\<forall>c q m d d' u. oc_update oc c q m d = (d', Return u) \<longrightarrow> rows d' = rows d @ [m])
     \<and> (\<forall>c q m d d' e. oc_update oc c q m d = (d', Throw e) \<longrightarrow> rows d' = rows d)"

lemma occi_appendsD:
  assumes "occi_appends oc rows"
  shows "oc_create_connection oc l p cs d = (d', r1) \<Longrightarrow> rows d' = rows d"
    and "rows (oc_terminate_connection oc c d) = rows d"
    and "oc_query_int oc c q d = (d', r2) \<Longrightarrow> rows d' = rows d"
    and "oc_commit oc c d = (d', r3) \<Longrightarrow> rows d' = rows d"
    and "oc_update oc c q m d = (d', Return u) \<Longrightarrow> rows d' = rows d @ [m]"
    and "oc_update oc c q m d = (d', Throw e) \<Longrightarrow> rows d' = rows d"
  using assms unfolding occi_appends_def by (metis fst_conv)+

lemma connection_rows:
  assumes "occi_appends oc rows"
  shows "ensure_connection oc s = (s', r1) \<Longrightarrow> rows (or_db s') = rows (or_db s)"
    and "check_connection oc c s = (s', r2) \<Longrightarrow> rows (or_db s') = rows (or_db s)"
    and "rows (or_db (reset_connection oc s)) = rows (or_db s)"
  by (auto simp: ensure_connection_def check_connection_def reset_connection_def occi_appendsD(2) [OF assms]
      split: option.splits prod.splits outcome.splits dest: occi_appendsD(1,3) [OF assms])

lemma open_connection_rows:
  assumes "occi_appends oc rows" and "open_connection oc s = (s', r)"
  shows "rows (or_db s') = rows (or_db s)"
  using assms(2)
  by (auto simp: open_connection_def connection_rows(3) [OF assms(1)] split: prod.splits outcome.splits)
    (metis connection_rows(1,2) [OF assms(1)])+

lemma oracle_records:
  assumes "occi_appends oc rows"
  shows "records_messages (oracle_storage oc) (\<lambda>s. rows (or_db s)) (\<lambda>m. c_str (oracle_message m))"
proof -
  have "rows (or_db (fst (oracle_begin_batch oc n s))) = rows (or_db s)" for n s
    using open_connection_rows [OF assms] by (metis oracle_begin_batch_def surjective_pairing)
  moreover have "rows (or_db (fst (oracle_end_batch oc s))) = rows (or_db s)" for s
    by (auto simp: oracle_end_batch_def split: option.split prod.split dest: occi_appendsD(4) [OF assms])
  ultimately show ?thesis
    unfolding records_messages_def oracle_storage_def
    by (auto simp: oracle_save_message_def split: option.splits prod.splits outcome.splits
        dest: occi_appendsD(5,6) [OF assms])
qed

end
