(* ===== verification/Server.thy ===== *)
theory Server
  imports Client Oracle
begin

text \<open>
  \<^verbatim>\<open>server.cpp\<close>: the list of connections, the accept loop and the timer that drops closed ones. The
  environment all connections share (counters, file, queue) is a field of the server, and a client
  runs with the current one. One thread runs \<^verbatim>\<open>io_service::run\<close>, so the program is a sequence of
  completions: an event is one of them, and \<open>enabled\<close> says when boost.asio can deliver it. The
  resolver and the calls that open the listening socket are outside: they succeed, or throw the
  exception a parameter gives. A client whose accept is pending is held by the handler. The handlers
  of reads and writes hold a plain pointer: when the timer drops a closed client, completions of its
  operations may still be due. \<open>sv_orphans\<close> counts the writes among them; each of them logs through the
  destroyed object. \<open>sv_orphan_reads\<close> counts the reads; one that completes with \<^verbatim>\<open>operation_aborted\<close> uses
  no member and does no harm, one that was already complete when the socket was closed does.
\<close>

record 'f server =
  sv_interval :: nat
  sv_num_workers :: u32
  sv_env :: "'f env"
  sv_clients :: "'f client list"
  sv_accepting :: "'f client option"
  sv_acceptor_open :: bool
  sv_timer :: "nat option"
  sv_signals :: bool
  sv_storage_started :: bool
  sv_running :: bool
  sv_orphans :: nat
  sv_orphan_reads :: nat

section \<open>The shared environment\<close>

definition env_of :: "'f client \<Rightarrow> 'f env" where
  "env_of c = env.truncate c"

definition attach :: "'f env \<Rightarrow> 'f client \<Rightarrow> 'f client" where
  "attach e c = c\<lparr>en_counters := en_counters e, en_file := en_file e, en_file_opens := en_file_opens e,
     en_backend := en_backend e\<rparr>"

section \<open>Operations\<close>

text \<open>The members as the constructor sets them; \<open>now\<close> is the time on the timer's clock.\<close>

definition server_init :: "'g options \<Rightarrow> nat \<Rightarrow> 'f env \<Rightarrow> 'f server" where
  "server_init options now e =
     \<lparr>sv_interval = 5, sv_num_workers = op_workers options, sv_env = e, sv_clients = [], sv_accepting = None,
      sv_acceptor_open = False, sv_timer = None, sv_signals = False, sv_storage_started = False,
      sv_running = True, sv_orphans = 0, sv_orphan_reads = 0\<rparr>"

definition bind_signals :: "'f server \<Rightarrow> 'f server" where
  "bind_signals v = v\<lparr>sv_signals := True\<rparr>"

definition start_accept :: "'f server \<Rightarrow> 'f server" where
  "start_accept v = v\<lparr>sv_accepting := Some (client_create (protocol_create (sv_env v)))\<rparr>"

definition start_listen :: "exn option \<Rightarrow> 'f server \<Rightarrow> 'f server outcome" where
  "start_listen failure v =
     (case failure of
        Some e \<Rightarrow> Throw e
      | None \<Rightarrow> Return (start_accept (v\<lparr>sv_acceptor_open := True\<rparr>)))"

text \<open>The queue of the storage the factory made.\<close>

fun created_queue :: "('c, 'd) created \<Rightarrow> base_impl" where
  "created_queue (Rabbitmq b) = b"
| "created_queue (Oracle_db b s) = b"

definition server_new ::
  "('c, 'd) occi \<Rightarrow> 'g options \<Rightarrow> 'd \<Rightarrow> exn option \<Rightarrow> nat \<Rightarrow> 'f env \<Rightarrow> 'f server outcome" where
  "server_new oc options d failure now e =
     and_then (factory_create oc (op_storage options) d) (\<lambda>storage.
     let v = server_init options now (e\<lparr>en_backend := created_queue storage\<rparr>);
         v = bind_signals (v\<lparr>sv_storage_started := True\<rparr>)
     in and_then (start_listen failure v) (\<lambda>v. Return (v\<lparr>sv_timer := Some (now + sv_interval v)\<rparr>)))"

text \<open>The writes of a client that have not completed.\<close>

definition writes_pending :: "'f client \<Rightarrow> nat" where
  "writes_pending c = length (se_sent c) - cl_written c"

definition drop_unused_clients :: "'f server \<Rightarrow> 'f server" where
  "drop_unused_clients v =
     v\<lparr>sv_clients := filter se_open (sv_clients v),
       sv_orphans := sv_orphans v + sum_list (map writes_pending (filter (\<lambda>c. \<not> se_open c) (sv_clients v))),
       sv_orphan_reads := sv_orphan_reads v + length (filter (\<lambda>c. \<not> se_open c \<and> cl_reading c) (sv_clients v))\<rparr>"

definition handle_timer :: "error_code \<Rightarrow> 'f server \<Rightarrow> 'f server" where
  "handle_timer error v =
     (let expiry = sv_timer v; v = v\<lparr>sv_timer := None\<rparr>
      in if error = Success
         then drop_unused_clients (v\<lparr>sv_timer := map_option (\<lambda>t. t + sv_interval v) expiry\<rparr>)
         else v)"

definition handle_accept :: "error_code \<Rightarrow> string option \<Rightarrow> 'f client \<Rightarrow> 'f server \<Rightarrow> 'f server" where
  "handle_accept error endpoint client v =
     (let v = v\<lparr>sv_accepting := None\<rparr>
      in if \<not> sv_acceptor_open v then v
         else (let v = (if error = Success
                        then v\<lparr>sv_clients := sv_clients v @ [client_start endpoint client]\<rparr> else v)
               in start_accept v))"

definition handle_stop :: "'f server \<Rightarrow> 'f server" where
  "handle_stop v = v\<lparr>sv_signals := False, sv_running := False\<rparr>"

text \<open>A completed read or write of the client at a place of the list.\<close>

definition client_read ::
  "('s, 'u, 'f) platform \<Rightarrow> nat \<Rightarrow> error_code \<Rightarrow> byte list \<Rightarrow> 'f server \<Rightarrow> 'f server \<times> unit outcome" where
  "client_read pf i error data v =
     (case handle_read pf error data (attach (sv_env v) (sv_clients v ! i)) of
        (c, r) \<Rightarrow> (v\<lparr>sv_env := env_of c, sv_clients := (sv_clients v)[i := c]\<rparr>, r))"

definition client_write :: "nat \<Rightarrow> error_code \<Rightarrow> 'f server \<Rightarrow> 'f server" where
  "client_write i error v =
     (let c = sv_clients v ! i
      in v\<lparr>sv_clients := (sv_clients v)[i := handle_write error (c\<lparr>cl_written := Suc (cl_written c)\<rparr>)]\<rparr>)"

section \<open>Events\<close>

datatype event =
    Accepted error_code "string option"
  | Read nat error_code "byte list"
  | Wrote nat error_code
  | Wrote_orphan
  | Read_orphan error_code
  | Tick error_code
  | Signal

fun enabled :: "event \<Rightarrow> 'f server \<Rightarrow> bool" where
  "enabled (Accepted error endpoint) v \<longleftrightarrow> sv_running v \<and> sv_accepting v \<noteq> None"
| "enabled (Read i error data) v \<longleftrightarrow>
     sv_running v \<and> i < length (sv_clients v) \<and> cl_reading (sv_clients v ! i)
       \<and> (error = Operation_aborted \<longrightarrow> \<not> se_open (sv_clients v ! i)) \<and> length data \<le> async_buffer_size"
| "enabled (Wrote i error) v \<longleftrightarrow>
     sv_running v \<and> i < length (sv_clients v) \<and> 0 < writes_pending (sv_clients v ! i)
       \<and> (error = Operation_aborted \<longrightarrow> \<not> se_open (sv_clients v ! i))"
| "enabled Wrote_orphan v \<longleftrightarrow> sv_running v \<and> 0 < sv_orphans v"
| "enabled (Read_orphan error) v \<longleftrightarrow> sv_running v \<and> 0 < sv_orphan_reads v"
| "enabled (Tick error) v \<longleftrightarrow> sv_running v \<and> sv_timer v \<noteq> None \<and> error = Success"
| "enabled Signal v \<longleftrightarrow> sv_running v \<and> sv_signals v"

fun server_event :: "('s, 'u, 'f) platform \<Rightarrow> event \<Rightarrow> 'f server \<Rightarrow> 'f server \<times> unit outcome" where
  "server_event pf (Accepted error endpoint) v =
     (case sv_accepting v of
        None \<Rightarrow> (v, Undefined)
      | Some client \<Rightarrow> (handle_accept error endpoint client v, Return ()))"
| "server_event pf (Read i error data) v = client_read pf i error data v"
| "server_event pf (Wrote i error) v = (client_write i error v, Return ())"
| "server_event pf Wrote_orphan v = (v, Undefined)"
| "server_event pf (Read_orphan error) v =
     (v\<lparr>sv_orphan_reads := sv_orphan_reads v - 1\<rparr>, if error = Operation_aborted then Return () else Undefined)"
| "server_event pf (Tick error) v = (handle_timer error v, Return ())"
| "server_event pf Signal v = (handle_stop v, Return ())"

inductive server_run :: "('s, 'u, 'f) platform \<Rightarrow> 'f server \<Rightarrow> event list \<Rightarrow> 'f server \<Rightarrow> bool"
  for pf :: "('s, 'u, 'f) platform" where
  idle: "server_run pf v [] v"
| event: "server_run pf v es v' \<Longrightarrow> enabled e v' \<Longrightarrow> server_event pf e v' = (v'', Return ())
    \<Longrightarrow> server_run pf v (es @ [e]) v''"

section \<open>The server keeps serving\<close>

text \<open>
  While it runs, it has an accept and the timer pending, and every open connection waits for data.
\<close>

definition serving :: "'f server \<Rightarrow> bool" where
  "serving v \<longleftrightarrow> sv_acceptor_open v \<and> sv_accepting v \<noteq> None \<and> sv_timer v \<noteq> None
     \<and> list_all waiting_if_open (sv_clients v)"

lemma server_new_serving: "server_new oc options d failure now e = Return v \<Longrightarrow> serving v"
  by (auto simp: serving_def server_new_def start_listen_def start_accept_def server_init_def bind_signals_def
      Let_def and_then_Return split: option.splits)

lemma attach_fields [simp]:
  "se_open (attach e c) = se_open c" "cl_reading (attach e c) = cl_reading c"
  "en_counters (attach e c) = en_counters e" "en_backend (attach e c) = en_backend e"
  by (simp_all add: attach_def)

lemma list_all_update: "list_all P xs \<Longrightarrow> P x \<Longrightarrow> list_all P (xs[i := x])"
  by (auto simp: list_all_iff dest: set_update_subset_insert [THEN subsetD])

lemma handle_read_waits:
  assumes "handle_read pf error data c = (c', Return ())" and "error = Operation_aborted \<longrightarrow> \<not> se_open c"
  shows "waiting_if_open c'"
proof (cases "error = Operation_aborted")
  case True
  with assms show ?thesis by (auto simp: handle_read_def Let_def waiting_if_open_def)
next
  case False
  with handle_read_outcome(2) [OF assms(1)] show ?thesis by simp
qed

lemma server_event_serving:
  assumes "enabled ev v" and "server_event pf ev v = (v', Return ())" and "serving v"
  shows "serving v'"
proof (cases ev)
  case (Accepted error endpoint)
  with assms show ?thesis
    by (auto simp: serving_def handle_accept_def start_accept_def Let_def client_start_waits)
next
  case (Read i error data)
  obtain c where read: "handle_read pf error data (attach (sv_env v) (sv_clients v ! i)) = (c, Return ())"
      and v': "v' = v\<lparr>sv_env := env_of c, sv_clients := (sv_clients v)[i := c]\<rparr>"
    using assms(2) Read by (auto simp: client_read_def split: prod.splits)
  have "waiting_if_open c"
    using handle_read_waits [OF read] assms(1) Read by simp
  with assms(3) v' show ?thesis by (simp add: serving_def list_all_update)
next
  case (Wrote i error)
  then have "waiting_if_open (sv_clients v ! i)"
    using assms(1,3) by (simp add: serving_def list_all_length)
  with assms(2,3) Wrote show ?thesis
    by (auto simp: serving_def client_write_def Let_def intro!: list_all_update handle_write_waits)
next
  case (Tick error)
  with assms show ?thesis
    by (auto simp: serving_def handle_timer_def drop_unused_clients_def Let_def list_all_iff)
next
  case Signal
  with assms show ?thesis by (auto simp: serving_def handle_stop_def)
qed (use assms in \<open>auto simp: serving_def\<close>)

lemma server_run_serving: "server_run pf v es v' \<Longrightarrow> serving v \<Longrightarrow> serving v'"
  by (induction rule: server_run.induct) (auto intro: server_event_serving)

section \<open>The shape of the connections\<close>

text \<open>
  Every client is well formed; so a read is only pending for a client whose protocol knows it, and no
  write completes that was not started.
\<close>

definition server_wf :: "'f server \<Rightarrow> bool" where
  "server_wf v \<longleftrightarrow> list_all client_wf (sv_clients v) \<and> pred_option client_wf (sv_accepting v)"

lemma client_wf_attach [simp]: "client_wf (attach e c) = client_wf c" "cl_manipulator (attach e c) = cl_manipulator c"
  by (simp_all add: client_wf_def attach_def)

lemma client_wf_create: "client_wf (client_create impl)"
  by (simp add: client_create_def client_wf_new)

lemma server_new_wf: "server_new oc options d failure now e = Return v \<Longrightarrow> server_wf v"
  by (auto simp: server_wf_def server_new_def start_listen_def start_accept_def server_init_def bind_signals_def
      Let_def and_then_Return client_wf_create split: option.splits)

lemma server_event_wf:
  assumes "enabled ev v" and "server_event pf ev v = (v', Return ())" and "server_wf v"
  shows "server_wf v'"
proof (cases ev)
  case (Accepted error endpoint)
  with assms show ?thesis
    by (auto simp: server_wf_def handle_accept_def start_accept_def Let_def client_wf_start client_wf_create
        split: option.splits)
next
  case (Read i error data)
  let ?c = "attach (sv_env v) (sv_clients v ! i)"
  obtain c where read: "handle_read pf error data ?c = (c, Return ())"
      and v': "v' = v\<lparr>sv_env := env_of c, sv_clients := (sv_clients v)[i := c]\<rparr>"
    using assms(2) Read by (auto simp: client_read_def split: prod.splits)
  have "client_wf (sv_clients v ! i)" and "cl_reading (sv_clients v ! i)"
    using assms(1,3) Read by (simp_all add: server_wf_def list_all_length)
  then have "client_wf ?c" and "cl_manipulator ?c" by (simp_all, simp add: client_wf_def)
  from client_wf_read [OF read this] assms(3) v' show ?thesis by (simp add: server_wf_def list_all_update)
next
  case (Wrote i error)
  then have "client_wf (sv_clients v ! i)" and "cl_written (sv_clients v ! i) < length (se_sent (sv_clients v ! i))"
    using assms(1,3) by (simp_all add: server_wf_def list_all_length writes_pending_def)
  from client_wf_write [OF this, of error] assms(2,3) Wrote show ?thesis
    by (auto simp: server_wf_def client_write_def Let_def intro!: list_all_update)
next
  case (Tick error)
  with assms show ?thesis
    by (auto simp: server_wf_def handle_timer_def drop_unused_clients_def Let_def list_all_iff)
next
  case Signal
  with assms show ?thesis by (auto simp: server_wf_def handle_stop_def)
qed (use assms in \<open>auto simp: server_wf_def\<close>)

lemma server_run_wf: "server_run pf v es v' \<Longrightarrow> server_wf v \<Longrightarrow> server_wf v'"
  by (induction rule: server_run.induct) (auto intro: server_event_wf)

section \<open>Destroyed connections\<close>

lemma drop_unused_orphans:
  "c \<in> set (sv_clients v) \<Longrightarrow> \<not> se_open c \<Longrightarrow> 0 < writes_pending c \<Longrightarrow> 0 < sv_orphans (drop_unused_clients v)"
  by (auto simp: drop_unused_clients_def sum_list_eq_0_iff intro!: gr0I)

text \<open>No late completion is due as long as the timer only finds closed clients whose writes are done.\<close>

definition tick_is_safe :: "'f server \<Rightarrow> bool" where
  "tick_is_safe v \<longleftrightarrow> list_all (\<lambda>c. se_open c \<or> writes_pending c = 0) (sv_clients v)"

lemma tick_safe_orphans: "tick_is_safe v \<Longrightarrow> sv_orphans (drop_unused_clients v) = sv_orphans v"
  by (auto simp: tick_is_safe_def drop_unused_clients_def list_all_iff sum_list_eq_0_iff)

section \<open>Connections do not disturb each other\<close>

lemma client_read_others:
  assumes "client_read pf i error data v = (v', r)" and "j \<noteq> i"
  shows "sv_clients v' ! j = sv_clients v ! j"
  using assms by (auto simp: client_read_def split: prod.splits)

text \<open>A late read is harmless exactly when it was aborted.\<close>

lemma read_orphan_outcome:
  "snd (server_event pf (Read_orphan error) v) = Return () \<longleftrightarrow> error = Operation_aborted"
  by simp

lemma drop_unused_open: "list_all se_open (sv_clients (drop_unused_clients v))"
  by (simp add: drop_unused_clients_def list_all_iff)

end
