(* ===== verification/Mongo.thy ===== *)
theory Mongo
  imports Oracle
begin

text \<open>
  \<^verbatim>\<open>backends/mongodb.cpp\<close>: the MongoDB storage, compiled only where \<^verbatim>\<open>MongoDB_FOUND\<close> is defined (and
  then against an older base class, whose constructor took the login, the password and a path), and its
  predecessor \<^verbatim>\<open>mongodb_backend.cpp\<close>, which no build file names any more. The client library is the
  parameter \<open>mongo\<close>: a
  connection attempt says whether it succeeded, an insert gets a collection and a document of one
  field, and can throw. The connection is opened with automatic reconnection, so an insert does not
  need the first attempt to have succeeded.
\<close>

record 'd mongo =
  mg_connect :: "string \<Rightarrow> 'd \<Rightarrow> 'd \<times> bool"
  mg_insert :: "string \<Rightarrow> string \<times> string \<Rightarrow> 'd \<Rightarrow> 'd \<times> unit outcome"

text \<open>The constructor: neither branch of its test does anything.\<close>

definition mongodb_new :: "'d mongo \<Rightarrow> string \<Rightarrow> 'd \<Rightarrow> 'd" where
  "mongodb_new mg path d =
     (case mg_connect mg (c_str path) d of (d, connected) \<Rightarrow> if connected then d else d)"

text \<open>Every handler logs the exception and throws it again.\<close>

definition mongodb_save_message :: "'d mongo \<Rightarrow> string \<Rightarrow> 'd \<Rightarrow> 'd \<times> unit outcome" where
  "mongodb_save_message mg msg d =
     (let message = ''<Message '' @ msg @ ''/>''
      in case mg_insert mg ''test.omnicomm'' (''message'', message) d of
           (d, Throw e) \<Rightarrow> (d, Throw e)
         | (d, r) \<Rightarrow> (d, r))"

definition mongodb_storage :: "'d mongo \<Rightarrow> 'd storage" where
  "mongodb_storage mg =
     \<lparr>st_begin_batch = base_begin_batch, st_save_message = mongodb_save_message mg,
      st_end_batch = base_end_batch\<rparr>"

interpretation mon: storage_contract "mongodb_storage mg" "\<lambda>s. True" for mg
  by unfold_locales simp_all

section \<open>The predecessor\<close>

text \<open>
  \<^verbatim>\<open>mongodb_backend.cpp\<close> is a class without the queue: it keeps the address of the server itself, and
  its only operation saves one message, at once and in the thread of the caller. The base class that
  called \<^verbatim>\<open>save_messages_impl\<close> is gone from the repository.
\<close>

record 'd mongodb_backend =
  ob_server_ip :: string
  ob_connection :: 'd

definition mongodb_backend_new :: "'d mongo \<Rightarrow> string \<Rightarrow> 'd \<Rightarrow> 'd mongodb_backend" where
  "mongodb_backend_new mg server_ip d =
     (case mg_connect mg (c_str server_ip) d of
        (d, connected) \<Rightarrow>
          if connected then \<lparr>ob_server_ip = server_ip, ob_connection = d\<rparr>
          else \<lparr>ob_server_ip = server_ip, ob_connection = d\<rparr>)"

definition save_messages_impl :: "'d mongo \<Rightarrow> string \<Rightarrow> 'd mongodb_backend \<Rightarrow> 'd mongodb_backend \<times> unit outcome" where
  "save_messages_impl mg msg b =
     (let message = ''<Message '' @ msg @ ''/>''
      in case mg_insert mg ''test.omnicomm'' (''message'', message) (ob_connection b) of
           (d, Throw e) \<Rightarrow> (b\<lparr>ob_connection := d\<rparr>, Throw e)
         | (d, r) \<Rightarrow> (b\<lparr>ob_connection := d\<rparr>, r))"

text \<open>Saving a list of messages one by one, as the batch of the queue does, until one fails.\<close>

fun save_each :: "(string \<Rightarrow> 's \<Rightarrow> 's \<times> unit outcome) \<Rightarrow> string list \<Rightarrow> 's \<Rightarrow> 's \<times> unit outcome" where
  "save_each save [] s = (s, Return ())"
| "save_each save (m # ms) s =
     (case save m s of (s, Return _) \<Rightarrow> save_each save ms s | (s, r) \<Rightarrow> (s, r))"

lemma save_messages_same:
  "save_messages_impl mg msg b =
     (case mongodb_save_message mg msg (ob_connection b) of (d, r) \<Rightarrow> (b\<lparr>ob_connection := d\<rparr>, r))"
  by (simp add: save_messages_impl_def mongodb_save_message_def Let_def split: prod.splits outcome.splits)

text \<open>The two storages put the same documents into the database, and stop at the same one.\<close>

lemma predecessor_same_database:
  "save_each (save_messages_impl mg) ms b =
     (case save_each (mongodb_save_message mg) ms (ob_connection b) of (d, r) \<Rightarrow> (b\<lparr>ob_connection := d\<rparr>, r))"
  by (induction ms arbitrary: b) (auto simp: save_messages_same split: prod.splits outcome.splits)

section \<open>What reaches the database\<close>

text \<open>The MongoDB client adds the document to the collection, or throws and adds none.\<close>

definition mongo_appends :: "'d mongo \<Rightarrow> ('d \<Rightarrow> (string \<times> string) list) \<Rightarrow> bool" where
  "mongo_appends mg documents \<longleftrightarrow>
     (\<forall>doc d d' u. mg_insert mg ''test.omnicomm'' doc d = (d', Return u) \<longrightarrow> documents d' = documents d @ [doc])
     \<and> (\<forall>doc d d' e. mg_insert mg ''test.omnicomm'' doc d = (d', Throw e) \<longrightarrow> documents d' = documents d)"

lemma mongodb_records:
  "mongo_appends mg documents \<Longrightarrow>
   records_messages (mongodb_storage mg) documents (\<lambda>m. (''message'', ''<Message '' @ m @ ''/>''))"
  unfolding records_messages_def mongodb_storage_def mongo_appends_def
  by (auto simp: mongodb_save_message_def base_begin_batch_def base_end_batch_def Let_def
      split: prod.splits outcome.splits)

end
