(* ===== verification/System.thy ===== *)
theory System
  imports Server Mongo
begin

text \<open>
  The whole process while it serves: the server of \<^verbatim>\<open>server.cpp\<close>, whose handlers run on the thread
  of \<^verbatim>\<open>io_service::run\<close>, and the storage thread of \<^verbatim>\<open>backends/base.cpp\<close>, with the queue between them.
  The queue is the one of the server's environment; the other members of the storage (thread,
  pending interruption, batch, database) are the record \<open>worker\<close>.

  A handler and the storage thread interleave at the mutex of the queue: while a handler queues its
  texts one by one, the thread may take steps in between. What the handler does otherwise is that
  of the same handler with a queue that is not shortened meanwhile. The difference is visible only
  when the queue overflows within one handler.
\<close>

section \<open>The composed state\<close>

record 's worker =
  wk_thread :: "work_point option"
  wk_interrupt :: bool
  wk_batch :: "string list"
  wk_store :: 's

record ('f, 's) system =
  sy_server :: "'f server"
  sy_worker :: "'s worker"

text \<open>The object behind \<^verbatim>\<open>store_backend_\<close>, and putting it back.\<close>

definition store_backend :: "('f, 's) system \<Rightarrow> 's backend" where
  "store_backend y =
     base_impl.extend (en_backend (sv_env (sy_server y)))
       (backend.fields (wk_thread (sy_worker y)) (wk_interrupt (sy_worker y)) (wk_batch (sy_worker y))
          (wk_store (sy_worker y)))"

definition put_backend :: "'s backend \<Rightarrow> ('f, 's) system \<Rightarrow> ('f, 's) system" where
  "put_backend b y =
     \<lparr>sy_server = (sy_server y)\<lparr>sv_env := (sv_env (sy_server y))\<lparr>en_backend := base_impl.truncate b\<rparr>\<rparr>,
      sy_worker = \<lparr>wk_thread = bk_thread b, wk_interrupt = bk_interrupt b, wk_batch = bk_batch b,
                   wk_store = bk_store b\<rparr>\<rparr>"

text \<open>The constructor has started the thread before the first completion.\<close>

definition system_new :: "'f server \<Rightarrow> 's \<Rightarrow> ('f, 's) system" where
  "system_new v store =
     \<lparr>sy_server = v, sy_worker = \<lparr>wk_thread = Some Asleep, wk_interrupt = False, wk_batch = [], wk_store = store\<rparr>\<rparr>"

section \<open>Steps\<close>

text \<open>The texts a handler has put in the queue.\<close>

definition new_texts :: "'f server \<Rightarrow> 'f server \<Rightarrow> string list" where
  "new_texts v v' =
     drop (length (be_messages (en_backend (sv_env v)))) (be_messages (en_backend (sv_env v')))"

text \<open>When \<^verbatim>\<open>run\<close> has returned, the destructor of the server stops the storage.\<close>

inductive system_step ::
  "('c, 'u, 'f) platform \<Rightarrow> 's storage \<Rightarrow> ('f, 's) system \<Rightarrow> Backend.event list \<Rightarrow> ('f, 's) system \<Rightarrow> bool"
  for pf :: "('c, 'u, 'f) platform" and st :: "'s storage" where
  handler: "enabled ev (sy_server y) \<Longrightarrow> server_event pf ev (sy_server y) = (v, Return ()) \<Longrightarrow>
    run (thread_step st) (store_backend y) evs b \<Longrightarrow> concat (map accepted evs) = new_texts (sy_server y) v \<Longrightarrow>
    system_step pf st y evs (put_backend b (y\<lparr>sy_server := v\<rparr>))"
| work: "work_step st (store_backend y) = Some (evs, b) \<Longrightarrow> system_step pf st y evs (put_backend b y)"
| destroy: "\<not> sv_running (sy_server y) \<Longrightarrow>
    system_step pf st y [] (put_backend (stop_interrupt (store_backend y)) y)"

inductive_cases system_stepE: "system_step pf st y evs y'"

lemma store_put [simp]: "store_backend (put_backend b y) = b"
  by (simp add: store_backend_def put_backend_def base_impl.defs backend.defs)

lemma put_backend_server [simp]:
  "sv_running (sy_server (put_backend b y)) = sv_running (sy_server y)"
  "sv_clients (sy_server (put_backend b y)) = sv_clients (sy_server y)"
  "en_counters (sv_env (sy_server (put_backend b y))) = en_counters (sv_env (sy_server y))"
  by (simp_all add: put_backend_def)

lemma store_backend_fields [simp]:
  "be_messages (store_backend y) = be_messages (en_backend (sv_env (sy_server y)))"
  "be_max_messages (store_backend y) = be_max_messages (en_backend (sv_env (sy_server y)))"
  "bk_thread (store_backend y) = wk_thread (sy_worker y)"
  "bk_interrupt (store_backend y) = wk_interrupt (sy_worker y)"
  "bk_store (store_backend y) = wk_store (sy_worker y)"
  by (simp_all add: store_backend_def base_impl.defs backend.defs)

section \<open>The storage sees an ordinary run\<close>

lemma run_trans: "run R b' evs' b'' \<Longrightarrow> run R b evs b' \<Longrightarrow> run R b (evs @ evs') b''"
  by (induction rule: run.induct) (auto intro: run.step simp flip: append_assoc)

lemma run_mono: "run R b evs b' \<Longrightarrow> (\<And>b evs b'. R b evs b' \<Longrightarrow> S b evs b') \<Longrightarrow> run S b evs b'"
  by (induction rule: run.induct) (auto intro: run.intros)

lemma run_one: "R b evs b' \<Longrightarrow> run R b evs b'"
  using run.step [OF run.stay] by fastforce

text \<open>
  A simulation by a function: every step of the detailed system is a run of the abstract one between
  the views of its states, and what is observed of that run is the label of the step.
\<close>

locale simulation =
  fixes detailed :: "'s \<Rightarrow> 'l list \<Rightarrow> 's \<Rightarrow> bool" and abstract :: "'t \<Rightarrow> 'm list \<Rightarrow> 't \<Rightarrow> bool"
    and observe :: "'m \<Rightarrow> 'l" and view :: "'s \<Rightarrow> 't" and good :: "'s \<Rightarrow> bool"
  assumes square: "good y \<Longrightarrow> detailed y ls y' \<Longrightarrow> \<exists>ts. run abstract (view y) ts (view y') \<and> map observe ts = ls"
    and stays_good: "good y \<Longrightarrow> detailed y ls y' \<Longrightarrow> good y'"
begin

lemma simulates:
  "run detailed y ls y' \<Longrightarrow> good y \<Longrightarrow> good y' \<and> (\<exists>ts. run abstract (view y) ts (view y') \<and> map observe ts = ls)"
proof (induction rule: run.induct)
  case (stay y)
  then show ?case using run.stay [of abstract "view y"] by auto
next
  case (step y ls y' ls' y'')
  then obtain ts ts' where "run abstract (view y) ts (view y')" "map observe ts = ls"
    "run abstract (view y') ts' (view y'')" "map observe ts' = ls'" using square by metis
  then show ?case
    using step stays_good run_trans [of abstract "view y'" ts' "view y''" "view y" ts] by (metis map_append)
qed

end

lemma system_step_storage:
  assumes "system_step pf st y evs y'"
  shows "run (backend_step st) (store_backend y) evs (store_backend y')"
  using assms
proof (cases rule: system_step.cases)
  case handler
  then show ?thesis by (auto intro: run_mono backend_step.thread)
next
  case work
  then show ?thesis by (auto intro!: run_one backend_step.thread thread_step.work)
next
  case destroy
  then show ?thesis by (auto intro!: run_one backend_step.interrupt)
qed

interpretation sto: simulation "system_step pf st" "backend_step st" "\<lambda>l. l" store_backend "\<lambda>y. True"
  for pf :: "('c, 'u, 'f) platform" and st :: "'s storage"
  by unfold_locales (auto dest: system_step_storage)

lemma system_run_storage:
  "run (system_step pf st) y evs y' \<Longrightarrow> run (backend_step st) (store_backend y) evs (store_backend y')"
  using sto.simulates [of pf st y evs y'] by simp

section \<open>Handlers only add to the queue\<close>

text \<open>Every text that a handler queues was accepted by \<^verbatim>\<open>add_message\<close>.\<close>

definition queue_grows :: "base_impl \<Rightarrow> base_impl \<Rightarrow> bool" where
  "queue_grows b b' \<longleftrightarrow> (\<exists>ms. add_messages ms b = (b', Return ()))"

lemma queue_grows_refl [simp]: "queue_grows b b"
  unfolding queue_grows_def by (rule exI [of _ "[]"]) simp

lemma add_messages_append:
  "add_messages ms b = (b1, Return ()) \<Longrightarrow> add_messages (ms @ ms') b = add_messages ms' b1"
  by (induction ms arbitrary: b) (auto split: prod.splits outcome.splits)

lemma queue_grows_trans: "queue_grows b b1 \<Longrightarrow> queue_grows b1 b2 \<Longrightarrow> queue_grows b b2"
  unfolding queue_grows_def using add_messages_append by metis

lemma queue_grows_add: "add_message m b = (b', Return n) \<Longrightarrow> queue_grows b b'"
  unfolding queue_grows_def by (rule exI [of _ "[m]"]) simp

lemma add_message_fails: "add_message m b = (b', r) \<Longrightarrow> \<forall>n. r \<noteq> Return n \<Longrightarrow> b' = b"
  by (auto simp: add_message_def Let_def split: if_splits)

lemma queue_messages_grows:
  "queue_messages n ms s = (s', r) \<Longrightarrow> queue_grows (en_backend s) (en_backend s')"
proof (induction n ms s rule: queue_messages.induct)
  case (2 n m ms s)
  let ?t = "numbered_text (se_controller_id s) (se_firmware_version s) n m"
  obtain b x where add: "add_message ?t (en_backend s) = (b, x)" by fastforce
  show ?case
  proof (cases "n \<ge> 2 ^ 31")
    case False
    show ?thesis
    proof (cases x)
      case (Return k)
      have "queue_messages (n + 1) ms (s\<lparr>en_backend := b\<rparr>) = (s', r)"
        using "2.prems" False add Return by simp
      from "2.IH" [OF False add [symmetric] Return this] queue_grows_add [of ?t "en_backend s" b k] add Return
      show ?thesis by (auto intro: queue_grows_trans)
    qed (use "2.prems" False add add_message_fails [OF add] in auto)
  qed (use "2.prems" in auto)
qed auto

lemma process_message_grows:
  assumes "process_message pf hdr s = (s', r)"
  shows "queue_grows (en_backend s) (en_backend s')"
proof -
  have data: "queue_grows (en_backend s) (en_backend s1)" if "accept_data pf hdr s = (s1, x)" for s1 x
    using that queue_messages_grows
    by (fastforce simp: accept_data_def process_info_messages_def Let_def set_last_counter_fields
        split: prod.splits outcome.splits option.splits)
  show ?thesis
    using assms data
    by (auto simp: process_message_def dispatch_message_def process_controller_ident_def process_current_data_def
        process_archive_data_def process_delete_confirmation_def client_stop_def Let_def
        send_delete_step send_request_step split: prod.splits outcome.splits option.splits if_splits)
qed

lemma recive_impl_grows:
  assumes "recive_impl pf data s = (s', r)"
  shows "queue_grows (en_backend s) (en_backend s')"
proof (rule recive_impl_induct [OF assms, where P = "\<lambda>x. queue_grows (en_backend s) (en_backend x)"])
  fix hdr x x' q assume "queue_grows (en_backend s) (en_backend x)" and "process_message pf hdr x = (x', q)"
  then show "queue_grows (en_backend s) (en_backend x')"
    by (blast intro: queue_grows_trans process_message_grows)
qed (simp_all add: client_stop_def put_receiver_def)

lemma handle_read_grows:
  assumes "handle_read pf error data c = (c', r)"
  shows "queue_grows (en_backend c) (en_backend c')"
  using assms recive_impl_grows [of pf data "cl_session c"]
  by (fastforce simp: handle_read_def protocol_recive_def Let_def split: prod.splits outcome.splits if_splits)

lemma server_event_grows:
  assumes "server_event pf ev v = (v', r)"
  shows "queue_grows (en_backend (sv_env v)) (en_backend (sv_env v'))"
proof (cases ev)
  case (Read i error data)
  then obtain c where "handle_read pf error data (attach (sv_env v) (sv_clients v ! i)) = (c, r)" "sv_env v' = env_of c"
    using assms by (auto simp: client_read_def split: prod.splits)
  with handle_read_grows [of pf error data "attach (sv_env v) (sv_clients v ! i)" c r] show ?thesis
    by (simp add: env_of_def env.defs)
qed (use assms in \<open>auto simp: handle_accept_def start_accept_def client_write_def handle_timer_def
    drop_unused_clients_def handle_stop_def Let_def split: option.splits\<close>)

text \<open>
  So every completion can be handled: with the thread idle meanwhile, the texts are queued one after
  the other and the queue is the one the handler left.
\<close>

lemma add_messages_run:
  "add_messages ms b = (b', Return ()) \<Longrightarrow>
   run (thread_step st) (base_impl.extend b z) (map Queued ms) (base_impl.extend b' z)"
proof (induction ms arbitrary: b)
  case Nil
  then show ?case by (simp add: run.stay)
next
  case (Cons m ms)
  obtain b1 n where add: "add_message m b = (b1, Return n)" and rest: "add_messages ms b1 = (b', Return ())"
    using Cons.prems by (auto split: prod.splits outcome.splits)
  have "add_message m (base_impl.extend b z) = (base_impl.extend b1 z, Return n)"
    using add by (auto simp: add_message_def Let_def base_impl.defs split: if_splits)
  then have "run (thread_step st) (base_impl.extend b z) [Queued m] (base_impl.extend b1 z)"
    by (blast intro: run_one thread_step.queue)
  from run_trans [OF Cons.IH [OF rest] this] show ?case by simp
qed

lemma add_messages_texts:
  "add_messages ms b = (b', Return ()) \<Longrightarrow> be_messages b' = be_messages b @ ms"
  by (induction ms arbitrary: b) (auto simp: add_message_def Let_def split: prod.splits outcome.splits if_splits)

lemma accepted_queued: "concat (map accepted (map Queued ms)) = ms"
  by (induction ms) simp_all

lemma handler_alone:
  assumes "server_event pf ev (sy_server y) = (v, Return ())"
  shows "\<exists>evs b. run (thread_step st) (store_backend y) evs b \<and> concat (map accepted evs) = new_texts (sy_server y) v
    \<and> put_backend b (y\<lparr>sy_server := v\<rparr>) = y\<lparr>sy_server := v\<rparr>"
proof -
  obtain ms where ms: "add_messages ms (en_backend (sv_env (sy_server y))) = (en_backend (sv_env v), Return ())"
    using server_event_grows [OF assms] by (auto simp: queue_grows_def)
  let ?z = "backend.fields (wk_thread (sy_worker y)) (wk_interrupt (sy_worker y)) (wk_batch (sy_worker y))
    (wk_store (sy_worker y))"
  let ?b = "base_impl.extend (en_backend (sv_env v)) ?z"
  have "run (thread_step st) (store_backend y) (map Queued ms) ?b"
    using add_messages_run [OF ms] by (simp add: store_backend_def)
  moreover have "concat (map accepted (map Queued ms)) = new_texts (sy_server y) v"
    using add_messages_texts [OF ms] by (simp only: accepted_queued) (simp add: new_texts_def)
  moreover have "put_backend ?b (y\<lparr>sy_server := v\<rparr>) = y\<lparr>sy_server := v\<rparr>"
    by (simp add: put_backend_def base_impl.defs backend.defs)
  ultimately show ?thesis by blast
qed

lemma handler_can_step:
  assumes "enabled ev (sy_server y)" and "server_event pf ev (sy_server y) = (v, Return ())"
  shows "\<exists>evs. system_step pf st y evs (y\<lparr>sy_server := v\<rparr>)"
  using handler_alone [OF assms(2)] system_step.handler [OF assms] by metis

section \<open>Nothing is lost while the server runs\<close>

text \<open>A storage whose calls return.\<close>

definition storage_returns :: "'s storage \<Rightarrow> bool" where
  "storage_returns st \<longleftrightarrow>
     (\<forall>n s. snd (st_begin_batch st n s) = Return ()) \<and> (\<forall>m s. snd (st_save_message st m s) = Return ())
       \<and> (\<forall>s. snd (st_end_batch st s) = Return ())"

fun lost :: "Backend.event \<Rightarrow> string list" where
  "lost (Lost ms) = ms"
| "lost _ = []"

lemma settled_stored: "concat (map lost evs) = [] \<Longrightarrow> concat (map settled evs) = concat (map stored evs)"
proof (induction evs)
  case (Cons e evs)
  then show ?case by (cases e) auto
qed simp

lemma storage_returnsD:
  assumes "storage_returns st"
  shows "st_begin_batch st n s = (s', r) \<Longrightarrow> r = Return ()"
    and "st_save_message st m s = (s', r) \<Longrightarrow> r = Return ()"
    and "st_end_batch st s = (s', r) \<Longrightarrow> r = Return ()"
  using assms unfolding storage_returns_def by (metis snd_conv)+

lemma work_step_quiet:
  assumes "storage_returns st" and "\<not> bk_interrupt b" and "work_step st b = Some (evs, b')"
  shows "\<not> bk_interrupt b' \<and> concat (map lost evs) = []"
  using assms(2,3) unfolding work_step_def
  by (auto split: option.splits work_point.splits list.splits prod.splits outcome.splits if_splits
      dest: storage_returnsD [OF assms(1)])

lemma thread_step_quiet:
  assumes "storage_returns st" and "\<not> bk_interrupt b" and "thread_step st b evs b'"
  shows "\<not> bk_interrupt b' \<and> concat (map lost evs) = []"
  using assms(3,2) work_step_quiet [OF assms(1)]
  by (auto elim!: thread_stepE simp: add_message_def Let_def split: if_splits)

lemma thread_run_quiet:
  assumes "storage_returns st" and "run (thread_step st) b evs b'" and "\<not> bk_interrupt b"
  shows "\<not> bk_interrupt b' \<and> concat (map lost evs) = []"
  using assms(2,3) by (induction rule: run.induct) (use thread_step_quiet [OF assms(1)] in auto)

lemma server_event_running: "server_event pf ev v = (v', r) \<Longrightarrow> sv_running v' \<Longrightarrow> sv_running v"
  by (cases ev) (auto simp: client_read_def handle_accept_def start_accept_def client_write_def handle_timer_def
      drop_unused_clients_def handle_stop_def Let_def split: option.splits prod.splits if_splits)

lemma system_step_running: "system_step pf st y evs y' \<Longrightarrow> sv_running (sy_server y') \<Longrightarrow> sv_running (sy_server y)"
  by (auto elim!: system_stepE dest: server_event_running)

lemma system_step_quiet:
  assumes "storage_returns st" and "system_step pf st y evs y'"
    and "sv_running (sy_server y')" and "\<not> wk_interrupt (sy_worker y)"
  shows "sv_running (sy_server y)" and "\<not> wk_interrupt (sy_worker y')" and "concat (map lost evs) = []"
proof -
  have "sv_running (sy_server y) \<and> \<not> bk_interrupt (store_backend y') \<and> concat (map lost evs) = []"
    using assms(2)
  proof (cases rule: system_step.cases)
    case (handler ev v b)
    with assms(3) server_event_running [OF handler(3)] thread_run_quiet [OF assms(1) handler(4)] assms(4)
    show ?thesis by simp
  next
    case (work b)
    with assms(3) work_step_quiet [OF assms(1) _ work(2)] assms(4) show ?thesis by simp
  next
    case destroy
    with assms(3) show ?thesis by simp
  qed
  then show "sv_running (sy_server y)" "\<not> wk_interrupt (sy_worker y')" "concat (map lost evs) = []" by auto
qed

lemma system_run_quiet:
  assumes "storage_returns st" and "run (system_step pf st) y evs y'"
    and "sv_running (sy_server y')" and "\<not> wk_interrupt (sy_worker y)"
  shows "sv_running (sy_server y) \<and> \<not> wk_interrupt (sy_worker y') \<and> concat (map lost evs) = []"
  using assms(2-4)
proof (induction rule: run.induct)
  case (step y evs y' evs' y'')
  have "sv_running (sy_server y')" using system_step_running step.hyps(2) step.prems(1) by blast
  from step.IH [OF this step.prems(2)] system_step_quiet [OF assms(1) step.hyps(2) step.prems(1)]
  show ?case by simp
qed simp

text \<open>
  The texts the handlers queued since \<open>y\<close> are, in order, in the database, or still with the thread
  or in the queue.
\<close>

lemma system_run_delivers:
  assumes "records_messages st view el" and "storage_returns st" and "run (system_step pf st) y evs y'"
    and "sv_running (sy_server y')" and "\<not> wk_interrupt (sy_worker y)"
  shows "view (wk_store (sy_worker y')) @ map el (at_hand (store_backend y') @ be_messages (store_backend y')) =
    view (wk_store (sy_worker y))
      @ map el (at_hand (store_backend y) @ be_messages (store_backend y) @ concat (map accepted evs))"
proof -
  have r: "run (backend_step st) (store_backend y) evs (store_backend y')"
    by (rule system_run_storage [OF assms(3)])
  have "concat (map settled evs) = concat (map stored evs)"
    using system_run_quiet [OF assms(2-5)] by (simp add: settled_stored)
  with run_conserves [OF r]
  have "at_hand (store_backend y) @ be_messages (store_backend y) @ concat (map accepted evs) =
      concat (map stored evs) @ at_hand (store_backend y') @ be_messages (store_backend y')"
    by (simp add: conserves_def)
  with run_records [OF assms(1) r] show ?thesis by simp
qed

section \<open>The queue drains\<close>

text \<open>
  Two steps of the thread for each text and four for the round, when nobody interferes and the
  storage returns.
\<close>

lemma work_steps_add:
  "work_steps m st b = Some b1 \<Longrightarrow> work_steps (m + n) st b = work_steps n st b1"
  by (induction m arbitrary: b) (auto split: option.splits prod.splits)

lemma work_steps_one: "work_step st b = Some (evs, b') \<Longrightarrow> work_steps (Suc n) st b = work_steps n st b'"
  by simp

lemma save_steps:
  assumes "records_messages st view el" and "storage_returns st" and "bk_thread b = Some (Save ms)"
    and "\<not> bk_interrupt b"
  shows "\<exists>s. work_steps (2 * length ms + 1) st b = Some (b\<lparr>bk_store := s, bk_thread := Some Asleep\<rparr>)
    \<and> view s = view (bk_store b) @ map el ms"
  using assms(3,4)
proof (induction ms arbitrary: b)
  case Nil
  obtain s r where end_batch: "st_end_batch st (bk_store b) = (s, r)" by fastforce
  from storage_returnsD(3) [OF assms(2) this] Nil end_batch records_end [OF assms(1) end_batch] show ?case
    by (intro exI [of _ s]) (simp add: work_step_def)
next
  case (Cons m ms)
  obtain s r where save: "st_save_message st m (bk_store b) = (s, r)" by fastforce
  have ret: "r = Return ()" by (rule storage_returnsD(2) [OF assms(2) save])
  let ?b1 = "b\<lparr>bk_store := s, bk_thread := Some (Saved ms)\<rparr>"
  let ?b2 = "b\<lparr>bk_store := s, bk_thread := Some (Save ms)\<rparr>"
  have s1: "work_step st b = Some ([Stored m], ?b1)" using Cons.prems save ret by (simp add: work_step_def)
  have s2: "work_step st ?b1 = Some ([], ?b2)" using Cons.prems by (simp add: work_step_def)
  have "view s = view (bk_store b) @ [el m]" using records_save(1) [OF assms(1)] save ret by blast
  with Cons.IH [of ?b2] Cons.prems obtain s' where
    "work_steps (2 * length ms + 1) st ?b2 = Some (?b2\<lparr>bk_store := s', bk_thread := Some Asleep\<rparr>)"
    "view s' = view (bk_store b) @ map el (m # ms)" by auto
  moreover have "work_steps (2 * length (m # ms) + 1) st b = work_steps (2 * length ms + 1) st ?b2"
    using s1 s2 by simp
  ultimately show ?case by (intro exI [of _ s']) (simp only:, simp)
qed

lemma drain_steps:
  assumes "records_messages st view el" and "storage_returns st" and "bk_thread b = Some Asleep"
    and "\<not> bk_interrupt b"
  shows "\<exists>b'. work_steps (2 * length (be_messages b) + 4) st b = Some b' \<and> be_messages b' = []
    \<and> bk_thread b' = Some Asleep \<and> view (bk_store b') = view (bk_store b) @ map el (be_messages b)"
proof -
  obtain s r where begin_batch: "st_begin_batch st (length (bk_batch b)) (bk_store b) = (s, r)" by fastforce
  have ret: "r = Return ()" by (rule storage_returnsD(1) [OF assms(2) begin_batch])
  let ?b1 = "b\<lparr>bk_thread := Some Begin\<rparr>"
  let ?b2 = "b\<lparr>bk_store := s, bk_thread := Some Take\<rparr>"
  let ?b3 = "?b2\<lparr>bk_batch := be_messages b, be_messages := [], bk_thread := Some (Save (be_messages b))\<rparr>"
  have s1: "work_step st b = Some ([], ?b1)" using assms(3,4) by (simp add: work_step_def)
  have s2: "work_step st ?b1 = Some ([], ?b2)" using begin_batch ret by (simp add: work_step_def)
  have s3: "work_step st ?b2 = Some ([], ?b3)" by (simp add: work_step_def)
  obtain s' where s': "work_steps (2 * length (be_messages b) + 1) st ?b3 =
      Some (?b3\<lparr>bk_store := s', bk_thread := Some Asleep\<rparr>)" "view s' = view s @ map el (be_messages b)"
    using save_steps [OF assms(1,2), of ?b3 "be_messages b"] assms(4) by auto
  have "work_steps (2 * length (be_messages b) + 4) st b = work_steps (2 * length (be_messages b) + 1) st ?b3"
    using work_steps_one [OF s1] work_steps_one [OF s2] work_steps_one [OF s3] by (simp add: eval_nat_numeral)
  with s' records_begin [OF assms(1) begin_batch] show ?thesis by auto
qed

section \<open>The storage is stopped\<close>

text \<open>
  When the thread sleeps, the request of \<^verbatim>\<open>stop\<close> ends it at once: what is in the queue stays there and
  is destroyed with the object.
\<close>

lemma stop_asleep:
  assumes "bk_thread b = Some Asleep"
  shows "work_steps 1 st (stop_interrupt b) = Some (b\<lparr>bk_interrupt := False, bk_thread := Some Ended\<rparr>)"
    and "stop_join (b\<lparr>bk_interrupt := False, bk_thread := Some Ended\<rparr>) =
      Some (b\<lparr>bk_interrupt := False, bk_thread := None\<rparr>)"
  using assms by (simp_all add: stop_interrupt_def work_step_def stop_join_def)

section \<open>The server is not disturbed by the storage thread\<close>

lemma put_backend_serving [simp]:
  "serving (sy_server (put_backend b y)) = serving (sy_server y)"
  "server_wf (sy_server (put_backend b y)) = server_wf (sy_server y)"
  by (simp_all add: serving_def server_wf_def put_backend_def)

lemma system_step_serving:
  assumes "system_step pf st y evs y'" and "serving (sy_server y)" and "server_wf (sy_server y)"
  shows "serving (sy_server y') \<and> server_wf (sy_server y')"
  using assms by (auto elim!: system_stepE intro: server_event_serving server_event_wf)

lemma system_run_serving:
  assumes "run (system_step pf st) y evs y'" and "serving (sy_server y)" and "server_wf (sy_server y)"
  shows "serving (sy_server y') \<and> server_wf (sy_server y')"
  using assms by (induction rule: run.induct) (auto dest: system_step_serving)

section \<open>The start\<close>

lemma created_queue_empty: "factory_create oc options d = Return storage \<Longrightarrow> be_messages (created_queue storage) = []"
  by (auto simp: factory_create_def backends_def create_rabbitmq_def create_oracle_def rabbitmq_new_def base_impl_new_def
      and_then_Return Let_def split: option.splits if_splits prod.splits)

lemma server_new_queue: "server_new oc options d failure now e = Return v \<Longrightarrow> be_messages (en_backend (sv_env v)) = []"
  by (auto simp: server_new_def start_listen_def start_accept_def server_init_def bind_signals_def Let_def
      and_then_Return created_queue_empty split: option.splits)

lemma system_new_at_hand [simp]:
  "at_hand (store_backend (system_new v store)) = []" "sy_server (system_new v store) = v"
  "wk_store (sy_worker (system_new v store)) = store" "\<not> wk_interrupt (sy_worker (system_new v store))"
  by (simp_all add: at_hand_def) (simp_all add: system_new_def)

end
