(* ===== verification/Collector.thy ===== *)
theory Collector
  imports System "HOL-Library.Sublist"
begin

text \<open>
  What the whole program promises, without bytes, frames, connections, queue or thread: a collector
  has the last number of each controller and the list of everything it has taken. The process of
  \<open>System\<close> refines it. A label of a run is one turn of a connection: who it was (controller and
  firmware), what was done or sent, and who it is afterwards.
\<close>

section \<open>The collector\<close>

type_synonym peer = "u32 \<times> u32"

type_synonym 'a turn = "peer \<times> 'a list \<times> peer"

record 'e collector =
  co_counters :: "u32 \<rightharpoonup> u32"
  co_entries :: "'e list"

datatype action =
    Identify peer
  | Accept u32 "string list"       \<comment> \<open>the number of a data message and the texts in it\<close>
  | Refuse u32 nat "string list"   \<comment> \<open>the same, but only some of the texts were taken\<close>
  | Delete u32
  | Request u32

definition last_number :: "u32 \<Rightarrow> 'e collector \<Rightarrow> u32" where
  "last_number cid c = (case co_counters c cid of Some n \<Rightarrow> n | None \<Rightarrow> 0)"

text \<open>The texts of a data message carry the controller, its firmware and their numbers.\<close>

fun stamped :: "peer \<Rightarrow> u32 \<Rightarrow> string list \<Rightarrow> string list" where
  "stamped (cid, fw) num texts = numbered_texts cid fw (sint (num - of_nat (length texts))) texts"

text \<open>
  The counter moves with the texts of its message, all of them at once; a controller is told to
  delete up to its counter and nothing else, and asked for the number after it.
\<close>

fun collect :: "(string \<Rightarrow> 'e) \<Rightarrow> action \<Rightarrow> peer \<times> 'e collector \<Rightarrow> (peer \<times> 'e collector) option" where
  "collect el (Identify p') (p, c) = Some (p', c)"
| "collect el (Accept num texts) (p, c) =
     Some (p, c\<lparr>co_counters := (co_counters c)(fst p \<mapsto> num), co_entries := co_entries c @ map el (stamped p num texts)\<rparr>)"
| "collect el (Refuse num k texts) (p, c) =
     Some (p, c\<lparr>co_entries := co_entries c @ map el (take k (stamped p num texts))\<rparr>)"
| "collect el (Delete num) (p, c) =
     (if num \<noteq> 0 \<and> num = last_number (fst p) c then Some (p, c) else None)"
| "collect el (Request num) (p, c) =
     (if num = request_number (last_number (fst p) c) then Some (p, c) else None)"

fun collect_all ::
  "(string \<Rightarrow> 'e) \<Rightarrow> action list \<Rightarrow> peer \<times> 'e collector \<Rightarrow> (peer \<times> 'e collector) option" where
  "collect_all el [] x = Some x"
| "collect_all el (a # as) x = (case collect el a x of None \<Rightarrow> None | Some x \<Rightarrow> collect_all el as x)"

lemma collect_all_append:
  "collect_all el as x = Some y \<Longrightarrow> collect_all el (as @ bs) x = collect_all el bs y"
  by (induction as arbitrary: x) (auto split: option.splits)

fun action_bytes :: "action \<Rightarrow> byte list list" where
  "action_bytes (Delete num) = [wire (delete_data_bytes num)]"
| "action_bytes (Request num) = [wire (data_request_bytes num)]"
| "action_bytes _ = []"

text \<open>A turn is any sequence of actions; what can be seen of it from outside is what they send.\<close>

inductive collector_step :: "(string \<Rightarrow> 'e) \<Rightarrow> 'e collector \<Rightarrow> action turn list \<Rightarrow> 'e collector \<Rightarrow> bool"
  for el :: "string \<Rightarrow> 'e" where
  take_turn: "collect_all el acts (p, c) = Some (p', c') \<Longrightarrow> collector_step el c [(p, acts, p')] c'"

inductive_cases collector_stepE: "collector_step el c ls c'"

fun observed :: "action turn \<Rightarrow> byte list turn" where
  "observed (p, acts, p') = (p, concat (map action_bytes acts), p')"

section \<open>What the collector guarantees\<close>

text \<open>The actions of a turn with the controller each is for.\<close>

fun with_peer :: "peer \<Rightarrow> action list \<Rightarrow> (peer \<times> action) list" where
  "with_peer p [] = []"
| "with_peer p (a # as) = (p, a) # with_peer (case a of Identify p' \<Rightarrow> p' | _ \<Rightarrow> p) as"

definition history :: "action turn list \<Rightarrow> (peer \<times> action) list" where
  "history ts = concat (map (\<lambda>(p, acts, p'). with_peer p acts) ts)"

lemma history_simps [simp]:
  "history [] = []" "history (ts @ us) = history ts @ history us" "history [(p, acts, p')] = with_peer p acts"
  by (simp_all add: history_def)

text \<open>
  What a history justifies, from one state of the collector to a later one: nothing taken before is
  given up or moved; a counter was there at first or is the number of an accepted message of that
  controller; the texts of each accepted message are among the entries, together and in order; and a
  delete has a number that was a counter at first or was accepted, for that controller.
\<close>

definition accepted_from :: "u32 \<Rightarrow> u32 \<Rightarrow> (peer \<times> action) list \<Rightarrow> bool" where
  "accepted_from cid n h \<longleftrightarrow> (\<exists>fw texts. ((cid, fw), Accept n texts) \<in> set h)"

definition justified :: "(string \<Rightarrow> 'e) \<Rightarrow> 'e collector \<Rightarrow> (peer \<times> action) list \<Rightarrow> 'e collector \<Rightarrow> bool" where
  "justified el c h c' \<longleftrightarrow>
     prefix (co_entries c) (co_entries c')
     \<and> (\<forall>cid n. co_counters c' cid = Some n \<longrightarrow> co_counters c cid = Some n \<or> accepted_from cid n h)
     \<and> (\<forall>p n texts. (p, Accept n texts) \<in> set h \<longrightarrow> sublist (map el (stamped p n texts)) (co_entries c'))
     \<and> (\<forall>p n. (p, Delete n) \<in> set h \<longrightarrow> n \<noteq> 0 \<and> (co_counters c (fst p) = Some n \<or> accepted_from (fst p) n h))"

lemma accepted_from_append [simp]: "accepted_from cid n (h @ h') \<longleftrightarrow> accepted_from cid n h \<or> accepted_from cid n h'"
  by (auto simp: accepted_from_def)

lemma justified_refl [simp]: "justified el c [] c"
  by (simp add: justified_def)

lemma justifiedD:
  assumes "justified el c h c'"
  shows "prefix (co_entries c) (co_entries c')"
    and "co_counters c' cid = Some n \<Longrightarrow> co_counters c cid = Some n \<or> accepted_from cid n h"
    and "(p, Accept n texts) \<in> set h \<Longrightarrow> sublist (map el (stamped p n texts)) (co_entries c')"
    and "(p, Delete n) \<in> set h \<Longrightarrow> n \<noteq> 0"
    and "(p, Delete n) \<in> set h \<Longrightarrow> co_counters c (fst p) = Some n \<or> accepted_from (fst p) n h"
  using assms unfolding justified_def by blast+

lemma justified_trans:
  assumes h: "justified el c h c'" and h': "justified el c' h' c''"
  shows "justified el c (h @ h') c''"
  unfolding justified_def
proof (intro conjI allI impI)
  show "prefix (co_entries c) (co_entries c'')"
    using justifiedD(1) [OF h] justifiedD(1) [OF h'] by (rule prefix_order.order_trans)
  show "co_counters c cid = Some n \<or> accepted_from cid n (h @ h')" if "co_counters c'' cid = Some n" for cid n
    using justifiedD(2) [OF h' that] justifiedD(2) [OF h, of cid n] by auto
  show "sublist (map el (stamped p n texts)) (co_entries c'')" if "(p, Accept n texts) \<in> set (h @ h')" for p n texts
    using that justifiedD(3) [OF h', of p n texts] justifiedD(3) [OF h, of p n texts]
      prefix_imp_sublist [OF justifiedD(1) [OF h']]
    by (auto simp del: stamped.simps intro: sublist_order.order_trans)
  show "n \<noteq> 0" if "(p, Delete n) \<in> set (h @ h')" for p n
    using that justifiedD(4) [OF h, of p n] justifiedD(4) [OF h', of p n] by auto
  show "co_counters c (fst p) = Some n \<or> accepted_from (fst p) n (h @ h')" if "(p, Delete n) \<in> set (h @ h')" for p n
    using that justifiedD(5) [OF h, of p n] justifiedD(5) [OF h', of p n] justifiedD(2) [OF h, of "fst p" n] by auto
qed

lemma collect_justified:
  assumes "collect el a (p, c) = Some (p', c')"
  shows "p' = (case a of Identify q \<Rightarrow> q | _ \<Rightarrow> p)" and "justified el c [(p, a)] c'"
proof -
  show "p' = (case a of Identify q \<Rightarrow> q | _ \<Rightarrow> p)" using assms by (cases a) (auto split: if_splits)
  show "justified el c [(p, a)] c'"
  proof (cases a)
    case (Accept n texts)
    then have c': "c' = c\<lparr>co_counters := (co_counters c)(fst p \<mapsto> n),
        co_entries := co_entries c @ map el (stamped p n texts)\<rparr>" using assms by (auto simp del: stamped.simps)
    have "accepted_from (fst p) n [(p, a)]" unfolding accepted_from_def Accept by (metis list.set_intros(1) prod.collapse)
    then show ?thesis
      unfolding justified_def c' Accept by (auto simp del: stamped.simps split: if_splits)
  next
    case (Delete n)
    with assms have "c' = c" and "n \<noteq> 0" and "co_counters c (fst p) = Some n"
      by (auto simp: last_number_def split: if_splits option.splits)
    with Delete show ?thesis by (simp add: justified_def)
  qed (use assms in \<open>auto simp: justified_def simp del: stamped.simps split: if_splits\<close>)
qed

lemma collect_all_justified:
  "collect_all el acts (p, c) = Some (p', c') \<Longrightarrow> justified el c (with_peer p acts) c'"
proof (induction acts arbitrary: p c)
  case (Cons a acts)
  obtain p1 c1 where a: "collect el a (p, c) = Some (p1, c1)" and acts: "collect_all el acts (p1, c1) = Some (p', c')"
    using Cons.prems by (auto split: option.splits)
  show ?case
    using justified_trans [OF collect_justified(2) [OF a] Cons.IH [OF acts]] collect_justified(1) [OF a] by simp
qed simp

lemma collector_run_justified: "run (collector_step el) c ts c' \<Longrightarrow> justified el c (history ts) c'"
proof (induction rule: run.induct)
  case (step c ts c' ts' c'')
  from step.hyps(2) have "justified el c' (history ts') c''"
    by (auto elim!: collector_stepE intro: collect_all_justified)
  from justified_trans [OF step.IH this] show ?case by simp
qed simp

section \<open>A connection is a sequence of actions\<close>

definition peer_of :: "('f, 'z) session_scheme \<Rightarrow> peer" where
  "peer_of s = (se_controller_id s, se_firmware_version s)"

text \<open>The collector a session sees, when the entries before its queue are \<open>base\<close>.\<close>

definition session_view :: "(string \<Rightarrow> 'e) \<Rightarrow> 'e list \<Rightarrow> ('f, 'z) session_scheme \<Rightarrow> 'e collector" where
  "session_view el base s = \<lparr>co_counters = en_counters s, co_entries = base @ map el (be_messages (en_backend s))\<rparr>"

definition explains :: "(string \<Rightarrow> 'e) \<Rightarrow> action list \<Rightarrow> ('f, 'z) session_scheme \<Rightarrow> ('f, 'z) session_scheme \<Rightarrow> bool" where
  "explains el acts s s' \<longleftrightarrow>
     (\<forall>base. collect_all el acts (peer_of s, session_view el base s) = Some (peer_of s', session_view el base s'))
     \<and> se_sent s' = se_sent s @ concat (map action_bytes acts)"

definition serves :: "(string \<Rightarrow> 'e) \<Rightarrow> ('f, 'z) session_scheme \<Rightarrow> ('f, 'z) session_scheme \<Rightarrow> bool" where
  "serves el s s' \<longleftrightarrow> (\<exists>acts. explains el acts s s')"

text \<open>What the collector cannot see.\<close>

definition looks_same :: "('f, 'z) session_scheme \<Rightarrow> ('f, 'z) session_scheme \<Rightarrow> bool" where
  "looks_same s s' \<longleftrightarrow> peer_of s' = peer_of s \<and> en_counters s' = en_counters s
     \<and> be_messages (en_backend s') = be_messages (en_backend s) \<and> se_sent s' = se_sent s"

lemma serves_same: "looks_same s s' \<Longrightarrow> serves el s s'"
  unfolding serves_def by (rule exI [of _ "[]"]) (simp add: explains_def looks_same_def session_view_def)

lemma serves_trans: "serves el s s' \<Longrightarrow> serves el s' s'' \<Longrightarrow> serves el s s''"
  unfolding serves_def
proof (elim exE)
  fix acts acts' assume "explains el acts s s'" "explains el acts' s' s''"
  then have "explains el (acts @ acts') s s''" by (simp add: explains_def collect_all_append)
  then show "\<exists>acts. explains el acts s s''" ..
qed

lemma servesI: "explains el [a] s s' \<Longrightarrow> serves el s s'"
  unfolding serves_def by blast

lemma serves_send_delete: "serves el s (send_delete s)"
proof (cases "get_last_counter (se_controller_id s) s = 0")
  case True
  then show ?thesis by (intro serves_same) (simp add: looks_same_def send_delete_eq)
next
  case False
  then show ?thesis
    by (intro servesI [of el "Delete (get_last_counter (se_controller_id s) s)"])
      (simp add: explains_def send_delete_eq peer_of_def session_view_def last_number_def get_last_counter_def)
qed

lemma serves_send_request: "serves el s (send_request s)"
  by (intro servesI [of el "Request (request_number (get_last_counter (se_controller_id s) s))"])
    (simp add: explains_def send_request_eq peer_of_def session_view_def last_number_def get_last_counter_def)

lemma serves_ident: "serves el s (s\<lparr>se_controller_id := cid, se_firmware_version := fw\<rparr>)"
  by (intro servesI [of el "Identify (cid, fw)"]) (simp add: explains_def peer_of_def session_view_def)

definition partly_queued :: "'f session \<Rightarrow> 'f session \<Rightarrow> bool" where
  "partly_queued s s' \<longleftrightarrow> (\<exists>num k texts. s' = put_queue (take k (stamped (peer_of s) num texts)) s)"

lemma partly_queued_refl [simp]: "partly_queued s s"
  unfolding partly_queued_def by (rule exI, rule exI [of _ 0]) simp

lemma process_info_messages_partly:
  assumes "process_info_messages pf hdr s = (s', r)"
  shows "partly_queued s s'"
proof -
  obtain texts x where parse: "parse_info_package (pf_runtime pf) (pf_parse pf) hdr [] = (texts, x)" by fastforce
  show ?thesis
  proof (cases "x = Return () \<and> resp_last_mes_number hdr \<noteq> None")
    case True
    then obtain num where num: "resp_last_mes_number hdr = Some num" by blast
    with True assms parse have "queue_messages (sint (num - of_nat (length texts))) texts s = (s', r)"
      by (simp add: process_info_messages_def Let_def)
    from queue_messages_prefix [OF this] show ?thesis
      unfolding partly_queued_def peer_of_def stamped.simps by blast
  next
    case False
    with assms parse have "s' = s" by (cases x) (auto simp: process_info_messages_def split: option.splits)
    then show ?thesis by simp
  qed
qed

lemma accept_data_partly:
  assumes "accept_data pf hdr s = (s', r)" and "r \<noteq> Return ()"
  shows "partly_queued s s'"
proof -
  obtain s1 x where info: "process_info_messages pf hdr s = (s1, x)" by fastforce
  have "s' = s \<or> s' = s1"
    using assms info by (auto simp: accept_data_def split: outcome.splits option.splits)
  with process_info_messages_partly [OF info] show ?thesis by auto
qed

lemma serves_accept_data:
  assumes "accept_data pf hdr s = (s', r)"
  shows "serves el s s'"
proof (cases "r = Return ()")
  case True
  from accept_data_Return [of pf hdr s s'] assms True obtain num where
    s': "s' = set_last_counter pf (se_controller_id s) num (put_queue (data_texts pf hdr num s) s)" by blast
  have "explains el [Accept num (fst (package_texts pf hdr))] s s'"
    by (simp add: explains_def s' peer_of_def session_view_def put_queue_def set_last_counter_eq data_texts_def Let_def)
  then show ?thesis by (rule servesI)
next
  case False
  then obtain num k texts where "s' = put_queue (take k (stamped (peer_of s) num texts)) s"
    using accept_data_partly [OF assms] by (auto simp: partly_queued_def)
  then have "explains el [Refuse num k texts] s s'"
    by (simp add: explains_def peer_of_def session_view_def put_queue_def)
  then show ?thesis by (rule servesI)
qed

text \<open>Updates of the members the collector does not have.\<close>

lemma serves_upd [simp]:
  "serves el s (s'\<lparr>se_protocol_state := q\<rparr>) = serves el s s'"
  "serves el s (client_stop s') = serves el s s'"
  "serves el s (put_receiver st buf s') = serves el s s'"
  by (simp_all add: serves_def explains_def peer_of_def session_view_def client_stop_def put_receiver_def)

lemma serves_refl [simp]: "serves el s s"
  by (rule serves_same) (simp add: looks_same_def)

lemma dispatch_message_serves:
  assumes "dispatch_message pf hdr s = (s', r)"
  shows "serves el s s'"
proof -
  have ident: "serves el s s'" if "process_controller_ident hdr s = (s', r)"
    using that serves_trans [OF serves_ident serves_send_delete] serves_trans [OF serves_ident serves_send_request]
    by (auto simp: process_controller_ident_def Let_def split: outcome.splits option.splits if_splits)
  have archive: "serves el s s'" if "process_archive_data pf hdr s = (s', r)"
    using that serves_send_delete serves_accept_data
    by (auto simp: process_archive_data_def split: option.splits if_splits)
  have current: "serves el s s'" if cur: "process_current_data pf hdr s = (s', r)"
  proof -
    obtain s1 r1 where a: "accept_data pf hdr s = (s1, r1)" by fastforce
    have "s' = (send_delete s1)\<lparr>se_protocol_state := wait_final_delete_confirm\<rparr> \<or> s' = s1"
      using cur a by (cases r1) (auto simp: process_current_data_def)
    then show ?thesis
      using serves_accept_data [OF a] serves_trans [OF serves_accept_data [OF a] serves_send_delete] by auto
  qed
  have confirm: "serves el s s'" if "process_delete_confirmation s = (s', r)"
    using that serves_send_request by (auto simp: process_delete_confirmation_def split: if_splits)
  from assms ident archive current confirm show ?thesis
    by (auto simp: dispatch_message_def split: option.splits if_splits)
qed

lemma process_message_serves: "process_message pf hdr s = (s', r) \<Longrightarrow> serves el s s'"
  using dispatch_message_serves [of pf hdr s _ _ el]
  by (auto simp: process_message_def split: prod.splits outcome.splits)

lemma recive_impl_serves:
  assumes "recive_impl pf data s = (s', r)"
  shows "serves el s s'"
  by (rule recive_impl_induct [OF assms, where P = "serves el s"])
    (auto intro: serves_trans [OF _ process_message_serves])

lemma cl_put_peer [simp]: "peer_of (cl_put s c) = peer_of s" "peer_of (cl_session c) = peer_of c"
  by (simp_all add: peer_of_def cl_put_def cl_session_def session.defs client.defs)

lemma serves_cl_put: "serves el (cl_session c) s \<Longrightarrow> serves el c (cl_put s c')"
  by (simp add: serves_def explains_def session_view_def)

lemma serves_client_close [simp]: "serves el c (client_close c') = serves el c c'" for c :: "'f client"
  by (simp add: serves_def explains_def session_view_def)
    (simp add: client_close_def peer_of_def cl_put_def cl_session_def session.defs client.defs client_stop_def)

lemma serves_client_upd [simp]:
  "serves el c (c'\<lparr>cl_reading := b\<rparr>) = serves el c c'" "serves el c (c'\<lparr>cl_perm_buffer := d\<rparr>) = serves el c c'"
  for c :: "'f client"
  by (simp_all add: serves_def explains_def session_view_def peer_of_def)

lemma handle_read_serves:
  assumes "handle_read pf error data c = (c', r)"
  shows "serves el c c'"
proof -
  let ?c = "c\<lparr>cl_reading := True, cl_perm_buffer := data\<rparr>"
  obtain s q where rec: "recive_impl pf data (cl_session c) = (s, q)" by fastforce
  have "serves el c (cl_put s c1)" for c1
    by (rule serves_cl_put [OF recive_impl_serves [OF rec]])
  with assms rec show ?thesis
    by (auto simp: handle_read_def protocol_recive_def Let_def split: prod.splits outcome.splits if_splits)
qed

section \<open>The process with what it sends\<close>

text \<open>What a completion sends to a connection; only a completed read makes the protocol send.\<close>

fun turns :: "Server.event \<Rightarrow> 'f server \<Rightarrow> 'f server \<Rightarrow> byte list turn list" where
  "turns (Read i error data) v v' =
     (let c = sv_clients v ! i; c' = sv_clients v' ! i
      in [(peer_of c, drop (length (se_sent c)) (se_sent c'), peer_of c')])"
| "turns ev v v' = []"

text \<open>The steps of the process while it serves, labelled with what it sends.\<close>

inductive process_step ::
  "('c, 'u, 'f) platform \<Rightarrow> 's storage \<Rightarrow> ('f, 's) system \<Rightarrow> byte list turn list \<Rightarrow> ('f, 's) system \<Rightarrow> bool"
  for pf :: "('c, 'u, 'f) platform" and st :: "'s storage" where
  handler: "enabled ev (sy_server y) \<Longrightarrow> server_event pf ev (sy_server y) = (v, Return ()) \<Longrightarrow>
    run (thread_step st) (store_backend y) evs b \<Longrightarrow> concat (map accepted evs) = new_texts (sy_server y) v \<Longrightarrow>
    process_step pf st y (turns ev (sy_server y) v) (put_backend b (y\<lparr>sy_server := v\<rparr>))"
| work: "work_step st (store_backend y) = Some (evs, b) \<Longrightarrow> process_step pf st y [] (put_backend b y)"

lemma process_step_system: "process_step pf st y ls y' \<Longrightarrow> \<exists>evs. system_step pf st y evs y'"
  by (cases rule: process_step.cases) (auto intro: system_step.intros)

lemma handler_can_turn:
  assumes "enabled ev (sy_server y)" and "server_event pf ev (sy_server y) = (v, Return ())"
  shows "process_step pf st y (turns ev (sy_server y) v) (y\<lparr>sy_server := v\<rparr>)"
  using handler_alone [OF assms(2)] process_step.handler [OF assms] by metis

text \<open>Everything that was taken: in the database, with the thread, in the queue.\<close>

definition kept :: "('s \<Rightarrow> 'e list) \<Rightarrow> (string \<Rightarrow> 'e) \<Rightarrow> 's backend \<Rightarrow> 'e list" where
  "kept view el b = view (bk_store b) @ map el (at_hand b @ be_messages b)"

definition collected :: "('s \<Rightarrow> 'e list) \<Rightarrow> (string \<Rightarrow> 'e) \<Rightarrow> ('f, 's) system \<Rightarrow> 'e collector" where
  "collected view el y =
     \<lparr>co_counters = en_counters (sv_env (sy_server y)), co_entries = kept view el (store_backend y)\<rparr>"

section \<open>The refinement\<close>

lemma thread_run_kept:
  assumes "records_messages st view el" and "storage_returns st" and "run (thread_step st) b evs b'"
    and "\<not> bk_interrupt b"
  shows "kept view el b' = kept view el b @ map el (concat (map accepted evs))"
proof -
  have r: "run (backend_step st) b evs b'" by (rule run_mono [OF assms(3) backend_step.thread])
  have "concat (map settled evs) = concat (map stored evs)"
    using thread_run_quiet [OF assms(2-4)] by (simp add: settled_stored)
  with run_conserves [OF r] run_records [OF assms(1) r] show ?thesis
    by (simp add: conserves_def kept_def flip: map_append)
qed

lemma env_of_simps [simp]: "en_counters (env_of c) = en_counters c" "en_backend (env_of c) = en_backend c"
  by (simp_all add: env_of_def env.defs)

lemma peer_of_attach [simp]: "peer_of (attach e c) = peer_of c" "se_sent (attach e c) = se_sent c"
  by (simp_all add: peer_of_def attach_def)

text \<open>A handler, for the collector: its turns, with the entries before the queue unchanged.\<close>

lemma server_event_collected:
  assumes "enabled ev v" and "server_event pf ev v = (v', Return ())"
  shows "\<exists>ts. map observed ts = turns ev v v'
    \<and> (\<forall>base. run (collector_step el)
        \<lparr>co_counters = en_counters (sv_env v), co_entries = base @ map el (be_messages (en_backend (sv_env v)))\<rparr> ts
        \<lparr>co_counters = en_counters (sv_env v'), co_entries = base @ map el (be_messages (en_backend (sv_env v')))\<rparr>)"
proof (cases ev)
  case (Read i error data)
  let ?c = "attach (sv_env v) (sv_clients v ! i)"
  obtain c where read: "handle_read pf error data ?c = (c, Return ())"
      and v': "v' = v\<lparr>sv_env := env_of c, sv_clients := (sv_clients v)[i := c]\<rparr>"
    using assms(2) Read by (auto simp: client_read_def split: prod.splits)
  have i: "i < length (sv_clients v)" using assms(1) Read by simp
  from handle_read_serves [OF read, of el] obtain acts where acts: "explains el acts ?c c"
    by (auto simp: serves_def)
  show ?thesis
  proof (intro exI [of _ "[(peer_of ?c, acts, peer_of c)]"] conjI allI)
    show "map observed [(peer_of ?c, acts, peer_of c)] = turns ev v v'"
      using acts i by (simp add: Read v' explains_def)
    fix base
    show "run (collector_step el)
        \<lparr>co_counters = en_counters (sv_env v), co_entries = base @ map el (be_messages (en_backend (sv_env v)))\<rparr>
        [(peer_of ?c, acts, peer_of c)]
        \<lparr>co_counters = en_counters (sv_env v'), co_entries = base @ map el (be_messages (en_backend (sv_env v')))\<rparr>"
      using acts by (intro run_one collector_step.take_turn) (simp add: v' explains_def session_view_def)
  qed
qed (use assms in \<open>auto intro!: run.stay simp: handle_accept_def start_accept_def client_write_def handle_timer_def
    drop_unused_clients_def handle_stop_def Let_def split: option.splits\<close>)

lemma new_texts_grow:
  assumes "server_event pf ev v = (v', r)"
  shows "be_messages (en_backend (sv_env v')) = be_messages (en_backend (sv_env v)) @ new_texts v v'"
  using server_event_grows [OF assms] add_messages_texts by (fastforce simp: queue_grows_def new_texts_def)

lemma process_step_collected:
  assumes "records_messages st view el" and "storage_returns st" and "\<not> wk_interrupt (sy_worker y)"
    and "process_step pf st y ls y'"
  shows "\<exists>ts. run (collector_step el) (collected view el y) ts (collected view el y') \<and> map observed ts = ls"
    and "\<not> wk_interrupt (sy_worker y')"
proof -
  have "(\<exists>ts. run (collector_step el) (collected view el y) ts (collected view el y') \<and> map observed ts = ls)
      \<and> \<not> bk_interrupt (store_backend y')"
    using assms(4)
  proof (cases rule: process_step.cases)
    case (handler ev v evs b)
    let ?base = "view (wk_store (sy_worker y)) @ map el (at_hand (store_backend y))"
    have quiet: "\<not> bk_interrupt b" using thread_run_quiet [OF assms(2) handler(5)] assms(3) by simp
    have "kept view el b = ?base @ map el (be_messages (en_backend (sv_env v)))"
      using thread_run_kept [OF assms(1,2) handler(5)] assms(3) handler(6) new_texts_grow [OF handler(4)]
      by (simp add: kept_def)
    then have after: "collected view el y' =
        \<lparr>co_counters = en_counters (sv_env v), co_entries = ?base @ map el (be_messages (en_backend (sv_env v)))\<rparr>"
      by (simp add: collected_def handler(2))
    have before: "collected view el y = \<lparr>co_counters = en_counters (sv_env (sy_server y)),
        co_entries = ?base @ map el (be_messages (en_backend (sv_env (sy_server y))))\<rparr>"
      by (simp add: collected_def kept_def)
    from server_event_collected [OF handler(3,4), of el] obtain ts where
      "map observed ts = ls" "run (collector_step el) (collected view el y) ts (collected view el y')"
      unfolding before after handler(1) by blast
    with quiet show ?thesis by (auto simp: handler(2))
  next
    case (work evs b)
    have r: "run (thread_step st) (store_backend y) evs b" using thread_step.work [OF work(3)] by (rule run_one)
    have "concat (map accepted evs) = []"
      using work(3) unfolding work_step_def
      by (auto split: option.splits work_point.splits list.splits prod.splits outcome.splits if_splits)
    with thread_run_kept [OF assms(1,2) r] assms(3) have "collected view el y' = collected view el y"
      by (simp add: collected_def work(2))
    moreover have "\<not> bk_interrupt b" using thread_run_quiet [OF assms(2) r] assms(3) by simp
    ultimately show ?thesis using work(1,2) by (auto intro!: exI [of _ "[]"] run.stay)
  qed
  then show "\<exists>ts. run (collector_step el) (collected view el y) ts (collected view el y') \<and> map observed ts = ls"
    and "\<not> wk_interrupt (sy_worker y')" by simp_all
qed

text \<open>Under a storage whose calls return, and as long as it is not asked to stop.\<close>

definition undisturbed :: "'s storage \<Rightarrow> ('s \<Rightarrow> 'e list) \<Rightarrow> (string \<Rightarrow> 'e) \<Rightarrow> ('f, 's) system \<Rightarrow> bool" where
  "undisturbed st view el y \<longleftrightarrow>
     records_messages st view el \<and> storage_returns st \<and> \<not> wk_interrupt (sy_worker y)"

interpretation col: simulation "process_step pf st" "collector_step el" observed "collected view el"
    "undisturbed st view el"
  for pf :: "('c, 'u, 'f) platform" and st :: "'s storage" and view :: "'s \<Rightarrow> 'e list" and el :: "string \<Rightarrow> 'e"
  by unfold_locales (auto simp: undisturbed_def dest: process_step_collected)

lemma collected_new:
  assumes "server_new oc options d failure now e = Return v"
  shows "collected view el (system_new v store) = \<lparr>co_counters = en_counters e, co_entries = view store\<rparr>"
proof -
  have "en_counters (sv_env v) = en_counters e"
    using assms by (auto simp: server_new_def start_listen_def start_accept_def server_init_def bind_signals_def Let_def
        and_then_Return split: option.splits)
  then show ?thesis using server_new_queue [OF assms] by (simp add: collected_def kept_def)
qed

section \<open>Deletes on the wire\<close>

lemma wire_inject: "wire (a # x) = wire (b # y) \<longleftrightarrow> a = b \<and> x = y"
proof
  assume "wire (a # x) = wire (b # y)"
  then have eq: "a # concat (map stuff (with_crc_le x)) = b # concat (map stuff (with_crc_le y))"
    by (simp only: wire_def send_buffer_Cons option.case)
  then have "snd (store_bytes normal [] (concat (map stuff (with_crc_le x)))) =
      snd (store_bytes normal [] (concat (map stuff (with_crc_le y))))" by (metis list.inject)
  then have "with_crc_le x = with_crc_le y" by (simp only: store_stuffed snd_conv append_Nil)
  then have "x @ [ucast (crc16 x AND 0xFF), ucast (drop_bit 8 (crc16 x))] =
      y @ [ucast (crc16 y AND 0xFF), ucast (drop_bit 8 (crc16 y))]" by (simp only: with_crc_le_def)
  then have "x = y" by (rule append_eq_append_conv [THEN iffD1, THEN conjunct1, rotated]) simp
  with eq show "a = b \<and> x = y" by simp
qed simp

text \<open>The bytes of a delete tell its number, and that it is not a request.\<close>

lemma le32_inject: "le32 n = le32 m \<longleftrightarrow> n = m"
  by (metis option.inject rd32_first)

lemma delete_bytes_inject:
  "wire (delete_data_bytes n) = wire (delete_data_bytes m) \<Longrightarrow> n = m"
  "wire (delete_data_bytes n) \<noteq> wire (data_request_bytes m)"
  by (simp_all add: delete_data_bytes_def data_request_bytes_def header_bytes_def wire_inject le32_inject tm_code_defs)

lemma action_bytes_Delete:
  "wire (delete_data_bytes n) \<in> set (concat (map action_bytes acts)) \<Longrightarrow> Delete n \<in> set acts"
proof (induction acts)
  case (Cons a acts)
  then show ?case by (cases a) (auto dest: delete_bytes_inject(1) simp: delete_bytes_inject(2))
qed simp

lemma with_peer_action: "a \<in> set acts \<Longrightarrow> \<exists>q. (q, a) \<in> set (with_peer p acts)"
proof (induction acts arbitrary: p)
  case (Cons b acts)
  show ?case
  proof (cases "a = b")
    case False
    with Cons.prems have "a \<in> set acts" by simp
    from Cons.IH [OF this] obtain q where
      "(q, a) \<in> set (with_peer (case b of Identify p' \<Rightarrow> p' | _ \<Rightarrow> p) acts)" by blast
    then have "(q, a) \<in> set (with_peer p (b # acts))" by simp
    then show ?thesis ..
  next
    case True
    then have "(p, a) \<in> set (with_peer p (b # acts))" by simp
    then show ?thesis ..
  qed
qed simp

lemma observed_Delete:
  assumes "(p, sent, p') \<in> set (map observed ts)" and "wire (delete_data_bytes n) \<in> set sent"
  shows "\<exists>q. (q, Delete n) \<in> set (history ts)"
proof -
  have "(p, sent, p') \<in> observed ` set ts" using assms(1) by (simp only: set_map)
  then obtain t where t: "t \<in> set ts" "(p, sent, p') = observed t" by (rule imageE)
  obtain q0 acts q1 where "t = (q0, acts, q1)" by (rule prod_cases3)
  with t have acts: "(p, acts, p') \<in> set ts" "sent = concat (map action_bytes acts)"
    by (simp_all only: observed.simps prod.inject)
  have "Delete n \<in> set acts" by (rule action_bytes_Delete) (use assms(2) acts(2) in \<open>simp only:\<close>)
  from with_peer_action [OF this, of p] obtain q where "(q, Delete n) \<in> set (with_peer p acts)" ..
  moreover have "with_peer p acts \<in> set (map (\<lambda>(p, acts, p'). with_peer p acts) ts)"
    using imageI [OF acts(1), of "\<lambda>(p, acts, p'). with_peer p acts"] by simp
  then have "set (with_peer p acts) \<subseteq> set (history ts)"
    unfolding history_def set_concat by blast
  ultimately show ?thesis by blast
qed

end
