(* ===== verification/Dialogue.thy ===== *)
theory Dialogue
  imports Collector
begin

text \<open>
  Runs of the whole program on concrete conversations: a controller connects, identifies itself and
  sends its archive. The lemmas say what the server has done after it, and how two of the runs end
  that the code does not provide for: a write that completes after its connection was destroyed, and
  a stop while texts are still in the queue.
\<close>

section \<open>The archive of one controller\<close>

definition archive_frames ::
  "u32 \<Rightarrow> u32 \<Rightarrow> u32 \<Rightarrow> u32 \<Rightarrow> u32 \<Rightarrow> byte \<Rightarrow> byte list list \<Rightarrow> (byte \<times> byte list) list" where
  "archive_frames cid fw n num time priority ds =
     [ident_frame cid fw, confirm_frame n, archive_frame num time priority ds, end_frame]"

lemma archive_frames_handled:
  assumes "en_counters s cid = Some n" and "n \<noteq> 0" and "num \<noteq> 0" and "can_queue pf num ds s"
  shows "\<exists>s'. handle_frames pf (archive_frames cid fw n num time priority ds) s = (s', Return ())
    \<and> se_sent s' = se_sent s @ [wire (delete_data_bytes n), wire (data_request_bytes (n + 1)), wire (delete_data_bytes num)]
    \<and> be_messages (en_backend s') = be_messages (en_backend s)
        @ numbered_texts cid fw (sint (num - of_nat (length (platform_texts pf ds)))) (platform_texts pf ds)
    \<and> en_counters s' = (en_counters s)(cid \<mapsto> num)
    \<and> se_protocol_state s' = wait_final_delete_confirm"
proof -
  let ?s1 = "(send_delete (s\<lparr>se_controller_id := cid, se_firmware_version := fw\<rparr>))\<lparr>se_protocol_state := wait_initial_delete_confirm\<rparr>"
  let ?s2 = "(send_request ?s1)\<lparr>se_protocol_state := process_archive\<rparr>"
  let ?s3 = "set_last_counter pf cid num (put_queue (frame_texts pf num ds ?s2) ?s2)"
  let ?s4 = "(send_delete ?s3)\<lparr>se_protocol_state := wait_final_delete_confirm\<rparr>"
  have one: "process_message pf (frame_bytes (ident_frame cid fw)) s = (?s1, Return ())"
    using assms(1,2) by (simp add: process_ident_frame Let_def get_last_counter_def)
  have two: "process_message pf (frame_bytes (confirm_frame n)) ?s1 = (?s2, Return ())"
    by (simp add: process_confirm_frame process_delete_confirmation_def)
  have "can_queue pf num ds ?s2"
    using assms(4) by (simp add: can_queue_def queue_room_def send_delete_step send_request_step)
  then have three: "process_message pf (frame_bytes (archive_frame num time priority ds)) ?s2 = (?s3, Return ())"
    by (simp add: process_archive_frame send_delete_step send_request_step)
  have four: "process_message pf (frame_bytes end_frame) ?s3 = (?s4, Return ())"
    by (rule process_end_frame)
  have "handle_frames pf (archive_frames cid fw n num time priority ds) s = (?s4, Return ())"
    by (simp only: archive_frames_def handle_frames.simps one two three four prod.case outcome.case)
  then show ?thesis
    using assms(1-3)
    by (intro exI [of _ ?s4])
      (simp add: send_delete_eq send_request_eq get_last_counter_def request_number_def frame_texts_def)
qed

lemma archive_frames_fit: "payload_fits ds \<Longrightarrow> list_all frame_fits (archive_frames cid fw n num time priority ds)"
  by (simp add: archive_frames_def frame_defs frame_fits_def payload_fits_def data_payload_def)

section \<open>One connection of a fresh server\<close>

lemma length_stuffed: "length (concat (map stuff bs)) \<le> 2 * length bs"
  by (induction bs) (auto simp: stuff_def stuff_byte_to_buffer_def)

lemma length_wire_frame: "length (wire_frame f) \<le> 2 * (length (snd f) + 6)"
  using length_stuffed [of "tl (controller_frame (fst f) (snd f))"] length_frame_bytes [of f]
  by (simp add: wire_frame_def frame_bytes_def case_prod_beta)

lemma wire_frame_nonempty: "0 < length (wire_frame f)"
  by (simp add: wire_frame_def split: prod.split)

definition fresh :: "'f server \<Rightarrow> bool" where
  "fresh v \<longleftrightarrow> sv_running v \<and> sv_signals v \<and> sv_acceptor_open v \<and> sv_timer v \<noteq> None \<and> sv_clients v = []
     \<and> sv_accepting v = Some (client_create (protocol_create (sv_env v))) \<and> sv_orphans v = 0"

lemma server_new_fresh:
  assumes "server_new oc options d failure now e = Return v"
  shows "fresh v" and "en_counters (sv_env v) = en_counters e" and "en_file_opens (sv_env v) = en_file_opens e"
  using assms
  by (auto simp: fresh_def server_new_def start_listen_def start_accept_def server_init_def bind_signals_def
      Let_def and_then_Return split: option.splits)

text \<open>After the first connection was accepted.\<close>

definition connected :: "string \<Rightarrow> 'f server \<Rightarrow> 'f server" where
  "connected name v =
     v\<lparr>sv_clients := [client_start (Some name) (client_create (protocol_create (sv_env v)))]\<rparr>"

lemma accept_first:
  assumes "fresh v"
  shows "enabled (Accepted Success (Some name)) v"
    and "server_event pf (Accepted Success (Some name)) v = (connected name v, Return ())"
  using assms by (simp_all add: fresh_def connected_def handle_accept_def start_accept_def Let_def)

lemma first_session:
  "cl_session (attach e (client_start (Some name) (client_create (protocol_create e0)))) = transport_protocol_new e"
  by (simp add: attach_def client_start_def protocol_init_def client_create_def client_new_def protocol_create_def
      transport_protocol_new_def cl_session_def env.defs session.defs client.defs)

text \<open>After a read whose bytes take the session of the connection from the first state to \<open>s\<close>.\<close>

definition answered :: "'f session \<Rightarrow> 'f server \<Rightarrow> 'f server \<Rightarrow> bool" where
  "answered s v v' \<longleftrightarrow>
     (\<exists>c. sv_clients v' = [c] \<and> se_sent c = se_sent s \<and> se_open c = se_open s \<and> cl_reading c \<and> cl_written c = 0)
     \<and> en_counters (sv_env v') = en_counters s \<and> en_backend (sv_env v') = en_backend s
     \<and> sv_running v' = sv_running v \<and> sv_signals v' = sv_signals v \<and> sv_timer v' = sv_timer v"

lemma read_first:
  assumes "fresh v" and "0 < length data" and "length data < async_buffer_size"
    and "recive_impl pf data (transport_protocol_new (sv_env v)) = (s, Return ())"
  shows "enabled (Read 0 Success data) (connected name v)"
    and "\<exists>v'. server_event pf (Read 0 Success data) (connected name v) = (v', Return ()) \<and> answered s v v'"
proof -
  let ?c = "client_start (Some name) (client_create (protocol_create (sv_env v)))"
  show "enabled (Read 0 Success data) (connected name v)"
    using assms(1,3) by (simp add: fresh_def connected_def client_start_def)
  have read: "handle_read pf Success data (attach (sv_env v) ?c) =
      (cl_put s ((attach (sv_env v) ?c)\<lparr>cl_perm_buffer := data, cl_reading := True\<rparr>), Return ())"
    unfolding handle_read_data [OF assms(2,3)] first_session by (simp add: assms(4))
  have "cl_written ?c = 0"
    by (simp add: client_start_def protocol_init_def client_create_def client_new_def session.defs client.defs)
  then show "\<exists>v'. server_event pf (Read 0 Success data) (connected name v) = (v', Return ()) \<and> answered s v v'"
    by (intro exI conjI, simp add: client_read_def connected_def read, simp add: answered_def attach_def env_of_def env.defs)
qed

lemma idle_new [simp]: "idle_receiver (transport_protocol_new e)"
  by (simp add: idle_receiver_def transport_protocol_new_def env.defs session.defs)

lemma new_session_fields [simp]:
  "se_sent (transport_protocol_new e) = []" "en_counters (transport_protocol_new e) = en_counters e"
  "en_backend (transport_protocol_new e) = en_backend e" "se_open (transport_protocol_new e)"
  by (simp_all add: transport_protocol_new_def env.defs session.defs)

text \<open>The server after its first connection has sent well-formed frames in one read.\<close>

lemma first_conversation:
  assumes "fresh v" and "list_all frame_fits fs" and "fs \<noteq> []"
    and "length (concat (map wire_frame fs)) < async_buffer_size"
    and "handle_frames pf fs (transport_protocol_new (sv_env v)) = (s, Return ())"
  shows "\<exists>v'. server_run pf v [Accepted Success (Some name), Read 0 Success (concat (map wire_frame fs))] v'
    \<and> answered s v v'"
proof -
  have "0 < length (concat (map wire_frame fs))"
    using assms(3) wire_frame_nonempty by (cases fs) (auto intro: add_pos_nonneg)
  from read_first [OF assms(1) this assms(4) recive_frames(1) [OF assms(2,5)], of name] obtain v' where
    "enabled (Read 0 Success (concat (map wire_frame fs))) (connected name v)"
    "server_event pf (Read 0 Success (concat (map wire_frame fs))) (connected name v) = (v', Return ())"
    "answered s v v'" by auto
  moreover have "server_run pf v ([] @ [Accepted Success (Some name)]) (connected name v)"
    by (rule server_run.event [OF server_run.idle accept_first [OF assms(1)]])
  ultimately show ?thesis using server_run.event by fastforce
qed

section \<open>A write that outlives its connection\<close>

lemma ident_answered:
  "\<exists>s w. handle_frames pf [ident_frame cid fw] (transport_protocol_new e) = (s, Return ()) \<and> se_sent s = [w]"
  by (simp add: process_ident_frame Let_def send_delete_eq send_request_eq get_last_counter_def)

lemma close_first:
  assumes "answered s v v'" and "sv_running v"
  shows "\<exists>c. enabled (Read 0 Other_error []) v'
    \<and> server_event pf (Read 0 Other_error []) v' = (v'\<lparr>sv_env := env_of c, sv_clients := [c]\<rparr>, Return ())
    \<and> \<not> se_open c \<and> \<not> cl_reading c \<and> se_sent c = se_sent s \<and> cl_written c = 0"
proof -
  obtain c where c: "sv_clients v' = [c]" "se_sent c = se_sent s" "cl_reading c" "cl_written c = 0"
    using assms(1) by (auto simp: answered_def)
  let ?c = "client_close ((attach (sv_env v') c)\<lparr>cl_reading := False\<rparr>)"
  have "cl_written (attach (sv_env v') c) = 0" using c(4) by (simp add: attach_def)
  with c assms show ?thesis
    by (intro exI [of _ ?c]) (simp add: client_read_def handle_read_def answered_def async_buffer_size_def)
qed

lemma write_outlives_connection:
  assumes "fresh v"
  shows "\<exists>v'. server_run pf v [Accepted Success (Some name), Read 0 Success (wire_frame (ident_frame cid fw)),
        Read 0 Other_error [], Tick Success] v'
    \<and> sv_clients v' = [] \<and> enabled Wrote_orphan v'"
proof -
  obtain s w where s: "handle_frames pf [ident_frame cid fw] (transport_protocol_new (sv_env v)) = (s, Return ())"
      "se_sent s = [w]" using ident_answered by blast
  have "length (wire_frame (ident_frame cid fw)) < async_buffer_size"
    using length_wire_frame [of "ident_frame cid fw"] by (simp add: ident_frame_def async_buffer_size_def)
  with first_conversation [OF assms _ _ _ s(1), of name] obtain v1 where
    run: "server_run pf v [Accepted Success (Some name), Read 0 Success (wire_frame (ident_frame cid fw))] v1"
    and v1: "answered s v v1" by (auto simp: frame_fits_def ident_frame_def)
  have running: "sv_running v" and timer: "sv_timer v \<noteq> None" using assms by (simp_all add: fresh_def)
  from close_first [OF v1 running] obtain c where
    close: "enabled (Read 0 Other_error []) v1"
      "server_event pf (Read 0 Other_error []) v1 = (v1\<lparr>sv_env := env_of c, sv_clients := [c]\<rparr>, Return ())"
    and c: "\<not> se_open c" "\<not> cl_reading c" "se_sent c = [w]" "cl_written c = 0" by (auto simp: s(2))
  let ?v2 = "v1\<lparr>sv_env := env_of c, sv_clients := [c]\<rparr>"
  let ?v3 = "handle_timer Success ?v2"
  have "enabled (Tick Success) ?v2" using v1 running timer by (simp add: answered_def)
  from server_run.event [OF server_run.event [OF run close] this, of ?v3]
  have "server_run pf v [Accepted Success (Some name), Read 0 Success (wire_frame (ident_frame cid fw)),
      Read 0 Other_error [], Tick Success] ?v3" by simp
  moreover have "sv_clients ?v3 = []" "enabled Wrote_orphan ?v3"
    using c v1 running by (simp_all add: handle_timer_def drop_unused_clients_def writes_pending_def answered_def)
  ultimately show ?thesis by blast
qed

section \<open>A stop with texts in the queue\<close>

text \<open>The process can do what the server alone does, while the storage thread is not scheduled.\<close>

lemma server_run_alone:
  "server_run pf v es v' \<Longrightarrow> \<exists>evs. run (system_step pf st) (y\<lparr>sy_server := v\<rparr>) evs (y\<lparr>sy_server := v'\<rparr>)"
proof (induction rule: server_run.induct)
  case (idle v)
  show ?case by (blast intro: run.stay)
next
  case (event v es v' e v'')
  from handler_can_step [of e "y\<lparr>sy_server := v'\<rparr>"] event.hyps(2,3)
  have "\<exists>evs. system_step pf st (y\<lparr>sy_server := v'\<rparr>) evs (y\<lparr>sy_server := v''\<rparr>)" by auto
  with event.IH show ?case by (blast intro: run.step)
qed

lemma stopped_asleep:
  assumes "\<not> sv_running (sy_server y)" and "wk_thread (sy_worker y) = Some Asleep"
  shows "\<exists>y'. run (system_step pf st) y [] y' \<and> wk_thread (sy_worker y') = Some Ended
    \<and> wk_store (sy_worker y') = wk_store (sy_worker y) \<and> be_messages (store_backend y') = be_messages (store_backend y)
    \<and> sv_clients (sy_server y') = sv_clients (sy_server y)"
proof -
  let ?b1 = "stop_interrupt (store_backend y)"
  let ?y1 = "put_backend ?b1 y"
  let ?b2 = "?b1\<lparr>bk_interrupt := False, bk_thread := Some Ended\<rparr>"
  have b1: "?b1 = (store_backend y)\<lparr>bk_interrupt := True\<rparr>" using assms(2) by (simp add: stop_interrupt_def)
  have "work_step st (store_backend ?y1) = Some ([], ?b2)"
    using assms(2) by (simp add: b1 work_step_def)
  then have "run (system_step pf st) ?y1 [] (put_backend ?b2 ?y1)"
    using system_step.work [of st ?y1] by (intro run_one) blast
  moreover have "run (system_step pf st) y [] ?y1"
    using system_step.destroy [OF assms(1)] by (rule run_one)
  ultimately have "run (system_step pf st) y [] (put_backend ?b2 ?y1)"
    using run_trans by fastforce
  moreover have "wk_thread (sy_worker (put_backend ?b2 ?y1)) = Some Ended"
    "wk_store (sy_worker (put_backend ?b2 ?y1)) = wk_store (sy_worker y)"
    "be_messages (store_backend (put_backend ?b2 ?y1)) = be_messages (store_backend y)"
    "sv_clients (sy_server (put_backend ?b2 ?y1)) = sv_clients (sy_server y)"
    by (simp_all only: b1 store_put) (simp_all add: put_backend_def)
  ultimately show ?thesis by blast
qed

lemma stop_loses_acknowledged:
  assumes "fresh v" and "en_counters (sv_env v) cid = Some n" and "n \<noteq> 0" and "num \<noteq> 0"
    and "can_queue pf num ds (transport_protocol_new (sv_env v))"
    and "length (concat (map wire_frame (archive_frames cid fw n num time priority ds))) < async_buffer_size"
  shows "\<exists>evs y c. run (system_step pf st) (system_new v store) evs y
    \<and> sv_clients (sy_server y) = [c] \<and> wire (delete_data_bytes num) \<in> set (se_sent c)
    \<and> be_messages (store_backend y) = be_messages (en_backend (sv_env v))
        @ numbered_texts cid fw (sint (num - of_nat (length (platform_texts pf ds)))) (platform_texts pf ds)
    \<and> wk_thread (sy_worker y) = Some Ended \<and> wk_store (sy_worker y) = store"
proof -
  let ?fs = "archive_frames cid fw n num time priority ds"
  have fits: "list_all frame_fits ?fs" using assms(5) by (simp add: can_queue_def archive_frames_fit)
  let ?texts = "be_messages (en_backend (sv_env v))
    @ numbered_texts cid fw (sint (num - of_nat (length (platform_texts pf ds)))) (platform_texts pf ds)"
  from archive_frames_handled [of "transport_protocol_new (sv_env v)" cid n num pf ds fw time priority] assms(2-5)
  obtain s where s: "handle_frames pf ?fs (transport_protocol_new (sv_env v)) = (s, Return ())"
    "wire (delete_data_bytes num) \<in> set (se_sent s)" "be_messages (en_backend s) = ?texts" by auto
  from first_conversation [OF assms(1) fits _ assms(6) s(1), of "[]"]
  obtain v1 where run: "server_run pf v [Accepted Success (Some []), Read 0 Success (concat (map wire_frame ?fs))] v1"
    and v1: "answered s v v1" by (auto simp: archive_frames_def)
  have "enabled Signal v1" using v1 assms(1) by (simp add: answered_def fresh_def)
  from server_run.event [OF run this, of "handle_stop v1"]
  have "server_run pf v ([Accepted Success (Some []), Read 0 Success (concat (map wire_frame ?fs))] @ [Signal]) (handle_stop v1)"
    by simp
  from server_run_alone [OF this, of st "system_new v store"] obtain evs where
    evs: "run (system_step pf st) (system_new v store) evs ((system_new v store)\<lparr>sy_server := handle_stop v1\<rparr>)"
    by (auto simp: system_new_def)
  let ?y1 = "(system_new v store)\<lparr>sy_server := handle_stop v1\<rparr>"
  have "\<not> sv_running (sy_server ?y1)" "wk_thread (sy_worker ?y1) = Some Asleep"
    by (simp_all add: handle_stop_def system_new_def)
  from stopped_asleep [OF this, of pf st] obtain y where y: "run (system_step pf st) ?y1 [] y"
    "wk_thread (sy_worker y) = Some Ended" "wk_store (sy_worker y) = store"
    "be_messages (store_backend y) = be_messages (en_backend (sv_env v1))" "sv_clients (sy_server y) = sv_clients v1"
    by (auto simp: handle_stop_def)
  have "run (system_step pf st) (system_new v store) (evs @ []) y" by (rule run_trans [OF y(1) evs])
  moreover obtain c where "sv_clients v1 = [c]" "se_sent c = se_sent s" "en_backend (sv_env v1) = en_backend s"
    using v1 by (auto simp: answered_def)
  ultimately show ?thesis using y s(2,3) by (intro exI [of _ evs] exI [of _ y] exI [of _ c]) simp
qed

section \<open>The same conversation, with what is sent\<close>

lemma archive_turn:
  assumes "fresh v" and "en_counters (sv_env v) cid = Some n" and "n \<noteq> 0" and "num \<noteq> 0"
    and "can_queue pf num ds (transport_protocol_new (sv_env v))"
    and "length (concat (map wire_frame (archive_frames cid fw n num time priority ds))) < async_buffer_size"
  shows "\<exists>ls y p sent p'. run (process_step pf st) (system_new v store) ls y
    \<and> (p, sent, p') \<in> set ls \<and> wire (delete_data_bytes num) \<in> set sent"
proof -
  let ?fs = "archive_frames cid fw n num time priority ds"
  let ?y = "system_new v store"
  have fits: "list_all frame_fits ?fs" using assms(5) by (simp add: can_queue_def archive_frames_fit)
  from archive_frames_handled [of "transport_protocol_new (sv_env v)" cid n num pf ds fw time priority] assms(2-5)
  obtain s where s: "handle_frames pf ?fs (transport_protocol_new (sv_env v)) = (s, Return ())"
    "wire (delete_data_bytes num) \<in> set (se_sent s)" by auto
  have "0 < length (concat (map wire_frame ?fs))"
    using wire_frame_nonempty by (simp add: archive_frames_def)
  from read_first [OF assms(1) this assms(6) recive_frames(1) [OF fits s(1) idle_new], of "[]"] obtain v' where
    read: "enabled (Read 0 Success (concat (map wire_frame ?fs))) (connected [] v)"
      "server_event pf (Read 0 Success (concat (map wire_frame ?fs))) (connected [] v) = (v', Return ())"
    and v': "answered s v v'" by auto
  let ?turn = "turns (Read 0 Success (concat (map wire_frame ?fs))) (connected [] v) v'"
  have "process_step pf st ?y [] (?y\<lparr>sy_server := connected [] v\<rparr>)"
    using handler_can_turn [of "Accepted Success (Some [])" ?y pf "connected [] v" st] accept_first [OF assms(1)] by simp
  moreover have "process_step pf st (?y\<lparr>sy_server := connected [] v\<rparr>) ?turn (?y\<lparr>sy_server := v'\<rparr>)"
    using handler_can_turn [of "Read 0 Success (concat (map wire_frame ?fs))" "?y\<lparr>sy_server := connected [] v\<rparr>" pf v' st] read
    by simp
  ultimately have "run (process_step pf st) ?y ([] @ ?turn) (?y\<lparr>sy_server := v'\<rparr>)"
    by (blast intro: run_one run.step)
  moreover have "se_sent (client_start (Some []) (client_create (protocol_create (sv_env v)))) = []"
    by (simp add: client_start_def protocol_init_def client_create_def client_new_def protocol_create_def
        transport_protocol_new_def env.defs session.defs client.defs)
  with v' s(2) have "\<exists>p sent p'. (p, sent, p') \<in> set ?turn \<and> wire (delete_data_bytes num) \<in> set sent"
    by (auto simp: connected_def answered_def Let_def)
  ultimately show ?thesis by (metis append_Nil)
qed

end
