(* ===== verification/Startup.thy ===== *)
theory Startup
  imports Server
begin

text \<open>
  How the program starts: \<^verbatim>\<open>daemon.cpp\<close>, \<^verbatim>\<open>main\<close> of \<^verbatim>\<open>main_linux.cpp\<close> up to the call of \<^verbatim>\<open>run\<close>, and
  the command line of \<^verbatim>\<open>main_win.cpp\<close>. What \<^verbatim>\<open>daemon(1, 0)\<close> returns is a parameter.
\<close>

section \<open>Linux\<close>

definition daemonize :: "int \<Rightarrow> unit outcome" where
  "daemonize daemon_result =
     (if 0 \<noteq> daemon_result then Throw (Runtime_error ''Error entering daemon mode'') else Return ())"

text \<open>
  The body of the \<^verbatim>\<open>try\<close>: the server that is run. Only the first section of the configuration is
  used.
\<close>

definition main_body ::
  "('s, 'u, 'f) platform \<Rightarrow> ('c, 'd) occi \<Rightarrow> string list \<Rightarrow> 'g file_result \<Rightarrow> int \<Rightarrow> 'd \<Rightarrow> exn option \<Rightarrow> nat
     \<Rightarrow> 'f env \<Rightarrow> 'f server outcome" where
  "main_body pf oc argv file daemon_result d failure now e =
     (case get_settings argv file [] False of
        ((options, daemon_mode), r) \<Rightarrow>
          and_then r (\<lambda>_.
          if options = [] then Throw (Runtime_error ''Configuration empty. Nothing to do.'')
          else (let e = init_protocol pf e
                in and_then (if daemon_mode then daemonize daemon_result else Return ()) (\<lambda>_.
                   server_new oc (hd options) d failure now e))))"

text \<open>\<^verbatim>\<open>std::exception\<close> is caught, and its text logged; \<^verbatim>\<open>boost::thread_interrupted\<close> is none.\<close>

fun is_std_exception :: "exn \<Rightarrow> bool" where
  "is_std_exception Thread_interrupted \<longleftrightarrow> False"
| "is_std_exception Other_exception \<longleftrightarrow> False"
| "is_std_exception _ \<longleftrightarrow> True"

datatype 'v ended = Running 'v | Logged string | Exited nat

definition main_program ::
  "('s, 'u, 'f) platform \<Rightarrow> ('c, 'd) occi \<Rightarrow> string list \<Rightarrow> 'g file_result \<Rightarrow> int \<Rightarrow> 'd \<Rightarrow> exn option \<Rightarrow> nat
     \<Rightarrow> 'f env \<Rightarrow> 'f server ended outcome" where
  "main_program pf oc argv file daemon_result d failure now e =
     (case main_body pf oc argv file daemon_result d failure now e of
        Return v \<Rightarrow> Return (Running v)
      | Throw x \<Rightarrow> if is_std_exception x then Return (Logged (what x)) else Throw x
      | Undefined \<Rightarrow> Undefined)"

section \<open>Windows\<close>

text \<open>
  \<^verbatim>\<open>main_win.cpp\<close> fills the members of a \<^verbatim>\<open>settings_t\<close>. \<open>rx\<close> is \<^verbatim>\<open>boost::regex_match\<close> with the
  pattern of the code: the groups of a match, empty where a group did not take part; \<open>cast\<close> is
  \<^verbatim>\<open>boost::lexical_cast<size_t>\<close>.
\<close>

record win_settings =
  ws_daemon_mode :: bool
  ws_num_workers :: u64
  ws_listen_ip_addr :: string
  ws_listen_port :: string
  ws_store_protocol :: string
  ws_store_username :: string
  ws_store_password :: string
  ws_store_path :: string

definition fill_settings ::
  "(string \<Rightarrow> (nat \<Rightarrow> string) option) \<Rightarrow> (string \<Rightarrow> u64 outcome) \<Rightarrow> string list \<Rightarrow> win_settings
     \<Rightarrow> win_settings \<times> bool outcome" where
  "fill_settings rx cast argv s =
     (if length argv < 6 then (s, Return False)
      else (case rx (argv ! 5) of
              None \<Rightarrow> (s, Return False)
            | Some m \<Rightarrow>
                if argv ! 1 \<noteq> ''daemon'' \<and> argv ! 1 \<noteq> ''nodaemon'' then (s, Return False)
                else (let s = s\<lparr>ws_daemon_mode := argv ! 1 = ''daemon''\<rparr>
                      in case cast (argv ! 4) of
                           Return n \<Rightarrow>
                             (s\<lparr>ws_num_workers := n, ws_listen_ip_addr := argv ! 2, ws_listen_port := argv ! 3,
                                ws_store_protocol := m 1, ws_store_username := m 3, ws_store_password := m 4,
                                ws_store_path := m 5\<rparr>, Return True)
                         | Throw e \<Rightarrow> (s, Throw e)
                         | Undefined \<Rightarrow> (s, Undefined))))"

text \<open>
  \<^verbatim>\<open>main\<close>: without complete arguments it prints the usage and exits; else the counters are loaded,
  and the server is made from the settings. \<open>s\<close> holds the members before they are set.
\<close>

definition main_win ::
  "('s, 'u, 'f) platform \<Rightarrow> (string \<Rightarrow> (nat \<Rightarrow> string) option) \<Rightarrow> (string \<Rightarrow> u64 outcome) \<Rightarrow> string list
     \<Rightarrow> win_settings \<Rightarrow> 'f env \<Rightarrow> (win_settings \<times> 'f env) ended outcome" where
  "main_win pf rx cast argv s e =
     (case fill_settings rx cast argv s of
        (s, Return filled) \<Rightarrow> if filled then Return (Running (s, init_protocol pf e)) else Return (Exited 1)
      | (s, Throw x) \<Rightarrow> if is_std_exception x then Return (Logged (what x)) else Throw x
      | (s, Undefined) \<Rightarrow> Undefined)"

section \<open>The store argument\<close>

text \<open>
  What the pattern \<^verbatim>\<open>(\w+)://((\w+):(\w+)@)?(.+)?\<close> matches. A \<^verbatim>\<open>\w\<close> is never one of the separators, so
  each group is the longest run of word characters and the match needs no backtracking.
\<close>

definition word_char :: "char \<Rightarrow> bool" where
  "word_char c \<longleftrightarrow> is_digit c \<or> c \<in> set ''abcdefghijklmnopqrstuvwxyzABCDEFGHIJKLMNOPQRSTUVWXYZ_''"

definition credentials :: "string \<Rightarrow> string \<times> string \<times> string" where
  "credentials t =
     (let user = takeWhile word_char t; r = dropWhile word_char t;
          password = takeWhile word_char (tl r); r' = dropWhile word_char (tl r)
      in if user \<noteq> [] \<and> take 1 r = '':'' \<and> password \<noteq> [] \<and> take 1 r' = ''@''
         then (user, password, tl r') else ([], [], t))"

definition store_match :: "string \<Rightarrow> (nat \<Rightarrow> string) option" where
  "store_match s =
     (let protocol = takeWhile word_char s; r = dropWhile word_char s
      in if protocol = [] \<or> take 3 r \<noteq> ''://'' then None
         else (case credentials (drop 3 r) of
                 (user, password, path) \<Rightarrow>
                   Some ((\<lambda>_. [])(1 := protocol, 3 := user, 4 := password, 5 := path))))"

text \<open>The argument as the usage text prints it.\<close>

definition store_url :: "string \<Rightarrow> string \<Rightarrow> string \<Rightarrow> string \<Rightarrow> string" where
  "store_url protocol user password path = protocol @ ''://'' @ user @ '':'' @ password @ ''@'' @ path"

definition is_word :: "string \<Rightarrow> bool" where
  "is_word w \<longleftrightarrow> w \<noteq> [] \<and> list_all word_char w"

lemma separators: "\<not> word_char (CHR '':'')" "\<not> word_char (CHR ''@'')"
  by (simp_all add: word_char_def is_digit_def)

lemma takeWhile_word: "list_all P w \<Longrightarrow> \<not> P c \<Longrightarrow> takeWhile P (w @ c # r) = w \<and> dropWhile P (w @ c # r) = c # r"
  by (induction w) auto

lemma credentials_url:
  assumes "is_word user" and "is_word password"
  shows "credentials (user @ '':'' @ password @ ''@'' @ path) = (user, password, path)"
  using assms takeWhile_word [of word_char user "CHR '':''" "password @ ''@'' @ path"]
    takeWhile_word [of word_char password "CHR ''@''" path]
  by (simp add: credentials_def is_word_def separators)

lemma store_match_url:
  assumes "is_word protocol" and "is_word user" and "is_word password"
  shows "store_match (store_url protocol user password path) =
    Some ((\<lambda>_. [])(1 := protocol, 3 := user, 4 := password, 5 := path))"
  using assms credentials_url [of user password path]
    takeWhile_word [of word_char protocol "CHR '':''" "''//'' @ user @ '':'' @ password @ ''@'' @ path"]
  by (simp add: store_match_def store_url_def is_word_def separators)

section \<open>What is started\<close>

lemma server_new_Return:
  assumes "server_new oc options d failure now e = Return v"
  shows "failure = None" and "sv_num_workers v = op_workers options" and "en_counters (sv_env v) = en_counters e"
    and "sv_running v" and "sv_signals v" and "sv_storage_started v" and "sv_clients v = []"
  using assms
  by (auto simp: server_new_def start_listen_def start_accept_def server_init_def bind_signals_def Let_def
      and_then_Return split: option.splits)

lemma main_body_Return:
  assumes "main_body pf oc argv file rc d failure now e = Return v"
  shows "\<exists>options mode. get_settings argv file [] False = ((options, mode), Return ()) \<and> options \<noteq> []
    \<and> (mode \<longrightarrow> rc = 0) \<and> server_new oc (hd options) d failure now (init_protocol pf e) = Return v"
  using assms
  by (auto simp: main_body_def and_then_Return daemonize_def Let_def split: prod.splits if_splits)

lemma read_settings_std:
  "read_settings_from_file path file options = (os, Throw e) \<Longrightarrow> is_std_exception e"
  by (auto simp: read_settings_from_file_def split: file_result.splits outcome.splits exn.splits)

lemma factory_std: "factory_create oc options d = Throw e \<Longrightarrow> is_std_exception e"
  using open_connection_Throw
  by (fastforce simp: factory_create_def backends_def create_rabbitmq_def create_oracle_def oracle_new_def Let_def
      split: option.splits if_splits prod.splits elim: and_then.elims)

end
