(* ===== verification/Pb_Stream.thy ===== *)
theory Pb_Stream
  imports Pb_RecReg
begin

text \<open>
  \<open>ParseFromArray\<close> over any runtime, and then
  one concrete runtime for the generated classes, on byte lists: the documented wire format with
  base-128 varints, zigzag for signed fields, length-delimited strings and packed fields, and
  groups. The protobuf library is not part of the repository, so this theory is an instance of the
  parameter and not a model of that library: it shows that the laws of the two locales of
  \<open>Pb_Wire\<close> can hold together, and it lets whole messages be computed.
\<close>

section \<open>\<open>ParseFromArray\<close>\<close>

text \<open>
  \<^verbatim>\<open>ParseFromArray\<close> of the runtime, as documented: it opens the array as a stream, parses into a
  cleared message, and succeeds when the whole array was consumed and the message is initialized.
\<close>

definition parse_from_array ::
  "('s, 'u) runtime \<Rightarrow> (byte list \<Rightarrow> 's) \<Rightarrow> ('s \<Rightarrow> bool) \<Rightarrow> byte list \<Rightarrow> bool \<times> 'u recreg" where
  "parse_from_array rt open_array ended bs =
     (case rr_parse (length bs + 1) rt (open_array bs) (rr_new (rt_unknown_empty rt)) of
        None \<Rightarrow> (False, rr_new (rt_unknown_empty rt))
      | Some (ok, s, m) \<Rightarrow> (ok \<and> ended s \<and> rr_is_initialized rt m, m))"

text \<open>A message a controller can send: complete, not too long, with the required fields.\<close>

definition sendable :: "('s, 'u) runtime \<Rightarrow> 'u writer \<Rightarrow> 'u recreg \<Rightarrow> bool" where
  "sendable rt wr m \<longleftrightarrow> rr_complete (rt_unknown_empty rt) m \<and> rr_fits wr m \<and> rr_is_initialized rt m"

context wire_format
begin

lemma parse_from_array_written:
  assumes "\<And>bs. rem (open_array bs) = bs" and "\<And>s. rem s = [] \<Longrightarrow> ended s" and "sendable rt wr m"
  shows "parse_from_array rt open_array ended (rr_serialize rt wr m) = (True, m)"
proof -
  let ?bs = "rr_serialize rt wr m"
  from rr_parse_written [of m "open_array ?bs" "length ?bs + 1"] assms obtain s' where
    "rr_parse (length ?bs + 1) rt (open_array ?bs) (rr_new (rt_unknown_empty rt)) = Some (True, s', m)" "rem s' = []"
    by (auto simp: sendable_def)
  with assms(2,3) show ?thesis by (simp add: parse_from_array_def sendable_def)
qed

end

section \<open>Varints\<close>

fun varint :: "nat \<Rightarrow> byte list" where
  "varint n = (if n < 128 then [of_nat n] else of_nat (n mod 128 + 128) # varint (n div 128))"

declare varint.simps [simp del]

text \<open>At most \<open>k\<close> bytes are read.\<close>

fun get_varint :: "nat \<Rightarrow> byte list \<Rightarrow> (nat \<times> byte list) option" where
  "get_varint 0 bs = None"
| "get_varint (Suc k) [] = None"
| "get_varint (Suc k) (b # bs) =
     (if unat b < 128 then Some (unat b, bs)
      else (case get_varint k bs of None \<Rightarrow> None | Some (v, r) \<Rightarrow> Some (unat b - 128 + 128 * v, r)))"

lemma get_varint_size: "get_varint k bs = Some (v, r) \<Longrightarrow> length r < length bs"
  by (induction k bs arbitrary: v r rule: get_varint.induct) (auto split: if_splits option.splits prod.splits)

lemma get_varint_written: "n < 128 ^ k \<Longrightarrow> 0 < k \<Longrightarrow> get_varint k (varint n @ r) = Some (n, r)"
proof (induction k arbitrary: n)
  case (Suc k)
  show ?case
  proof (cases "n < 128")
    case True
    then have "unat (of_nat n :: byte) = n" by (simp add: unat_of_nat)
    with True show ?thesis by (simp add: varint.simps [of n])
  next
    case False
    have b: "unat (of_nat (n mod 128 + 128) :: byte) = n mod 128 + 128"
      by (subst unat_of_nat) (use mod_less_divisor [of 128 n] in simp)
    have "0 < k" using Suc.prems False by (cases k) simp_all
    moreover have "n div 128 < 128 ^ k" using Suc.prems(1) by (simp add: div_less_iff_less_mult mult.commute)
    ultimately have "get_varint k (varint (n div 128) @ r) = Some (n div 128, r)" using Suc.IH by blast
    moreover have "n mod 128 + 128 * (n div 128) = n" by simp
    ultimately show ?thesis using False b by (simp add: varint.simps [of n] del: of_nat_add)
  qed
qed simp

lemma varint_nonempty: "varint n \<noteq> []"
  by (simp add: varint.simps [of n])

lemma varint_length: "n < 128 \<Longrightarrow> length (varint n) = 1" "128 \<le> n \<Longrightarrow> n < 16384 \<Longrightarrow> length (varint n) = 2"
  by (simp_all add: varint.simps [of n] varint.simps [of "n div 128"] div_less_iff_less_mult)

lemma varint_short: "n < 128 ^ k \<Longrightarrow> 0 < k \<Longrightarrow> length (varint n) \<le> k"
proof (induction k arbitrary: n)
  case (Suc k)
  then show ?case
  proof (cases "n < 128")
    case False
    then have "0 < k" using Suc.prems by (cases k) simp_all
    moreover have "n div 128 < 128 ^ k" using Suc.prems(1) by (simp add: div_less_iff_less_mult mult.commute)
    ultimately show ?thesis using Suc.IH False by (simp add: varint.simps [of n])
  qed (simp add: varint.simps [of n])
qed simp

definition put_u32 :: "u32 \<Rightarrow> byte list" where
  "put_u32 v = varint (unat v)"

definition get_u32 :: "byte list \<Rightarrow> (u32 \<times> byte list) option" where
  "get_u32 bs = map_option (\<lambda>(v, r). (of_nat v, r)) (get_varint 10 bs)"

lemma get_u32_written: "get_u32 (put_u32 v @ r) = Some (v, r)"
proof -
  have "unat v < 2 ^ 32" using unsigned_less [of v] by simp
  also have "(2 :: nat) ^ 32 < 128 ^ 10" by simp
  finally have "get_varint 10 (varint (unat v) @ r) = Some (unat v, r)"
    by (rule get_varint_written) simp
  then show ?thesis by (simp add: get_u32_def put_u32_def)
qed

lemma get_u32_size: "get_u32 bs = Some (v, r) \<Longrightarrow> length r < length bs"
  by (auto simp: get_u32_def get_varint_size)

lemma put_u32_short: "length (put_u32 v) \<le> 5"
proof -
  have "unat v < 2 ^ 32" using unsigned_less [of v] by simp
  also have "(2 :: nat) ^ 32 < 128 ^ 5" by simp
  finally show ?thesis unfolding put_u32_def by (rule varint_short) simp
qed

lemma put_u32_prefix: "put_u32 t @ r = put_u32 t' @ r' \<Longrightarrow> t = t'"
  by (metis get_u32_written option.inject prod.inject)

lemma put_u32_nonempty: "put_u32 v \<noteq> []"
  by (simp add: put_u32_def varint_nonempty)

section \<open>Signed values\<close>

definition zigzag :: "u32 \<Rightarrow> u32" where
  "zigzag v = (if 0 \<le> sint v then of_int (2 * sint v) else of_int (- 2 * sint v - 1))"

definition unzigzag :: "u32 \<Rightarrow> u32" where
  "unzigzag w = (if even (uint w) then of_int (uint w div 2) else of_int (- (uint w div 2) - 1))"

lemma uint_of_int_u32: "0 \<le> i \<Longrightarrow> i < 2 ^ 32 \<Longrightarrow> uint (of_int i :: u32) = i"
  by (simp add: unsigned_of_int take_bit_int_eq_self)

lemma unzigzag_zigzag: "unzigzag (zigzag v) = v"
proof -
  have range: "- (2 ^ 31) \<le> sint v" "sint v < 2 ^ 31"
    using sint_ge [of v] sint_lt [of v] by simp_all
  show ?thesis
  proof (cases "0 \<le> sint v")
    case True
    have "uint (zigzag v) = 2 * sint v"
      unfolding zigzag_def if_P [OF True] by (rule uint_of_int_u32) (use range True in simp_all)
    then show ?thesis by (simp add: unzigzag_def)
  next
    case False
    have "uint (zigzag v) = - 2 * sint v - 1"
      unfolding zigzag_def if_not_P [OF False] by (rule uint_of_int_u32) (use range False in simp_all)
    moreover have "(- 2 * sint v - 1) div 2 = - sint v - 1" by presburger
    ultimately show ?thesis by (simp add: unzigzag_def)
  qed
qed

section \<open>Length-delimited values\<close>

definition take_block :: "byte list \<Rightarrow> (byte list \<times> byte list) option" where
  "take_block bs =
     (case get_varint 10 bs of
        None \<Rightarrow> None
      | Some (n, r) \<Rightarrow> if n < 2 ^ 31 \<and> n \<le> length r then Some (take n r, drop n r) else None)"

lemma take_block_written: "length b < 2 ^ 31 \<Longrightarrow> take_block (varint (length b) @ b @ r) = Some (b, r)"
proof -
  assume b: "length b < 2 ^ 31"
  have "(2 :: nat) ^ 31 < 128 ^ 10" by simp
  with b have "length b < 128 ^ 10" by (rule order.strict_trans)
  then have "get_varint 10 (varint (length b) @ b @ r) = Some (length b, b @ r)"
    by (intro get_varint_written) simp_all
  with b show ?thesis unfolding take_block_def by simp
qed

lemma take_block_size: "take_block bs = Some (b, r) \<Longrightarrow> length r \<le> length bs"
  using get_varint_size [of 10 bs] by (auto simp: take_block_def split: option.splits if_splits)

fun get_u32s :: "nat \<Rightarrow> byte list \<Rightarrow> u32 list option" where
  "get_u32s fuel [] = Some []"
| "get_u32s 0 (b # bs) = None"
| "get_u32s (Suc fuel) (b # bs) =
     (case get_u32 (b # bs) of None \<Rightarrow> None | Some (v, r) \<Rightarrow> map_option ((#) v) (get_u32s fuel r))"

lemma get_u32s_written: "length vs \<le> fuel \<Longrightarrow> get_u32s fuel (concat (map put_u32 vs)) = Some vs"
proof (induction vs arbitrary: fuel)
  case (Cons v vs)
  obtain fuel' where fuel': "fuel = Suc fuel'" using Cons.prems by (cases fuel) auto
  obtain b bs where bs: "put_u32 v @ concat (map put_u32 vs) = b # bs"
    using put_u32_nonempty by (cases "put_u32 v") auto
  have "get_u32 (b # bs) = Some (v, concat (map put_u32 vs))" unfolding bs [symmetric] by (rule get_u32_written)
  with Cons fuel' bs show ?case by simp
qed simp

section \<open>Unknown fields\<close>

text \<open>
  An unknown field is skipped and its bytes are kept. A group is skipped up to its end tag; the
  fuel bounds the number of fields in it.
\<close>

fun skip_value :: "nat \<Rightarrow> u32 \<Rightarrow> byte list \<Rightarrow> byte list option"
  and skip_group :: "nat \<Rightarrow> nat \<Rightarrow> byte list \<Rightarrow> byte list option" where
  "skip_value fuel t bs =
     (case tag_wire t of
        WIRETYPE_VARINT \<Rightarrow> map_option snd (get_varint 10 bs)
      | WIRETYPE_FIXED64 \<Rightarrow> if 8 \<le> length bs then Some (drop 8 bs) else None
      | WIRETYPE_LENGTH_DELIMITED \<Rightarrow> map_option snd (take_block bs)
      | WIRETYPE_START_GROUP \<Rightarrow> (case fuel of 0 \<Rightarrow> None | Suc f \<Rightarrow> skip_group f (tag_field t) bs)
      | WIRETYPE_FIXED32 \<Rightarrow> if 4 \<le> length bs then Some (drop 4 bs) else None
      | _ \<Rightarrow> None)"
| "skip_group fuel n bs =
     (case fuel of
        0 \<Rightarrow> None
      | Suc f \<Rightarrow>
          (case get_u32 bs of
             None \<Rightarrow> None
           | Some (t, r) \<Rightarrow>
               if tag_wire t = WIRETYPE_END_GROUP then (if tag_field t = n then Some r else None)
               else (case skip_value f t r of None \<Rightarrow> None | Some r' \<Rightarrow> skip_group f n r')))"

declare skip_value.simps [simp del] skip_group.simps [simp del]

lemma skip_size:
  "skip_value fuel t bs = Some r \<Longrightarrow> length r \<le> length bs"
  "skip_group fuel n bs = Some r \<Longrightarrow> length r \<le> length bs"
proof (induction fuel t bs and fuel n bs arbitrary: r and r rule: skip_value_skip_group.induct)
  case (1 fuel t bs)
  then show ?case
    unfolding skip_value.simps [of fuel t bs]
    by (cases "tag_wire t") (auto split: if_splits nat.splits dest: get_varint_size take_block_size)
next
  case (2 fuel n bs)
  from "2.prems" obtain f where f: "fuel = Suc f" by (cases fuel) (simp_all add: skip_group.simps)
  from "2.prems" f obtain t r' where t: "get_u32 bs = Some (t, r')"
    by (auto simp: skip_group.simps [of "Suc f"] split: option.splits)
  note le = get_u32_size [OF t]
  show ?case
  proof (cases "tag_wire t = WIRETYPE_END_GROUP")
    case True
    with "2.prems" f t le show ?thesis by (simp add: skip_group.simps [of "Suc f"] split: if_splits)
  next
    case False
    with "2.prems" f t obtain r'' where r'': "skip_value f t r' = Some r''" "skip_group f n r'' = Some r"
      by (auto simp: skip_group.simps [of "Suc f"] split: option.splits)
    from "2.IH"(1) [OF f t _ False r''(1)] "2.IH"(2) [OF f t _ False r''(1) r''(2)] le
    show ?thesis by simp
  qed
qed

section \<open>The runtime\<close>

text \<open>A stream is what remains and the last tag that was read.\<close>

type_synonym pb_stream = "byte list \<times> u32"

definition pb_read_tag :: "pb_stream \<Rightarrow> u32 \<times> pb_stream" where
  "pb_read_tag s = (case get_u32 (fst s) of None \<Rightarrow> (0, (fst s, 0)) | Some (t, r) \<Rightarrow> (t, (r, t)))"

definition pb_expect_tag :: "u32 \<Rightarrow> pb_stream \<Rightarrow> bool \<times> pb_stream" where
  "pb_expect_tag t s =
     (let p = put_u32 t; n = length p
      in if take n (fst s) = p then (True, (drop n (fst s), snd s)) else (False, s))"

definition pb_expect_at_end :: "pb_stream \<Rightarrow> bool \<times> pb_stream" where
  "pb_expect_at_end s = (if fst s = [] then (True, ([], 0)) else (False, s))"

definition pb_read_with :: "(byte list \<Rightarrow> ('v \<times> byte list) option) \<Rightarrow> pb_stream \<Rightarrow> 'v \<Rightarrow> bool \<times> pb_stream \<times> 'v" where
  "pb_read_with get s old =
     (case get (fst s) of None \<Rightarrow> (False, s, old) | Some (v, r) \<Rightarrow> (True, (r, snd s), v))"

definition get_chars :: "byte list \<Rightarrow> (string \<times> byte list) option" where
  "get_chars bs = map_option (\<lambda>(b, r). (map (char_of \<circ> unat) b, r)) (take_block bs)"

definition get_packed :: "byte list \<Rightarrow> (u32 list \<times> byte list) option" where
  "get_packed bs =
     (case take_block bs of
        None \<Rightarrow> None
      | Some (b, r) \<Rightarrow> map_option (\<lambda>vs. (vs, r)) (get_u32s (length b) b))"

definition pb_append_with :: "(byte list \<Rightarrow> (u32 list \<times> byte list) option) \<Rightarrow> pb_stream \<Rightarrow> u32 list \<Rightarrow> bool \<times> pb_stream \<times> u32 list" where
  "pb_append_with get s old =
     (case get (fst s) of None \<Rightarrow> (False, s, old) | Some (vs, r) \<Rightarrow> (True, (r, snd s), old @ vs))"

definition pb_skip_field :: "u32 \<Rightarrow> pb_stream \<Rightarrow> byte list \<Rightarrow> bool \<times> pb_stream \<times> byte list" where
  "pb_skip_field t s u =
     (case skip_value (2 * length (fst s)) t (fst s) of
        None \<Rightarrow> (False, s, u)
      | Some r \<Rightarrow> (True, (r, snd s), u @ put_u32 t @ take (length (fst s) - length r) (fst s)))"

definition pb_rt :: "(pb_stream, byte list) runtime" where
  "pb_rt =
     \<lparr>rt_tag_field = tag_field, rt_tag_wire = tag_wire, rt_read_tag = pb_read_tag,
      rt_expect_tag = pb_expect_tag, rt_expect_at_end = pb_expect_at_end,
      rt_read_uint32 = pb_read_with get_u32,
      rt_read_sint32 = pb_read_with (\<lambda>bs. map_option (\<lambda>(v, r). (unzigzag v, r)) (get_u32 bs)),
      rt_read_bytes = pb_read_with get_chars,
      rt_read_packed = pb_append_with get_packed,
      rt_read_repeated = (\<lambda>t. pb_append_with (\<lambda>bs. map_option (\<lambda>(v, r). ([v], r)) (get_u32 bs))),
      rt_skip_field = pb_skip_field, rt_enter_group = (\<lambda>s. (True, s)),
      rt_leave_group = (\<lambda>n s. (snd s = make_tag n WIRETYPE_END_GROUP, s)),
      rt_unknown_empty = [], rt_unknown_merge = (@)\<rparr>"

definition put_chars :: "string \<Rightarrow> byte list" where
  "put_chars b = varint (length b) @ map (of_nat \<circ> of_char) b"

definition pb_wr :: "byte list writer" where
  "pb_wr =
     \<lparr>wr_tag = put_u32, wr_varint32 = put_u32, wr_uint32 = put_u32, wr_sint32 = put_u32 \<circ> zigzag,
      wr_bytes = put_chars, wr_unknown = (\<lambda>u. u), sz_int32 = (\<lambda>n. length (put_u32 (of_nat n))),
      sz_uint32 = (\<lambda>v. length (put_u32 v)), sz_sint32 = (\<lambda>v. length (put_u32 (zigzag v))),
      sz_bytes = (\<lambda>b. length (put_chars b)), sz_unknown = length\<rparr>"

section \<open>The laws hold\<close>

lemma chars_bytes: "map (char_of \<circ> unat) (map (of_nat \<circ> of_char :: char \<Rightarrow> byte) b) = b"
proof (induction b)
  case (Cons c b)
  have "(of_char c :: nat) < 256" by simp
  then have "unat (of_nat (of_char c) :: byte) = of_char c" by (subst unat_of_nat) simp
  with Cons show ?case by simp
qed simp

lemma get_chars_written: "length b < 2 ^ 31 \<Longrightarrow> get_chars (put_chars b @ r) = Some (b, r)"
  using take_block_written [of "map (of_nat \<circ> of_char) b" r] chars_bytes [of b]
  by (simp add: get_chars_def put_chars_def)

lemma pb_packed_size: "packed_size pb_wr vs = length (concat (map put_u32 vs))"
  by (induction vs) (simp_all add: packed_size_def pb_wr_def)

lemma get_packed_written:
  assumes "packed_size pb_wr vs < 2 ^ 31"
  shows "get_packed (put_u32 (of_nat (packed_size pb_wr vs)) @ concat (map put_u32 vs) @ r) = Some (vs, r)"
proof -
  let ?b = "concat (map put_u32 vs)"
  have "unat (of_nat (length ?b) :: u32) = length ?b"
    using assms unfolding pb_packed_size by (subst unat_of_nat) simp
  then have "put_u32 (of_nat (packed_size pb_wr vs)) = varint (length ?b)"
    unfolding put_u32_def pb_packed_size by simp
  moreover have "length vs \<le> length ?b"
  proof (induction vs)
    case (Cons v vs)
    then show ?case using put_u32_nonempty [of v] by (cases "put_u32 v") simp_all
  qed simp
  ultimately show ?thesis
    using take_block_written [of ?b r] get_u32s_written [of vs "length ?b"] assms
    by (simp add: get_packed_def pb_packed_size)
qed

lemma get_packed_size: "get_packed bs = Some (vs, r) \<Longrightarrow> length r \<le> length bs"
  by (auto simp: get_packed_def split: option.splits dest: take_block_size)

lemma get_chars_size: "get_chars bs = Some (b, r) \<Longrightarrow> length r \<le> length bs"
  by (auto simp: get_chars_def dest: take_block_size)

lemma expect_tag_prefix:
  "pb_expect_tag t s = (True, s') \<Longrightarrow> fst s = put_u32 t @ fst s'"
  "pb_expect_tag t s = (False, s') \<Longrightarrow> s' = s"
  by (auto simp: pb_expect_tag_def Let_def split: if_splits) (metis append_take_drop_id)

interpretation pb: input_stream pb_rt "\<lambda>s. length (fst s)"
proof
  fix s s' :: pb_stream and t and v v' :: u32 and vs vs' :: "u32 list" and b b' :: string
    and u u' :: "byte list" and n :: nat and ok hit :: bool
  show "rt_read_tag pb_rt s = (t, s') \<Longrightarrow>
      length (fst s') \<le> length (fst s) \<and> (t \<noteq> 0 \<longrightarrow> length (fst s') < length (fst s))"
    by (auto simp: pb_rt_def pb_read_tag_def split: option.splits dest: get_u32_size)
  show "rt_expect_tag pb_rt t s = (hit, s') \<Longrightarrow>
      length (fst s') \<le> length (fst s) \<and> (hit \<longrightarrow> length (fst s') < length (fst s))"
    using put_u32_nonempty [of t] by (cases hit) (auto simp: pb_rt_def dest!: expect_tag_prefix)
  show "rt_expect_at_end pb_rt s = (hit, s') \<Longrightarrow> length (fst s') \<le> length (fst s)"
    by (auto simp: pb_rt_def pb_expect_at_end_def split: if_splits)
  show "rt_read_uint32 pb_rt s v = (ok, s', v') \<Longrightarrow> length (fst s') \<le> length (fst s)"
    by (auto simp: pb_rt_def pb_read_with_def split: option.splits dest!: get_u32_size)
  show "rt_read_sint32 pb_rt s v = (ok, s', v') \<Longrightarrow> length (fst s') \<le> length (fst s)"
    by (auto simp: pb_rt_def pb_read_with_def split: option.splits dest!: get_u32_size)
  show "rt_read_bytes pb_rt s b = (ok, s', b') \<Longrightarrow> length (fst s') \<le> length (fst s)"
    by (auto simp: pb_rt_def pb_read_with_def split: option.splits dest!: get_chars_size)
  show "rt_read_packed pb_rt s vs = (ok, s', vs') \<Longrightarrow> length (fst s') \<le> length (fst s)"
    by (auto simp: pb_rt_def pb_append_with_def split: option.splits dest!: get_packed_size)
  show "rt_read_repeated pb_rt t s vs = (ok, s', vs') \<Longrightarrow> length (fst s') \<le> length (fst s)"
    by (auto simp: pb_rt_def pb_append_with_def split: option.splits dest!: get_u32_size)
  show "rt_skip_field pb_rt t s u = (ok, s', u') \<Longrightarrow> length (fst s') \<le> length (fst s)"
    by (auto simp: pb_rt_def pb_skip_field_def split: option.splits dest!: skip_size(1))
  show "rt_enter_group pb_rt s = (ok, s') \<Longrightarrow> length (fst s') \<le> length (fst s)"
    "rt_leave_group pb_rt n s = (ok, s') \<Longrightarrow> length (fst s') \<le> length (fst s)"
    by (auto simp: pb_rt_def)
qed

lemma put_u32_length:
  "t < 0x80 \<Longrightarrow> length (put_u32 t) = 1" "0x80 \<le> t \<Longrightarrow> t < 0x4000 \<Longrightarrow> length (put_u32 t) = 2"
  by (auto simp: put_u32_def word_less_nat_alt word_le_nat_alt varint_length)

interpretation pb: wire_format pb_rt fst pb_wr "\<lambda>s t. snd s = t"
proof
  fix s s' :: pb_stream and t t' and v w :: u32 and vs ws :: "u32 list" and b c :: string
    and u r r' rest :: "byte list" and n :: nat and hit :: bool
  show "rt_tag_field pb_rt = tag_field" "rt_tag_wire pb_rt = tag_wire" by (simp_all add: pb_rt_def)
  show "fst s = wr_tag pb_wr t @ rest \<Longrightarrow> t \<noteq> 0 \<Longrightarrow>
      \<exists>s'. rt_read_tag pb_rt s = (t, s') \<and> fst s' = rest \<and> snd s' = t"
    by (simp add: pb_rt_def pb_wr_def pb_read_tag_def get_u32_written)
  show "fst s = [] \<Longrightarrow> \<exists>s'. rt_read_tag pb_rt s = (0, s') \<and> fst s' = []"
    by (simp add: pb_rt_def pb_read_tag_def get_u32_def eval_nat_numeral)
  show "rt_expect_tag pb_rt t s = (True, s') \<Longrightarrow> fst s = wr_tag pb_wr t @ fst s'"
    "rt_expect_tag pb_rt t s = (False, s') \<Longrightarrow> fst s' = fst s"
    by (auto simp: pb_rt_def pb_wr_def dest: expect_tag_prefix)
  show "rt_expect_at_end pb_rt s = (True, s') \<Longrightarrow> fst s = [] \<and> fst s' = []"
    "rt_expect_at_end pb_rt s = (False, s') \<Longrightarrow> fst s' = fst s"
    by (auto simp: pb_rt_def pb_expect_at_end_def split: if_splits)
  show "fst s = wr_uint32 pb_wr v @ rest \<Longrightarrow> \<exists>s'. rt_read_uint32 pb_rt s w = (True, s', v) \<and> fst s' = rest"
    by (simp add: pb_rt_def pb_wr_def pb_read_with_def get_u32_written)
  show "fst s = wr_sint32 pb_wr v @ rest \<Longrightarrow> \<exists>s'. rt_read_sint32 pb_rt s w = (True, s', v) \<and> fst s' = rest"
    by (simp add: pb_rt_def pb_wr_def pb_read_with_def get_u32_written unzigzag_zigzag)
  show "fst s = wr_bytes pb_wr b @ rest \<Longrightarrow> length b < 2 ^ 31 \<Longrightarrow>
      \<exists>s'. rt_read_bytes pb_rt s c = (True, s', b) \<and> fst s' = rest"
    by (simp add: pb_rt_def pb_wr_def pb_read_with_def get_chars_written)
  show "fst s = wr_varint32 pb_wr (of_nat (packed_size pb_wr vs)) @ concat (map (wr_uint32 pb_wr) vs) @ rest \<Longrightarrow>
      packed_size pb_wr vs < 2 ^ 31 \<Longrightarrow> \<exists>s'. rt_read_packed pb_rt s ws = (True, s', ws @ vs) \<and> fst s' = rest"
    using get_packed_written [of vs rest] by (simp add: pb_rt_def pb_wr_def pb_append_with_def)
  show "\<exists>s'. rt_enter_group pb_rt s = (True, s') \<and> fst s' = fst s" by (simp add: pb_rt_def)
  show "snd s = make_tag n WIRETYPE_END_GROUP \<Longrightarrow> \<exists>s'. rt_leave_group pb_rt n s = (True, s') \<and> fst s' = fst s"
    by (simp add: pb_rt_def)
  show "wr_uint32 pb_wr v \<noteq> []" "wr_tag pb_wr t \<noteq> []" by (simp_all add: pb_wr_def put_u32_nonempty)
  show "wr_tag pb_wr t @ r = wr_tag pb_wr t' @ r' \<Longrightarrow> t = t'"
    unfolding pb_wr_def writer.select_convs by (rule put_u32_prefix)
  show "wr_unknown pb_wr (rt_unknown_empty pb_rt) = []" by (simp add: pb_rt_def pb_wr_def)
  show "t < 0x80 \<Longrightarrow> length (wr_tag pb_wr t) = 1" "0x80 \<le> t \<Longrightarrow> t < 0x4000 \<Longrightarrow> length (wr_tag pb_wr t) = 2"
    by (simp_all add: pb_wr_def put_u32_length)
  show "sz_uint32 pb_wr v = length (wr_uint32 pb_wr v)" "sz_sint32 pb_wr v = length (wr_sint32 pb_wr v)"
    "sz_bytes pb_wr b = length (wr_bytes pb_wr b)" "sz_unknown pb_wr u = length (wr_unknown pb_wr u)"
    "sz_int32 pb_wr n = length (wr_varint32 pb_wr (of_nat n))"
    by (simp_all add: pb_wr_def)
qed

definition pb_parse :: "byte list \<Rightarrow> bool \<times> byte list recreg" where
  "pb_parse = parse_from_array pb_rt (\<lambda>bs. (bs, 0)) (\<lambda>s. fst s = [])"

lemma pb_parse_written: "sendable pb_rt pb_wr m \<Longrightarrow> pb_parse (rr_serialize pb_rt pb_wr m) = (True, m)"
  unfolding pb_parse_def by (rule pb.parse_from_array_written) simp_all

end
