(* ===== verification/Protocol_Safety.thy ===== *)
theory Protocol_Safety
  imports Protocol_Facts
begin

text \<open>
  What hostile input can do to the receiver of \<^verbatim>\<open>omnicomm/protocol.cpp\<close>. The model says \<open>Undefined\<close>
  where the code reads outside its buffer or overflows an \<^verbatim>\<open>int\<close>; here are the only messages that make
  it so, and what stays in the receive buffer after a read.
\<close>

section \<open>The only messages without a meaning\<close>

text \<open>A complete frame with a good checksum: what the loop gives to a handler, with what follows it.\<close>

definition complete_frame :: "byte list \<Rightarrow> bool" where
  "complete_frame hdr \<longleftrightarrow>
     (case get_full_length hdr of None \<Rightarrow> False | Some full \<Rightarrow> full \<le> length hdr) \<and> check_crc hdr = Some True"

text \<open>
  A data message whose length field is 7 or 8, or whose texts are numbered across \<open>2 ^ 31\<close>, where
  \<^verbatim>\<open>mes_number + i\<close> overflows.
\<close>

definition wrapping_length :: "byte list \<Rightarrow> bool" where
  "wrapping_length hdr \<longleftrightarrow> (case hdr_data_len hdr of None \<Rightarrow> False | Some n \<Rightarrow> unat n = 7 \<or> unat n = 8)"

definition overflowing_numbers :: "('s, 'u, 'f) platform \<Rightarrow> byte list \<Rightarrow> bool" where
  "overflowing_numbers pf hdr \<longleftrightarrow>
     (case resp_last_mes_number hdr of
        None \<Rightarrow> False
      | Some num \<Rightarrow>
          (let k = length (fst (package_texts pf hdr)) in 2 ^ 31 < sint (num - of_nat k) + int k))"

definition hazard :: "('s, 'u, 'f) platform \<Rightarrow> byte list \<Rightarrow> bool" where
  "hazard pf hdr \<longleftrightarrow>
     (hdr_cmd hdr = Some c_archive_data \<or> hdr_cmd hdr = Some c_current_data)
     \<and> (wrapping_length hdr \<or> overflowing_numbers pf hdr)"

lemma complete_frameD:
  assumes "complete_frame hdr"
  obtains n where "hdr_data_len hdr = Some n" and "unat n + 6 \<le> length hdr"
  using assms
  by (auto simp: complete_frame_def get_full_length_def sizeof_values bind_eq_Some_conv split: option.splits bind_splits)

lemma look_for_complete_frame:
  assumes "look_for buf i = Complete pos full"
  shows "complete_frame (drop pos buf)"
  using assms
  by (auto simp: look_for_def Let_def complete_frame_def split: if_splits option.splits)

lemma look_for_readable: "look_for buf i \<noteq> Unreadable"
proof -
  have "check_crc (drop p buf) \<noteq> None" if full: "get_full_length (drop p buf) = Some full" "p + full \<le> length buf" for p full
  proof -
    obtain n where "hdr_data_len (drop p buf) = Some n" "full = unat n + 6"
      using full(1) by (auto simp: get_full_length_def sizeof_values bind_eq_Some_conv)
    with full(2) show ?thesis by (simp add: check_crc_def get_crc_def calc_crc_def rd8_def sizeof_values) arith
  qed
  moreover have "get_full_length (drop p buf) \<noteq> None" if "p + 4 \<le> length buf" for p
    using that by (simp add: get_full_length_def hdr_data_len_def rd16_def)
  ultimately show ?thesis
    by (simp add: look_for_def Let_def sizeof_values not_less split: option.split) fastforce
qed

lemma queue_messages_defined:
  "n + int (length msgs) \<le> 2 ^ 31 \<Longrightarrow> snd (queue_messages n msgs s) \<noteq> Undefined"
proof (induction msgs arbitrary: n s)
  case (Cons m msgs)
  have "add_message t b \<noteq> (b', Undefined)" for t and b b' :: base_impl
    by (simp add: add_message_def Let_def)
  with Cons show ?case by (auto split: prod.split outcome.split)
qed simp

text \<open>Such numbers do overflow, when the queue has room for all the texts.\<close>

lemma queue_messages_overflowing:
  assumes "queue_room (length msgs) s" and "n \<le> 2 ^ 31" and "2 ^ 31 < n + int (length msgs)"
  shows "snd (queue_messages n msgs s) = Undefined"
  using assms
proof (induction msgs arbitrary: n s)
  case (Cons m msgs)
  let ?t = "numbered_text (se_controller_id s) (se_firmware_version s) n m"
  show ?case
  proof (cases "2 ^ 31 \<le> n")
    case False
    have add: "add_message ?t (en_backend s) =
        (en_backend (put_queue [?t] s), Return (Suc (length (be_messages (en_backend s)))))"
      using Cons.prems(1) by (simp add: add_message_def queue_room_def put_queue_def)
    have upd: "s\<lparr>en_backend := en_backend (put_queue [?t] s)\<rparr> = put_queue [?t] s" by (simp add: put_queue_def)
    have "queue_room (length msgs) (put_queue [?t] s)"
      using Cons.prems(1) by (simp add: queue_room_def put_queue_def)
    from Cons.IH [OF this, of "n + 1"] Cons.prems(3) False show ?thesis by (simp add: add upd)
  qed simp
qed simp

text \<open>From a length of 9 on, the block is inside the frame, with the checksum behind it.\<close>

lemma package_defined:
  assumes "hdr_data_len hdr = Some n" and "9 \<le> unat n" and "unat n + 6 \<le> length hdr"
  shows "snd (package_texts pf hdr) \<noteq> Undefined"
proof -
  have "unat (of_nat (unat n - 9) :: u64) = unat n - 9"
    using unsigned_less [of n, where 'a = nat] by (simp add: unat_of_nat take_bit_nat_eq_self)
  moreover have "unat n - 9 + 2 \<le> length (resp_im_data hdr)"
    using assms(2,3) by (simp add: resp_im_data_def sizeof_values)
  ultimately show ?thesis
    using info_loop_defined [of "unat n - 9" "resp_im_data hdr"]
    by (simp add: package_texts_def parse_info_package_def im_length_value [OF assms(1,2)])
qed

lemma accept_data_defined:
  assumes "complete_frame hdr" and "\<not> wrapping_length hdr" and "\<not> overflowing_numbers pf hdr"
  shows "snd (accept_data pf hdr s) \<noteq> Undefined"
proof -
  obtain n where n: "hdr_data_len hdr = Some n" "unat n + 6 \<le> length hdr" by (rule complete_frameD [OF assms(1)])
  show ?thesis
  proof (cases "unat n < 7")
    case True
    then show ?thesis by (simp add: accept_data_def check_length_def n sizeof_values)
  next
    case False
    with assms(2) n(1) have nine: "9 \<le> unat n" by (auto simp: wrapping_length_def)
    obtain num where num: "resp_last_mes_number hdr = Some num"
      using n(2) nine by (simp add: resp_last_mes_number_def rd32_def sizeof_values)
    obtain texts r where t: "package_texts pf hdr = (texts, r)" by fastforce
    have r: "r \<noteq> Undefined" using package_defined [OF n(1) nine n(2), of pf] t by simp
    have "snd (queue_messages (sint (num - of_nat (length texts))) texts s) \<noteq> Undefined"
      using assms(3) num t by (intro queue_messages_defined) (simp add: overflowing_numbers_def Let_def)
    with r t num show ?thesis
      by (cases r) (auto simp: accept_data_def check_length_def n process_info_messages_def package_texts_def Let_def
          split: prod.split outcome.split)
  qed
qed

lemma process_message_defined:
  assumes "complete_frame hdr" and "\<not> hazard pf hdr"
  shows "snd (process_message pf hdr s) \<noteq> Undefined"
proof -
  obtain n where n: "hdr_data_len hdr = Some n" "unat n + 6 \<le> length hdr" by (rule complete_frameD [OF assms(1)])
  have cmd: "hdr_cmd hdr \<noteq> None" using n(2) by (simp add: hdr_cmd_def rd8_def)
  have data: "snd (accept_data pf hdr s) \<noteq> Undefined"
    if "hdr_cmd hdr = Some c_archive_data \<or> hdr_cmd hdr = Some c_current_data"
    using that assms accept_data_defined [OF assms(1), of pf s] by (auto simp: hazard_def)
  have ident: "snd (process_controller_ident hdr s) \<noteq> Undefined"
    using n by (auto simp: process_controller_ident_def check_length_def sizeof_values ident_controller_id_def
        ident_firmware_version_def rd32_def Let_def)
  have archive: "snd (process_archive_data pf hdr s) \<noteq> Undefined" if "hdr_cmd hdr = Some c_archive_data"
    using data that n(1) by (simp add: process_archive_data_def)
  have current: "snd (process_current_data pf hdr s) \<noteq> Undefined" if "hdr_cmd hdr = Some c_current_data"
    using data that by (auto simp: process_current_data_def split: prod.split outcome.split)
  have "snd (dispatch_message pf hdr s) \<noteq> Undefined"
    using cmd ident archive current
    by (auto simp: dispatch_message_def process_delete_confirmation_def split: if_splits)
  then show ?thesis by (auto simp: process_message_def split: prod.split outcome.split)
qed

lemma recive_loop_Undefined:
  assumes "recive_loop pf buf i j s = (fin, s', Undefined)"
  shows "\<exists>pos. complete_frame (drop pos buf) \<and> hazard pf (drop pos buf)"
  using assms
proof (induction "length buf - i" arbitrary: i j s rule: less_induct)
  case less
  show ?case
  proof (cases "look_for buf i")
    case (Complete pos full)
    obtain s1 x where p: "process_message pf (drop pos buf) s = (s1, x)" by fastforce
    show ?thesis
    proof (cases x)
      case (Return u)
      have "length buf - (pos + full) < length buf - i"
        using look_for_Complete [OF Complete] by simp
      from less.hyps [OF this] less.prems Complete p Return show ?thesis
        by (simp add: recive_loop_look [of pf buf i])
    next
      case (Throw e)
      with less.prems Complete p show ?thesis by (simp add: recive_loop_look [of pf buf i])
    next
      case Undefined
      with process_message_defined [OF look_for_complete_frame [OF Complete], of pf s] p
        look_for_complete_frame [OF Complete]
      show ?thesis by auto
    qed
  qed (use less.prems look_for_readable [of buf i] in \<open>auto simp: recive_loop_look [of pf buf i]\<close>)
qed

text \<open>A buffer in which no frame is such a message, wherever one starts.\<close>

definition harmless :: "('s, 'u, 'f) platform \<Rightarrow> byte list \<Rightarrow> bool" where
  "harmless pf buf \<longleftrightarrow>
     list_all (\<lambda>pos. complete_frame (drop pos buf) \<longrightarrow> \<not> hazard pf (drop pos buf)) [0..<length buf]"

lemma harmlessD:
  assumes "harmless pf buf" and "complete_frame (drop pos buf)"
  shows "\<not> hazard pf (drop pos buf)"
proof -
  have "6 \<le> length (drop pos buf)" by (rule complete_frameD [OF assms(2)]) simp
  then have "pos \<in> set [0..<length buf]" by simp
  with assms show ?thesis unfolding harmless_def list_all_iff by blast
qed

lemma recive_impl_defined:
  assumes "harmless pf (se_buffer (store_data data s))"
  shows "snd (recive_impl pf data s) \<noteq> Undefined"
proof -
  obtain fin s1 x where loop: "recive_loop pf (se_buffer (store_data data s)) 0 0 (store_data data s) = (fin, s1, x)"
    by (metis prod_cases3)
  have "x \<noteq> Undefined" using recive_loop_Undefined loop harmlessD [OF assms] by blast
  with loop show ?thesis by (cases x) (simp_all add: recive_impl_end recive_end_def)
qed

section \<open>What stays in the receive buffer\<close>

text \<open>
  Bytes before the first delimiter, which nothing ever removes unless a frame comes behind them, and then
  less than one frame, the longest of which has \<open>65541\<close> bytes.
\<close>

definition held :: "byte list \<Rightarrow> byte list \<Rightarrow> byte list \<Rightarrow> bool" where
  "held buf noise part \<longleftrightarrow>
     buf = noise @ part \<and> 0xC0 \<notin> set noise \<and> (part = [] \<or> hd part = 0xC0) \<and> length part < 65541"

lemma look_for_Waiting:
  assumes "look_for buf i = Waiting"
  shows "\<exists>noise part. held (drop i buf) noise part"
proof -
  let ?d = "drop i buf"
  let ?noise = "takeWhile (\<lambda>x. x \<noteq> 0xC0) ?d" and ?part = "dropWhile (\<lambda>x. x \<noteq> 0xC0) ?d"
  have pos: "find_from buf i 0xC0 = i + length ?noise" by (simp add: find_from_def)
  have part: "?part = drop (find_from buf i 0xC0) buf"
    by (simp add: pos dropWhile_eq_drop add.commute)
  have "length ?part < 65541"
  proof (cases "length buf < find_from buf i 0xC0 + 4")
    case True
    then show ?thesis unfolding part by simp
  next
    case False
    then obtain n where n: "hdr_data_len (drop (find_from buf i 0xC0) buf) = Some n"
      by (fastforce simp: hdr_data_len_def rd16_def)
    have "length buf < find_from buf i 0xC0 + (unat n + 6)"
    proof (rule ccontr)
      assume long: "\<not> ?thesis"
      then have "look_for buf i \<noteq> Waiting"
        using False n by (auto simp: look_for_def Let_def get_full_length_def sizeof_values split: option.split)
      with assms show False by simp
    qed
    with unsigned_less [of n, where 'a = nat] show ?thesis unfolding part by simp
  qed
  moreover have "0xC0 \<notin> set ?noise" using set_takeWhileD by fastforce
  moreover have "?part = [] \<or> hd ?part = 0xC0" using hd_dropWhile by blast
  ultimately have "held ?d ?noise ?part" by (simp add: held_def)
  then show ?thesis by blast
qed

lemma recive_loop_held:
  assumes "recive_loop pf buf i i s = (fin, s', Return ())" and "se_open s'"
  shows "\<exists>noise part. held (drop fin buf) noise part"
  using assms
proof (induction "length buf - i" arbitrary: i s rule: less_induct)
  case less
  show ?case
  proof (cases "look_for buf i")
    case Waiting
    with less.prems look_for_Waiting [OF Waiting] show ?thesis by (simp add: recive_loop_look [of pf buf i])
  next
    case Corrupt
    with less.prems show ?thesis by (auto simp: recive_loop_look [of pf buf i] client_stop_def)
  next
    case Unreadable
    with look_for_readable show ?thesis by blast
  next
    case (Complete pos full)
    obtain s1 x where p: "process_message pf (drop pos buf) s = (s1, x)" by fastforce
    have "length buf - (pos + full) < length buf - i"
      using look_for_Complete [OF Complete] by simp
    from less.hyps [OF this, of s1] less.prems Complete p show ?thesis
      by (cases x) (auto simp: recive_loop_look [of pf buf i])
  qed
qed

lemma recive_impl_held:
  assumes "recive_impl pf data s = (s', Return ())" and "se_open s'"
  shows "\<exists>noise part. held (se_buffer s') noise part"
proof -
  obtain fin s1 x where loop: "recive_loop pf (se_buffer (store_data data s)) 0 0 (store_data data s) = (fin, s1, x)"
    by (metis prod_cases3)
  with assms(1) have x: "x = Return ()" and s': "s' = s1\<lparr>se_buffer := drop fin (se_buffer s1)\<rparr>"
    by (auto simp: recive_impl_end recive_end_def split: outcome.splits)
  have "se_buffer s1 = se_buffer (store_data data s)"
    using recive_loop_same_receiver [OF loop] by (simp add: same_receiver_def)
  moreover have "se_open s1" using assms(2) s' by simp
  ultimately show ?thesis using recive_loop_held loop x s' by (metis session.select_convs(7) session.surjective session.update_convs(7))
qed

text \<open>Reads without a delimiter: every byte is kept, and no handler is called.\<close>

definition no_delimiter :: "byte list \<Rightarrow> bool" where
  "no_delimiter bs \<longleftrightarrow> list_all (\<lambda>b. b \<noteq> 0xC0 \<and> b \<noteq> 0xDB) bs"

lemma store_no_delimiter: "no_delimiter data \<Longrightarrow> store_bytes normal buffer data = (normal, buffer @ data)"
  by (induction data arbitrary: buffer) (auto simp: store_bytes_def no_delimiter_def)

lemma recive_no_delimiter:
  assumes "no_delimiter data" and "0xC0 \<notin> set (se_buffer s)" and "se_state s = normal"
  shows "recive_impl pf data s = (s\<lparr>se_buffer := se_buffer s @ data\<rparr>, Return ())"
proof -
  have "0xC0 \<notin> set (se_buffer s @ data)" using assms(1,2) by (auto simp: no_delimiter_def list_all_iff)
  then have "takeWhile (\<lambda>x. x \<noteq> 0xC0) (se_buffer s @ data) = se_buffer s @ data"
    by (auto simp only: takeWhile_eq_all_conv)
  then have "find_from (se_buffer s @ data) 0 0xC0 = length (se_buffer s @ data)"
    by (simp only: find_from_def drop_0 add_0)
  then have "look_for (se_buffer s @ data) 0 = Waiting" by (simp add: look_for_def Let_def sizeof_values)
  with assms(1,3) show ?thesis
    by (simp add: recive_impl_end recive_end_def store_data_def store_no_delimiter recive_loop_look)
qed

lemma recive_all_no_delimiter:
  assumes "no_delimiter (concat cs)" and "0xC0 \<notin> set (se_buffer s)" and "se_state s = normal"
  shows "recive_all pf cs s = (s\<lparr>se_buffer := se_buffer s @ concat cs\<rparr>, Return ())"
  using assms
proof (induction cs arbitrary: s)
  case (Cons c cs)
  have "no_delimiter c" using Cons.prems(1) by (simp add: no_delimiter_def)
  from recive_no_delimiter [OF this Cons.prems(2,3)]
  have c: "recive_impl pf c s = (s\<lparr>se_buffer := se_buffer s @ c\<rparr>, Return ())" .
  from Cons.prems have "recive_all pf cs (s\<lparr>se_buffer := se_buffer s @ c\<rparr>) =
      ((s\<lparr>se_buffer := se_buffer s @ c\<rparr>)\<lparr>se_buffer := (se_buffer s @ c) @ concat cs\<rparr>, Return ())"
    by (subst Cons.IH) (auto simp: no_delimiter_def list_all_iff)
  with c show ?case by simp
qed simp

end
