(* ===== verification/Samples.thy ===== *)
theory Samples
  imports Dialogue Startup Pb_Stream Protocol_Safety
begin

text \<open>
  Concrete parameters and states, at which the witnesses apply the properties: a platform whose
  \<^verbatim>\<open>ParseFromArray\<close> takes every byte for a message identifier and whose archive is the map itself,
  a fresh environment, a storage and a database client that accept everything.
\<close>

definition sample_runtime :: "(byte list, unit) runtime" where
  "sample_runtime =
     \<lparr>rt_tag_field = (\<lambda>tag. unat (drop_bit 3 tag)), rt_tag_wire = (\<lambda>tag. WIRETYPE_OTHER),
      rt_read_tag = (\<lambda>s. (0, s)), rt_expect_tag = (\<lambda>t s. (False, s)), rt_expect_at_end = (\<lambda>s. (s = [], s)),
      rt_read_uint32 = (\<lambda>s v. (False, s, v)), rt_read_sint32 = (\<lambda>s v. (False, s, v)),
      rt_read_bytes = (\<lambda>s v. (False, s, v)), rt_read_packed = (\<lambda>s v. (False, s, v)),
      rt_read_repeated = (\<lambda>t s v. (False, s, v)), rt_skip_field = (\<lambda>t s u. (False, s, u)),
      rt_enter_group = (\<lambda>s. (True, s)), rt_leave_group = (\<lambda>n s. (True, s)),
      rt_unknown_empty = (), rt_unknown_merge = (\<lambda>a b. ())\<rparr>"

definition sample_parse :: "byte list \<Rightarrow> bool \<times> unit recreg" where
  "sample_parse d = (True, (rr_new ())\<lparr>rr_mid := map ucast d\<rparr>)"

definition sample_platform :: "(byte list, unit, u32 \<rightharpoonup> u32) platform" where
  "sample_platform =
     \<lparr>pf_runtime = sample_runtime, pf_parse = sample_parse, pf_archive_write = (\<lambda>m. m),
      pf_archive_read = (\<lambda>f m. f)\<rparr>"

definition sample_options :: storage_options where
  "sample_options =
     \<lparr>so_kind = ''rabbit'', so_ip_addr = ''10.10.3.23'', so_tcp_port = 1521, so_db_name = ''v3'',
      so_login = ''ump'', so_password = ''ump''\<rparr>"

definition sample_server_options :: "unit options" where
  "sample_server_options =
     \<lparr>op_name = ''omnicomm_profi'', op_protocol = ''omnicomm_profi'', op_workers = 1,
      op_listen_ip_addr = ''0.0.0.0'', op_listen_tcp_port = 4010, op_settings = None, op_storage = sample_options\<rparr>"

definition sample_env :: "(u32 \<rightharpoonup> u32) env" where
  "sample_env =
     \<lparr>en_counters = Map.empty, en_file = None, en_file_opens = True, en_backend = base_impl_new sample_options\<rparr>"

definition sample_session :: "(u32 \<rightharpoonup> u32) session" where
  "sample_session = transport_protocol_new sample_env"

text \<open>The same with a known controller, number 7, whose last message was 41.\<close>

definition known_session :: "(u32 \<rightharpoonup> u32) session" where
  "known_session = sample_session\<lparr>en_counters := [7 \<mapsto> 41]\<rparr>"

text \<open>The known controller again, with a queue that has room for one text.\<close>

definition full_session :: "(u32 \<rightharpoonup> u32) session" where
  "full_session = known_session\<lparr>en_backend := set_capacity 1 (en_backend known_session)\<rparr>"

lemma sample_session_fields [simp]:
  "en_counters sample_session = Map.empty" "en_file sample_session = None" "en_file_opens sample_session"
  "en_backend sample_session = base_impl_new sample_options" "se_open sample_session" "se_sent sample_session = []"
  "se_state sample_session = normal" "se_protocol_state sample_session = wait_initial"
  "se_controller_id sample_session = 0" "se_firmware_version sample_session = 0" "se_buffer sample_session = []"
  by (simp_all add: sample_session_def transport_protocol_new_def sample_env_def env.defs session.defs)

lemma sample_idle [simp]: "idle_receiver sample_session" "idle_receiver known_session"
  by (simp_all add: idle_receiver_def known_session_def)

lemma sample_queue [simp]:
  "be_messages (base_impl_new sample_options) = []" "be_max_messages (base_impl_new sample_options) = 4096"
  by (simp_all add: base_impl_new_def)

lemma sample_platform_texts [simp]:
  "platform_texts sample_platform [[3]] = [render (extract_message sample_runtime 3 ((rr_new ())\<lparr>rr_mid := [3]\<rparr>) [])]"
  by (simp add: platform_texts_def sample_platform_def message_texts_def sample_parse_def)

lemma sample_two_texts [simp]: "length (platform_texts sample_platform [[3, 4]]) = 2"
  by (simp add: platform_texts_def sample_platform_def message_texts_def sample_parse_def)

text \<open>The empty data message is too short to be a hazard.\<close>

lemma end_frame_harmless: "harmless pf (frame_bytes end_frame)"
proof -
  have len: "length (frame_bytes end_frame) = 6" by (simp add: length_frame_bytes end_frame_def)
  have "\<not> hazard pf (frame_bytes end_frame)"
    by (simp add: hazard_def wrapping_length_def overflowing_numbers_def frame_bytes_def end_frame_def frame_data_len0
        resp_last_mes_number_def rd32_def sizeof_values)
  moreover have "\<not> complete_frame (drop pos (frame_bytes end_frame))" if "0 < pos" for pos
    using that len by (auto elim: complete_frameD)
  ultimately show ?thesis
    unfolding harmless_def list_all_iff by (metis drop0 gr0I)
qed

section \<open>A storage\<close>

text \<open>It keeps what it is given; the message \<open>''bad''\<close> makes it throw.\<close>

definition sample_storage :: "string list storage" where
  "sample_storage =
     \<lparr>st_begin_batch = base_begin_batch,
      st_save_message = (\<lambda>m s. if m = ''bad'' then (s, Throw (Runtime_error ''bad'')) else (s @ [m], Return ())),
      st_end_batch = base_end_batch\<rparr>"

definition sample_backend :: "string list backend" where
  "sample_backend =
     base_impl.extend (base_impl_new sample_options) (backend.fields (Some Asleep) False [] [])"

lemma sample_backend_fields [simp]:
  "be_messages sample_backend = []" "be_max_messages sample_backend = 4096"
  "bk_thread sample_backend = Some Asleep" "\<not> bk_interrupt sample_backend"
  "bk_batch sample_backend = []" "bk_store sample_backend = []"
  by (simp_all add: sample_backend_def base_impl_new_def base_impl.defs backend.defs)

definition sample_occi :: "(nat, string list) occi" where
  "sample_occi =
     \<lparr>oc_create_connection = (\<lambda>l p cs d. (d, Return 1)), oc_terminate_connection = (\<lambda>c d. d),
      oc_query_int = (\<lambda>c q d. (d, Return (Some 1))), oc_update = (\<lambda>c q m d. (d @ [m], Return ())),
      oc_commit = (\<lambda>c d. (d, Return ()))\<rparr>"

definition sample_oracle_backend :: "(nat, string list) oracle_state backend" where
  "sample_oracle_backend =
     base_impl.extend (base_impl_new sample_options)
       (backend.fields (Some Begin) False [] (fst (oracle_new sample_occi sample_options False [])))"

definition sample_server :: "(u32 \<rightharpoonup> u32) server" where
  "sample_server =
     (start_accept ((bind_signals ((server_init sample_server_options 0 sample_env)\<lparr>sv_storage_started := True\<rparr>))
        \<lparr>sv_acceptor_open := True\<rparr>))\<lparr>sv_timer := Some 5\<rparr>"

lemma sample_server_new: "server_new sample_occi sample_server_options [] None 0 sample_env = Return sample_server"
  by (simp add: server_new_def factory_create_def backends_def create_rabbitmq_def rabbitmq_new_def start_listen_def sample_server_def
      sample_env_def sample_server_options_def sample_options_def start_accept_def bind_signals_def server_init_def)

lemma sample_server_fields [simp]:
  "sv_running sample_server" "sv_clients sample_server = []" "sv_orphans sample_server = 0"
  "sv_accepting sample_server = Some (client_create (protocol_create sample_env))"
  "be_messages (en_backend (sv_env sample_server)) = []" "be_max_messages (en_backend (sv_env sample_server)) = 4096"
  by (simp_all add: sample_server_def start_accept_def bind_signals_def server_init_def sample_env_def
      env.defs)

text \<open>A storage that takes everything, and a queue with two messages.\<close>

definition taking_storage :: "string list storage" where
  "taking_storage =
     \<lparr>st_begin_batch = base_begin_batch, st_save_message = (\<lambda>m s. (s @ [m], Return ())), st_end_batch = base_end_batch\<rparr>"

lemma taking_storage_laws [simp]: "records_messages taking_storage (\<lambda>s. s) (\<lambda>m. m)" "storage_returns taking_storage"
  by (simp_all add: records_messages_def storage_returns_def taking_storage_def base_begin_batch_def base_end_batch_def)

definition waiting_backend :: "string list backend" where
  "waiting_backend = sample_backend\<lparr>be_messages := [''one'', ''two'']\<rparr>"

section \<open>A process\<close>

definition sample_system :: "(u32 \<rightharpoonup> u32, string list) system" where
  "sample_system = system_new sample_server []"

text \<open>After one event of the timer.\<close>

definition ticked_system :: "(u32 \<rightharpoonup> u32, string list) system" where
  "ticked_system = put_backend (store_backend sample_system) (sample_system\<lparr>sy_server := handle_timer Success sample_server\<rparr>)"

lemma ticked_system_run: "run (system_step sample_platform taking_storage) sample_system ([] @ []) ticked_system"
proof -
  have sys: "sy_server sample_system = sample_server" by (simp add: sample_system_def)
  have "system_step sample_platform taking_storage sample_system [] ticked_system"
    unfolding ticked_system_def
  proof (rule system_step.handler [OF _ _ run.stay])
    show "enabled (Tick Success) (sy_server sample_system)"
      unfolding sys by (simp add: sample_server_def start_accept_def bind_signals_def server_init_def)
    show "server_event sample_platform (Tick Success) (sy_server sample_system) = (handle_timer Success sample_server, Return ())"
      unfolding sys by simp
    show "concat (map accepted []) = new_texts (sy_server sample_system) (handle_timer Success sample_server)"
      unfolding sys by (simp add: new_texts_def handle_timer_def drop_unused_clients_def Let_def)
  qed
  then show ?thesis by (rule run.step [OF run.stay])
qed

lemma ticked_system_running [simp]: "sv_running (sy_server ticked_system)"
  by (simp add: ticked_system_def handle_timer_def drop_unused_clients_def Let_def)

section \<open>A controller that is known\<close>

definition known_env :: "(u32 \<rightharpoonup> u32) env" where
  "known_env = sample_env\<lparr>en_counters := [7 \<mapsto> 41]\<rparr>"

definition known_server :: "(u32 \<rightharpoonup> u32) server" where
  "known_server =
     (start_accept ((bind_signals ((server_init sample_server_options 0 known_env)\<lparr>sv_storage_started := True\<rparr>))
        \<lparr>sv_acceptor_open := True\<rparr>))\<lparr>sv_timer := Some 5\<rparr>"

lemma known_server_new: "server_new sample_occi sample_server_options [] None 0 known_env = Return known_server"
  by (simp add: server_new_def factory_create_def backends_def create_rabbitmq_def rabbitmq_new_def start_listen_def known_server_def
      known_env_def sample_env_def sample_server_options_def sample_options_def start_accept_def bind_signals_def server_init_def)

lemma known_can_queue: "can_queue sample_platform 42 [[3]] (transport_protocol_new (sv_env known_server))"
  by (simp add: can_queue_def payload_fits_def queue_room_def)
    (simp add: known_server_def known_env_def start_accept_def bind_signals_def server_init_def sample_env_def)

lemma known_frames_short:
  "length (concat (map wire_frame (archive_frames 7 2 41 42 0 0 [[3]]))) < async_buffer_size"
  using length_wire_frame [of "ident_frame 7 2"] length_wire_frame [of "confirm_frame 41"]
    length_wire_frame [of "archive_frame 42 0 0 [[3]]"] length_wire_frame [of end_frame]
  by (simp add: archive_frames_def frame_defs data_payload_def async_buffer_size_def)

lemma known_turn:
  "\<exists>ls y p sent p'. run (process_step sample_platform taking_storage) (system_new known_server []) ls y
    \<and> (p, sent, p') \<in> set ls \<and> wire (delete_data_bytes 42) \<in> set sent"
  by (rule archive_turn [OF server_new_fresh(1) [OF known_server_new] _ _ _ known_can_queue known_frames_short])
    (simp_all add: server_new_fresh(2) [OF known_server_new], simp add: known_env_def)

section \<open>A configuration\<close>

definition sample_config :: "unit config" where
  "sample_config =
     \<lparr>cf_string = (\<lambda>path. Found ''rabbit''), cf_unsigned = (\<lambda>path. Found 1), cf_member = (\<lambda>root name. Not_found),
      cf_names = [''omnicomm_profi'']\<rparr>"

section \<open>A message\<close>

text \<open>Two identifiers and a complete navigation group, on the byte runtime of \<open>Pb_Stream\<close>.\<close>

definition sample_nav :: "byte list nav" where
  "sample_nav = nav_set_gpsalt 150 (nav_set_gpsnsat 9 (nav_set_gpsdir 270 (nav_set_gpsvel 600
     (nav_set_lon 376123456 (nav_set_lat 557512345 (nav_new []))))))"

definition sample_message :: "byte list recreg" where
  "sample_message = (rr_new [])\<lparr>rr_has_bits := 8, rr_mid := [9, 300], rr_nav := Some sample_nav\<rparr>"

definition stream_platform :: "(pb_stream, byte list, u32 \<rightharpoonup> u32) platform" where
  "stream_platform =
     \<lparr>pf_runtime = pb_rt, pf_parse = pb_parse, pf_archive_write = (\<lambda>m. m), pf_archive_read = (\<lambda>f m. f)\<rparr>"

lemma pb_unknown_empty [simp]: "rt_unknown_empty pb_rt = []"
  by (simp add: pb_rt_def)

lemma sample_nav_complete: "nav_complete [] sample_nav"
  unfolding sample_nav_def by (intro nav_complete_set nav_complete_new)

lemma sample_message_sendable: "sendable pb_rt pb_wr sample_message"
proof -
  have bits: "bits_within 8 rr_bits" by code_simp
  have "rr_has_general sample_message = False" "rr_has_photo sample_message = False" "rr_has_nav sample_message"
    "rr_has_unidt sample_message = False" "rr_has_candt sample_message = False" "rr_has_llsdt sample_message = False"
    "rr_has_log sample_message = False"
    by (simp_all add: rr_has_general_def rr_has_photo_def rr_has_nav_def rr_has_unidt_def rr_has_candt_def
        rr_has_llsdt_def rr_has_log_def sample_message_def)
  then have complete: "rr_complete [] sample_message"
    using bits sample_nav_complete
    by (simp add: rr_complete_def group_ok_def) (simp add: sample_message_def rr_new_def)
  have "packed_size pb_wr [9, 300] = 3" by code_simp
  then have "rr_fits pb_wr sample_message" by (simp add: rr_fits_def sample_message_def rr_new_def)
  moreover have "nav_is_initialized sample_nav" by code_simp
  then have "rr_is_initialized pb_rt sample_message"
    by (simp add: rr_is_initialized_def rr_get_nav_def sample_message_def)
  ultimately show ?thesis using complete by (simp add: sendable_def)
qed

lemma write_short:
  "length (write_sint32 pb_wr n v) \<le> 10" "length (write_uint32 pb_wr n v) \<le> 10"
  using put_u32_short [of "make_tag n WIRETYPE_VARINT"] put_u32_short [of v] put_u32_short [of "zigzag v"]
  by (simp_all add: write_sint32_def write_uint32_def pb_wr_def)

lemma pb_wr_unknown [simp]: "wr_unknown pb_wr u = u"
  by (simp add: pb_wr_def)

lemma nav_short: "nav_unknown m = [] \<Longrightarrow> length (nav_serialize pb_wr m) \<le> 10 + (10 + (10 + (10 + (10 + (10 + 0)))))"
  unfolding nav_serialize_def length_append
  by (intro add_mono) (auto intro: write_short)

lemma sample_message_bytes:
  "rr_serialize pb_rt pb_wr sample_message = write_packed pb_wr 1 [9, 300] @ write_group pb_wr 5 (nav_serialize pb_wr sample_nav)"
  by (simp add: rr_serialize_def sample_message_def rr_new_def rr_has_general_def rr_has_photo_def rr_has_nav_def
      rr_has_unidt_def rr_has_candt_def rr_has_llsdt_def rr_has_log_def rr_get_nav_def)

lemma sample_message_short: "length (rr_serialize pb_rt pb_wr sample_message) < 100"
proof -
  have nav: "length (nav_serialize pb_wr sample_nav) \<le> 60"
    using nav_short [of sample_nav] sample_nav_complete by (simp add: nav_complete_def)
  have group: "length (write_group pb_wr 5 (nav_serialize pb_wr sample_nav)) \<le> length (nav_serialize pb_wr sample_nav) + 10"
    using put_u32_short [of "make_tag 5 WIRETYPE_START_GROUP"] put_u32_short [of "make_tag 5 WIRETYPE_END_GROUP"]
    by (simp add: write_group_def pb_wr_def)
  have packed: "length (write_packed pb_wr 1 [9, 300]) \<le> 20"
    using put_u32_short [of "make_tag 1 WIRETYPE_LENGTH_DELIMITED"] put_u32_short [of "of_nat (packed_size pb_wr [9, 300])"]
      put_u32_short [of 9] put_u32_short [of 300]
    by (simp add: write_packed_def pb_wr_def)
  show ?thesis unfolding sample_message_bytes length_append using nav group packed by linarith
qed

end
