(* ===== verification/Info_Text.thy ===== *)
theory Info_Text
  imports Info_Extract
begin

text \<open>
  The text of a message as XML attributes: every value the extraction writes, but the phone, is made
  of digits and a few signs, so the attributes can be read back when the phone has no quote.
\<close>

section \<open>Values without quotes\<close>

definition plain_text :: "string \<Rightarrow> bool" where
  "plain_text v \<longleftrightarrow> quote \<notin> set v"

named_theorems plain_simps "texts without quotes"

lemma digit_not_quote: "is_digit c \<Longrightarrow> c \<noteq> quote"
  by (auto simp: is_digit_def quote_def)

lemma plain_dec_nat [plain_simps]: "plain_text (dec_nat n)"
  using dec_nat_digits digit_not_quote by (auto simp: plain_text_def)

lemma plain_append [plain_simps]: "plain_text (a @ b) \<longleftrightarrow> plain_text a \<and> plain_text b"
  by (auto simp: plain_text_def)

lemma plain_Cons [plain_simps]: "plain_text (c # a) \<longleftrightarrow> c \<noteq> quote \<and> plain_text a"
  by (auto simp: plain_text_def)

lemma plain_Nil [plain_simps]: "plain_text []"
  by (simp add: plain_text_def)

lemma plain_pad0 [plain_simps]: "plain_text (pad0 w s) \<longleftrightarrow> plain_text s"
  by (auto simp: plain_text_def pad0_def quote_def)

lemma plain_numbers [plain_simps]:
  "plain_text (dec_int i)" "plain_text (dec_u32 x)" "plain_text (dec_i32 x)" "plain_text (flag_text w n)"
  by (simp_all add: dec_int_def dec_u32_def dec_i32_def flag_text_def plain_simps quote_def)

lemma plain_fixed_text [plain_simps]: "plain_text (fixed_text d num sh)"
  by (simp add: fixed_text_def Let_def plain_simps quote_def)

lemma plain_signed_text [plain_simps]: "(\<And>n. plain_text (f n)) \<Longrightarrow> plain_text (signed_text f x)"
  by (simp add: signed_text_def plain_simps quote_def)

lemma plain_floats [plain_simps]:
  "plain_text (text_1e_7f x)" "plain_text (text_1e_1f d n)" "plain_text (text_1e_2 x)"
  by (simp_all add: text_1e_7f_def text_1e_1f_def text_1e_2_def plain_simps)

lemma plain_otime [plain_simps]: "plain_text (otime_to_string t)"
  by (simp add: otime_to_string_def Let_def plain_simps quote_def)

section \<open>Maps without quotes\<close>

definition plain_map :: "smap \<Rightarrow> bool" where
  "plain_map m \<longleftrightarrow> list_all plain_pair m"

lemma plain_map_put [plain_simps]:
  "plain_map m \<Longrightarrow> CHR ''='' \<notin> set k \<Longrightarrow> plain_text v \<Longrightarrow> plain_map (map_put k v m)"
  unfolding plain_map_def
  by (induction k v m rule: map_put.induct) (auto simp: plain_pair_def plain_text_def)

lemma plain_put_if [plain_simps]:
  "plain_map m \<Longrightarrow> CHR ''='' \<notin> set k \<Longrightarrow> (c \<Longrightarrow> plain_text v) \<Longrightarrow> plain_map (put_if c k v m)"
  by (simp add: put_if_def plain_simps)

lemma plain_map_Nil [plain_simps]: "plain_map []"
  by (simp add: plain_map_def)

lemma plain_map_Cons [plain_simps]:
  "plain_map ((k, v) # m) \<longleftrightarrow> CHR ''='' \<notin> set k \<and> plain_text v \<and> plain_map m"
  by (auto simp: plain_map_def plain_pair_def plain_text_def)

lemma plain_extract_general:
  "plain_map data \<Longrightarrow> (gen_has_phone message \<Longrightarrow> plain_text (gen_phone message)) \<Longrightarrow>
   plain_map (extract_general message data)"
  by (simp add: extract_general_def plain_simps)

lemma plain_extract_nav: "plain_map data \<Longrightarrow> plain_map (extract_nav message data)"
  by (simp add: extract_nav_def plain_simps)

lemma plain_extract_unidt: "plain_map data \<Longrightarrow> plain_map (extract_unidt message data)"
  by (simp add: extract_unidt_def plain_simps)

lemma plain_extract_llsdt: "plain_map data \<Longrightarrow> plain_map (extract_llsdt message data)"
  by (simp add: extract_llsdt_def plain_simps)

text \<open>The only free text of a message: the phone of its general group.\<close>

definition plain_phone :: "('s, 'u) runtime \<Rightarrow> 'u recreg \<Rightarrow> bool" where
  "plain_phone rt message \<longleftrightarrow>
     (rr_has_general message \<and> gen_has_phone (rr_get_general rt message) \<longrightarrow>
        plain_text (gen_phone (rr_get_general rt message)))"

lemma plain_extract_message:
  assumes "plain_phone rt message"
  shows "plain_map (extract_message rt mid message [])"
  using assms
  by (simp add: extract_message_def Let_def extract_candt_def extract_log_def plain_phone_def plain_simps
      plain_extract_general plain_extract_nav plain_extract_unidt plain_extract_llsdt)

lemma read_message_text:
  "plain_phone rt message \<Longrightarrow>
   read_attributes (render (extract_message rt mid message [])) = extract_message rt mid message []"
  using plain_extract_message read_render by (auto simp: plain_map_def)

section \<open>Lookups in a message\<close>

lemma map_sorted_one [simp]: "map_sorted [kv]"
  by (simp add: map_sorted_def)

lemma find_one [find_simps]: "map_find [(k, v)] k' = (if k' = k then Some v else None)"
  by (simp add: map_find_def)

lemma find_general:
  assumes "map_sorted data"
  shows "map_find (extract_general message data) ''time'' =
      (if gen_has_time message then Some (otime_to_string (ucast (gen_time message))) else map_find data ''time'')"
    and "map_find (extract_general message data) ''controller_id'' =
      (if gen_has_idfas message then Some (dec_u32 (gen_idfas message)) else map_find data ''controller_id'')"
    and "map_find (extract_general message data) ''ignition'' =
      (if gen_has_flg message then Some (flag_text (gen_flg message) 0) else map_find data ''ignition'')"
    and "map_find (extract_general message data) ''discrete_input'' =
      (if gen_has_flg message then Some (flag_text (gen_flg message) 7) else map_find data ''discrete_input'')"
    and "map_find (extract_general message data) ''power_main'' =
      (if gen_has_uboard message then Some (dec_u32 (gen_uboard message * 100)) else map_find data ''power_main'')"
    and "map_find (extract_general message data) ''a_total'' =
      (if gen_has_sumacc message then Some (text_1e_2 (gen_sumacc message)) else map_find data ''a_total'')"
    and "map_find (extract_general message data) ''phone'' =
      (if gen_has_phone message then Some (gen_phone message) else map_find data ''phone'')"
  using assms by (simp_all add: extract_general_def find_simps)

lemma find_nav:
  assumes "map_sorted data"
  shows "map_find (extract_nav message data) ''lat'' = Some (text_1e_7f (nav_lat message))"
    and "map_find (extract_nav message data) ''lon'' = Some (text_1e_7f (nav_lon message))"
    and "map_find (extract_nav message data) ''speed_by_gps'' = Some (text_1e_1f 1 (unat (nav_gpsvel message)))"
    and "map_find (extract_nav message data) ''course'' = Some (dec_i32 (nav_gpsdir message))"
    and "map_find (extract_nav message data) ''satellites'' = Some (dec_u32 (nav_gpsnsat message))"
    and "map_find (extract_nav message data) ''altitude'' = Some (signed_text (text_1e_1f 2) (nav_gpsalt message))"
  using assms by (simp_all add: extract_nav_def find_simps)

lemmas key_sets = general_keys_def nav_keys_def unidt_keys_def llsdt_keys_def

lemma find_message_type: "map_find (extract_message rt mid message []) ''message_type'' = Some (dec_u32 mid)"
  by (simp add: extract_message_def Let_def extract_candt_def extract_log_def find_simps key_sets)

lemma find_message_general:
  "k \<in> general_keys \<Longrightarrow> k \<notin> nav_keys \<union> unidt_keys \<union> llsdt_keys \<union> {''message_type''} \<Longrightarrow>
   map_find (extract_message rt mid message []) k =
     (if rr_has_general message then map_find (extract_general (rr_get_general rt message) (map_put ''message_type'' (dec_u32 mid) [])) k
      else None)"
  by (simp add: extract_message_def Let_def extract_candt_def extract_log_def find_simps)

lemma find_message_nav:
  "map_find (extract_message rt mid message []) ''lat'' =
     (if rr_has_nav message then Some (text_1e_7f (nav_lat (rr_get_nav rt message))) else None)"
  "map_find (extract_message rt mid message []) ''lon'' =
     (if rr_has_nav message then Some (text_1e_7f (nav_lon (rr_get_nav rt message))) else None)"
  "map_find (extract_message rt mid message []) ''speed_by_gps'' =
     (if rr_has_nav message then Some (text_1e_1f 1 (unat (nav_gpsvel (rr_get_nav rt message)))) else None)"
  "map_find (extract_message rt mid message []) ''satellites'' =
     (if rr_has_nav message then Some (dec_u32 (nav_gpsnsat (rr_get_nav rt message))) else None)"
  by (simp_all add: extract_message_def Let_def extract_candt_def extract_log_def find_simps key_sets find_nav)

end
