(* ===== verification/Hex.thy ===== *)
theory Hex
  imports Prelude
begin

text \<open>
  \<^verbatim>\<open>utils.cpp\<close>: the dump of a block of memory as pairs of hexadecimal digits, which the client and
  the protocol put in the log for every buffer they receive and send; and that the dump determines
  the bytes.
\<close>

section \<open>\<open>to_hex_string\<close>\<close>

text \<open>\<^verbatim>\<open>operator <<\<close> of an \<^verbatim>\<open>int\<close> that is not negative, with the flag \<^verbatim>\<open>hex\<close>.\<close>

definition hex_digit :: "nat \<Rightarrow> char" where
  "hex_digit d = (if d < 10 then digit d else char_of (87 + d))"

fun hex_nat :: "nat \<Rightarrow> string" where
  "hex_nat n = (if n < 16 then [hex_digit n] else hex_nat (n div 16) @ [hex_digit (n mod 16)])"

declare hex_nat.simps [simp del]

text \<open>The loop, from index \<open>i\<close>.\<close>

fun hex_loop :: "nat \<Rightarrow> byte list \<Rightarrow> string" where
  "hex_loop i [] = []"
| "hex_loop i (b # bs) = (if i \<noteq> 0 then '' '' else []) @ pad0 2 (hex_nat (unat b)) @ hex_loop (Suc i) bs"

text \<open>\<open>buffer\<close> is the memory behind the pointer; reading past it is undefined.\<close>

definition to_hex_string :: "byte list \<Rightarrow> nat \<Rightarrow> string outcome" where
  "to_hex_string buffer len =
     (if len \<le> length buffer then Return (hex_loop 0 (take len buffer)) else Undefined)"

section \<open>Reading a dump back\<close>

definition unhex_digit :: "char \<Rightarrow> nat" where
  "unhex_digit c = (if is_digit c then undigit c else of_char c - 87)"

definition unhex_pair :: "char \<Rightarrow> char \<Rightarrow> byte" where
  "unhex_pair a b = of_nat (16 * unhex_digit a + unhex_digit b)"

fun read_hex :: "string \<Rightarrow> byte list" where
  "read_hex (a # b # c # cs) = unhex_pair a b # read_hex cs"
| "read_hex [a, b] = [unhex_pair a b]"
| "read_hex _ = []"

lemma unhex_hex_digit [simp]: "d < 16 \<Longrightarrow> unhex_digit (hex_digit d) = d"
  by (cases "d < 10") (simp_all add: unhex_digit_def hex_digit_def digit_def is_digit_def undigit_def of_char_of)

lemma hex_nat_byte:
  assumes "n < 256"
  shows "pad0 2 (hex_nat n) = [hex_digit (n div 16), hex_digit (n mod 16)]"
proof (cases "n < 16")
  case True
  have "CHR ''0'' = hex_digit 0" by code_simp
  with True show ?thesis by (subst hex_nat.simps) (simp add: pad0_def)
next
  case False
  with assms show ?thesis
    by (subst hex_nat.simps, subst hex_nat.simps) (simp add: pad0_def less_mult_imp_div_less)
qed

definition hex_pair :: "byte \<Rightarrow> string" where
  "hex_pair b = [hex_digit (unat b div 16), hex_digit (unat b mod 16)]"

lemma unat_byte: "unat (b :: byte) < 256"
  using unsigned_less [of b] by simp

lemma hex_byte: "pad0 2 (hex_nat (unat (b :: byte))) = hex_pair b"
  by (simp add: hex_pair_def hex_nat_byte unat_byte)

lemma unhex_pair [simp]: "unhex_pair (hex_digit (unat b div 16)) (hex_digit (unat b mod 16)) = b"
proof -
  have "unat b < 16 * 16" using unat_byte [of b] by simp
  then have "unat b div 16 < 16" by (rule less_mult_imp_div_less)
  then have "16 * unhex_digit (hex_digit (unat b div 16)) + unhex_digit (hex_digit (unat b mod 16)) = unat b"
    by simp
  then show ?thesis by (simp only: unhex_pair_def of_nat_unat ucast_id)
qed

lemma hex_loop_Suc: "hex_loop (Suc i) bs = concat (map (\<lambda>b. '' '' @ hex_pair b) bs)"
  by (induction bs arbitrary: i) (simp_all add: hex_byte)

lemma hex_loop_0: "hex_loop 0 (b # bs) = hex_pair b @ concat (map (\<lambda>b. '' '' @ hex_pair b) bs)"
  by (simp add: hex_byte hex_loop_Suc)

lemma read_hex_pairs: "read_hex (hex_pair b @ concat (map (\<lambda>b. '' '' @ hex_pair b) bs)) = b # bs"
  by (induction bs arbitrary: b) (simp_all add: hex_pair_def)

lemma read_hex_loop: "read_hex (hex_loop 0 bs) = bs"
proof (cases bs)
  case (Cons b bs')
  show ?thesis unfolding Cons hex_loop_0 by (rule read_hex_pairs)
qed simp

lemma hex_loop_length: "length (hex_loop i bs) = 3 * length bs - (if i = 0 \<and> bs \<noteq> [] then 1 else 0)"
proof (induction bs arbitrary: i)
  case (Cons b bs)
  from Cons.IH [of "Suc i"] show ?case by (simp add: hex_byte hex_pair_def)
qed simp

end
