(* ===== verification/Pb_Array.thy ===== *)
theory Pb_Array
  imports Pb_RecReg "HOL-Library.Monad_Syntax"
begin

text \<open>
  \<^verbatim>\<open>SerializeWithCachedSizesToArray\<close> of the generated classes: the serialiser for a target that is an
  array. It is given a pointer and returns it advanced; it does not know where the array ends. A
  target is the array and a position in it, and a write behind its end is \<open>None\<close>. The lemmas say that
  each of them writes what the other serialiser writes, and the last one that an array of
  \<^verbatim>\<open>ByteSize\<close> bytes is always enough.
\<close>

section \<open>Writing to an array\<close>

type_synonym target = "byte list \<times> nat"

definition put_bytes :: "byte list \<Rightarrow> target \<Rightarrow> target option" where
  "put_bytes bs t =
     (case t of (mem, pos) \<Rightarrow>
        if pos + length bs \<le> length mem
        then Some (take pos mem @ bs @ drop (pos + length bs) mem, pos + length bs) else None)"

definition write_if :: "bool \<Rightarrow> byte list \<Rightarrow> target \<Rightarrow> target option" where
  "write_if h bs t = (if h then put_bytes bs t else Some t)"

fun put_all :: "byte list list \<Rightarrow> target \<Rightarrow> target option" where
  "put_all [] t = Some t"
| "put_all (b # bs) t = do { t \<leftarrow> put_bytes b t; put_all bs t }"

text \<open>\<^verbatim>\<open>WriteGroupNoVirtualToArray\<close>; \<^verbatim>\<open>body\<close> is the serialiser of the group.\<close>

definition write_group_to_array ::
  "'u writer \<Rightarrow> nat \<Rightarrow> bool \<Rightarrow> (target \<Rightarrow> target option) \<Rightarrow> target \<Rightarrow> target option" where
  "write_group_to_array wr n h body t =
     (if h then do {
        t \<leftarrow> put_bytes (wr_tag wr (make_tag n WIRETYPE_START_GROUP)) t;
        t \<leftarrow> body t;
        put_bytes (wr_tag wr (make_tag n WIRETYPE_END_GROUP)) t
      } else Some t)"

text \<open>The tag and the length of a packed field that is not empty.\<close>

definition packed_head :: "'u writer \<Rightarrow> nat \<Rightarrow> u32 list \<Rightarrow> byte list" where
  "packed_head wr n vs = wr_tag wr (make_tag n WIRETYPE_LENGTH_DELIMITED) @ wr_varint32 wr (of_nat (packed_size wr vs))"

lemma put_bytes_Nil [simp]: "put_bytes [] (mem, pos) = (if pos \<le> length mem then Some (mem, pos) else None)"
  by (simp add: put_bytes_def)

text \<open>A position inside the array stays inside, and two writes are one.\<close>

definition inside :: "target \<Rightarrow> bool" where
  "inside t \<longleftrightarrow> snd t \<le> length (fst t)"

named_theorems array_simps "writes to an array as writes of joined bytes"

lemma put_bytes_inside: "put_bytes bs t = Some t' \<Longrightarrow> inside t'"
  by (auto simp: put_bytes_def inside_def split: prod.splits if_splits)

lemma put_bytes_bind [array_simps]: "put_bytes a t \<bind> put_bytes b = put_bytes (a @ b) t"
proof (cases t)
  case (Pair mem pos)
  show ?thesis
  proof (cases "pos + length a + length b \<le> length mem")
    case True
    then have "drop (pos + length a + length b) (take pos mem @ a @ drop (pos + length a) mem)
        = drop (pos + length a + length b) mem" by (simp add: add.commute)
    with True Pair show ?thesis by (simp add: put_bytes_def add.assoc)
  qed (simp add: Pair put_bytes_def add.assoc)
qed

lemma put_nothing [array_simps]: "inside t \<Longrightarrow> Some t = put_bytes [] t"
  by (cases t) (simp add: inside_def)

lemma write_if_put [array_simps]: "inside t \<Longrightarrow> write_if h bs t = put_bytes (if h then bs else []) t"
  by (simp add: write_if_def put_nothing)

lemma put_all_put [array_simps]: "inside t \<Longrightarrow> put_all bs t = put_bytes (concat bs) t"
proof (induction bs arbitrary: t)
  case (Cons b bs)
  have "put_bytes b t \<bind> put_all bs = put_bytes b t \<bind> put_bytes (concat bs)"
    using Cons.IH put_bytes_inside by (cases "put_bytes b t") auto
  then show ?case by (simp add: put_bytes_bind)
qed (simp add: put_nothing)

text \<open>One statement of a serialiser, and the rest of it.\<close>

lemma put_then:
  assumes "inside t" and "f t = put_bytes a t" and "\<And>t. inside t \<Longrightarrow> g t = put_bytes b t"
  shows "f t \<bind> g = put_bytes (a @ b) t"
proof -
  have "put_bytes a t \<bind> g = put_bytes a t \<bind> put_bytes b"
    using assms(3) put_bytes_inside by (cases "put_bytes a t") auto
  then show ?thesis by (simp add: assms(2) put_bytes_bind)
qed

lemma write_group_put:
  assumes "inside t" and "\<And>t. inside t \<Longrightarrow> body t = put_bytes bs t"
  shows "write_group_to_array wr n h body t = put_bytes (if h then write_group wr n bs else []) t"
proof (cases h)
  case True
  have "put_bytes (wr_tag wr (make_tag n WIRETYPE_START_GROUP)) t
      \<bind> (\<lambda>t. body t \<bind> put_bytes (wr_tag wr (make_tag n WIRETYPE_END_GROUP))) =
    put_bytes (wr_tag wr (make_tag n WIRETYPE_START_GROUP) @ bs @ wr_tag wr (make_tag n WIRETYPE_END_GROUP)) t"
    by (intro put_then assms refl)
  with True show ?thesis by (simp add: write_group_to_array_def write_group_def)
qed (simp add: write_group_to_array_def put_nothing assms(1))

lemma write_packed_put:
  "write_packed wr n vs = (if vs \<noteq> [] then packed_head wr n vs else []) @ concat (map (wr_uint32 wr) vs)"
  by (simp add: write_packed_def packed_head_def)

section \<open>The classes\<close>

definition gen_serialize_to_array :: "'u writer \<Rightarrow> 'u general \<Rightarrow> target \<Rightarrow> target option" where
  "gen_serialize_to_array wr m t = do {
     t \<leftarrow> write_if (gen_has_time m) (write_uint32 wr 1 (gen_time m)) t;
     t \<leftarrow> write_if (gen_has_idfas m) (write_uint32 wr 2 (gen_idfas m)) t;
     t \<leftarrow> write_if (gen_has_iddrv m) (write_bytes wr 3 (gen_iddrv m)) t;
     t \<leftarrow> write_if (gen_has_flg m) (write_uint32 wr 4 (gen_flg m)) t;
     t \<leftarrow> write_if (gen_has_mileage m) (write_uint32 wr 5 (gen_mileage m)) t;
     t \<leftarrow> write_if (gen_has_vimp m) (write_uint32 wr 6 (gen_vimp m)) t;
     t \<leftarrow> write_if (gen_has_timp m) (write_uint32 wr 7 (gen_timp m)) t;
     t \<leftarrow> write_if (gen_has_uboard m) (write_uint32 wr 8 (gen_uboard m)) t;
     t \<leftarrow> write_if (gen_has_batlife m) (write_uint32 wr 9 (gen_batlife m)) t;
     t \<leftarrow> write_if (gen_has_sumacc m) (write_sint32 wr 10 (gen_sumacc m)) t;
     t \<leftarrow> write_if (gen_has_phone m) (write_bytes wr 11 (gen_phone m)) t;
     t \<leftarrow> write_if (gen_has_amtrx m) (write_sint32 wr 12 (gen_amtrx m)) t;
     t \<leftarrow> write_if (gen_has_amtry m) (write_sint32 wr 13 (gen_amtry m)) t;
     t \<leftarrow> write_if (gen_has_amtrz m) (write_sint32 wr 14 (gen_amtrz m)) t;
     put_bytes (wr_unknown wr (gen_unknown m)) t
   }"

lemma gen_to_array:
  assumes "inside t"
  shows "gen_serialize_to_array wr m t = put_bytes (gen_serialize wr m) t"
  unfolding gen_serialize_to_array_def gen_serialize_def write_packed_put append_assoc
  by (intro put_then write_if_put put_all_put refl assms)

definition pho_serialize_to_array :: "'u writer \<Rightarrow> 'u photo \<Rightarrow> target \<Rightarrow> target option" where
  "pho_serialize_to_array wr m t = do {
     t \<leftarrow> write_if (pho_has_posblk m) (write_uint32 wr 1 (pho_posblk m)) t;
     t \<leftarrow> write_if (pho_has_szphoto m) (write_uint32 wr 2 (pho_szphoto m)) t;
     t \<leftarrow> write_if (pho_has_size m) (write_uint32 wr 3 (pho_size m)) t;
     t \<leftarrow> write_if (pho_has_buf m) (write_bytes wr 4 (pho_buf m)) t;
     t \<leftarrow> write_if (pho_has_idph m) (write_uint32 wr 5 (pho_idph m)) t;
     t \<leftarrow> write_if (pho_has_imgstat m) (write_uint32 wr 6 (pho_imgstat m)) t;
     put_bytes (wr_unknown wr (pho_unknown m)) t
   }"

lemma pho_to_array:
  assumes "inside t"
  shows "pho_serialize_to_array wr m t = put_bytes (pho_serialize wr m) t"
  unfolding pho_serialize_to_array_def pho_serialize_def write_packed_put append_assoc
  by (intro put_then write_if_put put_all_put refl assms)

definition nav_serialize_to_array :: "'u writer \<Rightarrow> 'u nav \<Rightarrow> target \<Rightarrow> target option" where
  "nav_serialize_to_array wr m t = do {
     t \<leftarrow> write_if (nav_has_lat m) (write_sint32 wr 1 (nav_lat m)) t;
     t \<leftarrow> write_if (nav_has_lon m) (write_sint32 wr 2 (nav_lon m)) t;
     t \<leftarrow> write_if (nav_has_gpsvel m) (write_uint32 wr 3 (nav_gpsvel m)) t;
     t \<leftarrow> write_if (nav_has_gpsdir m) (write_uint32 wr 4 (nav_gpsdir m)) t;
     t \<leftarrow> write_if (nav_has_gpsnsat m) (write_uint32 wr 5 (nav_gpsnsat m)) t;
     t \<leftarrow> write_if (nav_has_gpsalt m) (write_sint32 wr 6 (nav_gpsalt m)) t;
     put_bytes (wr_unknown wr (nav_unknown m)) t
   }"

lemma nav_to_array:
  assumes "inside t"
  shows "nav_serialize_to_array wr m t = put_bytes (nav_serialize wr m) t"
  unfolding nav_serialize_to_array_def nav_serialize_def write_packed_put append_assoc
  by (intro put_then write_if_put put_all_put refl assms)

definition uni_serialize_to_array :: "'u writer \<Rightarrow> 'u unidt \<Rightarrow> target \<Rightarrow> target option" where
  "uni_serialize_to_array wr m t = do {
     t \<leftarrow> write_if (uni_has_unival0 m) (write_sint32 wr 1 (uni_unival0 m)) t;
     t \<leftarrow> write_if (uni_has_unival1 m) (write_sint32 wr 2 (uni_unival1 m)) t;
     t \<leftarrow> write_if (uni_has_unival2 m) (write_sint32 wr 3 (uni_unival2 m)) t;
     t \<leftarrow> write_if (uni_has_unival3 m) (write_sint32 wr 4 (uni_unival3 m)) t;
     put_bytes (wr_unknown wr (uni_unknown m)) t
   }"

lemma uni_to_array:
  assumes "inside t"
  shows "uni_serialize_to_array wr m t = put_bytes (uni_serialize wr m) t"
  unfolding uni_serialize_to_array_def uni_serialize_def write_packed_put append_assoc
  by (intro put_then write_if_put put_all_put refl assms)

definition can_serialize_to_array :: "'u writer \<Rightarrow> 'u candt \<Rightarrow> target \<Rightarrow> target option" where
  "can_serialize_to_array wr m t = do {
     t \<leftarrow> write_if (can_has_spn70 m) (write_uint32 wr 70 (can_spn70 m)) t;
     t \<leftarrow> write_if (can_has_spn91 m) (write_uint32 wr 91 (can_spn91 m)) t;
     t \<leftarrow> write_if (can_has_spn100 m) (write_uint32 wr 100 (can_spn100 m)) t;
     t \<leftarrow> write_if (can_has_spn110 m) (write_uint32 wr 110 (can_spn110 m)) t;
     t \<leftarrow> write_if (can_has_spn174 m) (write_uint32 wr 174 (can_spn174 m)) t;
     t \<leftarrow> write_if (can_has_spn175 m) (write_uint32 wr 175 (can_spn175 m)) t;
     t \<leftarrow> write_if (can_has_spn182 m) (write_uint32 wr 182 (can_spn182 m)) t;
     t \<leftarrow> write_if (can_has_spn184 m) (write_uint32 wr 184 (can_spn184 m)) t;
     t \<leftarrow> write_if (can_has_spn190 m) (write_uint32 wr 190 (can_spn190 m)) t;
     t \<leftarrow> write_if (can_has_spn244 m) (write_uint32 wr 244 (can_spn244 m)) t;
     t \<leftarrow> write_if (can_has_spn245 m) (write_uint32 wr 245 (can_spn245 m)) t;
     t \<leftarrow> write_if (can_has_spn247 m) (write_uint32 wr 247 (can_spn247 m)) t;
     t \<leftarrow> write_if (can_has_spn250 m) (write_uint32 wr 250 (can_spn250 m)) t;
     t \<leftarrow> write_if (can_has_spn521 m) (write_uint32 wr 521 (can_spn521 m)) t;
     t \<leftarrow> write_if (can_has_spn522 m) (write_uint32 wr 522 (can_spn522 m)) t;
     t \<leftarrow> write_if (can_has_spn527 m) (write_uint32 wr 527 (can_spn527 m)) t;
     t \<leftarrow> write_if (can_spn582 m \<noteq> []) (packed_head wr 582 (can_spn582 m)) t;
     t \<leftarrow> put_all (map (wr_uint32 wr) (can_spn582 m)) t;
     t \<leftarrow> write_if (can_has_spn597 m) (write_uint32 wr 597 (can_spn597 m)) t;
     t \<leftarrow> write_if (can_has_spn598 m) (write_uint32 wr 598 (can_spn598 m)) t;
     t \<leftarrow> write_if (can_has_spn914 m) (write_uint32 wr 914 (can_spn914 m)) t;
     t \<leftarrow> write_if (can_has_spn916 m) (write_uint32 wr 916 (can_spn916 m)) t;
     t \<leftarrow> write_if (can_spn928 m \<noteq> []) (packed_head wr 928 (can_spn928 m)) t;
     t \<leftarrow> put_all (map (wr_uint32 wr) (can_spn928 m)) t;
     t \<leftarrow> write_if (can_has_spn1624 m) (write_uint32 wr 1624 (can_spn1624 m)) t;
     t \<leftarrow> write_if (can_has_spn1821 m) (write_uint32 wr 1821 (can_spn1821 m)) t;
     t \<leftarrow> write_if (can_has_spn1856 m) (write_uint32 wr 1856 (can_spn1856 m)) t;
     put_bytes (wr_unknown wr (can_unknown m)) t
   }"

lemma can_to_array:
  assumes "inside t"
  shows "can_serialize_to_array wr m t = put_bytes (can_serialize wr m) t"
  unfolding can_serialize_to_array_def can_serialize_def write_packed_put append_assoc
  by (intro put_then write_if_put put_all_put refl assms)

definition lls_serialize_to_array :: "'u writer \<Rightarrow> 'u llsdt \<Rightarrow> target \<Rightarrow> target option" where
  "lls_serialize_to_array wr m t = do {
     t \<leftarrow> write_if (lls_has_tlls1 m) (write_sint32 wr 1 (lls_tlls1 m)) t;
     t \<leftarrow> write_if (lls_has_clls1 m) (write_uint32 wr 2 (lls_clls1 m)) t;
     t \<leftarrow> write_if (lls_has_flls1 m) (write_sint32 wr 3 (lls_flls1 m)) t;
     t \<leftarrow> write_if (lls_has_tlls2 m) (write_sint32 wr 4 (lls_tlls2 m)) t;
     t \<leftarrow> write_if (lls_has_clls2 m) (write_uint32 wr 5 (lls_clls2 m)) t;
     t \<leftarrow> write_if (lls_has_flls2 m) (write_sint32 wr 6 (lls_flls2 m)) t;
     t \<leftarrow> write_if (lls_has_tlls3 m) (write_sint32 wr 7 (lls_tlls3 m)) t;
     t \<leftarrow> write_if (lls_has_clls3 m) (write_uint32 wr 8 (lls_clls3 m)) t;
     t \<leftarrow> write_if (lls_has_flls3 m) (write_sint32 wr 9 (lls_flls3 m)) t;
     t \<leftarrow> write_if (lls_has_tlls4 m) (write_sint32 wr 10 (lls_tlls4 m)) t;
     t \<leftarrow> write_if (lls_has_clls4 m) (write_uint32 wr 11 (lls_clls4 m)) t;
     t \<leftarrow> write_if (lls_has_flls4 m) (write_sint32 wr 12 (lls_flls4 m)) t;
     t \<leftarrow> write_if (lls_has_tlls5 m) (write_sint32 wr 13 (lls_tlls5 m)) t;
     t \<leftarrow> write_if (lls_has_clls5 m) (write_uint32 wr 14 (lls_clls5 m)) t;
     t \<leftarrow> write_if (lls_has_flls5 m) (write_sint32 wr 15 (lls_flls5 m)) t;
     t \<leftarrow> write_if (lls_has_tlls6 m) (write_sint32 wr 16 (lls_tlls6 m)) t;
     t \<leftarrow> write_if (lls_has_clls6 m) (write_uint32 wr 17 (lls_clls6 m)) t;
     t \<leftarrow> write_if (lls_has_flls6 m) (write_uint32 wr 18 (lls_flls6 m)) t;
     put_bytes (wr_unknown wr (lls_unknown m)) t
   }"

lemma lls_to_array:
  assumes "inside t"
  shows "lls_serialize_to_array wr m t = put_bytes (lls_serialize wr m) t"
  unfolding lls_serialize_to_array_def lls_serialize_def write_packed_put append_assoc
  by (intro put_then write_if_put put_all_put refl assms)

definition log_serialize_to_array :: "'u writer \<Rightarrow> 'u log \<Rightarrow> target \<Rightarrow> target option" where
  "log_serialize_to_array wr m t = do {
     t \<leftarrow> put_all (map (write_bytes wr 1) (log_debug m)) t;
     put_bytes (wr_unknown wr (log_unknown m)) t
   }"

lemma log_to_array:
  assumes "inside t"
  shows "log_serialize_to_array wr m t = put_bytes (log_serialize wr m) t"
  unfolding log_serialize_to_array_def log_serialize_def write_packed_put append_assoc
  by (intro put_then write_if_put put_all_put refl assms)

definition rr_serialize_to_array :: "('s, 'u) runtime \<Rightarrow> 'u writer \<Rightarrow> 'u recreg \<Rightarrow> target \<Rightarrow> target option" where
  "rr_serialize_to_array rt wr m t = do {
     t \<leftarrow> write_if (rr_mid m \<noteq> []) (packed_head wr 1 (rr_mid m)) t;
     t \<leftarrow> put_all (map (wr_uint32 wr) (rr_mid m)) t;
     t \<leftarrow> write_group_to_array wr 2 (rr_has_general m) (gen_serialize_to_array wr (rr_get_general rt m)) t;
     t \<leftarrow> write_group_to_array wr 4 (rr_has_photo m) (pho_serialize_to_array wr (rr_get_photo rt m)) t;
     t \<leftarrow> write_group_to_array wr 5 (rr_has_nav m) (nav_serialize_to_array wr (rr_get_nav rt m)) t;
     t \<leftarrow> write_group_to_array wr 6 (rr_has_unidt m) (uni_serialize_to_array wr (rr_get_unidt rt m)) t;
     t \<leftarrow> write_group_to_array wr 7 (rr_has_candt m) (can_serialize_to_array wr (rr_get_candt rt m)) t;
     t \<leftarrow> write_group_to_array wr 8 (rr_has_llsdt m) (lls_serialize_to_array wr (rr_get_llsdt rt m)) t;
     t \<leftarrow> write_group_to_array wr 16 (rr_has_log m) (log_serialize_to_array wr (rr_get_log rt m)) t;
     put_bytes (wr_unknown wr (rr_unknown m)) t
   }"

lemma rr_to_array:
  assumes "inside t"
  shows "rr_serialize_to_array rt wr m t = put_bytes (rr_serialize rt wr m) t"
  unfolding rr_serialize_to_array_def rr_serialize_def write_packed_put append_assoc
  by (intro put_then write_if_put put_all_put write_group_put refl assms
      gen_to_array pho_to_array nav_to_array uni_to_array can_to_array lls_to_array log_to_array)

section \<open>An array of \<^verbatim>\<open>ByteSize\<close> bytes\<close>

lemma put_bytes_exact:
  "length mem = length bs \<Longrightarrow> put_bytes bs (mem, 0) = Some (bs, length bs)"
  by (simp add: put_bytes_def)

context wire_format
begin

lemma rr_to_array_fits:
  assumes "length mem = rr_byte_size rt wr m"
  shows "rr_serialize_to_array rt wr m (mem, 0) = Some (rr_serialize rt wr m, rr_byte_size rt wr m)"
proof -
  have "inside (mem, 0)" by (simp add: inside_def)
  moreover have "length mem = length (rr_serialize rt wr m)" using assms rr_byte_size_length by simp
  ultimately show ?thesis using put_bytes_exact assms by (simp add: rr_to_array)
qed

end

end
