(* ===== verification/Pb_Access.thy ===== *)
theory Pb_Access
  imports Pb_RecReg Oracle
begin

text \<open>
  The accessors of \<^verbatim>\<open>message.pb.h\<close> that the program itself does not call: \<^verbatim>\<open>clear_\<close>, \<^verbatim>\<open>release_\<close> and
  the pointer forms of \<^verbatim>\<open>set_\<close> and \<^verbatim>\<open>mutable_\<close> of single fields, and the access to repeated fields. A
  string field is a pointer that may be the one to a shared empty string; whether it is a string of
  the message's own is the argument \<open>own\<close> of \<^verbatim>\<open>release_\<close>, because the records keep the value only. What
  the caller does through a pointer that \<^verbatim>\<open>mutable_\<close> returns is the function \<open>g\<close>. An index outside a
  repeated field, which the code does not check, is \<open>None\<close>. In the view of a message as a map,
  \<^verbatim>\<open>clear_\<close> and \<^verbatim>\<open>release_\<close> remove one field.
\<close>

section \<open>Clearing a has-bit\<close>

text \<open>\<^verbatim>\<open>_has_bits_[0] &= ~mask\<close>\<close>

definition and_not :: "u32 \<Rightarrow> u32 \<Rightarrow> u32" where
  "and_not w b = w AND NOT b"

lemma and_not_one_bit: "k < 32 \<Longrightarrow> bit (and_not w (push_bit k 1)) n \<longleftrightarrow> bit w n \<and> n \<noteq> k"
  using bit_imp_le_length [of w n] by (auto simp: and_not_def bit_simps)

lemma and_not_bits [has_bit_simps]:
  "bit (and_not w 0x00000001) n \<longleftrightarrow> bit w n \<and> n \<noteq> 0"
  "bit (and_not w 0x00000002) n \<longleftrightarrow> bit w n \<and> n \<noteq> 1"
  "bit (and_not w 0x00000004) n \<longleftrightarrow> bit w n \<and> n \<noteq> 2"
  "bit (and_not w 0x00000008) n \<longleftrightarrow> bit w n \<and> n \<noteq> 3"
  "bit (and_not w 0x00000010) n \<longleftrightarrow> bit w n \<and> n \<noteq> 4"
  "bit (and_not w 0x00000020) n \<longleftrightarrow> bit w n \<and> n \<noteq> 5"
  "bit (and_not w 0x00000040) n \<longleftrightarrow> bit w n \<and> n \<noteq> 6"
  "bit (and_not w 0x00000080) n \<longleftrightarrow> bit w n \<and> n \<noteq> 7"
  "bit (and_not w 0x00000100) n \<longleftrightarrow> bit w n \<and> n \<noteq> 8"
  "bit (and_not w 0x00000200) n \<longleftrightarrow> bit w n \<and> n \<noteq> 9"
  "bit (and_not w 0x00000400) n \<longleftrightarrow> bit w n \<and> n \<noteq> 10"
  "bit (and_not w 0x00000800) n \<longleftrightarrow> bit w n \<and> n \<noteq> 11"
  "bit (and_not w 0x00001000) n \<longleftrightarrow> bit w n \<and> n \<noteq> 12"
  "bit (and_not w 0x00002000) n \<longleftrightarrow> bit w n \<and> n \<noteq> 13"
  "bit (and_not w 0x00004000) n \<longleftrightarrow> bit w n \<and> n \<noteq> 14"
  "bit (and_not w 0x00008000) n \<longleftrightarrow> bit w n \<and> n \<noteq> 15"
  "bit (and_not w 0x00010000) n \<longleftrightarrow> bit w n \<and> n \<noteq> 16"
  "bit (and_not w 0x00020000) n \<longleftrightarrow> bit w n \<and> n \<noteq> 17"
  "bit (and_not w 0x00040000) n \<longleftrightarrow> bit w n \<and> n \<noteq> 18"
  "bit (and_not w 0x00080000) n \<longleftrightarrow> bit w n \<and> n \<noteq> 19"
  "bit (and_not w 0x00100000) n \<longleftrightarrow> bit w n \<and> n \<noteq> 20"
  "bit (and_not w 0x00200000) n \<longleftrightarrow> bit w n \<and> n \<noteq> 21"
  "bit (and_not w 0x00400000) n \<longleftrightarrow> bit w n \<and> n \<noteq> 22"
  "bit (and_not w 0x00800000) n \<longleftrightarrow> bit w n \<and> n \<noteq> 23"
  "bit (and_not w 0x01000000) n \<longleftrightarrow> bit w n \<and> n \<noteq> 24"
  "bit (and_not w 0x02000000) n \<longleftrightarrow> bit w n \<and> n \<noteq> 25"
  "bit (and_not w 0x04000000) n \<longleftrightarrow> bit w n \<and> n \<noteq> 26"
  "bit (and_not w 0x08000000) n \<longleftrightarrow> bit w n \<and> n \<noteq> 27"
  "bit (and_not w 0x10000000) n \<longleftrightarrow> bit w n \<and> n \<noteq> 28"
  "bit (and_not w 0x20000000) n \<longleftrightarrow> bit w n \<and> n \<noteq> 29"
  "bit (and_not w 0x40000000) n \<longleftrightarrow> bit w n \<and> n \<noteq> 30"
  "bit (and_not w 0x80000000) n \<longleftrightarrow> bit w n \<and> n \<noteq> 31"
  using and_not_one_bit [of 0 w n]
    and_not_one_bit [of 1 w n]
    and_not_one_bit [of 2 w n]
    and_not_one_bit [of 3 w n]
    and_not_one_bit [of 4 w n]
    and_not_one_bit [of 5 w n]
    and_not_one_bit [of 6 w n]
    and_not_one_bit [of 7 w n]
    and_not_one_bit [of 8 w n]
    and_not_one_bit [of 9 w n]
    and_not_one_bit [of 10 w n]
    and_not_one_bit [of 11 w n]
    and_not_one_bit [of 12 w n]
    and_not_one_bit [of 13 w n]
    and_not_one_bit [of 14 w n]
    and_not_one_bit [of 15 w n]
    and_not_one_bit [of 16 w n]
    and_not_one_bit [of 17 w n]
    and_not_one_bit [of 18 w n]
    and_not_one_bit [of 19 w n]
    and_not_one_bit [of 20 w n]
    and_not_one_bit [of 21 w n]
    and_not_one_bit [of 22 w n]
    and_not_one_bit [of 23 w n]
    and_not_one_bit [of 24 w n]
    and_not_one_bit [of 25 w n]
    and_not_one_bit [of 26 w n]
    and_not_one_bit [of 27 w n]
    and_not_one_bit [of 28 w n]
    and_not_one_bit [of 29 w n]
    and_not_one_bit [of 30 w n]
    and_not_one_bit [of 31 w n]
  by simp_all

section \<open>An element of a repeated field\<close>

definition repeated_get :: "'a list \<Rightarrow> int \<Rightarrow> 'a option" where
  "repeated_get xs i = (if 0 \<le> i \<and> i < int (length xs) then Some (xs ! nat i) else None)"

definition repeated_set :: "'a list \<Rightarrow> int \<Rightarrow> 'a \<Rightarrow> 'a list option" where
  "repeated_set xs i x = (if 0 \<le> i \<and> i < int (length xs) then Some (xs[nat i := x]) else None)"

lemma repeated_get_set:
  "repeated_set xs i x = Some ys \<Longrightarrow> repeated_get ys j = (if j = i then Some x else repeated_get xs j)"
  by (auto simp: repeated_get_def repeated_set_def nat_eq_iff2 split: if_splits)

lemma repeated_get_add: "repeated_get (xs @ [x]) (int (length xs)) = Some x"
  by (simp add: repeated_get_def)

section \<open>\<^verbatim>\<open>RecReg_General\<close>\<close>

definition gen_clear_has_time :: "'u general \<Rightarrow> 'u general" where
  "gen_clear_has_time m = m\<lparr>gen_has_bits := and_not (gen_has_bits m) 0x00000001\<rparr>"

definition gen_clear_time :: "'u general \<Rightarrow> 'u general" where
  "gen_clear_time m = gen_clear_has_time (m\<lparr>gen_time := 0\<rparr>)"

definition gen_clear_has_idfas :: "'u general \<Rightarrow> 'u general" where
  "gen_clear_has_idfas m = m\<lparr>gen_has_bits := and_not (gen_has_bits m) 0x00000002\<rparr>"

definition gen_clear_idfas :: "'u general \<Rightarrow> 'u general" where
  "gen_clear_idfas m = gen_clear_has_idfas (m\<lparr>gen_idfas := 0\<rparr>)"

definition gen_clear_has_iddrv :: "'u general \<Rightarrow> 'u general" where
  "gen_clear_has_iddrv m = m\<lparr>gen_has_bits := and_not (gen_has_bits m) 0x00000004\<rparr>"

definition gen_clear_iddrv :: "'u general \<Rightarrow> 'u general" where
  "gen_clear_iddrv m = gen_clear_has_iddrv (m\<lparr>gen_iddrv := []\<rparr>)"

definition gen_set_iddrv_cstr :: "string \<Rightarrow> 'u general \<Rightarrow> 'u general" where
  "gen_set_iddrv_cstr v m = (gen_set_has_iddrv m)\<lparr>gen_iddrv := c_str v\<rparr>"

definition gen_set_iddrv_array :: "string \<Rightarrow> nat \<Rightarrow> 'u general \<Rightarrow> 'u general option" where
  "gen_set_iddrv_array v sz m =
     (if sz \<le> length v then Some ((gen_set_has_iddrv m)\<lparr>gen_iddrv := take sz v\<rparr>) else None)"

definition gen_mutable_iddrv :: "(string \<Rightarrow> string) \<Rightarrow> 'u general \<Rightarrow> 'u general" where
  "gen_mutable_iddrv g m = (gen_set_has_iddrv m)\<lparr>gen_iddrv := g (gen_iddrv m)\<rparr>"

definition gen_release_iddrv :: "bool \<Rightarrow> 'u general \<Rightarrow> string option \<times> 'u general" where
  "gen_release_iddrv own m =
     (let m = gen_clear_has_iddrv m
      in if own then (Some (gen_iddrv m), m\<lparr>gen_iddrv := []\<rparr>) else (None, m))"

definition gen_clear_has_flg :: "'u general \<Rightarrow> 'u general" where
  "gen_clear_has_flg m = m\<lparr>gen_has_bits := and_not (gen_has_bits m) 0x00000008\<rparr>"

definition gen_clear_flg :: "'u general \<Rightarrow> 'u general" where
  "gen_clear_flg m = gen_clear_has_flg (m\<lparr>gen_flg := 0\<rparr>)"

definition gen_clear_has_mileage :: "'u general \<Rightarrow> 'u general" where
  "gen_clear_has_mileage m = m\<lparr>gen_has_bits := and_not (gen_has_bits m) 0x00000010\<rparr>"

definition gen_clear_mileage :: "'u general \<Rightarrow> 'u general" where
  "gen_clear_mileage m = gen_clear_has_mileage (m\<lparr>gen_mileage := 0\<rparr>)"

definition gen_clear_has_vimp :: "'u general \<Rightarrow> 'u general" where
  "gen_clear_has_vimp m = m\<lparr>gen_has_bits := and_not (gen_has_bits m) 0x00000020\<rparr>"

definition gen_clear_vimp :: "'u general \<Rightarrow> 'u general" where
  "gen_clear_vimp m = gen_clear_has_vimp (m\<lparr>gen_vimp := 0\<rparr>)"

definition gen_clear_has_timp :: "'u general \<Rightarrow> 'u general" where
  "gen_clear_has_timp m = m\<lparr>gen_has_bits := and_not (gen_has_bits m) 0x00000040\<rparr>"

definition gen_clear_timp :: "'u general \<Rightarrow> 'u general" where
  "gen_clear_timp m = gen_clear_has_timp (m\<lparr>gen_timp := 0\<rparr>)"

definition gen_clear_has_uboard :: "'u general \<Rightarrow> 'u general" where
  "gen_clear_has_uboard m = m\<lparr>gen_has_bits := and_not (gen_has_bits m) 0x00000080\<rparr>"

definition gen_clear_uboard :: "'u general \<Rightarrow> 'u general" where
  "gen_clear_uboard m = gen_clear_has_uboard (m\<lparr>gen_uboard := 0\<rparr>)"

definition gen_clear_has_batlife :: "'u general \<Rightarrow> 'u general" where
  "gen_clear_has_batlife m = m\<lparr>gen_has_bits := and_not (gen_has_bits m) 0x00000100\<rparr>"

definition gen_clear_batlife :: "'u general \<Rightarrow> 'u general" where
  "gen_clear_batlife m = gen_clear_has_batlife (m\<lparr>gen_batlife := 0\<rparr>)"

definition gen_clear_has_sumacc :: "'u general \<Rightarrow> 'u general" where
  "gen_clear_has_sumacc m = m\<lparr>gen_has_bits := and_not (gen_has_bits m) 0x00000200\<rparr>"

definition gen_clear_sumacc :: "'u general \<Rightarrow> 'u general" where
  "gen_clear_sumacc m = gen_clear_has_sumacc (m\<lparr>gen_sumacc := 0\<rparr>)"

definition gen_clear_has_phone :: "'u general \<Rightarrow> 'u general" where
  "gen_clear_has_phone m = m\<lparr>gen_has_bits := and_not (gen_has_bits m) 0x00000400\<rparr>"

definition gen_clear_phone :: "'u general \<Rightarrow> 'u general" where
  "gen_clear_phone m = gen_clear_has_phone (m\<lparr>gen_phone := []\<rparr>)"

definition gen_set_phone_cstr :: "string \<Rightarrow> 'u general \<Rightarrow> 'u general" where
  "gen_set_phone_cstr v m = (gen_set_has_phone m)\<lparr>gen_phone := c_str v\<rparr>"

definition gen_set_phone_array :: "string \<Rightarrow> nat \<Rightarrow> 'u general \<Rightarrow> 'u general option" where
  "gen_set_phone_array v sz m =
     (if sz \<le> length v then Some ((gen_set_has_phone m)\<lparr>gen_phone := take sz v\<rparr>) else None)"

definition gen_mutable_phone :: "(string \<Rightarrow> string) \<Rightarrow> 'u general \<Rightarrow> 'u general" where
  "gen_mutable_phone g m = (gen_set_has_phone m)\<lparr>gen_phone := g (gen_phone m)\<rparr>"

definition gen_release_phone :: "bool \<Rightarrow> 'u general \<Rightarrow> string option \<times> 'u general" where
  "gen_release_phone own m =
     (let m = gen_clear_has_phone m
      in if own then (Some (gen_phone m), m\<lparr>gen_phone := []\<rparr>) else (None, m))"

definition gen_clear_has_amtrx :: "'u general \<Rightarrow> 'u general" where
  "gen_clear_has_amtrx m = m\<lparr>gen_has_bits := and_not (gen_has_bits m) 0x00000800\<rparr>"

definition gen_clear_amtrx :: "'u general \<Rightarrow> 'u general" where
  "gen_clear_amtrx m = gen_clear_has_amtrx (m\<lparr>gen_amtrx := 0\<rparr>)"

definition gen_clear_has_amtry :: "'u general \<Rightarrow> 'u general" where
  "gen_clear_has_amtry m = m\<lparr>gen_has_bits := and_not (gen_has_bits m) 0x00001000\<rparr>"

definition gen_clear_amtry :: "'u general \<Rightarrow> 'u general" where
  "gen_clear_amtry m = gen_clear_has_amtry (m\<lparr>gen_amtry := 0\<rparr>)"

definition gen_clear_has_amtrz :: "'u general \<Rightarrow> 'u general" where
  "gen_clear_has_amtrz m = m\<lparr>gen_has_bits := and_not (gen_has_bits m) 0x00002000\<rparr>"

definition gen_clear_amtrz :: "'u general \<Rightarrow> 'u general" where
  "gen_clear_amtrz m = gen_clear_has_amtrz (m\<lparr>gen_amtrz := 0\<rparr>)"

lemmas gen_clear_defs =
  gen_clear_has_time_def gen_clear_time_def gen_clear_has_idfas_def gen_clear_idfas_def
  gen_clear_has_iddrv_def gen_clear_iddrv_def gen_clear_has_flg_def gen_clear_flg_def
  gen_clear_has_mileage_def gen_clear_mileage_def gen_clear_has_vimp_def gen_clear_vimp_def
  gen_clear_has_timp_def gen_clear_timp_def gen_clear_has_uboard_def gen_clear_uboard_def
  gen_clear_has_batlife_def gen_clear_batlife_def gen_clear_has_sumacc_def gen_clear_sumacc_def
  gen_clear_has_phone_def gen_clear_phone_def gen_clear_has_amtrx_def gen_clear_amtrx_def
  gen_clear_has_amtry_def gen_clear_amtry_def gen_clear_has_amtrz_def gen_clear_amtrz_def

lemma gen_clear_abs:
  "gen_abs (gen_clear_time m) = (gen_abs m)(1 := None)"
  "gen_abs (gen_clear_idfas m) = (gen_abs m)(2 := None)"
  "gen_abs (gen_clear_iddrv m) = (gen_abs m)(3 := None)"
  "gen_abs (gen_clear_flg m) = (gen_abs m)(4 := None)"
  "gen_abs (gen_clear_mileage m) = (gen_abs m)(5 := None)"
  "gen_abs (gen_clear_vimp m) = (gen_abs m)(6 := None)"
  "gen_abs (gen_clear_timp m) = (gen_abs m)(7 := None)"
  "gen_abs (gen_clear_uboard m) = (gen_abs m)(8 := None)"
  "gen_abs (gen_clear_batlife m) = (gen_abs m)(9 := None)"
  "gen_abs (gen_clear_sumacc m) = (gen_abs m)(10 := None)"
  "gen_abs (gen_clear_phone m) = (gen_abs m)(11 := None)"
  "gen_abs (gen_clear_amtrx m) = (gen_abs m)(12 := None)"
  "gen_abs (gen_clear_amtry m) = (gen_abs m)(13 := None)"
  "gen_abs (gen_clear_amtrz m) = (gen_abs m)(14 := None)"
  by (rule ext, simp add: gen_abs_def gen_clear_defs has_bit_simps)+

lemma gen_clear_wf:
  assumes "gen_wf m"
  shows "gen_wf (gen_clear_time m)"
    "gen_wf (gen_clear_idfas m)"
    "gen_wf (gen_clear_iddrv m)"
    "gen_wf (gen_clear_flg m)"
    "gen_wf (gen_clear_mileage m)"
    "gen_wf (gen_clear_vimp m)"
    "gen_wf (gen_clear_timp m)"
    "gen_wf (gen_clear_uboard m)"
    "gen_wf (gen_clear_batlife m)"
    "gen_wf (gen_clear_sumacc m)"
    "gen_wf (gen_clear_phone m)"
    "gen_wf (gen_clear_amtrx m)"
    "gen_wf (gen_clear_amtry m)"
    "gen_wf (gen_clear_amtrz m)"
  using assms by (simp_all add: gen_wf_def gen_clear_defs has_bit_simps)

lemma gen_iddrv_pointer_abs:
  "gen_abs (gen_set_iddrv_cstr v m) = (gen_abs m)(3 \<mapsto> PB (c_str v))"
  "gen_set_iddrv_array v n m = Some m' \<Longrightarrow> gen_abs m' = (gen_abs m)(3 \<mapsto> PB (take n v))"
  "gen_abs (gen_mutable_iddrv g m) = (gen_abs m)(3 \<mapsto> PB (g (gen_iddrv m)))"
  by (auto simp: gen_set_iddrv_cstr_def gen_set_iddrv_array_def gen_mutable_iddrv_def gen_abs_set simp flip: gen_set_iddrv_def
      split: if_splits)

lemma gen_release_iddrv_abs: "gen_abs (snd (gen_release_iddrv own m)) = (gen_abs m)(3 := None)"
  by (rule ext) (simp add: gen_abs_def gen_clear_has_iddrv_def gen_release_iddrv_def Let_def has_bit_simps)

lemma gen_release_iddrv_wf: "gen_wf m \<Longrightarrow> own \<or> gen_iddrv m = [] \<Longrightarrow> gen_wf (snd (gen_release_iddrv own m))"
  by (auto simp: gen_wf_def gen_release_iddrv_def gen_clear_has_iddrv_def Let_def has_bit_simps)

lemma gen_phone_pointer_abs:
  "gen_abs (gen_set_phone_cstr v m) = (gen_abs m)(11 \<mapsto> PB (c_str v))"
  "gen_set_phone_array v n m = Some m' \<Longrightarrow> gen_abs m' = (gen_abs m)(11 \<mapsto> PB (take n v))"
  "gen_abs (gen_mutable_phone g m) = (gen_abs m)(11 \<mapsto> PB (g (gen_phone m)))"
  by (auto simp: gen_set_phone_cstr_def gen_set_phone_array_def gen_mutable_phone_def gen_abs_set simp flip: gen_set_phone_def
      split: if_splits)

lemma gen_release_phone_abs: "gen_abs (snd (gen_release_phone own m)) = (gen_abs m)(11 := None)"
  by (rule ext) (simp add: gen_abs_def gen_clear_has_phone_def gen_release_phone_def Let_def has_bit_simps)

lemma gen_release_phone_wf: "gen_wf m \<Longrightarrow> own \<or> gen_phone m = [] \<Longrightarrow> gen_wf (snd (gen_release_phone own m))"
  by (auto simp: gen_wf_def gen_release_phone_def gen_clear_has_phone_def Let_def has_bit_simps)

section \<open>\<^verbatim>\<open>RecReg_Photo\<close>\<close>

definition pho_clear_has_posblk :: "'u photo \<Rightarrow> 'u photo" where
  "pho_clear_has_posblk m = m\<lparr>pho_has_bits := and_not (pho_has_bits m) 0x00000001\<rparr>"

definition pho_clear_posblk :: "'u photo \<Rightarrow> 'u photo" where
  "pho_clear_posblk m = pho_clear_has_posblk (m\<lparr>pho_posblk := 0\<rparr>)"

definition pho_clear_has_szphoto :: "'u photo \<Rightarrow> 'u photo" where
  "pho_clear_has_szphoto m = m\<lparr>pho_has_bits := and_not (pho_has_bits m) 0x00000002\<rparr>"

definition pho_clear_szphoto :: "'u photo \<Rightarrow> 'u photo" where
  "pho_clear_szphoto m = pho_clear_has_szphoto (m\<lparr>pho_szphoto := 0\<rparr>)"

definition pho_clear_has_size :: "'u photo \<Rightarrow> 'u photo" where
  "pho_clear_has_size m = m\<lparr>pho_has_bits := and_not (pho_has_bits m) 0x00000004\<rparr>"

definition pho_clear_size :: "'u photo \<Rightarrow> 'u photo" where
  "pho_clear_size m = pho_clear_has_size (m\<lparr>pho_size := 0\<rparr>)"

definition pho_clear_has_buf :: "'u photo \<Rightarrow> 'u photo" where
  "pho_clear_has_buf m = m\<lparr>pho_has_bits := and_not (pho_has_bits m) 0x00000008\<rparr>"

definition pho_clear_buf :: "'u photo \<Rightarrow> 'u photo" where
  "pho_clear_buf m = pho_clear_has_buf (m\<lparr>pho_buf := []\<rparr>)"

definition pho_set_buf_cstr :: "string \<Rightarrow> 'u photo \<Rightarrow> 'u photo" where
  "pho_set_buf_cstr v m = (pho_set_has_buf m)\<lparr>pho_buf := c_str v\<rparr>"

definition pho_set_buf_array :: "string \<Rightarrow> nat \<Rightarrow> 'u photo \<Rightarrow> 'u photo option" where
  "pho_set_buf_array v sz m =
     (if sz \<le> length v then Some ((pho_set_has_buf m)\<lparr>pho_buf := take sz v\<rparr>) else None)"

definition pho_mutable_buf :: "(string \<Rightarrow> string) \<Rightarrow> 'u photo \<Rightarrow> 'u photo" where
  "pho_mutable_buf g m = (pho_set_has_buf m)\<lparr>pho_buf := g (pho_buf m)\<rparr>"

definition pho_release_buf :: "bool \<Rightarrow> 'u photo \<Rightarrow> string option \<times> 'u photo" where
  "pho_release_buf own m =
     (let m = pho_clear_has_buf m
      in if own then (Some (pho_buf m), m\<lparr>pho_buf := []\<rparr>) else (None, m))"

definition pho_clear_has_idph :: "'u photo \<Rightarrow> 'u photo" where
  "pho_clear_has_idph m = m\<lparr>pho_has_bits := and_not (pho_has_bits m) 0x00000010\<rparr>"

definition pho_clear_idph :: "'u photo \<Rightarrow> 'u photo" where
  "pho_clear_idph m = pho_clear_has_idph (m\<lparr>pho_idph := 0\<rparr>)"

definition pho_clear_has_imgstat :: "'u photo \<Rightarrow> 'u photo" where
  "pho_clear_has_imgstat m = m\<lparr>pho_has_bits := and_not (pho_has_bits m) 0x00000020\<rparr>"

definition pho_clear_imgstat :: "'u photo \<Rightarrow> 'u photo" where
  "pho_clear_imgstat m = pho_clear_has_imgstat (m\<lparr>pho_imgstat := 0\<rparr>)"

lemmas pho_clear_defs =
  pho_clear_has_posblk_def pho_clear_posblk_def pho_clear_has_szphoto_def pho_clear_szphoto_def
  pho_clear_has_size_def pho_clear_size_def pho_clear_has_buf_def pho_clear_buf_def
  pho_clear_has_idph_def pho_clear_idph_def pho_clear_has_imgstat_def pho_clear_imgstat_def

lemma pho_clear_abs:
  "pho_abs (pho_clear_posblk m) = (pho_abs m)(1 := None)"
  "pho_abs (pho_clear_szphoto m) = (pho_abs m)(2 := None)"
  "pho_abs (pho_clear_size m) = (pho_abs m)(3 := None)"
  "pho_abs (pho_clear_buf m) = (pho_abs m)(4 := None)"
  "pho_abs (pho_clear_idph m) = (pho_abs m)(5 := None)"
  "pho_abs (pho_clear_imgstat m) = (pho_abs m)(6 := None)"
  by (rule ext, simp add: pho_abs_def pho_clear_defs has_bit_simps)+

lemma pho_clear_wf:
  assumes "pho_wf m"
  shows "pho_wf (pho_clear_posblk m)"
    "pho_wf (pho_clear_szphoto m)"
    "pho_wf (pho_clear_size m)"
    "pho_wf (pho_clear_buf m)"
    "pho_wf (pho_clear_idph m)"
    "pho_wf (pho_clear_imgstat m)"
  using assms by (simp_all add: pho_wf_def pho_clear_defs has_bit_simps)

lemma pho_buf_pointer_abs:
  "pho_abs (pho_set_buf_cstr v m) = (pho_abs m)(4 \<mapsto> PB (c_str v))"
  "pho_set_buf_array v n m = Some m' \<Longrightarrow> pho_abs m' = (pho_abs m)(4 \<mapsto> PB (take n v))"
  "pho_abs (pho_mutable_buf g m) = (pho_abs m)(4 \<mapsto> PB (g (pho_buf m)))"
  by (auto simp: pho_set_buf_cstr_def pho_set_buf_array_def pho_mutable_buf_def pho_abs_set simp flip: pho_set_buf_def
      split: if_splits)

lemma pho_release_buf_abs: "pho_abs (snd (pho_release_buf own m)) = (pho_abs m)(4 := None)"
  by (rule ext) (simp add: pho_abs_def pho_clear_has_buf_def pho_release_buf_def Let_def has_bit_simps)

lemma pho_release_buf_wf: "pho_wf m \<Longrightarrow> own \<or> pho_buf m = [] \<Longrightarrow> pho_wf (snd (pho_release_buf own m))"
  by (auto simp: pho_wf_def pho_release_buf_def pho_clear_has_buf_def Let_def has_bit_simps)

section \<open>\<^verbatim>\<open>RecReg_NAV\<close>\<close>

definition nav_clear_has_lat :: "'u nav \<Rightarrow> 'u nav" where
  "nav_clear_has_lat m = m\<lparr>nav_has_bits := and_not (nav_has_bits m) 0x00000001\<rparr>"

definition nav_clear_lat :: "'u nav \<Rightarrow> 'u nav" where
  "nav_clear_lat m = nav_clear_has_lat (m\<lparr>nav_lat := 0\<rparr>)"

definition nav_clear_has_lon :: "'u nav \<Rightarrow> 'u nav" where
  "nav_clear_has_lon m = m\<lparr>nav_has_bits := and_not (nav_has_bits m) 0x00000002\<rparr>"

definition nav_clear_lon :: "'u nav \<Rightarrow> 'u nav" where
  "nav_clear_lon m = nav_clear_has_lon (m\<lparr>nav_lon := 0\<rparr>)"

definition nav_clear_has_gpsvel :: "'u nav \<Rightarrow> 'u nav" where
  "nav_clear_has_gpsvel m = m\<lparr>nav_has_bits := and_not (nav_has_bits m) 0x00000004\<rparr>"

definition nav_clear_gpsvel :: "'u nav \<Rightarrow> 'u nav" where
  "nav_clear_gpsvel m = nav_clear_has_gpsvel (m\<lparr>nav_gpsvel := 0\<rparr>)"

definition nav_clear_has_gpsdir :: "'u nav \<Rightarrow> 'u nav" where
  "nav_clear_has_gpsdir m = m\<lparr>nav_has_bits := and_not (nav_has_bits m) 0x00000008\<rparr>"

definition nav_clear_gpsdir :: "'u nav \<Rightarrow> 'u nav" where
  "nav_clear_gpsdir m = nav_clear_has_gpsdir (m\<lparr>nav_gpsdir := 0\<rparr>)"

definition nav_clear_has_gpsnsat :: "'u nav \<Rightarrow> 'u nav" where
  "nav_clear_has_gpsnsat m = m\<lparr>nav_has_bits := and_not (nav_has_bits m) 0x00000010\<rparr>"

definition nav_clear_gpsnsat :: "'u nav \<Rightarrow> 'u nav" where
  "nav_clear_gpsnsat m = nav_clear_has_gpsnsat (m\<lparr>nav_gpsnsat := 0\<rparr>)"

definition nav_clear_has_gpsalt :: "'u nav \<Rightarrow> 'u nav" where
  "nav_clear_has_gpsalt m = m\<lparr>nav_has_bits := and_not (nav_has_bits m) 0x00000020\<rparr>"

definition nav_clear_gpsalt :: "'u nav \<Rightarrow> 'u nav" where
  "nav_clear_gpsalt m = nav_clear_has_gpsalt (m\<lparr>nav_gpsalt := 0\<rparr>)"

lemmas nav_clear_defs =
  nav_clear_has_lat_def nav_clear_lat_def nav_clear_has_lon_def nav_clear_lon_def
  nav_clear_has_gpsvel_def nav_clear_gpsvel_def nav_clear_has_gpsdir_def nav_clear_gpsdir_def
  nav_clear_has_gpsnsat_def nav_clear_gpsnsat_def nav_clear_has_gpsalt_def nav_clear_gpsalt_def

lemma nav_clear_abs:
  "nav_abs (nav_clear_lat m) = (nav_abs m)(1 := None)"
  "nav_abs (nav_clear_lon m) = (nav_abs m)(2 := None)"
  "nav_abs (nav_clear_gpsvel m) = (nav_abs m)(3 := None)"
  "nav_abs (nav_clear_gpsdir m) = (nav_abs m)(4 := None)"
  "nav_abs (nav_clear_gpsnsat m) = (nav_abs m)(5 := None)"
  "nav_abs (nav_clear_gpsalt m) = (nav_abs m)(6 := None)"
  by (rule ext, simp add: nav_abs_def nav_clear_defs has_bit_simps)+

lemma nav_clear_wf:
  assumes "nav_wf m"
  shows "nav_wf (nav_clear_lat m)"
    "nav_wf (nav_clear_lon m)"
    "nav_wf (nav_clear_gpsvel m)"
    "nav_wf (nav_clear_gpsdir m)"
    "nav_wf (nav_clear_gpsnsat m)"
    "nav_wf (nav_clear_gpsalt m)"
  using assms by (simp_all add: nav_wf_def nav_clear_defs has_bit_simps)

section \<open>\<^verbatim>\<open>RecReg_UniDt\<close>\<close>

definition uni_clear_has_unival0 :: "'u unidt \<Rightarrow> 'u unidt" where
  "uni_clear_has_unival0 m = m\<lparr>uni_has_bits := and_not (uni_has_bits m) 0x00000001\<rparr>"

definition uni_clear_unival0 :: "'u unidt \<Rightarrow> 'u unidt" where
  "uni_clear_unival0 m = uni_clear_has_unival0 (m\<lparr>uni_unival0 := 0\<rparr>)"

definition uni_clear_has_unival1 :: "'u unidt \<Rightarrow> 'u unidt" where
  "uni_clear_has_unival1 m = m\<lparr>uni_has_bits := and_not (uni_has_bits m) 0x00000002\<rparr>"

definition uni_clear_unival1 :: "'u unidt \<Rightarrow> 'u unidt" where
  "uni_clear_unival1 m = uni_clear_has_unival1 (m\<lparr>uni_unival1 := 0\<rparr>)"

definition uni_clear_has_unival2 :: "'u unidt \<Rightarrow> 'u unidt" where
  "uni_clear_has_unival2 m = m\<lparr>uni_has_bits := and_not (uni_has_bits m) 0x00000004\<rparr>"

definition uni_clear_unival2 :: "'u unidt \<Rightarrow> 'u unidt" where
  "uni_clear_unival2 m = uni_clear_has_unival2 (m\<lparr>uni_unival2 := 0\<rparr>)"

definition uni_clear_has_unival3 :: "'u unidt \<Rightarrow> 'u unidt" where
  "uni_clear_has_unival3 m = m\<lparr>uni_has_bits := and_not (uni_has_bits m) 0x00000008\<rparr>"

definition uni_clear_unival3 :: "'u unidt \<Rightarrow> 'u unidt" where
  "uni_clear_unival3 m = uni_clear_has_unival3 (m\<lparr>uni_unival3 := 0\<rparr>)"

lemmas uni_clear_defs =
  uni_clear_has_unival0_def uni_clear_unival0_def uni_clear_has_unival1_def uni_clear_unival1_def
  uni_clear_has_unival2_def uni_clear_unival2_def uni_clear_has_unival3_def uni_clear_unival3_def

lemma uni_clear_abs:
  "uni_abs (uni_clear_unival0 m) = (uni_abs m)(1 := None)"
  "uni_abs (uni_clear_unival1 m) = (uni_abs m)(2 := None)"
  "uni_abs (uni_clear_unival2 m) = (uni_abs m)(3 := None)"
  "uni_abs (uni_clear_unival3 m) = (uni_abs m)(4 := None)"
  by (rule ext, simp add: uni_abs_def uni_clear_defs has_bit_simps)+

lemma uni_clear_wf:
  assumes "uni_wf m"
  shows "uni_wf (uni_clear_unival0 m)"
    "uni_wf (uni_clear_unival1 m)"
    "uni_wf (uni_clear_unival2 m)"
    "uni_wf (uni_clear_unival3 m)"
  using assms by (simp_all add: uni_wf_def uni_clear_defs has_bit_simps)

section \<open>\<^verbatim>\<open>RecReg_CanDt\<close>\<close>

definition can_clear_has_spn70 :: "'u candt \<Rightarrow> 'u candt" where
  "can_clear_has_spn70 m = m\<lparr>can_has_bits := and_not (can_has_bits m) 0x00000001\<rparr>"

definition can_clear_spn70 :: "'u candt \<Rightarrow> 'u candt" where
  "can_clear_spn70 m = can_clear_has_spn70 (m\<lparr>can_spn70 := 0\<rparr>)"

definition can_clear_has_spn91 :: "'u candt \<Rightarrow> 'u candt" where
  "can_clear_has_spn91 m = m\<lparr>can_has_bits := and_not (can_has_bits m) 0x00000002\<rparr>"

definition can_clear_spn91 :: "'u candt \<Rightarrow> 'u candt" where
  "can_clear_spn91 m = can_clear_has_spn91 (m\<lparr>can_spn91 := 0\<rparr>)"

definition can_clear_has_spn100 :: "'u candt \<Rightarrow> 'u candt" where
  "can_clear_has_spn100 m = m\<lparr>can_has_bits := and_not (can_has_bits m) 0x00000004\<rparr>"

definition can_clear_spn100 :: "'u candt \<Rightarrow> 'u candt" where
  "can_clear_spn100 m = can_clear_has_spn100 (m\<lparr>can_spn100 := 0\<rparr>)"

definition can_clear_has_spn110 :: "'u candt \<Rightarrow> 'u candt" where
  "can_clear_has_spn110 m = m\<lparr>can_has_bits := and_not (can_has_bits m) 0x00000008\<rparr>"

definition can_clear_spn110 :: "'u candt \<Rightarrow> 'u candt" where
  "can_clear_spn110 m = can_clear_has_spn110 (m\<lparr>can_spn110 := 0\<rparr>)"

definition can_clear_has_spn174 :: "'u candt \<Rightarrow> 'u candt" where
  "can_clear_has_spn174 m = m\<lparr>can_has_bits := and_not (can_has_bits m) 0x00000010\<rparr>"

definition can_clear_spn174 :: "'u candt \<Rightarrow> 'u candt" where
  "can_clear_spn174 m = can_clear_has_spn174 (m\<lparr>can_spn174 := 0\<rparr>)"

definition can_clear_has_spn175 :: "'u candt \<Rightarrow> 'u candt" where
  "can_clear_has_spn175 m = m\<lparr>can_has_bits := and_not (can_has_bits m) 0x00000020\<rparr>"

definition can_clear_spn175 :: "'u candt \<Rightarrow> 'u candt" where
  "can_clear_spn175 m = can_clear_has_spn175 (m\<lparr>can_spn175 := 0\<rparr>)"

definition can_clear_has_spn182 :: "'u candt \<Rightarrow> 'u candt" where
  "can_clear_has_spn182 m = m\<lparr>can_has_bits := and_not (can_has_bits m) 0x00000040\<rparr>"

definition can_clear_spn182 :: "'u candt \<Rightarrow> 'u candt" where
  "can_clear_spn182 m = can_clear_has_spn182 (m\<lparr>can_spn182 := 0\<rparr>)"

definition can_clear_has_spn184 :: "'u candt \<Rightarrow> 'u candt" where
  "can_clear_has_spn184 m = m\<lparr>can_has_bits := and_not (can_has_bits m) 0x00000080\<rparr>"

definition can_clear_spn184 :: "'u candt \<Rightarrow> 'u candt" where
  "can_clear_spn184 m = can_clear_has_spn184 (m\<lparr>can_spn184 := 0\<rparr>)"

definition can_clear_has_spn190 :: "'u candt \<Rightarrow> 'u candt" where
  "can_clear_has_spn190 m = m\<lparr>can_has_bits := and_not (can_has_bits m) 0x00000100\<rparr>"

definition can_clear_spn190 :: "'u candt \<Rightarrow> 'u candt" where
  "can_clear_spn190 m = can_clear_has_spn190 (m\<lparr>can_spn190 := 0\<rparr>)"

definition can_clear_has_spn244 :: "'u candt \<Rightarrow> 'u candt" where
  "can_clear_has_spn244 m = m\<lparr>can_has_bits := and_not (can_has_bits m) 0x00000200\<rparr>"

definition can_clear_spn244 :: "'u candt \<Rightarrow> 'u candt" where
  "can_clear_spn244 m = can_clear_has_spn244 (m\<lparr>can_spn244 := 0\<rparr>)"

definition can_clear_has_spn245 :: "'u candt \<Rightarrow> 'u candt" where
  "can_clear_has_spn245 m = m\<lparr>can_has_bits := and_not (can_has_bits m) 0x00000400\<rparr>"

definition can_clear_spn245 :: "'u candt \<Rightarrow> 'u candt" where
  "can_clear_spn245 m = can_clear_has_spn245 (m\<lparr>can_spn245 := 0\<rparr>)"

definition can_clear_has_spn247 :: "'u candt \<Rightarrow> 'u candt" where
  "can_clear_has_spn247 m = m\<lparr>can_has_bits := and_not (can_has_bits m) 0x00000800\<rparr>"

definition can_clear_spn247 :: "'u candt \<Rightarrow> 'u candt" where
  "can_clear_spn247 m = can_clear_has_spn247 (m\<lparr>can_spn247 := 0\<rparr>)"

definition can_clear_has_spn250 :: "'u candt \<Rightarrow> 'u candt" where
  "can_clear_has_spn250 m = m\<lparr>can_has_bits := and_not (can_has_bits m) 0x00001000\<rparr>"

definition can_clear_spn250 :: "'u candt \<Rightarrow> 'u candt" where
  "can_clear_spn250 m = can_clear_has_spn250 (m\<lparr>can_spn250 := 0\<rparr>)"

definition can_clear_has_spn521 :: "'u candt \<Rightarrow> 'u candt" where
  "can_clear_has_spn521 m = m\<lparr>can_has_bits := and_not (can_has_bits m) 0x00002000\<rparr>"

definition can_clear_spn521 :: "'u candt \<Rightarrow> 'u candt" where
  "can_clear_spn521 m = can_clear_has_spn521 (m\<lparr>can_spn521 := 0\<rparr>)"

definition can_clear_has_spn522 :: "'u candt \<Rightarrow> 'u candt" where
  "can_clear_has_spn522 m = m\<lparr>can_has_bits := and_not (can_has_bits m) 0x00004000\<rparr>"

definition can_clear_spn522 :: "'u candt \<Rightarrow> 'u candt" where
  "can_clear_spn522 m = can_clear_has_spn522 (m\<lparr>can_spn522 := 0\<rparr>)"

definition can_clear_has_spn527 :: "'u candt \<Rightarrow> 'u candt" where
  "can_clear_has_spn527 m = m\<lparr>can_has_bits := and_not (can_has_bits m) 0x00008000\<rparr>"

definition can_clear_spn527 :: "'u candt \<Rightarrow> 'u candt" where
  "can_clear_spn527 m = can_clear_has_spn527 (m\<lparr>can_spn527 := 0\<rparr>)"

definition can_clear_has_spn597 :: "'u candt \<Rightarrow> 'u candt" where
  "can_clear_has_spn597 m = m\<lparr>can_has_bits := and_not (can_has_bits m) 0x00020000\<rparr>"

definition can_clear_spn597 :: "'u candt \<Rightarrow> 'u candt" where
  "can_clear_spn597 m = can_clear_has_spn597 (m\<lparr>can_spn597 := 0\<rparr>)"

definition can_clear_has_spn598 :: "'u candt \<Rightarrow> 'u candt" where
  "can_clear_has_spn598 m = m\<lparr>can_has_bits := and_not (can_has_bits m) 0x00040000\<rparr>"

definition can_clear_spn598 :: "'u candt \<Rightarrow> 'u candt" where
  "can_clear_spn598 m = can_clear_has_spn598 (m\<lparr>can_spn598 := 0\<rparr>)"

definition can_clear_has_spn914 :: "'u candt \<Rightarrow> 'u candt" where
  "can_clear_has_spn914 m = m\<lparr>can_has_bits := and_not (can_has_bits m) 0x00080000\<rparr>"

definition can_clear_spn914 :: "'u candt \<Rightarrow> 'u candt" where
  "can_clear_spn914 m = can_clear_has_spn914 (m\<lparr>can_spn914 := 0\<rparr>)"

definition can_clear_has_spn916 :: "'u candt \<Rightarrow> 'u candt" where
  "can_clear_has_spn916 m = m\<lparr>can_has_bits := and_not (can_has_bits m) 0x00100000\<rparr>"

definition can_clear_spn916 :: "'u candt \<Rightarrow> 'u candt" where
  "can_clear_spn916 m = can_clear_has_spn916 (m\<lparr>can_spn916 := 0\<rparr>)"

definition can_clear_has_spn1624 :: "'u candt \<Rightarrow> 'u candt" where
  "can_clear_has_spn1624 m = m\<lparr>can_has_bits := and_not (can_has_bits m) 0x00400000\<rparr>"

definition can_clear_spn1624 :: "'u candt \<Rightarrow> 'u candt" where
  "can_clear_spn1624 m = can_clear_has_spn1624 (m\<lparr>can_spn1624 := 0\<rparr>)"

definition can_clear_has_spn1821 :: "'u candt \<Rightarrow> 'u candt" where
  "can_clear_has_spn1821 m = m\<lparr>can_has_bits := and_not (can_has_bits m) 0x00800000\<rparr>"

definition can_clear_spn1821 :: "'u candt \<Rightarrow> 'u candt" where
  "can_clear_spn1821 m = can_clear_has_spn1821 (m\<lparr>can_spn1821 := 0\<rparr>)"

definition can_clear_has_spn1856 :: "'u candt \<Rightarrow> 'u candt" where
  "can_clear_has_spn1856 m = m\<lparr>can_has_bits := and_not (can_has_bits m) 0x01000000\<rparr>"

definition can_clear_spn1856 :: "'u candt \<Rightarrow> 'u candt" where
  "can_clear_spn1856 m = can_clear_has_spn1856 (m\<lparr>can_spn1856 := 0\<rparr>)"

lemmas can_clear_defs =
  can_clear_has_spn70_def can_clear_spn70_def can_clear_has_spn91_def can_clear_spn91_def
  can_clear_has_spn100_def can_clear_spn100_def can_clear_has_spn110_def can_clear_spn110_def
  can_clear_has_spn174_def can_clear_spn174_def can_clear_has_spn175_def can_clear_spn175_def
  can_clear_has_spn182_def can_clear_spn182_def can_clear_has_spn184_def can_clear_spn184_def
  can_clear_has_spn190_def can_clear_spn190_def can_clear_has_spn244_def can_clear_spn244_def
  can_clear_has_spn245_def can_clear_spn245_def can_clear_has_spn247_def can_clear_spn247_def
  can_clear_has_spn250_def can_clear_spn250_def can_clear_has_spn521_def can_clear_spn521_def
  can_clear_has_spn522_def can_clear_spn522_def can_clear_has_spn527_def can_clear_spn527_def
  can_clear_has_spn597_def can_clear_spn597_def can_clear_has_spn598_def can_clear_spn598_def
  can_clear_has_spn914_def can_clear_spn914_def can_clear_has_spn916_def can_clear_spn916_def
  can_clear_has_spn1624_def can_clear_spn1624_def can_clear_has_spn1821_def can_clear_spn1821_def
  can_clear_has_spn1856_def can_clear_spn1856_def

lemma can_clear_abs:
  "can_abs (can_clear_spn70 m) = (can_abs m)(70 := None)"
  "can_abs (can_clear_spn91 m) = (can_abs m)(91 := None)"
  "can_abs (can_clear_spn100 m) = (can_abs m)(100 := None)"
  "can_abs (can_clear_spn110 m) = (can_abs m)(110 := None)"
  "can_abs (can_clear_spn174 m) = (can_abs m)(174 := None)"
  "can_abs (can_clear_spn175 m) = (can_abs m)(175 := None)"
  "can_abs (can_clear_spn182 m) = (can_abs m)(182 := None)"
  "can_abs (can_clear_spn184 m) = (can_abs m)(184 := None)"
  "can_abs (can_clear_spn190 m) = (can_abs m)(190 := None)"
  "can_abs (can_clear_spn244 m) = (can_abs m)(244 := None)"
  "can_abs (can_clear_spn245 m) = (can_abs m)(245 := None)"
  "can_abs (can_clear_spn247 m) = (can_abs m)(247 := None)"
  "can_abs (can_clear_spn250 m) = (can_abs m)(250 := None)"
  "can_abs (can_clear_spn521 m) = (can_abs m)(521 := None)"
  "can_abs (can_clear_spn522 m) = (can_abs m)(522 := None)"
  "can_abs (can_clear_spn527 m) = (can_abs m)(527 := None)"
  "can_abs (can_clear_spn597 m) = (can_abs m)(597 := None)"
  "can_abs (can_clear_spn598 m) = (can_abs m)(598 := None)"
  "can_abs (can_clear_spn914 m) = (can_abs m)(914 := None)"
  "can_abs (can_clear_spn916 m) = (can_abs m)(916 := None)"
  "can_abs (can_clear_spn1624 m) = (can_abs m)(1624 := None)"
  "can_abs (can_clear_spn1821 m) = (can_abs m)(1821 := None)"
  "can_abs (can_clear_spn1856 m) = (can_abs m)(1856 := None)"
  by (rule ext, simp add: can_abs_def can_clear_defs has_bit_simps)+

lemma can_clear_wf:
  assumes "can_wf m"
  shows "can_wf (can_clear_spn70 m)"
    "can_wf (can_clear_spn91 m)"
    "can_wf (can_clear_spn100 m)"
    "can_wf (can_clear_spn110 m)"
    "can_wf (can_clear_spn174 m)"
    "can_wf (can_clear_spn175 m)"
    "can_wf (can_clear_spn182 m)"
    "can_wf (can_clear_spn184 m)"
    "can_wf (can_clear_spn190 m)"
    "can_wf (can_clear_spn244 m)"
    "can_wf (can_clear_spn245 m)"
    "can_wf (can_clear_spn247 m)"
    "can_wf (can_clear_spn250 m)"
    "can_wf (can_clear_spn521 m)"
    "can_wf (can_clear_spn522 m)"
    "can_wf (can_clear_spn527 m)"
    "can_wf (can_clear_spn597 m)"
    "can_wf (can_clear_spn598 m)"
    "can_wf (can_clear_spn914 m)"
    "can_wf (can_clear_spn916 m)"
    "can_wf (can_clear_spn1624 m)"
    "can_wf (can_clear_spn1821 m)"
    "can_wf (can_clear_spn1856 m)"
  using assms by (simp_all add: can_wf_def can_clear_defs has_bit_simps)

definition can_spn582_size :: "'u candt \<Rightarrow> int" where
  "can_spn582_size m = int (length (can_spn582 m))"

definition can_clear_spn582 :: "'u candt \<Rightarrow> 'u candt" where
  "can_clear_spn582 m = m\<lparr>can_spn582 := []\<rparr>"

definition can_spn582_at :: "'u candt \<Rightarrow> int \<Rightarrow> u32 option" where
  "can_spn582_at m index = repeated_get (can_spn582 m) index"

definition can_set_spn582_at :: "int \<Rightarrow> u32 \<Rightarrow> 'u candt \<Rightarrow> 'u candt option" where
  "can_set_spn582_at index value m = map_option (\<lambda>xs. m\<lparr>can_spn582 := xs\<rparr>) (repeated_set (can_spn582 m) index value)"

definition can_add_spn582 :: "u32 \<Rightarrow> 'u candt \<Rightarrow> 'u candt" where
  "can_add_spn582 value m = m\<lparr>can_spn582 := can_spn582 m @ [value]\<rparr>"

lemma can_spn582_access:
  "can_spn582_size (can_add_spn582 x m) = can_spn582_size m + 1"
  "can_spn582_at (can_add_spn582 x m) (can_spn582_size m) = Some x"
  "can_set_spn582_at i x m = Some m' \<Longrightarrow> can_spn582_at m' j = (if j = i then Some x else can_spn582_at m j)"
  "can_spn582_at (can_clear_spn582 m) j = None"
  by (auto simp: can_spn582_size_def can_add_spn582_def can_spn582_at_def can_set_spn582_at_def can_clear_spn582_def repeated_get_add
      repeated_get_set simp: repeated_get_def [of "[]"])

definition can_mutable_spn582 :: "(u32 list \<Rightarrow> u32 list) \<Rightarrow> 'u candt \<Rightarrow> 'u candt" where
  "can_mutable_spn582 g m = m\<lparr>can_spn582 := g (can_spn582 m)\<rparr>"

definition can_spn928_size :: "'u candt \<Rightarrow> int" where
  "can_spn928_size m = int (length (can_spn928 m))"

definition can_clear_spn928 :: "'u candt \<Rightarrow> 'u candt" where
  "can_clear_spn928 m = m\<lparr>can_spn928 := []\<rparr>"

definition can_spn928_at :: "'u candt \<Rightarrow> int \<Rightarrow> u32 option" where
  "can_spn928_at m index = repeated_get (can_spn928 m) index"

definition can_set_spn928_at :: "int \<Rightarrow> u32 \<Rightarrow> 'u candt \<Rightarrow> 'u candt option" where
  "can_set_spn928_at index value m = map_option (\<lambda>xs. m\<lparr>can_spn928 := xs\<rparr>) (repeated_set (can_spn928 m) index value)"

definition can_add_spn928 :: "u32 \<Rightarrow> 'u candt \<Rightarrow> 'u candt" where
  "can_add_spn928 value m = m\<lparr>can_spn928 := can_spn928 m @ [value]\<rparr>"

lemma can_spn928_access:
  "can_spn928_size (can_add_spn928 x m) = can_spn928_size m + 1"
  "can_spn928_at (can_add_spn928 x m) (can_spn928_size m) = Some x"
  "can_set_spn928_at i x m = Some m' \<Longrightarrow> can_spn928_at m' j = (if j = i then Some x else can_spn928_at m j)"
  "can_spn928_at (can_clear_spn928 m) j = None"
  by (auto simp: can_spn928_size_def can_add_spn928_def can_spn928_at_def can_set_spn928_at_def can_clear_spn928_def repeated_get_add
      repeated_get_set simp: repeated_get_def [of "[]"])

definition can_mutable_spn928 :: "(u32 list \<Rightarrow> u32 list) \<Rightarrow> 'u candt \<Rightarrow> 'u candt" where
  "can_mutable_spn928 g m = m\<lparr>can_spn928 := g (can_spn928 m)\<rparr>"

section \<open>\<^verbatim>\<open>RecReg_LLSDt\<close>\<close>

definition lls_clear_has_tlls1 :: "'u llsdt \<Rightarrow> 'u llsdt" where
  "lls_clear_has_tlls1 m = m\<lparr>lls_has_bits := and_not (lls_has_bits m) 0x00000001\<rparr>"

definition lls_clear_tlls1 :: "'u llsdt \<Rightarrow> 'u llsdt" where
  "lls_clear_tlls1 m = lls_clear_has_tlls1 (m\<lparr>lls_tlls1 := 0\<rparr>)"

definition lls_clear_has_clls1 :: "'u llsdt \<Rightarrow> 'u llsdt" where
  "lls_clear_has_clls1 m = m\<lparr>lls_has_bits := and_not (lls_has_bits m) 0x00000002\<rparr>"

definition lls_clear_clls1 :: "'u llsdt \<Rightarrow> 'u llsdt" where
  "lls_clear_clls1 m = lls_clear_has_clls1 (m\<lparr>lls_clls1 := 0\<rparr>)"

definition lls_clear_has_flls1 :: "'u llsdt \<Rightarrow> 'u llsdt" where
  "lls_clear_has_flls1 m = m\<lparr>lls_has_bits := and_not (lls_has_bits m) 0x00000004\<rparr>"

definition lls_clear_flls1 :: "'u llsdt \<Rightarrow> 'u llsdt" where
  "lls_clear_flls1 m = lls_clear_has_flls1 (m\<lparr>lls_flls1 := 0\<rparr>)"

definition lls_clear_has_tlls2 :: "'u llsdt \<Rightarrow> 'u llsdt" where
  "lls_clear_has_tlls2 m = m\<lparr>lls_has_bits := and_not (lls_has_bits m) 0x00000008\<rparr>"

definition lls_clear_tlls2 :: "'u llsdt \<Rightarrow> 'u llsdt" where
  "lls_clear_tlls2 m = lls_clear_has_tlls2 (m\<lparr>lls_tlls2 := 0\<rparr>)"

definition lls_clear_has_clls2 :: "'u llsdt \<Rightarrow> 'u llsdt" where
  "lls_clear_has_clls2 m = m\<lparr>lls_has_bits := and_not (lls_has_bits m) 0x00000010\<rparr>"

definition lls_clear_clls2 :: "'u llsdt \<Rightarrow> 'u llsdt" where
  "lls_clear_clls2 m = lls_clear_has_clls2 (m\<lparr>lls_clls2 := 0\<rparr>)"

definition lls_clear_has_flls2 :: "'u llsdt \<Rightarrow> 'u llsdt" where
  "lls_clear_has_flls2 m = m\<lparr>lls_has_bits := and_not (lls_has_bits m) 0x00000020\<rparr>"

definition lls_clear_flls2 :: "'u llsdt \<Rightarrow> 'u llsdt" where
  "lls_clear_flls2 m = lls_clear_has_flls2 (m\<lparr>lls_flls2 := 0\<rparr>)"

definition lls_clear_has_tlls3 :: "'u llsdt \<Rightarrow> 'u llsdt" where
  "lls_clear_has_tlls3 m = m\<lparr>lls_has_bits := and_not (lls_has_bits m) 0x00000040\<rparr>"

definition lls_clear_tlls3 :: "'u llsdt \<Rightarrow> 'u llsdt" where
  "lls_clear_tlls3 m = lls_clear_has_tlls3 (m\<lparr>lls_tlls3 := 0\<rparr>)"

definition lls_clear_has_clls3 :: "'u llsdt \<Rightarrow> 'u llsdt" where
  "lls_clear_has_clls3 m = m\<lparr>lls_has_bits := and_not (lls_has_bits m) 0x00000080\<rparr>"

definition lls_clear_clls3 :: "'u llsdt \<Rightarrow> 'u llsdt" where
  "lls_clear_clls3 m = lls_clear_has_clls3 (m\<lparr>lls_clls3 := 0\<rparr>)"

definition lls_clear_has_flls3 :: "'u llsdt \<Rightarrow> 'u llsdt" where
  "lls_clear_has_flls3 m = m\<lparr>lls_has_bits := and_not (lls_has_bits m) 0x00000100\<rparr>"

definition lls_clear_flls3 :: "'u llsdt \<Rightarrow> 'u llsdt" where
  "lls_clear_flls3 m = lls_clear_has_flls3 (m\<lparr>lls_flls3 := 0\<rparr>)"

definition lls_clear_has_tlls4 :: "'u llsdt \<Rightarrow> 'u llsdt" where
  "lls_clear_has_tlls4 m = m\<lparr>lls_has_bits := and_not (lls_has_bits m) 0x00000200\<rparr>"

definition lls_clear_tlls4 :: "'u llsdt \<Rightarrow> 'u llsdt" where
  "lls_clear_tlls4 m = lls_clear_has_tlls4 (m\<lparr>lls_tlls4 := 0\<rparr>)"

definition lls_clear_has_clls4 :: "'u llsdt \<Rightarrow> 'u llsdt" where
  "lls_clear_has_clls4 m = m\<lparr>lls_has_bits := and_not (lls_has_bits m) 0x00000400\<rparr>"

definition lls_clear_clls4 :: "'u llsdt \<Rightarrow> 'u llsdt" where
  "lls_clear_clls4 m = lls_clear_has_clls4 (m\<lparr>lls_clls4 := 0\<rparr>)"

definition lls_clear_has_flls4 :: "'u llsdt \<Rightarrow> 'u llsdt" where
  "lls_clear_has_flls4 m = m\<lparr>lls_has_bits := and_not (lls_has_bits m) 0x00000800\<rparr>"

definition lls_clear_flls4 :: "'u llsdt \<Rightarrow> 'u llsdt" where
  "lls_clear_flls4 m = lls_clear_has_flls4 (m\<lparr>lls_flls4 := 0\<rparr>)"

definition lls_clear_has_tlls5 :: "'u llsdt \<Rightarrow> 'u llsdt" where
  "lls_clear_has_tlls5 m = m\<lparr>lls_has_bits := and_not (lls_has_bits m) 0x00001000\<rparr>"

definition lls_clear_tlls5 :: "'u llsdt \<Rightarrow> 'u llsdt" where
  "lls_clear_tlls5 m = lls_clear_has_tlls5 (m\<lparr>lls_tlls5 := 0\<rparr>)"

definition lls_clear_has_clls5 :: "'u llsdt \<Rightarrow> 'u llsdt" where
  "lls_clear_has_clls5 m = m\<lparr>lls_has_bits := and_not (lls_has_bits m) 0x00002000\<rparr>"

definition lls_clear_clls5 :: "'u llsdt \<Rightarrow> 'u llsdt" where
  "lls_clear_clls5 m = lls_clear_has_clls5 (m\<lparr>lls_clls5 := 0\<rparr>)"

definition lls_clear_has_flls5 :: "'u llsdt \<Rightarrow> 'u llsdt" where
  "lls_clear_has_flls5 m = m\<lparr>lls_has_bits := and_not (lls_has_bits m) 0x00004000\<rparr>"

definition lls_clear_flls5 :: "'u llsdt \<Rightarrow> 'u llsdt" where
  "lls_clear_flls5 m = lls_clear_has_flls5 (m\<lparr>lls_flls5 := 0\<rparr>)"

definition lls_clear_has_tlls6 :: "'u llsdt \<Rightarrow> 'u llsdt" where
  "lls_clear_has_tlls6 m = m\<lparr>lls_has_bits := and_not (lls_has_bits m) 0x00008000\<rparr>"

definition lls_clear_tlls6 :: "'u llsdt \<Rightarrow> 'u llsdt" where
  "lls_clear_tlls6 m = lls_clear_has_tlls6 (m\<lparr>lls_tlls6 := 0\<rparr>)"

definition lls_clear_has_clls6 :: "'u llsdt \<Rightarrow> 'u llsdt" where
  "lls_clear_has_clls6 m = m\<lparr>lls_has_bits := and_not (lls_has_bits m) 0x00010000\<rparr>"

definition lls_clear_clls6 :: "'u llsdt \<Rightarrow> 'u llsdt" where
  "lls_clear_clls6 m = lls_clear_has_clls6 (m\<lparr>lls_clls6 := 0\<rparr>)"

definition lls_clear_has_flls6 :: "'u llsdt \<Rightarrow> 'u llsdt" where
  "lls_clear_has_flls6 m = m\<lparr>lls_has_bits := and_not (lls_has_bits m) 0x00020000\<rparr>"

definition lls_clear_flls6 :: "'u llsdt \<Rightarrow> 'u llsdt" where
  "lls_clear_flls6 m = lls_clear_has_flls6 (m\<lparr>lls_flls6 := 0\<rparr>)"

lemmas lls_clear_defs =
  lls_clear_has_tlls1_def lls_clear_tlls1_def lls_clear_has_clls1_def lls_clear_clls1_def
  lls_clear_has_flls1_def lls_clear_flls1_def lls_clear_has_tlls2_def lls_clear_tlls2_def
  lls_clear_has_clls2_def lls_clear_clls2_def lls_clear_has_flls2_def lls_clear_flls2_def
  lls_clear_has_tlls3_def lls_clear_tlls3_def lls_clear_has_clls3_def lls_clear_clls3_def
  lls_clear_has_flls3_def lls_clear_flls3_def lls_clear_has_tlls4_def lls_clear_tlls4_def
  lls_clear_has_clls4_def lls_clear_clls4_def lls_clear_has_flls4_def lls_clear_flls4_def
  lls_clear_has_tlls5_def lls_clear_tlls5_def lls_clear_has_clls5_def lls_clear_clls5_def
  lls_clear_has_flls5_def lls_clear_flls5_def lls_clear_has_tlls6_def lls_clear_tlls6_def
  lls_clear_has_clls6_def lls_clear_clls6_def lls_clear_has_flls6_def lls_clear_flls6_def

lemma lls_clear_abs:
  "lls_abs (lls_clear_tlls1 m) = (lls_abs m)(1 := None)"
  "lls_abs (lls_clear_clls1 m) = (lls_abs m)(2 := None)"
  "lls_abs (lls_clear_flls1 m) = (lls_abs m)(3 := None)"
  "lls_abs (lls_clear_tlls2 m) = (lls_abs m)(4 := None)"
  "lls_abs (lls_clear_clls2 m) = (lls_abs m)(5 := None)"
  "lls_abs (lls_clear_flls2 m) = (lls_abs m)(6 := None)"
  "lls_abs (lls_clear_tlls3 m) = (lls_abs m)(7 := None)"
  "lls_abs (lls_clear_clls3 m) = (lls_abs m)(8 := None)"
  "lls_abs (lls_clear_flls3 m) = (lls_abs m)(9 := None)"
  "lls_abs (lls_clear_tlls4 m) = (lls_abs m)(10 := None)"
  "lls_abs (lls_clear_clls4 m) = (lls_abs m)(11 := None)"
  "lls_abs (lls_clear_flls4 m) = (lls_abs m)(12 := None)"
  "lls_abs (lls_clear_tlls5 m) = (lls_abs m)(13 := None)"
  "lls_abs (lls_clear_clls5 m) = (lls_abs m)(14 := None)"
  "lls_abs (lls_clear_flls5 m) = (lls_abs m)(15 := None)"
  "lls_abs (lls_clear_tlls6 m) = (lls_abs m)(16 := None)"
  "lls_abs (lls_clear_clls6 m) = (lls_abs m)(17 := None)"
  "lls_abs (lls_clear_flls6 m) = (lls_abs m)(18 := None)"
  by (rule ext, simp add: lls_abs_def lls_clear_defs has_bit_simps)+

lemma lls_clear_wf:
  assumes "lls_wf m"
  shows "lls_wf (lls_clear_tlls1 m)"
    "lls_wf (lls_clear_clls1 m)"
    "lls_wf (lls_clear_flls1 m)"
    "lls_wf (lls_clear_tlls2 m)"
    "lls_wf (lls_clear_clls2 m)"
    "lls_wf (lls_clear_flls2 m)"
    "lls_wf (lls_clear_tlls3 m)"
    "lls_wf (lls_clear_clls3 m)"
    "lls_wf (lls_clear_flls3 m)"
    "lls_wf (lls_clear_tlls4 m)"
    "lls_wf (lls_clear_clls4 m)"
    "lls_wf (lls_clear_flls4 m)"
    "lls_wf (lls_clear_tlls5 m)"
    "lls_wf (lls_clear_clls5 m)"
    "lls_wf (lls_clear_flls5 m)"
    "lls_wf (lls_clear_tlls6 m)"
    "lls_wf (lls_clear_clls6 m)"
    "lls_wf (lls_clear_flls6 m)"
  using assms by (simp_all add: lls_wf_def lls_clear_defs has_bit_simps)

section \<open>\<^verbatim>\<open>RecReg_LOG\<close> and \<^verbatim>\<open>RecReg\<close>\<close>

definition log_debug_size :: "'u log \<Rightarrow> int" where
  "log_debug_size m = int (length (log_debug m))"

definition log_clear_debug :: "'u log \<Rightarrow> 'u log" where
  "log_clear_debug m = m\<lparr>log_debug := []\<rparr>"

definition log_debug_at :: "'u log \<Rightarrow> int \<Rightarrow> string option" where
  "log_debug_at m index = repeated_get (log_debug m) index"

definition log_set_debug_at :: "int \<Rightarrow> string \<Rightarrow> 'u log \<Rightarrow> 'u log option" where
  "log_set_debug_at index value m = map_option (\<lambda>xs. m\<lparr>log_debug := xs\<rparr>) (repeated_set (log_debug m) index value)"

definition log_add_debug :: "string \<Rightarrow> 'u log \<Rightarrow> 'u log" where
  "log_add_debug value m = m\<lparr>log_debug := log_debug m @ [value]\<rparr>"

lemma log_debug_access:
  "log_debug_size (log_add_debug x m) = log_debug_size m + 1"
  "log_debug_at (log_add_debug x m) (log_debug_size m) = Some x"
  "log_set_debug_at i x m = Some m' \<Longrightarrow> log_debug_at m' j = (if j = i then Some x else log_debug_at m j)"
  "log_debug_at (log_clear_debug m) j = None"
  by (auto simp: log_debug_size_def log_add_debug_def log_debug_at_def log_set_debug_at_def log_clear_debug_def repeated_get_add
      repeated_get_set simp: repeated_get_def [of "[]"])

definition log_mutable_debug :: "(string list \<Rightarrow> string list) \<Rightarrow> 'u log \<Rightarrow> 'u log" where
  "log_mutable_debug g m = m\<lparr>log_debug := g (log_debug m)\<rparr>"

definition log_set_debug_cstr :: "int \<Rightarrow> string \<Rightarrow> 'u log \<Rightarrow> 'u log option" where
  "log_set_debug_cstr index v m = log_set_debug_at index (c_str v) m"

definition log_set_debug_array :: "int \<Rightarrow> string \<Rightarrow> nat \<Rightarrow> 'u log \<Rightarrow> 'u log option" where
  "log_set_debug_array index v sz m = (if sz \<le> length v then log_set_debug_at index (take sz v) m else None)"

definition log_mutable_debug_at :: "int \<Rightarrow> (string \<Rightarrow> string) \<Rightarrow> 'u log \<Rightarrow> 'u log option" where
  "log_mutable_debug_at index g m =
     (case log_debug_at m index of None \<Rightarrow> None | Some v \<Rightarrow> log_set_debug_at index (g v) m)"

text \<open>\<^verbatim>\<open>add_debug()\<close> appends an empty string and returns a pointer to it.\<close>

definition log_append_debug :: "(string \<Rightarrow> string) \<Rightarrow> 'u log \<Rightarrow> 'u log" where
  "log_append_debug g m = log_add_debug (g []) m"

definition log_add_debug_cstr :: "string \<Rightarrow> 'u log \<Rightarrow> 'u log" where
  "log_add_debug_cstr v m = log_add_debug (c_str v) m"

definition log_add_debug_array :: "string \<Rightarrow> nat \<Rightarrow> 'u log \<Rightarrow> 'u log option" where
  "log_add_debug_array v sz m = (if sz \<le> length v then Some (log_add_debug (take sz v) m) else None)"

definition rr_mid_size :: "'u recreg \<Rightarrow> int" where
  "rr_mid_size m = int (length (rr_mid m))"

definition rr_clear_mid :: "'u recreg \<Rightarrow> 'u recreg" where
  "rr_clear_mid m = m\<lparr>rr_mid := []\<rparr>"

definition rr_mid_at :: "'u recreg \<Rightarrow> int \<Rightarrow> u32 option" where
  "rr_mid_at m index = repeated_get (rr_mid m) index"

definition rr_set_mid_at :: "int \<Rightarrow> u32 \<Rightarrow> 'u recreg \<Rightarrow> 'u recreg option" where
  "rr_set_mid_at index value m = map_option (\<lambda>xs. m\<lparr>rr_mid := xs\<rparr>) (repeated_set (rr_mid m) index value)"

definition rr_add_mid :: "u32 \<Rightarrow> 'u recreg \<Rightarrow> 'u recreg" where
  "rr_add_mid value m = m\<lparr>rr_mid := rr_mid m @ [value]\<rparr>"

lemma rr_mid_access:
  "rr_mid_size (rr_add_mid x m) = rr_mid_size m + 1"
  "rr_mid_at (rr_add_mid x m) (rr_mid_size m) = Some x"
  "rr_set_mid_at i x m = Some m' \<Longrightarrow> rr_mid_at m' j = (if j = i then Some x else rr_mid_at m j)"
  "rr_mid_at (rr_clear_mid m) j = None"
  by (auto simp: rr_mid_size_def rr_add_mid_def rr_mid_at_def rr_set_mid_at_def rr_clear_mid_def repeated_get_add
      repeated_get_set simp: repeated_get_def [of "[]"])

definition rr_mutable_mid :: "(u32 list \<Rightarrow> u32 list) \<Rightarrow> 'u recreg \<Rightarrow> 'u recreg" where
  "rr_mutable_mid g m = m\<lparr>rr_mid := g (rr_mid m)\<rparr>"

definition rr_clear_has_general :: "'u recreg \<Rightarrow> 'u recreg" where
  "rr_clear_has_general m = m\<lparr>rr_has_bits := and_not (rr_has_bits m) 0x00000002\<rparr>"

definition rr_clear_general :: "('s, 'u) runtime \<Rightarrow> 'u recreg \<Rightarrow> 'u recreg" where
  "rr_clear_general rt m = rr_clear_has_general (m\<lparr>rr_general := map_option (gen_clear rt) (rr_general m)\<rparr>)"

definition rr_release_general :: "'u recreg \<Rightarrow> 'u general option \<times> 'u recreg" where
  "rr_release_general m = (let m = rr_clear_has_general m in (rr_general m, m\<lparr>rr_general := None\<rparr>))"

definition rr_clear_has_photo :: "'u recreg \<Rightarrow> 'u recreg" where
  "rr_clear_has_photo m = m\<lparr>rr_has_bits := and_not (rr_has_bits m) 0x00000004\<rparr>"

definition rr_clear_photo :: "('s, 'u) runtime \<Rightarrow> 'u recreg \<Rightarrow> 'u recreg" where
  "rr_clear_photo rt m = rr_clear_has_photo (m\<lparr>rr_photo := map_option (pho_clear rt) (rr_photo m)\<rparr>)"

definition rr_release_photo :: "'u recreg \<Rightarrow> 'u photo option \<times> 'u recreg" where
  "rr_release_photo m = (let m = rr_clear_has_photo m in (rr_photo m, m\<lparr>rr_photo := None\<rparr>))"

definition rr_clear_has_nav :: "'u recreg \<Rightarrow> 'u recreg" where
  "rr_clear_has_nav m = m\<lparr>rr_has_bits := and_not (rr_has_bits m) 0x00000008\<rparr>"

definition rr_clear_nav :: "('s, 'u) runtime \<Rightarrow> 'u recreg \<Rightarrow> 'u recreg" where
  "rr_clear_nav rt m = rr_clear_has_nav (m\<lparr>rr_nav := map_option (nav_clear rt) (rr_nav m)\<rparr>)"

definition rr_release_nav :: "'u recreg \<Rightarrow> 'u nav option \<times> 'u recreg" where
  "rr_release_nav m = (let m = rr_clear_has_nav m in (rr_nav m, m\<lparr>rr_nav := None\<rparr>))"

definition rr_clear_has_unidt :: "'u recreg \<Rightarrow> 'u recreg" where
  "rr_clear_has_unidt m = m\<lparr>rr_has_bits := and_not (rr_has_bits m) 0x00000010\<rparr>"

definition rr_clear_unidt :: "('s, 'u) runtime \<Rightarrow> 'u recreg \<Rightarrow> 'u recreg" where
  "rr_clear_unidt rt m = rr_clear_has_unidt (m\<lparr>rr_unidt := map_option (uni_clear rt) (rr_unidt m)\<rparr>)"

definition rr_release_unidt :: "'u recreg \<Rightarrow> 'u unidt option \<times> 'u recreg" where
  "rr_release_unidt m = (let m = rr_clear_has_unidt m in (rr_unidt m, m\<lparr>rr_unidt := None\<rparr>))"

definition rr_clear_has_candt :: "'u recreg \<Rightarrow> 'u recreg" where
  "rr_clear_has_candt m = m\<lparr>rr_has_bits := and_not (rr_has_bits m) 0x00000020\<rparr>"

definition rr_clear_candt :: "('s, 'u) runtime \<Rightarrow> 'u recreg \<Rightarrow> 'u recreg" where
  "rr_clear_candt rt m = rr_clear_has_candt (m\<lparr>rr_candt := map_option (can_clear rt) (rr_candt m)\<rparr>)"

definition rr_release_candt :: "'u recreg \<Rightarrow> 'u candt option \<times> 'u recreg" where
  "rr_release_candt m = (let m = rr_clear_has_candt m in (rr_candt m, m\<lparr>rr_candt := None\<rparr>))"

definition rr_clear_has_llsdt :: "'u recreg \<Rightarrow> 'u recreg" where
  "rr_clear_has_llsdt m = m\<lparr>rr_has_bits := and_not (rr_has_bits m) 0x00000040\<rparr>"

definition rr_clear_llsdt :: "('s, 'u) runtime \<Rightarrow> 'u recreg \<Rightarrow> 'u recreg" where
  "rr_clear_llsdt rt m = rr_clear_has_llsdt (m\<lparr>rr_llsdt := map_option (lls_clear rt) (rr_llsdt m)\<rparr>)"

definition rr_release_llsdt :: "'u recreg \<Rightarrow> 'u llsdt option \<times> 'u recreg" where
  "rr_release_llsdt m = (let m = rr_clear_has_llsdt m in (rr_llsdt m, m\<lparr>rr_llsdt := None\<rparr>))"

definition rr_clear_has_log :: "'u recreg \<Rightarrow> 'u recreg" where
  "rr_clear_has_log m = m\<lparr>rr_has_bits := and_not (rr_has_bits m) 0x00000080\<rparr>"

definition rr_clear_log :: "('s, 'u) runtime \<Rightarrow> 'u recreg \<Rightarrow> 'u recreg" where
  "rr_clear_log rt m = rr_clear_has_log (m\<lparr>rr_log := map_option (log_clear rt) (rr_log m)\<rparr>)"

definition rr_release_log :: "'u recreg \<Rightarrow> 'u log option \<times> 'u recreg" where
  "rr_release_log m = (let m = rr_clear_has_log m in (rr_log m, m\<lparr>rr_log := None\<rparr>))"

lemmas rr_clear_defs =
  rr_clear_has_general_def rr_clear_general_def rr_release_general_def
  rr_clear_has_photo_def rr_clear_photo_def rr_release_photo_def
  rr_clear_has_nav_def rr_clear_nav_def rr_release_nav_def
  rr_clear_has_unidt_def rr_clear_unidt_def rr_release_unidt_def
  rr_clear_has_candt_def rr_clear_candt_def rr_release_candt_def
  rr_clear_has_llsdt_def rr_clear_llsdt_def rr_release_llsdt_def
  rr_clear_has_log_def rr_clear_log_def rr_release_log_def

text \<open>A group that was cleared or released is not set, and the others are as they were.\<close>

lemma rr_clear_groups_has:
  "\<not> rr_has_general (rr_clear_general rt m)" "\<not> rr_has_general (snd (rr_release_general m))"
  "\<not> rr_has_photo (rr_clear_photo rt m)" "\<not> rr_has_photo (snd (rr_release_photo m))"
  "\<not> rr_has_nav (rr_clear_nav rt m)" "\<not> rr_has_nav (snd (rr_release_nav m))"
  "\<not> rr_has_unidt (rr_clear_unidt rt m)" "\<not> rr_has_unidt (snd (rr_release_unidt m))"
  "\<not> rr_has_candt (rr_clear_candt rt m)" "\<not> rr_has_candt (snd (rr_release_candt m))"
  "\<not> rr_has_llsdt (rr_clear_llsdt rt m)" "\<not> rr_has_llsdt (snd (rr_release_llsdt m))"
  "\<not> rr_has_log (rr_clear_log rt m)" "\<not> rr_has_log (snd (rr_release_log m))"
  by (simp_all add: rr_clear_defs Let_def has_bit_simps)

lemma rr_clear_general_get:
  "rr_get_general rt (snd (rr_release_general m)) = gen_new (rt_unknown_empty rt)"
  "pred_option gen_wf (rr_general m) \<Longrightarrow> rr_get_general rt (rr_clear_general rt m) = gen_new (rt_unknown_empty rt)"
  by (auto simp: rr_clear_defs rr_get_general_def gen_clear_fresh Let_def split: option.splits)

lemma rr_clear_photo_get:
  "rr_get_photo rt (snd (rr_release_photo m)) = pho_new (rt_unknown_empty rt)"
  "pred_option pho_wf (rr_photo m) \<Longrightarrow> rr_get_photo rt (rr_clear_photo rt m) = pho_new (rt_unknown_empty rt)"
  by (auto simp: rr_clear_defs rr_get_photo_def pho_clear_fresh Let_def split: option.splits)

lemma rr_clear_nav_get:
  "rr_get_nav rt (snd (rr_release_nav m)) = nav_new (rt_unknown_empty rt)"
  "pred_option nav_wf (rr_nav m) \<Longrightarrow> rr_get_nav rt (rr_clear_nav rt m) = nav_new (rt_unknown_empty rt)"
  by (auto simp: rr_clear_defs rr_get_nav_def nav_clear_fresh Let_def split: option.splits)

lemma rr_clear_unidt_get:
  "rr_get_unidt rt (snd (rr_release_unidt m)) = uni_new (rt_unknown_empty rt)"
  "pred_option uni_wf (rr_unidt m) \<Longrightarrow> rr_get_unidt rt (rr_clear_unidt rt m) = uni_new (rt_unknown_empty rt)"
  by (auto simp: rr_clear_defs rr_get_unidt_def uni_clear_fresh Let_def split: option.splits)

lemma rr_clear_candt_get:
  "rr_get_candt rt (snd (rr_release_candt m)) = can_new (rt_unknown_empty rt)"
  "pred_option can_wf (rr_candt m) \<Longrightarrow> rr_get_candt rt (rr_clear_candt rt m) = can_new (rt_unknown_empty rt)"
  by (auto simp: rr_clear_defs rr_get_candt_def can_clear_fresh Let_def split: option.splits)

lemma rr_clear_llsdt_get:
  "rr_get_llsdt rt (snd (rr_release_llsdt m)) = lls_new (rt_unknown_empty rt)"
  "pred_option lls_wf (rr_llsdt m) \<Longrightarrow> rr_get_llsdt rt (rr_clear_llsdt rt m) = lls_new (rt_unknown_empty rt)"
  by (auto simp: rr_clear_defs rr_get_llsdt_def lls_clear_fresh Let_def split: option.splits)

lemma rr_clear_log_get:
  "rr_get_log rt (snd (rr_release_log m)) = log_new (rt_unknown_empty rt)"
  "rr_get_log rt (rr_clear_log rt m) = log_new (rt_unknown_empty rt)"
  by (auto simp: rr_clear_defs rr_get_log_def log_clear_fresh Let_def split: option.splits)

section \<open>Copy constructors\<close>

definition gen_copy :: "('s, 'u) runtime \<Rightarrow> 'u general \<Rightarrow> 'u general" where
  "gen_copy rt from = gen_merge_from rt from (gen_new (rt_unknown_empty rt))"

lemma gen_copy_abs: "gen_abs (gen_copy rt from) = gen_abs from"
  by (simp add: gen_copy_def gen_merge_from_abs gen_abs_new)

definition pho_copy :: "('s, 'u) runtime \<Rightarrow> 'u photo \<Rightarrow> 'u photo" where
  "pho_copy rt from = pho_merge_from rt from (pho_new (rt_unknown_empty rt))"

lemma pho_copy_abs: "pho_abs (pho_copy rt from) = pho_abs from"
  by (simp add: pho_copy_def pho_merge_from_abs pho_abs_new)

definition nav_copy :: "('s, 'u) runtime \<Rightarrow> 'u nav \<Rightarrow> 'u nav" where
  "nav_copy rt from = nav_merge_from rt from (nav_new (rt_unknown_empty rt))"

lemma nav_copy_abs: "nav_abs (nav_copy rt from) = nav_abs from"
  by (simp add: nav_copy_def nav_merge_from_abs nav_abs_new)

definition uni_copy :: "('s, 'u) runtime \<Rightarrow> 'u unidt \<Rightarrow> 'u unidt" where
  "uni_copy rt from = uni_merge_from rt from (uni_new (rt_unknown_empty rt))"

lemma uni_copy_abs: "uni_abs (uni_copy rt from) = uni_abs from"
  by (simp add: uni_copy_def uni_merge_from_abs uni_abs_new)

definition can_copy :: "('s, 'u) runtime \<Rightarrow> 'u candt \<Rightarrow> 'u candt" where
  "can_copy rt from = can_merge_from rt from (can_new (rt_unknown_empty rt))"

lemma can_copy_abs: "can_abs (can_copy rt from) = can_abs from"
  by (simp add: can_copy_def can_merge_from_abs can_abs_new)

definition lls_copy :: "('s, 'u) runtime \<Rightarrow> 'u llsdt \<Rightarrow> 'u llsdt" where
  "lls_copy rt from = lls_merge_from rt from (lls_new (rt_unknown_empty rt))"

lemma lls_copy_abs: "lls_abs (lls_copy rt from) = lls_abs from"
  by (simp add: lls_copy_def lls_merge_from_abs lls_abs_new)

definition log_copy :: "('s, 'u) runtime \<Rightarrow> 'u log \<Rightarrow> 'u log" where
  "log_copy rt from = log_merge_from rt from (log_new (rt_unknown_empty rt))"

lemma log_copy_debug: "log_debug (log_copy rt from) = log_debug from"
  by (simp add: log_copy_def log_merge_from_def log_new_def)

definition rr_copy :: "('s, 'u) runtime \<Rightarrow> 'u recreg \<Rightarrow> 'u recreg" where
  "rr_copy rt from = rr_merge_from rt from (rr_new (rt_unknown_empty rt))"

end
