(* ===== verification/Send_Buffer.thy ===== *)
theory Send_Buffer
  imports Protocol_Facts
begin

text \<open>
  What becomes of the bytes \<^verbatim>\<open>transport_protocol_t::send\<close> gives to the socket. Everywhere else they are
  \<open>se_sent\<close>, the buffers handed over; here the memory they are in is modelled. \<^verbatim>\<open>send\<close> builds them in a
  local vector, \<^verbatim>\<open>client_t::send\<close> passes its address and length to \<^verbatim>\<open>async_send\<close>, which does not copy,
  and the vector is destroyed when \<^verbatim>\<open>send\<close> returns. The store maps addresses to the vectors that exist.

  Of boost.asio the model has what its documentation says of \<^verbatim>\<open>async_send\<close>: it takes some of the bytes,
  not necessarily all, either at once or later, when the socket is writable again, and reads them from
  the caller's memory when it takes them. When and how many is a parameter of each call. \<^verbatim>\<open>handle_write\<close>
  does not look at the count, so nothing sends the rest.
\<close>

section \<open>The store\<close>

record 'f link =
  lk_session :: "'f session"
  lk_vectors :: "nat \<rightharpoonup> byte list"
  lk_next :: nat
  lk_pending :: "(nat \<times> nat) list"
  lk_wire :: "byte list"

definition link_new :: "'f session \<Rightarrow> 'f link" where
  "link_new s = \<lparr>lk_session = s, lk_vectors = Map.empty, lk_next = 0, lk_pending = [], lk_wire = []\<rparr>"

definition new_vector :: "byte list \<Rightarrow> 'f link \<Rightarrow> nat \<times> 'f link" where
  "new_vector bytes l =
     (lk_next l, l\<lparr>lk_vectors := (lk_vectors l)(lk_next l \<mapsto> bytes), lk_next := lk_next l + 1\<rparr>)"

definition free_vector :: "nat \<Rightarrow> 'f link \<Rightarrow> 'f link" where
  "free_vector a l = l\<lparr>lk_vectors := (lk_vectors l)(a := None)\<rparr>"

text \<open>The socket takes up to \<open>k\<close> of the \<open>len\<close> bytes at an address.\<close>

definition take_bytes :: "nat \<Rightarrow> nat \<Rightarrow> nat \<Rightarrow> 'f link \<Rightarrow> 'f link outcome" where
  "take_bytes k a len l =
     (case lk_vectors l a of
        None \<Rightarrow> Undefined
      | Some bytes \<Rightarrow> Return (l\<lparr>lk_wire := lk_wire l @ take (min k len) bytes\<rparr>))"

datatype taking = At_once nat | Later

definition async_send :: "taking \<Rightarrow> nat \<Rightarrow> nat \<Rightarrow> 'f link \<Rightarrow> 'f link outcome" where
  "async_send t a len l =
     (case t of
        At_once k \<Rightarrow> take_bytes k a len l
      | Later \<Rightarrow> Return (l\<lparr>lk_pending := lk_pending l @ [(a, len)]\<rparr>))"

section \<open>The operations\<close>

definition client_send_at :: "taking \<Rightarrow> nat \<Rightarrow> nat \<Rightarrow> 'f link \<Rightarrow> 'f link outcome" where
  "client_send_at t a len l =
     (case lk_vectors l a of
        None \<Rightarrow> Undefined
      | Some bytes \<Rightarrow> async_send t a len (l\<lparr>lk_session := client_send (take len bytes) (lk_session l)\<rparr>))"

definition send_at :: "taking \<Rightarrow> byte list \<Rightarrow> 'f link \<Rightarrow> 'f link outcome" where
  "send_at t data l =
     (case send_buffer data of
        None \<Rightarrow> Return l
      | Some buffer \<Rightarrow>
          (case new_vector buffer l of (a, l) \<Rightarrow>
             and_then (client_send_at t a (length buffer) l) (\<lambda>l. Return (free_vector a l))))"

text \<open>The socket becomes writable: the write that was started first is carried out.\<close>

definition writable :: "nat \<Rightarrow> 'f link \<Rightarrow> 'f link outcome" where
  "writable k l =
     (case lk_pending l of
        [] \<Rightarrow> Return l
      | (a, len) # rest \<Rightarrow> and_then (take_bytes k a len l) (\<lambda>l. Return (l\<lparr>lk_pending := rest\<rparr>)))"

datatype link_op = Send taking "byte list" | Writable nat

fun link_step :: "link_op \<Rightarrow> 'f link \<Rightarrow> 'f link outcome" where
  "link_step (Send t data) l = send_at t data l"
| "link_step (Writable k) l = writable k l"

fun link_run :: "link_op list \<Rightarrow> 'f link \<Rightarrow> 'f link outcome" where
  "link_run [] l = Return l"
| "link_run (e # es) l = and_then (link_step e l) (link_run es)"

section \<open>What leaves\<close>

fun leaves :: "link_op \<Rightarrow> byte list" where
  "leaves (Send (At_once k) data) = take k (wire data)"
| "leaves (Send Later data) = []"
| "leaves (Writable k) = []"

fun given :: "link_op \<Rightarrow> byte list" where
  "given (Send t data) = wire data"
| "given (Writable k) = []"

fun taken_whole :: "link_op \<Rightarrow> bool" where
  "taken_whole (Send (At_once k) data) \<longleftrightarrow> length (wire data) \<le> k"
| "taken_whole (Send Later data) \<longleftrightarrow> data = []"
| "taken_whole (Writable k) \<longleftrightarrow> True"

lemma send_buffer_Nil: "send_buffer [] = None"
  by (simp add: send_buffer_def)

lemma wire_empty: "wire data = [] \<longleftrightarrow> data = []" "[] = wire data \<longleftrightarrow> data = []"
  by (cases data; simp add: wire_def send_buffer_Nil send_buffer_Cons)+

lemma taken_whole_iff: "taken_whole e \<longleftrightarrow> leaves e = given e"
  by (cases e rule: leaves.cases) (simp_all add: wire_empty take_all_iff)

lemma leaves_prefix: "length (leaves e) \<le> length (given e)"
  by (cases e rule: leaves.cases) simp_all

lemma concat_shorter:
  "(\<And>x. length (f x) \<le> length (g x)) \<Longrightarrow> concat (map f xs) = concat (map g xs) \<longleftrightarrow> list_all (\<lambda>x. f x = g x) xs"
proof (induction xs)
  case (Cons x xs)
  have le: "length (concat (map f xs)) \<le> length (concat (map g xs))"
    by (induction xs) (simp_all add: Cons.prems add_mono)
  have "length (f x) = length (g x)" if "concat (map f (x # xs)) = concat (map g (x # xs))"
  proof -
    have "length (f x) + length (concat (map f xs)) = length (g x) + length (concat (map g xs))"
      using arg_cong [OF that, of length] by simp
    with le Cons.prems [of x] show ?thesis by linarith
  qed
  with Cons show ?case by auto
qed simp

text \<open>
  Between the calls no vector exists, so the operation is the abstract \<open>send\<close> on the session, and the
  write it may leave behind has lost its memory.
\<close>

definition no_vectors :: "'f link \<Rightarrow> bool" where
  "no_vectors l \<longleftrightarrow> lk_vectors l = Map.empty"

lemma link_new_no_vectors [simp]: "no_vectors (link_new s)"
  by (simp add: no_vectors_def link_new_def)

lemma send_at_effect:
  assumes "no_vectors l"
  shows "\<exists>l'. send_at t data l = Return l' \<and> no_vectors l' \<and> lk_session l' = send data (lk_session l)
    \<and> lk_wire l' = lk_wire l @ leaves (Send t data)"
proof (cases "send_buffer data")
  case None
  then have "data = []" by (cases data) (simp_all add: send_buffer_Cons)
  with None assms show ?thesis
    by (cases t) (simp_all add: send_at_def send_def wire_def)
next
  case (Some buffer)
  then show ?thesis using assms
    by (cases t) (simp_all add: send_at_def send_def wire_def new_vector_def client_send_at_def async_send_def
        take_bytes_def free_vector_def no_vectors_def min_def)
qed

lemma send_at_later:
  assumes "no_vectors l" and "data \<noteq> []"
  shows "\<exists>l'. send_at Later data l = Return l' \<and> lk_pending l' \<noteq> []"
  using assms by (cases data) (simp_all add: send_at_def wire_def send_buffer_Cons new_vector_def client_send_at_def
      async_send_def free_vector_def)

lemma writable_effect:
  assumes "no_vectors l"
  shows "writable k l = (if lk_pending l = [] then Return l else Undefined)"
  using assms by (simp add: writable_def take_bytes_def no_vectors_def split: list.split)

fun calls :: "link_op \<Rightarrow> byte list list" where
  "calls (Send t data) = [data]"
| "calls (Writable k) = []"

lemma link_step_effect:
  assumes "link_step e l = Return l'" and "no_vectors l"
  shows "no_vectors l'" and "lk_session l' = fold send (calls e) (lk_session l)"
    and "lk_wire l' = lk_wire l @ leaves e"
proof -
  have "no_vectors l' \<and> lk_session l' = fold send (calls e) (lk_session l) \<and> lk_wire l' = lk_wire l @ leaves e"
  proof (cases e)
    case (Send t data)
    with assms(1) send_at_effect [OF assms(2), of t data] show ?thesis by auto
  next
    case (Writable k)
    with assms writable_effect [OF assms(2), of k] show ?thesis by (simp split: if_splits)
  qed
  then show "no_vectors l'" "lk_session l' = fold send (calls e) (lk_session l)" "lk_wire l' = lk_wire l @ leaves e"
    by blast+
qed

lemma link_run_effect:
  assumes "link_run es l = Return l'" and "no_vectors l"
  shows "no_vectors l' \<and> lk_session l' = fold send (concat (map calls es)) (lk_session l)
    \<and> lk_wire l' = lk_wire l @ concat (map leaves es)"
  using assms
proof (induction es arbitrary: l)
  case (Cons e es)
  from Cons.prems(1) obtain l1 where l1: "link_step e l = Return l1" "link_run es l1 = Return l'"
    by (auto simp: and_then_Return)
  with Cons.IH [OF l1(2)] link_step_effect [OF l1(1) Cons.prems(2)] show ?case by simp
qed simp

lemma send_sent: "concat (se_sent (send data s)) = concat (se_sent s) @ wire data"
  by (cases data) (simp_all add: send_def wire_def client_send_def send_buffer_Nil send_buffer_Cons)

lemma sends_sent:
  "concat (se_sent (fold send (concat (map calls es)) s)) = concat (se_sent s) @ concat (map given es)"
proof (induction es arbitrary: s)
  case (Cons e es)
  then show ?case by (cases e) (simp_all add: send_sent)
qed simp

end
