(* ===== verification/Protocol_Machine.thy ===== *)
theory Protocol_Machine
  imports Protocol_Facts
begin

text \<open>
  The handlers of \<^verbatim>\<open>omnicomm/protocol.cpp\<close> as an abstract machine. It knows the state of the dialogue,
  the number of the controller and the last accepted numbers; its inputs are commands, its outputs the
  requests and deletes it answers with. What a command is can be read off the frame; the texts in it,
  the queue, the counter file and the bytes of the answers are not part of the machine.
\<close>

section \<open>The machine\<close>

record machine =
  ma_state :: protocol_state
  ma_controller :: u32
  ma_counters :: "u32 \<rightharpoonup> u32"

datatype command =
    Identify u32
  | Confirm_delete
  | Archive u32
  | Archive_end
  | Current u32
  | Other_command

datatype answer = Ask u32 | Erase u32

definition last_number :: "machine \<Rightarrow> u32" where
  "last_number ma = (case ma_counters ma (ma_controller ma) of Some n \<Rightarrow> n | None \<Rightarrow> 0)"

definition erase_accepted :: "machine \<Rightarrow> answer list" where
  "erase_accepted ma = (if last_number ma = 0 then [] else [Erase (last_number ma)])"

definition accept_number :: "u32 \<Rightarrow> machine \<Rightarrow> machine" where
  "accept_number n ma = ma\<lparr>ma_counters := (ma_counters ma)(ma_controller ma \<mapsto> n)\<rparr>"

fun machine_step :: "command \<Rightarrow> machine \<Rightarrow> machine \<times> answer list" where
  "machine_step (Identify cid) ma =
     (let ma = ma\<lparr>ma_controller := cid\<rparr>
      in if last_number ma = 0 then (ma\<lparr>ma_state := process_archive\<rparr>, [Ask 0])
         else (ma\<lparr>ma_state := wait_initial_delete_confirm\<rparr>, [Erase (last_number ma)]))"
| "machine_step Confirm_delete ma =
     (if ma_state ma = wait_initial_delete_confirm
      then (ma\<lparr>ma_state := process_archive\<rparr>, [Ask (request_number (last_number ma))]) else (ma, []))"
| "machine_step (Archive n) ma = (accept_number n ma, [])"
| "machine_step Archive_end ma = (ma\<lparr>ma_state := wait_final_delete_confirm\<rparr>, erase_accepted ma)"
| "machine_step (Current n) ma =
     (let ma = accept_number n ma in (ma\<lparr>ma_state := wait_final_delete_confirm\<rparr>, erase_accepted ma))"
| "machine_step Other_command ma = (ma, [])"

fun machine_run :: "command list \<Rightarrow> machine \<Rightarrow> machine \<times> answer list" where
  "machine_run [] ma = (ma, [])"
| "machine_run (c # cs) ma =
     (case machine_step c ma of (ma, answers) \<Rightarrow>
        case machine_run cs ma of (ma, later) \<Rightarrow> (ma, answers @ later))"

text \<open>
  The answers to a series of current data: each message is answered by the delete with its own number.
\<close>

lemma currents_answered:
  "snd (machine_run (map Current ns) ma) = map Erase (filter (\<lambda>n. n \<noteq> 0) ns)"
proof (induction ns arbitrary: ma)
  case (Cons n ns)
  from Cons.IH [of "(accept_number n ma)\<lparr>ma_state := wait_final_delete_confirm\<rparr>"] show ?case
    by (auto simp: erase_accepted_def last_number_def accept_number_def Let_def split: prod.split)
qed simp

section \<open>The session as a machine\<close>

definition machine_of :: "'f session \<Rightarrow> machine" where
  "machine_of s =
     \<lparr>ma_state = se_protocol_state s, ma_controller = se_controller_id s, ma_counters = en_counters s\<rparr>"

fun answer_bytes :: "answer \<Rightarrow> byte list" where
  "answer_bytes (Ask n) = wire (data_request_bytes n)"
| "answer_bytes (Erase n) = wire (delete_data_bytes n)"

text \<open>The command of a message; \<open>None\<close> where a field the handler needs is not there.\<close>

definition command_of :: "byte list \<Rightarrow> command option" where
  "command_of hdr =
     (case hdr_cmd hdr of
        None \<Rightarrow> None
      | Some cmd \<Rightarrow>
          if cmd = c_controller_ident then map_option Identify (ident_controller_id hdr)
          else if cmd = c_current_data then map_option Current (resp_last_mes_number hdr)
          else if cmd = c_archive_data
            then (if hdr_data_len hdr = Some 0 then Some Archive_end
                  else map_option Archive (resp_last_mes_number hdr))
          else if cmd = c_delete_confirm then Some Confirm_delete
          else Some Other_command)"

definition does :: "'f session \<Rightarrow> command \<Rightarrow> 'f session \<Rightarrow> bool" where
  "does s c s' \<longleftrightarrow>
     (case machine_step c (machine_of s) of (ma, answers) \<Rightarrow>
        machine_of s' = ma \<and> se_sent s' = se_sent s @ map answer_bytes answers)"

lemma last_number_of: "last_number (machine_of s) = get_last_counter (se_controller_id s) s"
  by (simp add: last_number_def machine_of_def get_last_counter_def)

lemma machine_of_upd [simp]:
  "machine_of (s\<lparr>se_protocol_state := p\<rparr>) = (machine_of s)\<lparr>ma_state := p\<rparr>"
  "machine_of (s\<lparr>se_controller_id := cid, se_firmware_version := fw\<rparr>) = (machine_of s)\<lparr>ma_controller := cid\<rparr>"
  "machine_of (s\<lparr>se_sent := out\<rparr>) = machine_of s"
  "machine_of (client_stop s) = machine_of s"
  "ma_state (machine_of s) = se_protocol_state s"
  by (simp_all add: machine_of_def client_stop_def)

lemma machine_of_sends [simp]:
  "machine_of (send_delete s) = machine_of s" "machine_of (send_request s) = machine_of s"
  by (simp_all add: send_delete_eq send_request_eq)

lemma send_delete_answers: "se_sent (send_delete s) = se_sent s @ map answer_bytes (erase_accepted (machine_of s))"
  by (simp add: send_delete_eq erase_accepted_def last_number_of)

lemma send_request_answers:
  "se_sent (send_request s) = se_sent s @ map answer_bytes [Ask (request_number (last_number (machine_of s)))]"
  by (simp add: send_request_eq last_number_of)

lemma ident_does:
  assumes "process_controller_ident hdr s = (s', Return ())"
  shows "\<exists>cid. ident_controller_id hdr = Some cid \<and> does s (Identify cid) s'"
proof -
  obtain cid fw where cid: "ident_controller_id hdr = Some cid" "ident_firmware_version hdr = Some fw"
    using assms by (auto simp: process_controller_ident_def split: outcome.splits option.splits)
  let ?s = "s\<lparr>se_controller_id := cid, se_firmware_version := fw\<rparr>"
  have n: "last_number ((machine_of s)\<lparr>ma_controller := cid\<rparr>) = get_last_counter cid ?s"
    using last_number_of [of ?s] by simp
  show ?thesis
  proof (cases "get_last_counter cid ?s = 0")
    case True
    then have "s' = (send_request ?s)\<lparr>se_protocol_state := process_archive\<rparr>"
      using assms cid by (auto simp: process_controller_ident_def Let_def split: outcome.splits if_splits)
    with True n cid send_request_answers [of ?s] show ?thesis
      by (simp add: does_def Let_def request_number_def)
  next
    case False
    then have "s' = (send_delete ?s)\<lparr>se_protocol_state := wait_initial_delete_confirm\<rparr>"
      using assms cid by (auto simp: process_controller_ident_def Let_def split: outcome.splits if_splits)
    with False n cid send_delete_answers [of ?s] show ?thesis
      by (simp add: does_def Let_def erase_accepted_def)
  qed
qed

lemma accept_data_does:
  assumes "accept_data pf hdr s = (s', Return ())"
  shows "\<exists>num. resp_last_mes_number hdr = Some num \<and> machine_of s' = accept_number num (machine_of s)
    \<and> se_sent s' = se_sent s"
  using accept_data_Return [OF assms] by (auto simp: machine_of_def accept_number_def)

lemma dispatch_does:
  assumes "dispatch_message pf hdr s = (s', Return ())"
  shows "\<exists>c. command_of hdr = Some c \<and> does s c s'"
proof -
  obtain cmd where cmd: "hdr_cmd hdr = Some cmd" using assms by (auto simp: dispatch_message_def split: option.splits)
  consider (ident) "cmd = c_controller_ident" | (current) "cmd = c_current_data" | (archive) "cmd = c_archive_data"
    | (confirm) "cmd = c_delete_confirm"
    | (other) "cmd \<notin> {c_controller_ident, c_current_data, c_archive_data, c_delete_confirm}" by blast
  then show ?thesis
  proof cases
    case ident
    with assms cmd have "process_controller_ident hdr s = (s', Return ())" by (simp add: dispatch_message_def)
    from ident_does [OF this] show ?thesis by (auto simp: command_of_def cmd ident)
  next
    case current
    with assms cmd have "process_current_data pf hdr s = (s', Return ())"
      by (simp add: dispatch_message_def tm_code_defs)
    then obtain s1 where a: "accept_data pf hdr s = (s1, Return ())"
      and s': "s' = (send_delete s1)\<lparr>se_protocol_state := wait_final_delete_confirm\<rparr>"
      by (auto simp: process_current_data_def split: prod.splits outcome.splits)
    from accept_data_does [OF a] s' send_delete_answers [of s1] show ?thesis
      by (auto simp: command_of_def cmd current tm_code_defs does_def Let_def)
  next
    case archive
    with assms cmd have p: "process_archive_data pf hdr s = (s', Return ())"
      by (simp add: dispatch_message_def tm_code_defs)
    show ?thesis
    proof (cases "hdr_data_len hdr = Some 0")
      case True
      with p send_delete_answers [of s] show ?thesis
        by (auto simp: process_archive_data_def command_of_def cmd archive tm_code_defs does_def)
    next
      case False
      with p have "accept_data pf hdr s = (s', Return ())"
        by (auto simp: process_archive_data_def split: option.splits if_splits)
      from accept_data_does [OF this] False show ?thesis
        by (auto simp: command_of_def cmd archive tm_code_defs does_def)
    qed
  next
    case confirm
    with assms cmd have "process_delete_confirmation s = (s', Return ())"
      by (simp add: dispatch_message_def tm_code_defs)
    with send_request_answers [of s] show ?thesis
      by (auto simp: process_delete_confirmation_def command_of_def cmd confirm tm_code_defs does_def split: if_splits)
  next
    case other
    with assms cmd show ?thesis by (simp add: dispatch_message_def command_of_def does_def)
  qed
qed

text \<open>A handler that throws does not move the machine and answers nothing.\<close>

lemma dispatch_fails:
  assumes "dispatch_message pf hdr s = (s', Throw e)"
  shows "machine_of s' = machine_of s \<and> se_sent s' = se_sent s"
  using assms accept_data_fails [of pf hdr s s' "Throw e"]
  by (auto simp: dispatch_message_def process_controller_ident_def process_current_data_def process_archive_data_def
      process_delete_confirmation_def machine_of_def Let_def split: prod.splits outcome.splits option.splits if_splits)

lemma process_message_does:
  assumes "process_message pf hdr s = (s', Return ())"
  shows "\<exists>c. command_of hdr = Some c \<and> does s c s'"
  using assms dispatch_does [of pf hdr s s'] by (auto simp: process_message_def split: prod.splits outcome.splits)

lemma process_message_fails:
  "process_message pf hdr s = (s', Throw e) \<Longrightarrow> machine_of s' = machine_of s \<and> se_sent s' = se_sent s"
  using dispatch_fails [of pf hdr s _ e]
  by (auto simp: process_message_def client_stop_def machine_of_def split: prod.splits outcome.splits)

section \<open>A stream of frames\<close>

definition frame_command :: "byte \<times> byte list \<Rightarrow> command" where
  "frame_command f = the (command_of (frame_bytes f))"

lemma handle_frames_machine:
  assumes "handle_frames pf fs s = (s', Return ())"
  shows "\<exists>answers. machine_run (map frame_command fs) (machine_of s) = (machine_of s', answers)
    \<and> se_sent s' = se_sent s @ map answer_bytes answers"
  using assms
proof (induction fs arbitrary: s)
  case (Cons f fs)
  obtain s1 where p: "process_message pf (frame_bytes f) s = (s1, Return ())"
    and rest: "handle_frames pf fs s1 = (s', Return ())"
    using Cons.prems by (auto split: prod.splits outcome.splits)
  obtain c where c: "command_of (frame_bytes f) = Some c" "does s c s1"
    using process_message_does [OF p] by blast
  then have f: "frame_command f = c" by (simp add: frame_command_def)
  obtain a1 where a1: "machine_step c (machine_of s) = (machine_of s1, a1)" "se_sent s1 = se_sent s @ map answer_bytes a1"
    using c(2) by (auto simp: does_def split: prod.splits)
  from Cons.IH [OF rest] obtain a2 where
    a2: "machine_run (map frame_command fs) (machine_of s1) = (machine_of s', a2)"
      "se_sent s' = se_sent s1 @ map answer_bytes a2" by blast
  have "machine_run (map frame_command (f # fs)) (machine_of s) = (machine_of s', a1 @ a2)"
    by (simp add: f a1(1) a2(1))
  with a1(2) a2(2) show ?case by (intro exI [of _ "a1 @ a2"]) simp
qed simp

text \<open>The commands of the frames a controller builds.\<close>

lemma frame_command_simps [simp]:
  "frame_command (ident_frame cid fw) = Identify cid"
  "frame_command (confirm_frame n) = Confirm_delete"
  "frame_command end_frame = Archive_end"
proof -
  show "frame_command (ident_frame cid fw) = Identify cid"
    using frame_rd32 [of c_controller_ident "le32 cid @ le32 fw" 0]
    by (simp add: frame_command_def command_of_def frame_bytes_def ident_frame_def frame_cmd0 ident_controller_id_def
        sizeof_values rd32_first)
  show "frame_command (confirm_frame n) = Confirm_delete"
    by (simp add: frame_command_def command_of_def frame_bytes_def confirm_frame_def frame_cmd0 tm_code_defs)
  show "frame_command end_frame = Archive_end"
    by (simp add: frame_command_def command_of_def frame_bytes_def end_frame_def frame_cmd0 frame_data_len0 tm_code_defs)
qed

lemma data_frame_command:
  assumes "payload_fits ds"
  shows "frame_command (archive_frame num time priority ds) = Archive num"
    and "frame_command (current_frame num time priority ds) = Current num"
proof -
  have "length (data_payload num time priority ds) < 0x10000" "9 \<le> length (data_payload num time priority ds)"
    using assms by (simp_all add: data_payload_def payload_fits_def)
  then have "of_nat (length (data_payload num time priority ds)) \<noteq> (0 :: u16)"
    using unat_of_nat_u16 [of "length (data_payload num time priority ds)"] by (metis le_zero_eq unat_0 zero_neq_numeral)
  then show "frame_command (archive_frame num time priority ds) = Archive num"
    using data_frame_texts(2) [OF assms, of c_archive_data num time priority]
    by (simp add: frame_command_def command_of_def frame_bytes_def archive_frame_def frame_cmd0 frame_data_len0 tm_code_defs)
  show "frame_command (current_frame num time priority ds) = Current num"
    using data_frame_texts(2) [OF assms, of c_current_data num time priority]
    by (simp add: frame_command_def command_of_def frame_bytes_def current_frame_def frame_cmd0 tm_code_defs)
qed

end
