(* ===== verification/Spec2Isabelle.thy ===== *)
theory Spec2Isabelle
  imports Dialogue Samples Info_Text Otime Float_Text Crc16 Settings Oracle Mongo Info_Package Protocol_Facts Server Startup System Hex Pb_Stream Pb_Array Pb_Access Send_Buffer Protocol_Safety Protocol_Machine
begin

text \<open>
  A verification development for the communicator, a server for the telematics controllers of the
  Omnicomm Profi protocol: controllers connect over TCP, identify themselves and send the messages
  of their archive; the server turns them into XML attributes, queues them for a database, and tells
  the controller to delete what it has accepted.

  \<^bold>\<open>The parts and where they are.\<close> Bytes arrive in \<^verbatim>\<open>client_t::handle_read\<close> and go to
  \<^verbatim>\<open>transport_protocol_t::recive_impl\<close> (theory \<open>Protocol\<close>, from \<^verbatim>\<open>omnicomm/protocol.cpp\<close>), which
  removes the byte stuffing (\<open>Stuffing\<close>), looks for a frame, checks its checksum (\<open>Crc16\<close>, from
  \<^verbatim>\<open>omnicomm/utils.cpp\<close>) through the packed structures of \<open>Transport_Messages\<close>
  (\<^verbatim>\<open>omnicomm/transport_messages.hpp\<close>) and calls a handler. Data messages go through
  \<^verbatim>\<open>parse_info_package\<close> (\<open>Info_Package\<close>, from \<^verbatim>\<open>omnicomm/info_package.cpp\<close>): each record is
  parsed by the generated protobuf classes (\<open>Pb_Runtime\<close>, \<open>Pb_Wire\<close>, \<open>Pb_General\<close>, \<open>Pb_Photo\<close>, \<open>Pb_NAV\<close>,
  \<open>Pb_UniDt\<close>, \<open>Pb_CanDt\<close>, \<open>Pb_LLSDt\<close>, \<open>Pb_LOG\<close>, \<open>Pb_RecReg\<close>, \<open>Pb_Access\<close>, \<open>Pb_Array\<close>, from
  \<^verbatim>\<open>omnicomm/message.pb.h\<close> and \<^verbatim>\<open>omnicomm/message.pb.cc\<close>) and made into an ordered map of texts (\<open>Info_Extract\<close>,
  \<open>String_Map\<close>, \<open>Otime\<close>, \<open>Float_Text\<close>). The texts are put in the queue of a storage
  (\<open>Backend\<close>, from \<^verbatim>\<open>backends/base.cpp\<close>) whose thread hands them to Oracle or RabbitMQ (\<open>Oracle\<close>,
  from \<^verbatim>\<open>backends/oracle.cpp\<close>, \<^verbatim>\<open>backends/rabbitmq.cpp\<close>, \<^verbatim>\<open>backends/factory.cpp\<close>) or MongoDB (\<open>Mongo\<close>,
  from \<^verbatim>\<open>backends/mongodb.cpp\<close> and its predecessor \<^verbatim>\<open>mongodb_backend.cpp\<close>). \<open>Settings\<close> is the configuration (\<^verbatim>\<open>settings.cpp\<close>). \<open>Client\<close> is one connection
  (\<^verbatim>\<open>client.cpp\<close>, \<^verbatim>\<open>protocol_base.cpp\<close>) and \<open>Server\<close> the list of them (\<^verbatim>\<open>server.cpp\<close>). \<open>Send_Buffer\<close>
  follows the bytes of a reply through memory into the socket. \<open>System\<close> puts
  the server and the storage thread together, as they run in one process; \<open>Collector\<close> is an abstract
  collector of messages that the process refines, and \<open>Dialogue\<close> has runs of a whole conversation; \<open>Startup\<close> is how the process
  starts (\<^verbatim>\<open>main_linux.cpp\<close>, \<^verbatim>\<open>main_win.cpp\<close>, \<^verbatim>\<open>daemon.cpp\<close>). \<open>Hex\<close> is the dump in the log (\<^verbatim>\<open>utils.cpp\<close>).
  \<open>Prelude\<close> has the machine types, exceptions and decimal output all of them share, \<open>Samples\<close> the concrete
  values the witnesses use.

  \<^bold>\<open>How the state corresponds.\<close> Members of a class are fields of a record with a prefix per class;
  the static counters and the queue, which all connections share, are the record \<open>env\<close> that the
  record \<open>session\<close> of one connection extends. A packed structure that the code overlays on the receive
  buffer is the rest of the buffer from that pointer, and a read behind its end is \<open>None\<close>, which a
  handler turns into \<open>Undefined\<close>. A function that can throw gives an \<open>outcome\<close>; the state it had
  reached is part of its result. Logging is left out everywhere.

  \<^bold>\<open>Parameters.\<close> Code that is not in the repository is a field of a parameter: the protobuf runtime
  (\<open>runtime\<close>), \<^verbatim>\<open>ParseFromArray\<close> and the boost archive (\<open>platform\<close>), the Oracle client (\<open>occi\<close>),
  libconfig (\<open>config\<close>), the MongoDB client (\<open>mongo\<close>), the regular expressions of boost. What is assumed
  of them is written in each property: that the calls of a storage return and each save adds one
  entry (C12, C13), that the runtime reads what its writer wrote (C18, C21) and that its reads consume
  input (C19), that the archive reads back the map it wrote (C11), that the Oracle client returns or
  throws (C38). \<open>Pb_Stream\<close> has one runtime on byte lists for which the laws of the wire are proved.

  \<^bold>\<open>What the lemmas show.\<close> \<open>Crc16\<close>: the table is that of the bit-serial CRC, and errors within a byte
  are found. \<open>Stuffing\<close> has the locale of an escaping scheme, and \<open>String_Map\<close> that of a map of texts;
  both are interpreted on the code's functions, and \<open>Backend\<close> has that of a storage, interpreted
  on all three storages. \<open>Protocol_Framing\<close>: handlers depend on their own message only, reads of
  the socket can be joined and cut anywhere. \<open>Protocol_Machine\<close>: the handlers as an abstract machine, which
  decides the answers (C5). \<open>Protocol_Safety\<close>: the only messages that make the receiver undefined
  (C9), and what its buffer holds (C10). \<open>Protocol_Facts\<close>: what each handler does to counters,
  queue and replies, also when the queue overflows (C7). \<open>Info_Package\<close>: the block parser accepts exactly the sequences of records.
  \<open>Info_Text\<close>: the texts can be read back. \<open>Backend\<close>: conservation of messages, capacity, when the
  thread stops, and what reaches the database. \<open>Pb_Wire\<close> has two locales for the protobuf runtime, one
  that gives termination and, on top of it, one that gives the round trip; the other \<open>Pb_\<close> theories:
  has-bits, \<^verbatim>\<open>MergeFrom\<close> as override of maps, \<^verbatim>\<open>Clear\<close>, \<^verbatim>\<open>Swap\<close>, and for each class that its parser returns,
  that it reads back what the serialiser writes, and that \<^verbatim>\<open>ByteSize\<close> is the length of that. \<open>Server\<close>
  and \<open>Client\<close>: what stays pending, and the shape of a connection. \<open>Pb_Array\<close>: the serialiser for arrays
  writes what the other one writes and stays inside an array of \<^verbatim>\<open>ByteSize\<close> bytes; \<open>Pb_Access\<close>: clearing or
  releasing a field removes it from the map. \<open>Send_Buffer\<close>: the session does not see the memory, the wire
  does. \<open>System\<close> has the locale of a simulation between labelled step relations: a run of the process is a
  run of the storage, and a run of the collector (C1), whose history says for every delete
  which accepted message allows it (C2); every completion can be handled, and nothing is lost while it runs. The properties of
  the whole program follow below; the lemmas between them are smaller facts of the same kind.

  \<^bold>\<open>Bounds and loops.\<close> The loops over a buffer and over a block are recursive functions with a
  measure. The generated parsers run on fuel, because a case of their \<^verbatim>\<open>switch\<close> may jump to any other.
  Fuel beyond the number of bytes is always enough (C19): each round of the loop and each jump has
  consumed a tag. The worker thread and the process are step relations. Platform: x86-64,
  little-endian, \<^verbatim>\<open>size_t\<close> of 64 bits.

  \<^bold>\<open>Not modelled\<close>: the inside of boost.asio (its completions are events of \<open>Server\<close>, how much of a buffer
  the socket takes and when is an argument in \<open>Send_Buffer\<close>), name resolution and signals; the server of
  the Windows \<^verbatim>\<open>main\<close>, which is made from options that no longer exist; of the generated code the
  descriptors and the reflection, which are tables for the runtime, the cached sizes, which
  \<^verbatim>\<open>ByteSize\<close> stores and a serialiser reads back (here it computes them), and the release of memory in the destructors (what a pointer returned by
  \<^verbatim>\<open>mutable_\<close> is used for is a function in \<open>Pb_Access\<close>); a write of the counter file that fails after
  the file was opened; log output, beyond the dump.
\<close>

section \<open>The whole program\<close>





section \<open>The byte stream and the handlers\<close>

text \<open>
  C3. A stream of well-formed frames, cut into reads of the socket at any places, calls the handlers
  on those frames in order, each once, and leaves an empty receive buffer: what the connection does
  depends on the messages only, not on how the network delivers them. (For frames whose handlers
  return; the messages are those of the controller, with their data bytes stuffed.)
\<close>

theorem recive_any_chunking:
  assumes "list_all frame_fits fs" and "snd (handle_frames pf fs s) = Return ()" and "idle_receiver s"
    and "concat cs = concat (map wire_frame fs)"
  shows "recive_all pf cs s = handle_frames pf fs s \<and> idle_receiver (fst (handle_frames pf fs s))"
proof -
  obtain s' where h: "handle_frames pf fs s = (s', Return ())"
    using assms(2) by (metis prod.collapse)
  from assms(4) have c: "concat cs @ [] = concat (map wire_frame fs)" by simp
  show ?thesis
    using recive_all_frames [OF assms(1) h assms(3) c] recive_frames [OF assms(1) h assms(3)]
    by (simp add: assms(4) h)
qed

theorem recive_any_chunking_witness:
  "recive_all sample_platform [take 3 (wire_frame (ident_frame 7 2)), drop 3 (wire_frame (ident_frame 7 2))] sample_session
    = handle_frames sample_platform [ident_frame 7 2] sample_session
   \<and> idle_receiver (fst (handle_frames sample_platform [ident_frame 7 2] sample_session))"
proof (rule recive_any_chunking)
  show "list_all frame_fits [ident_frame 7 2]" by (simp add: frame_fits_def ident_frame_def)
  show "snd (handle_frames sample_platform [ident_frame 7 2] sample_session) = Return ()"
    by (simp add: process_ident_frame Let_def)
qed simp_all

text \<open>
  C4. The dialogue with a controller that is known already: it identifies itself, confirms the
  first delete, sends one data message of its archive and the empty message that ends it. However
  the bytes arrive, the server sends a delete with the last accepted number, a request for the next
  one and a delete with the new number; the texts of the data message are in the queue, in order;
  the counter of the controller has the new number; the connection waits for current data.
\<close>

theorem archive_dialogue:
  assumes "idle_receiver s" and "en_counters s cid = Some n" and "n \<noteq> 0" and "num \<noteq> 0" and "can_queue pf num ds s"
    and "concat cs = concat (map wire_frame
      [ident_frame cid fw, confirm_frame n, archive_frame num time priority ds, end_frame])"
  shows "\<exists>s'. recive_all pf cs s = (s', Return ())
    \<and> se_sent s' = se_sent s @ [wire (delete_data_bytes n), wire (data_request_bytes (n + 1)), wire (delete_data_bytes num)]
    \<and> be_messages (en_backend s') = be_messages (en_backend s)
        @ numbered_texts cid fw (sint (num - of_nat (length (platform_texts pf ds)))) (platform_texts pf ds)
    \<and> en_counters s' = (en_counters s)(cid \<mapsto> num)
    \<and> se_protocol_state s' = wait_final_delete_confirm"
proof -
  let ?fs = "archive_frames cid fw n num time priority ds"
  from archive_frames_handled [OF assms(2-5), of fw time priority] obtain s' where
    s': "handle_frames pf ?fs s = (s', Return ())"
      "se_sent s' = se_sent s @ [wire (delete_data_bytes n), wire (data_request_bytes (n + 1)), wire (delete_data_bytes num)]"
      "be_messages (en_backend s') = be_messages (en_backend s)
        @ numbered_texts cid fw (sint (num - of_nat (length (platform_texts pf ds)))) (platform_texts pf ds)"
      "en_counters s' = (en_counters s)(cid \<mapsto> num)" "se_protocol_state s' = wait_final_delete_confirm" by blast
  have fits: "list_all frame_fits ?fs" using assms(5) by (simp add: can_queue_def archive_frames_fit)
  have cs: "concat cs = concat (map wire_frame ?fs)" using assms(6) by (simp add: archive_frames_def)
  have "recive_all pf cs s = (s', Return ())"
    using recive_all_frames [OF fits s'(1) assms(1), of cs "[]"] recive_frames(1) [OF fits s'(1) assms(1)] cs by simp
  with s' show ?thesis by blast
qed

theorem archive_dialogue_witness:
  "\<exists>s'. recive_all sample_platform [concat (map wire_frame [ident_frame 7 2, confirm_frame 41, archive_frame 42 0 0 [[3]], end_frame])]
        known_session = (s', Return ())
    \<and> se_sent s' = se_sent known_session @ [wire (delete_data_bytes 41), wire (data_request_bytes (41 + 1)), wire (delete_data_bytes 42)]
    \<and> be_messages (en_backend s') = be_messages (en_backend known_session)
        @ numbered_texts 7 2 (sint ((42 :: u32) - of_nat (length (platform_texts sample_platform [[3]])))) (platform_texts sample_platform [[3]])
    \<and> en_counters s' = (en_counters known_session)(7 \<mapsto> 42)
    \<and> se_protocol_state s' = wait_final_delete_confirm"
proof (rule archive_dialogue)
  show "can_queue sample_platform 42 [[3]] known_session"
    by (simp add: can_queue_def payload_fits_def queue_room_def known_session_def)
qed (simp_all add: known_session_def idle_receiver_def)

text \<open>
  C5. What the controller is answered is decided by an abstract machine that sees neither texts nor
  queue nor file: only the commands of the frames, the state of the dialogue, the number of the
  controller and the accepted numbers. However a stream of frames is cut into reads, if its handlers
  return then the machine, run on their commands, ends in the state of the session, and the bytes sent
  are those of its answers, in order.
\<close>

theorem answers_follow_machine:
  assumes "list_all frame_fits fs" and "snd (handle_frames pf fs s) = Return ()" and "idle_receiver s"
    and "concat cs = concat (map wire_frame fs)"
  shows "\<exists>s' answers. recive_all pf cs s = (s', Return ())
    \<and> machine_run (map frame_command fs) (machine_of s) = (machine_of s', answers)
    \<and> se_sent s' = se_sent s @ map answer_bytes answers"
proof -
  obtain s' where h: "handle_frames pf fs s = (s', Return ())"
    using assms(2) by (metis prod.collapse)
  from assms(4) have c: "concat cs @ [] = concat (map wire_frame fs)" by simp
  have "recive_all pf cs s = (s', Return ())"
    using recive_all_frames [OF assms(1) h assms(3) c] recive_frames(1) [OF assms(1) h assms(3)] by (simp add: assms(4))
  with handle_frames_machine [OF h] show ?thesis by blast
qed

theorem answers_follow_machine_witness:
  "\<exists>s' answers. recive_all sample_platform [concat (map wire_frame (archive_frames 7 2 41 42 0 0 [[3]]))] known_session = (s', Return ())
    \<and> machine_run (map frame_command (archive_frames 7 2 41 42 0 0 [[3]])) (machine_of known_session) = (machine_of s', answers)
    \<and> se_sent s' = se_sent known_session @ map answer_bytes answers"
proof (rule answers_follow_machine)
  have can: "can_queue sample_platform 42 [[3]] known_session"
    by (simp add: can_queue_def payload_fits_def queue_room_def known_session_def)
  then show "list_all frame_fits (archive_frames 7 2 41 42 0 0 [[3]])"
    by (simp add: can_queue_def archive_frames_fit)
  have "en_counters known_session 7 = Some 41" by (simp add: known_session_def)
  from archive_frames_handled [OF this _ _ can, of 2 0 0]
  show "snd (handle_frames sample_platform (archive_frames 7 2 41 42 0 0 [[3]]) known_session) = Return ()"
    by fastforce
qed simp_all

text \<open>
  No handler of data asks whether the controller has identified itself: on a connection without any
  identification the texts of a data message are queued, and accepted for the controller 0.
\<close>

lemma data_without_identification:
  assumes "can_queue pf num ds (transport_protocol_new e)"
  shows "\<exists>s'. process_message pf (frame_bytes (current_frame num time priority ds)) (transport_protocol_new e) = (s', Return ())
    \<and> en_counters s' = (en_counters e)(0 \<mapsto> num) \<and> se_controller_id s' = 0
    \<and> be_messages (en_backend s') = be_messages (en_backend e) @ frame_texts pf num ds (transport_protocol_new e)"
  using process_current_frame [OF assms, of time priority]
  by (simp add: send_delete_step transport_protocol_new_def env.defs session.defs)

text \<open>
  The safety of deletes. Whatever a message is and however its handler ends: either no counter
  changes, or the counter of this controller becomes the number of a data message whose texts have
  all been put in the queue; and at most one reply is sent, which is a request, or a delete whose
  number is the counter of this controller after the step and not 0. So a controller is never told
  to delete a message whose text was not queued before, or stored in the counter file by an earlier
  run.
\<close>

lemma deletes_only_accepted:
  assumes "process_message pf hdr s = (s', r)"
  shows "counter_step pf hdr s s' \<and> reply_step s s'"
  by (rule process_message_step [OF assms])

text \<open>
  C6. A data message that cannot be taken whole, because its block is malformed, its structure is
  too short or the queue is full, moves no counter, writes no file and sends nothing; and its
  exception closes the connection. The controller will send the message again.
\<close>

theorem failed_data_keeps_counter:
  assumes "dispatch_message pf hdr s = (s', Throw e)"
  shows "en_counters s' = en_counters s \<and> en_file s' = en_file s \<and> se_sent s' = se_sent s
    \<and> process_message pf hdr s = (client_stop s', Throw e) \<and> \<not> se_open (client_stop s')"
proof -
  have "en_counters s' = en_counters s \<and> en_file s' = en_file s \<and> se_sent s' = se_sent s"
    using assms accept_data_fails [of pf hdr s s' "Throw e"]
    by (auto simp: dispatch_message_def process_controller_ident_def process_current_data_def process_archive_data_def
        process_delete_confirmation_def Let_def split: prod.splits outcome.splits option.splits if_splits)
  with assms show ?thesis by (simp add: process_message_def client_stop_def)
qed

theorem failed_data_keeps_counter_witness:
  "en_counters known_session = en_counters known_session \<and> en_file known_session = en_file known_session
    \<and> se_sent known_session = se_sent known_session
    \<and> process_message sample_platform (frame_bytes (c_archive_data, [1])) known_session =
        (client_stop known_session, Throw (Length_error ''Wrong message size''))
    \<and> \<not> se_open (client_stop known_session)"
proof (rule failed_data_keeps_counter)
  show "dispatch_message sample_platform (frame_bytes (c_archive_data, [1])) known_session =
      (known_session, Throw (Length_error ''Wrong message size''))"
    by (simp add: dispatch_message_def frame_bytes_def frame_cmd0 tm_code_defs process_archive_data_def
        frame_data_len0 accept_data_def frame_check_length sizeof_values)
qed

text \<open>
  C7. A message that overflows the queue is queued twice in part. The texts for which there was room
  stay in the queue, although the connection is closed, no counter moves and nothing is answered; so the
  controller, in a later connection, sends the message again, and then all its texts are queued, those
  again that were queued the first time.
\<close>

theorem overflow_queues_twice:
  assumes "overflows pf num ds s" and "can_queue pf num ds s2"
    and "se_controller_id s2 = se_controller_id s" and "se_firmware_version s2 = se_firmware_version s"
  shows "\<exists>s1 s3. process_message pf (frame_bytes (archive_frame num time priority ds)) s =
        (s1, Throw (Overflow_error ''Message buffer capacity exceeded''))
    \<and> \<not> se_open s1 \<and> en_counters s1 = en_counters s \<and> se_sent s1 = se_sent s
    \<and> be_messages (en_backend s1) = be_messages (en_backend s) @ take (free_places s) (frame_texts pf num ds s)
    \<and> process_message pf (frame_bytes (archive_frame num time priority ds)) s2 = (s3, Return ())
    \<and> be_messages (en_backend s3) = be_messages (en_backend s2) @ frame_texts pf num ds s"
  using process_archive_overflow [OF assms(1), of time priority] process_archive_frame [OF assms(2), of time priority]
    assms(3,4)
  by (simp add: client_stop_def put_queue_messages frame_texts_def)

theorem overflow_queues_twice_witness:
  "\<exists>s1 s3. process_message sample_platform (frame_bytes (archive_frame 42 0 0 [[3, 4]])) full_session =
        (s1, Throw (Overflow_error ''Message buffer capacity exceeded''))
    \<and> \<not> se_open s1 \<and> en_counters s1 = en_counters full_session \<and> se_sent s1 = se_sent full_session
    \<and> be_messages (en_backend s1) = be_messages (en_backend full_session)
        @ take (free_places full_session) (frame_texts sample_platform 42 [[3, 4]] full_session)
    \<and> process_message sample_platform (frame_bytes (archive_frame 42 0 0 [[3, 4]])) known_session = (s3, Return ())
    \<and> be_messages (en_backend s3) = be_messages (en_backend known_session)
        @ frame_texts sample_platform 42 [[3, 4]] full_session"
proof (rule overflow_queues_twice)
  show "overflows sample_platform 42 [[3, 4]] full_session"
    by (simp add: overflows_def payload_fits_def queue_room_def full_session_def known_session_def within_capacity_def
        set_capacity_def)
  show "can_queue sample_platform 42 [[3, 4]] known_session"
    by (simp add: can_queue_def payload_fits_def queue_room_def known_session_def)
qed (simp_all add: full_session_def)

text \<open>
  C8. A frame with one wrong byte in its command or its data is never handled: the checksum finds
  it, the connection is closed, and nothing else changes but the receive buffer.
\<close>

theorem damaged_frame_rejected:
  assumes "frame_fits f" and "damages f i b" and "idle_receiver s"
  shows "recive_impl pf (wire_bytes (damaged f i b)) s = ((client_stop s)\<lparr>se_buffer := damaged f i b\<rparr>, Return ())"
  by (rule recive_damaged [OF assms])

theorem damaged_frame_rejected_witness:
  "recive_impl sample_platform (wire_bytes (damaged (confirm_frame 5) 1 0x86)) sample_session =
    ((client_stop sample_session)\<lparr>se_buffer := damaged (confirm_frame 5) 1 0x86\<rparr>, Return ())"
proof (rule damaged_frame_rejected)
  show "damages (confirm_frame 5) 1 0x86"
    by (simp add: damages_def confirm_frame_def frame_bytes_def controller_frame_def frame_body_def c_delete_confirm_def)
qed (simp_all add: frame_fits_def confirm_frame_def)



text \<open>
  C10. What the receive buffer holds while a connection is open: after each read that returns, bytes
  without a delimiter and then less than one frame, at most 65540 bytes. But the bytes before the first
  delimiter have no bound: of a stream without delimiters and escapes every byte is kept, however long
  it is, and the connection stays as it is.
\<close>

theorem receive_buffer_holds:
  "(recive_impl pf data s = (s', Return ()) \<and> se_open s' \<longrightarrow>
      (\<exists>noise part. se_buffer s' = noise @ part \<and> 0xC0 \<notin> set noise \<and> (part = [] \<or> hd part = 0xC0) \<and> length part < 65541))
    \<and> (no_delimiter (concat cs) \<and> 0xC0 \<notin> set (se_buffer t) \<and> se_state t = normal \<longrightarrow>
      recive_all pf cs t = (t\<lparr>se_buffer := se_buffer t @ concat cs\<rparr>, Return ()))"
  using recive_impl_held [of pf data s s'] recive_all_no_delimiter [of cs t pf] by (auto simp: held_def)

theorem receive_buffer_holds_witness:
  "recive_all sample_platform [replicate 8191 0x41, replicate 8191 0x42] sample_session =
    (sample_session\<lparr>se_buffer := se_buffer sample_session @ concat [replicate 8191 0x41, replicate 8191 0x42]\<rparr>, Return ())"
  by (rule receive_buffer_holds [THEN conjunct2, THEN mp]) (simp add: no_delimiter_def list_all_iff)

text \<open>
  And the numbers do overflow: a message whose texts reach \<open>2 ^ 31\<close> makes the code undefined when the
  queue has room for them.
\<close>

lemma numbers_overflow:
  fixes num :: u32
  assumes "queue_room (length texts) s" and "2 ^ 31 < sint (num - of_nat (length texts)) + int (length texts)"
  shows "snd (queue_messages (sint (num - of_nat (length texts))) texts s) = Undefined"
  by (rule queue_messages_overflowing [OF assms(1) _ assms(2)]) (use sint_lt [of "num - of_nat (length texts) :: u32"] in simp)

text \<open>
  C11. A data message accepted while the counter file can be written survives a restart: the
  counters loaded by \<^verbatim>\<open>init_protocol\<close> are those before the stop, given that the archive reads back
  the map it wrote.
\<close>

theorem counters_survive_restart:
  fixes s :: "'f session"
  assumes "\<forall>m m0. pf_archive_read pf (pf_archive_write pf m) m0 = m" and "en_file_opens s"
    and "accept_data pf hdr s = (s', Return ())"
  shows "\<exists>num. resp_last_mes_number hdr = Some num
    \<and> en_counters (init_protocol pf (s'\<lparr>en_counters := Map.empty\<rparr>)) = (en_counters s)(se_controller_id s \<mapsto> num)"
proof -
  from accept_data_Return [OF assms(3)] obtain num where num: "resp_last_mes_number hdr = Some num"
    and s': "s' = set_last_counter pf (se_controller_id s) num (put_queue (data_texts pf hdr num s) s)" by blast
  then show ?thesis
    using assms(1,2) by (simp add: set_last_counter_eq init_protocol_def load_counters_def)
qed

theorem counters_survive_restart_witness:
  "\<exists>num. resp_last_mes_number (controller_frame c_archive_data (data_payload 42 0 0 [[3]])) = Some num
    \<and> en_counters (init_protocol sample_platform
          ((set_last_counter sample_platform (se_controller_id known_session) 42
             (put_queue (frame_texts sample_platform 42 [[3]] known_session) known_session))\<lparr>en_counters := Map.empty\<rparr>))
        = (en_counters known_session)(se_controller_id known_session \<mapsto> num)"
proof (rule counters_survive_restart)
  show "accept_data sample_platform (controller_frame c_archive_data (data_payload 42 0 0 [[3]])) known_session =
    (set_last_counter sample_platform (se_controller_id known_session) 42
       (put_queue (frame_texts sample_platform 42 [[3]] known_session) known_session), Return ())"
    by (rule accept_data_frame)
      (simp add: can_queue_def payload_fits_def queue_room_def known_session_def)
qed (simp_all add: sample_platform_def known_session_def)

section \<open>The whole process\<close>





text \<open>
  C14. A normal stop loses what controllers were told to delete. For every server and every controller
  that is known to it, the following is a run of the whole process: the controller connects, sends one
  data message of its archive and the empty one that ends it, and gets the delete for that message;
  then the stop signal comes while the storage thread sleeps. The thread ends, nothing has reached the
  database, and the texts of the message are in the queue, which is destroyed with the storage.
\<close>

theorem stop_loses_acknowledged_texts:
  assumes "server_new oc options d failure now e = Return v" and "en_counters e cid = Some n" and "n \<noteq> 0" and "num \<noteq> 0"
    and "can_queue pf num ds (transport_protocol_new (sv_env v))"
    and "length (concat (map wire_frame (archive_frames cid fw n num time priority ds))) < async_buffer_size"
  shows "\<exists>evs y c. run (system_step pf st) (system_new v store) evs y
    \<and> sv_clients (sy_server y) = [c] \<and> wire (delete_data_bytes num) \<in> set (se_sent c)
    \<and> be_messages (store_backend y) =
        numbered_texts cid fw (sint (num - of_nat (length (platform_texts pf ds)))) (platform_texts pf ds)
    \<and> wk_thread (sy_worker y) = Some Ended \<and> wk_store (sy_worker y) = store"
  using stop_loses_acknowledged [OF server_new_fresh(1) [OF assms(1)] _ assms(3-6), of st store]
    server_new_fresh(2) [OF assms(1)] server_new_queue [OF assms(1)] assms(2) by simp

theorem stop_loses_acknowledged_texts_witness:
  "\<exists>evs y c. run (system_step sample_platform taking_storage) (system_new known_server []) evs y
    \<and> sv_clients (sy_server y) = [c] \<and> wire (delete_data_bytes 42) \<in> set (se_sent c)
    \<and> be_messages (store_backend y) =
        numbered_texts 7 2 (sint ((42 :: u32) - of_nat (length (platform_texts sample_platform [[3]])))) (platform_texts sample_platform [[3]])
    \<and> wk_thread (sy_worker y) = Some Ended \<and> wk_store (sy_worker y) = []"
  by (rule stop_loses_acknowledged_texts [OF known_server_new _ _ _ known_can_queue known_frames_short]) (simp_all add: known_env_def)

text \<open>
  The step of the storage behind it: when the thread sleeps, the request of \<^verbatim>\<open>stop\<close> ends it with its
  next step, \<^verbatim>\<open>join\<close> returns, and the queue is as it was.
\<close>

lemma stop_discards_queue:
  assumes "bk_thread b = Some Asleep"
  shows "\<exists>b' b''. work_steps 1 st (stop_interrupt b) = Some b' \<and> stop_join b' = Some b'' \<and> bk_thread b'' = None
    \<and> be_messages b'' = be_messages b \<and> bk_store b'' = bk_store b"
  using stop_asleep [OF assms] by auto

text \<open>
  C15. The types of the connections: after any sequence of completions a read is only pending for a
  connection whose protocol has been given its client, so \<^verbatim>\<open>get_manipulator\<close> never hands out a null
  pointer to the handler of that read; and no more writes have completed than were started.
\<close>

theorem protocol_knows_client:
  assumes "server_new oc options d failure now e = Return v" and "server_run pf v es v'"
    and "c \<in> set (sv_clients v')"
  shows "(cl_reading c \<longrightarrow> get_manipulator c = Return ()) \<and> cl_written c \<le> length (se_sent c)"
  using server_run_wf [OF assms(2) server_new_wf [OF assms(1)]] assms(3)
  by (auto simp: server_wf_def client_wf_def list_all_iff get_manipulator_def)

theorem protocol_knows_client_witness:
  "get_manipulator (client_start (Some ''peer'') (client_create (protocol_create sample_env))) = Return ()"
proof (rule protocol_knows_client [OF sample_server_new, THEN conjunct1, THEN mp])
  let ?c = "client_create (protocol_create sample_env)"
  show "server_run sample_platform sample_server ([] @ [Accepted Success (Some ''peer'')])
      (handle_accept Success (Some ''peer'') ?c sample_server)"
    by (intro server_run.event [OF server_run.idle]) simp_all
  have "sv_acceptor_open sample_server" by (simp add: sample_server_def start_accept_def bind_signals_def)
  then show "client_start (Some ''peer'') ?c \<in> set (sv_clients (handle_accept Success (Some ''peer'') ?c sample_server))"
    by (simp add: handle_accept_def start_accept_def Let_def)
  show "cl_reading (client_start (Some ''peer'') ?c)" by (simp add: client_start_def)
qed

text \<open>
  C16. The timer destroys connections that still have work to complete. For every server the following
  is a run: a controller connects and identifies itself, the answer to it is being written, the read
  that is pending fails and closes the connection, and the next tick destroys it. The completion of the
  write is due then, and it uses the destroyed object. (No other events are needed: as long as each tick
  only finds closed connections whose writes are done, no write is left over.)
\<close>

theorem closed_connection_outlived:
  assumes "server_new oc options d failure now e = Return v"
  shows "(\<exists>v'. server_run pf v [Accepted Success (Some name), Read 0 Success (wire_frame (ident_frame cid fw)),
          Read 0 Other_error [], Tick Success] v'
        \<and> sv_clients v' = [] \<and> enabled Wrote_orphan v' \<and> snd (server_event pf Wrote_orphan v') = Undefined)
    \<and> (tick_is_safe v2 \<longrightarrow> sv_orphans (handle_timer Success v2) = sv_orphans v2)"
  using write_outlives_connection [OF server_new_fresh(1) [OF assms], of pf name cid fw]
  by (auto simp: tick_is_safe_def handle_timer_def Let_def drop_unused_clients_def list_all_iff sum_list_eq_0_iff)

theorem closed_connection_outlived_witness:
  "\<exists>v'. server_run sample_platform sample_server [Accepted Success (Some ''peer''), Read 0 Success (wire_frame (ident_frame 7 2)),
        Read 0 Other_error [], Tick Success] v'
    \<and> sv_clients v' = [] \<and> enabled Wrote_orphan v' \<and> snd (server_event sample_platform Wrote_orphan v') = Undefined"
  by (rule closed_connection_outlived [OF sample_server_new, THEN conjunct1])



section \<open>Messages on the wire\<close>



text \<open>
  C19. The parser returns on every input: whatever the bytes are, damaged or hostile, the loop over
  the tags, the jumps between its cases and the groups inside it end within one step more than there
  are bytes. For every runtime whose reads consume input.
\<close>

theorem recreg_parser_returns:
  assumes "input_stream rt remaining" and "remaining s < fuel"
  shows "\<exists>ok s' m'. rr_parse fuel rt s m = Some (ok, s', m') \<and> remaining s' \<le> remaining s"
  by (rule input_stream.rr_parse_returns [OF assms])

theorem recreg_parser_returns_witness:
  "\<exists>ok s' m'. rr_parse 6 pb_rt ([0x13, 0xFF, 0xFF, 0x00, 0x14], 0) (rr_new []) = Some (ok, s', m')
    \<and> length (fst s') \<le> length (fst ([0x13, 0xFF, 0xFF, 0x00, 0x14] :: byte list, 0 :: u32))"
  by (rule recreg_parser_returns [OF pb.input_stream_axioms]) simp



text \<open>
  C21. From the controller's messages to the texts: when a data frame carries the serialised messages
  as its records, the texts of the package are those of the messages, all of them and in order.
\<close>

theorem messages_reach_texts:
  assumes "wire_format (pf_runtime pf) rem wr tag_was" and "pf_parse pf = parse_from_array (pf_runtime pf) open_array ended"
    and "\<And>bs. rem (open_array bs) = bs" and "\<And>s. rem s = [] \<Longrightarrow> ended s"
    and "list_all (sendable (pf_runtime pf) wr) ms" and "payload_fits (map (rr_serialize (pf_runtime pf) wr) ms)"
  shows "package_texts pf (controller_frame cmd (data_payload num time priority (map (rr_serialize (pf_runtime pf) wr) ms))) =
    (concat (map (message_texts (pf_runtime pf) (extract_message (pf_runtime pf))) ms), Return ())"
proof -
  let ?texts = "message_texts (pf_runtime pf) (extract_message (pf_runtime pf))"
  have "?texts (snd (pf_parse pf (rr_serialize (pf_runtime pf) wr m))) = ?texts m" if "m \<in> set ms" for m
  proof -
    have "sendable (pf_runtime pf) wr m" using assms(5) that by (simp add: list_all_iff)
    then show ?thesis
      using wire_format.parse_from_array_written [OF assms(1,3,4)] assms(2) by simp
  qed
  then have texts: "platform_texts pf (map (rr_serialize (pf_runtime pf) wr) ms) = concat (map ?texts ms)"
    by (simp add: platform_texts_def record_texts_def o_def cong: map_cong)
  show ?thesis unfolding data_frame_texts(1) [OF assms(6)] texts ..
qed

theorem messages_reach_texts_witness:
  "package_texts stream_platform (controller_frame 0x86 (data_payload 42 1000 1
      (map (rr_serialize (pf_runtime stream_platform) pb_wr) [sample_message]))) =
    (concat (map (message_texts (pf_runtime stream_platform) (extract_message (pf_runtime stream_platform))) [sample_message]),
      Return ())"
proof (rule messages_reach_texts [where rem = fst])
  show "wire_format (pf_runtime stream_platform) fst pb_wr (\<lambda>s t. snd s = t)"
    using pb.wire_format_axioms by (simp add: stream_platform_def)
  show "pf_parse stream_platform = parse_from_array (pf_runtime stream_platform) (\<lambda>bs. (bs, 0)) (\<lambda>s. fst s = [])"
    by (simp add: stream_platform_def pb_parse_def)
  show "payload_fits (map (rr_serialize (pf_runtime stream_platform) pb_wr) [sample_message])"
    using sample_message_short by (simp add: payload_fits_def stream_platform_def)
qed (simp_all add: sample_message_sendable stream_platform_def)

section \<open>Checksum and stuffing\<close>

text \<open>
  C22. The table-driven \<^verbatim>\<open>crc16\<close> computes, for every block of data, the bit-serial CRC with the
  polynomial 0x1021 and the initial value 0xFFFF: the 256 constants of the table are right.
\<close>

theorem crc16_is_bit_serial: "crc16 data = crc_serial data"
  by (rule crc16_serial)

text \<open>
  C23. What \<^verbatim>\<open>send\<close> hands to the socket for a message of the code contains the delimiter only as
  its first byte, is at most twice as long, and a receiver that destuffs it gets the message back
  followed by its checksum, low byte first.
\<close>

theorem send_roundtrip:
  assumes "send_buffer (0xC0 # rest) = Some buffer"
  shows "store_bytes normal [] buffer = (normal, 0xC0 # with_crc_le rest)
    \<and> hd buffer = 0xC0 \<and> 0xC0 \<notin> set (tl buffer) \<and> length buffer \<le> 1 + 2 * (length rest + 2)"
proof -
  have b: "buffer = 0xC0 # concat (map stuff (with_crc_le rest))"
    using assms by (simp add: send_buffer_Cons)
  have "store_bytes normal [] buffer = (normal, [0xC0] @ with_crc_le rest)"
    using store_bytes_append [of normal "[]" "[0xC0]" "concat (map stuff (with_crc_le rest))"]
      store_delimiter [of "[]"] store_stuffed [of "[0xC0]"] by (simp add: b)
  moreover have "0xC0 \<notin> set (tl buffer)" using stuffed_clean [of "with_crc_le rest"] by (simp add: b)
  moreover have "length buffer \<le> 1 + 2 * (length rest + 2)"
    using length_stuff_all [of "with_crc_le rest"] by (simp add: b with_crc_le_def)
  ultimately show ?thesis by (simp add: b)
qed

theorem send_roundtrip_witness:
  "store_bytes normal [] (0xC0 # concat (map stuff (with_crc_le [0xC0, 0xDB]))) = (normal, 0xC0 # with_crc_le [0xC0, 0xDB])
    \<and> hd (0xC0 # concat (map stuff (with_crc_le [0xC0, 0xDB]))) = 0xC0
    \<and> 0xC0 \<notin> set (tl (0xC0 # concat (map stuff (with_crc_le [0xC0, 0xDB]))))
    \<and> length (0xC0 # concat (map stuff (with_crc_le [0xC0, 0xDB]))) \<le> 1 + 2 * (length [0xC0, 0xDB :: byte] + 2)"
  by (rule send_roundtrip [OF send_buffer_Cons])

text \<open>
  C24. What is called sent leaves the process only if the socket takes each buffer whole and at once.
  \<^verbatim>\<open>send\<close> gives \<^verbatim>\<open>async_send\<close> the address of a local vector. Whatever is sent and however much of it the
  socket takes: the session is that of the abstract \<open>send\<close>; the bytes on the wire are those of its
  buffers exactly when every call took its whole buffer before it returned, since no one sends a rest;
  and a write that is still pending, carried out later, reads memory that was freed.
\<close>

theorem sent_leaves_only_at_once:
  assumes "link_run es (link_new s) = Return l"
  shows "lk_session l = fold send (concat (map calls es)) s
    \<and> (concat (se_sent (lk_session l)) = concat (se_sent s) @ lk_wire l \<longleftrightarrow> list_all taken_whole es)
    \<and> (lk_pending l \<noteq> [] \<longrightarrow> writable k l = Undefined)"
proof -
  have l: "no_vectors l" "lk_session l = fold send (concat (map calls es)) s" "lk_wire l = concat (map leaves es)"
    using link_run_effect [OF assms] by (simp_all add: link_new_def no_vectors_def)
  have "concat (map given es) = concat (map leaves es) \<longleftrightarrow> list_all taken_whole es"
    using concat_shorter [of leaves given es, OF leaves_prefix] by (auto simp: taken_whole_iff cong: list.pred_cong)
  with l writable_effect [OF l(1)] show ?thesis by (simp add: sends_sent)
qed

theorem sent_leaves_only_at_once_witness:
  "\<exists>l. link_run [Send (At_once 3) (data_request_bytes 0), Send Later (delete_data_bytes 5)] (link_new sample_session) = Return l
    \<and> concat (se_sent (lk_session l)) \<noteq> concat (se_sent sample_session) @ lk_wire l
    \<and> writable 9 l = Undefined"
proof -
  obtain l1 where l1: "send_at (At_once 3) (data_request_bytes 0) (link_new sample_session) = Return l1" "no_vectors l1"
    using send_at_effect [OF link_new_no_vectors] by blast
  obtain l where l: "send_at Later (delete_data_bytes 5) l1 = Return l" "lk_pending l \<noteq> []"
    using send_at_later [OF l1(2) message_bytes_nonempty(1), of 5] by blast
  have run: "link_run [Send (At_once 3) (data_request_bytes 0), Send Later (delete_data_bytes 5)] (link_new sample_session) = Return l"
    by (simp only: link_run.simps link_step.simps l1 l and_then.simps)
  note all = sent_leaves_only_at_once [OF run, of 9]
  have "\<not> list_all taken_whole [Send (At_once 3) (data_request_bytes 0), Send Later (delete_data_bytes 5)]"
    by (simp only: list.pred_inject taken_whole.simps message_bytes_nonempty simp_thms)
  with all [THEN conjunct2, THEN conjunct1]
  have "concat (se_sent (lk_session l)) \<noteq> concat (se_sent sample_session) @ lk_wire l" by (simp only: simp_thms)
  moreover have "writable 9 l = Undefined" by (rule all [THEN conjunct2, THEN conjunct2, THEN mp, OF l(2)])
  ultimately show ?thesis using run by blast
qed

text \<open>
  The checksum detects every error confined to one byte: two messages that differ in exactly one
  byte never have the same checksum.
\<close>

lemma crc16_detects_one_byte:
  assumes "b \<noteq> c"
  shows "crc16 (pre @ b # post) \<noteq> crc16 (pre @ c # post)"
  using crc16_one_byte_error assms by blast

lemma crc16_detects_one_byte_witness: "crc16 ([0x86] @ 0x01 # [0x02]) \<noteq> crc16 ([0x86] @ 0x03 # [0x02])"
  by (rule crc16_detects_one_byte) simp

section \<open>Reads of the socket\<close>

text \<open>
  C25. Two reads are one read of the joined bytes, whatever the bytes are: when the first call of
  \<^verbatim>\<open>recive_impl\<close> returns, the second one does what a single call on both parts would have done, with
  the same outcome; the states can differ only in the receive buffer, and only if it throws.
\<close>

theorem recive_joins:
  assumes "recive_impl pf a s = (s', Return ())"
  shows "same_but_buffer (recive_impl pf (a @ b) s) (recive_impl pf b s')
    \<and> (snd (recive_impl pf b s') = Return () \<longrightarrow> recive_impl pf (a @ b) s = recive_impl pf b s')"
  by (rule recive_split [OF assms])

theorem recive_joins_witness:
  "same_but_buffer (recive_impl sample_platform ([0xC0, 0x80] @ [0xC0]) sample_session)
      (recive_impl sample_platform [0xC0] (sample_session\<lparr>se_buffer := [0xC0, 0x80]\<rparr>))"
proof (rule recive_joins [THEN conjunct1])
  have "store_data [0xC0, 0x80] sample_session = sample_session\<lparr>se_buffer := [0xC0, 0x80]\<rparr>"
    by (simp add: store_data_def store_bytes_def)
  moreover have "look_for [0xC0, 0x80] 0 = Waiting"
    by (simp add: look_for_def Let_def find_from_def sizeof_values)
  ultimately show "recive_impl sample_platform [0xC0, 0x80] sample_session =
      (sample_session\<lparr>se_buffer := [0xC0, 0x80]\<rparr>, Return ())"
    by (simp add: recive_impl_end recive_end_def recive_loop_look)
qed

text \<open>
  The protocol never enters the state \<^verbatim>\<open>process_current\<close>: from any other state, every call of
  \<^verbatim>\<open>recive_impl\<close>, with whatever data and outcome, stays in the four other states.
\<close>

lemma process_current_unused:
  assumes "recive_impl pf data s = (s', r)" and "se_protocol_state s \<noteq> process_current"
  shows "se_protocol_state s' \<noteq> process_current"
  using assms(1,2)
proof (rule recive_impl_induct)
  show "se_protocol_state s1 \<noteq> process_current"
    if "se_protocol_state s0 \<noteq> process_current" "process_message pf hdr s0 = (s1, x)" for hdr s0 s1 x
    using process_message_state [OF that(2)] that(1) by auto
qed (simp_all add: client_stop_def frame_simps)

lemma process_current_unused_witness: "se_protocol_state (sample_session\<lparr>se_buffer := [0x01]\<rparr>) \<noteq> process_current"
proof (rule process_current_unused)
  have "store_data [0x01] sample_session = sample_session\<lparr>se_buffer := [0x01]\<rparr>"
    by (simp add: store_data_def store_bytes_def)
  moreover have "look_for [0x01] 0 = Waiting"
    by (simp add: look_for_def Let_def find_from_def sizeof_values)
  ultimately show "recive_impl sample_platform [0x01] sample_session = (sample_session\<lparr>se_buffer := [0x01]\<rparr>, Return ())"
    by (simp add: recive_impl_end recive_end_def recive_loop_look)
qed simp

text \<open>
  When \<^verbatim>\<open>recive_impl\<close> throws, the connection has been closed: no exception of a handler leaves
  an open socket behind.
\<close>

lemma exception_closes_connection:
  assumes "recive_impl pf data s = (s', Throw e)"
  shows "\<not> se_open s'"
  by (rule recive_impl_Throw [OF assms])

section \<open>Data blocks\<close>

text \<open>
  C26. The loop over a data block accepts exactly the sequences of records: for a block inside the
  buffer, whatever is behind it and whatever the parser, it ends normally with a result if and only if
  the bytes of the block are records one behind the other and the result has, after what was there
  before, the texts of these records, all of them and in order. Nothing is skipped, read twice or made up.
\<close>

theorem info_block_exact:
  assumes "len \<le> length mem"
  shows "info_loop parse texts mem len 0 messages = (result, Return ()) \<longleftrightarrow>
    (\<exists>ds. list_all record_fits ds \<and> take len mem = encode_records ds \<and> result = messages @ record_texts parse texts ds)"
proof
  assume "info_loop parse texts mem len 0 messages = (result, Return ())"
  from info_loop_sound [OF this _ assms]
  show "\<exists>ds. list_all record_fits ds \<and> take len mem = encode_records ds \<and> result = messages @ record_texts parse texts ds"
    by simp
next
  assume "\<exists>ds. list_all record_fits ds \<and> take len mem = encode_records ds \<and> result = messages @ record_texts parse texts ds"
  then obtain ds where ds: "list_all record_fits ds" "take len mem = encode_records ds"
    and result: "result = messages @ record_texts parse texts ds" by blast
  from ds(2) assms have "len = length (encode_records ds)" by (metis length_take min.absorb2)
  from info_loop_complete [OF ds(1) this, of parse texts "drop len mem"]
  show "info_loop parse texts mem len 0 messages = (result, Return ())"
    unfolding result ds(2) [symmetric] append_take_drop_id .
qed

theorem info_block_exact_witness:
  "\<exists>ds. list_all record_fits ds \<and> take 3 [1, 0, 5, 9, 9] = encode_records ds
    \<and> [''x''] = [] @ record_texts sample_parse (\<lambda>m. [''x'']) ds"
proof (rule info_block_exact [THEN iffD1])
  show "info_loop sample_parse (\<lambda>m. [''x'']) [1, 0, 5, 9, 9] 3 0 [] = ([''x''], Return ())"
    by (subst info_loop.simps) (simp add: info_data_size_def rd16_def info_size_def sizeof_values split: prod.split)
qed simp

text \<open>
  C27. A data message of 7 or 8 bytes passes the length check, which counts the checksum as data,
  and then the length of its block wraps around in \<^verbatim>\<open>size_t\<close>: the loop reads memory outside the
  receive buffer, whatever follows the message (less than \<open>2 ^ 62\<close> bytes) and whatever the parser.
\<close>

theorem short_data_message_reads_outside:
  assumes "length payload = 7 \<or> length payload = 8" and "cmd = c_archive_data \<or> cmd = c_current_data"
    and "length post < 2 ^ 62"
  shows "snd (process_message pf (controller_frame cmd payload @ post) s) = Undefined"
  by (rule short_data_undefined [OF assms])

theorem short_data_message_reads_outside_witness:
  "snd (process_message sample_platform (controller_frame c_archive_data [1, 0, 0, 0, 0, 0, 0] @ []) sample_session) = Undefined"
  by (rule short_data_message_reads_outside) simp_all

text \<open>
  An identification of 6 bytes passes the length check too, and the upper half of the firmware
  version the server keeps is the checksum of the frame.
\<close>

lemma short_ident_takes_checksum:
  assumes "length payload = 6"
  shows "check_length sizeof_controller_ident (controller_frame c_controller_ident payload) = Return ()
    \<and> (\<exists>v. ident_firmware_version (controller_frame c_controller_ident payload) = Some v
      \<and> [ucast (drop_bit 16 v), ucast (drop_bit 24 v)] = frame_crc c_controller_ident payload)"
  using short_ident_reads_crc [OF assms] by blast

lemma short_ident_takes_checksum_witness:
  "check_length sizeof_controller_ident (controller_frame c_controller_ident [1, 0, 0, 0, 2, 0]) = Return ()
    \<and> (\<exists>v. ident_firmware_version (controller_frame c_controller_ident [1, 0, 0, 0, 2, 0]) = Some v
      \<and> [ucast (drop_bit 16 v), ucast (drop_bit 24 v)] = frame_crc c_controller_ident [1, 0, 0, 0, 2, 0])"
  by (rule short_ident_takes_checksum) simp

text \<open>
  C28. A data message that fits gives its texts consecutive numbers that end just before the number
  of the message: the text at position \<open>i\<close> of \<open>k\<close> gets \<open>last_mes_number - k + i\<close>, so none of them gets
  \<open>last_mes_number\<close> itself, while that is the number the counter takes.
\<close>

theorem texts_numbered_below_last:
  assumes "can_queue pf num ds s" and "i < length (platform_texts pf ds)" and "length (platform_texts pf ds) \<le> unat num"
    and "unat num < 2 ^ 31"
  shows "\<exists>s'. process_message pf (frame_bytes (archive_frame num time priority ds)) s = (s', Return ())
    \<and> be_messages (en_backend s') ! (length (be_messages (en_backend s)) + i) =
        numbered_text (se_controller_id s) (se_firmware_version s)
          (int (unat num) - int (length (platform_texts pf ds)) + int i) (platform_texts pf ds ! i)
    \<and> en_counters s' (se_controller_id s) = Some num"
proof -
  let ?t = "platform_texts pf ds"
  have "num - of_nat (length ?t) = of_nat (unat num - length ?t)" using assms(3) by (simp add: of_nat_diff)
  moreover have "unat num - length ?t < 2 ^ 31" using assms(4) by linarith
  ultimately have "sint (num - of_nat (length ?t)) = int (unat num - length ?t)"
    by (simp add: signed_of_nat signed_take_bit_int_eq_self)
  then show ?thesis
    using assms(2,3) process_archive_frame [OF assms(1), of time priority]
    by (simp add: frame_texts_def nth_append nth_numbered_texts of_nat_diff)
qed

theorem texts_numbered_below_last_witness:
  "\<exists>s'. process_message sample_platform (frame_bytes (archive_frame 42 0 0 [[3]])) known_session = (s', Return ())
    \<and> be_messages (en_backend s') ! (length (be_messages (en_backend known_session)) + 0) =
        numbered_text (se_controller_id known_session) (se_firmware_version known_session)
          (int (unat (42 :: u32)) - int (length (platform_texts sample_platform [[3]])) + int 0)
          (platform_texts sample_platform [[3]] ! 0)
    \<and> en_counters s' (se_controller_id known_session) = Some 42"
  by (rule texts_numbered_below_last) (simp_all add: can_queue_def payload_fits_def queue_room_def known_session_def)

section \<open>The texts\<close>

text \<open>
  C29. The attributes of a message can be read back from its text, exactly and in order, when the
  phone number, the only free text in it, contains no quotation mark.
\<close>

theorem message_text_readable:
  assumes "plain_phone rt message"
  shows "read_attributes (render (extract_message rt mid message [])) = extract_message rt mid message []"
  by (rule read_message_text [OF assms])

theorem message_text_readable_witness:
  "read_attributes (render (extract_message sample_runtime 3 (rr_new ()) [])) = extract_message sample_runtime 3 (rr_new ()) []"
  by (rule message_text_readable) (simp add: plain_phone_def rr_has_general_def rr_new_def)



text \<open>
  C32. The time is printed so that it can be read back: from the text of every 32-bit Omnicomm time
  the number of seconds is recovered, through the calendar with its leap years.
\<close>

theorem time_text_roundtrip: "read_otime (otime_to_string (ucast (x :: u32))) = unat x"
  by (rule read_otime_to_string)

text \<open>
  C33. The numbers that go through floating point. The total acceleration, printed with two decimals from
  a \<^verbatim>\<open>double\<close>, is the exact decimal of the hundredths in the message, for every 32-bit value. A coordinate
  goes through \<^verbatim>\<open>float\<close>, so its printed millionths of a degree are not those of the message; but for
  coordinates up to 180 degrees they are off by at most 18 millionths.
\<close>

theorem number_texts_error:
  assumes "\<bar>sint x\<bar> \<le> 1800000000"
  shows "text_1e_2 y = signed_text (decimal_text 2) y
    \<and> text_1e_7f x = signed_text (\<lambda>n. decimal_text 6 (micro_degrees n)) x
    \<and> \<bar>10 * int (micro_degrees (nat \<bar>sint x\<bar>)) - \<bar>sint x\<bar>\<bar> \<le> 180"
  using micro_degrees_error [of "nat \<bar>sint x\<bar>"] assms hundredths_text [of y]
  by (simp add: text_1e_7f_def micro_degrees_text)

theorem number_texts_error_witness:
  "text_1e_2 (- 980) = signed_text (decimal_text 2) (- 980)
    \<and> text_1e_7f 557512345 = signed_text (\<lambda>n. decimal_text 6 (micro_degrees n)) 557512345
    \<and> \<bar>10 * int (micro_degrees (nat \<bar>sint (557512345 :: u32)\<bar>)) - \<bar>sint (557512345 :: u32)\<bar>\<bar> \<le> 180"
  by (rule number_texts_error) simp

text \<open>
  The two copies of the extraction functions agree: the members of \<^verbatim>\<open>info_protocol_t\<close> do what the
  free functions do, except for the course, which one prints as signed and the other as unsigned,
  and which is the same below \<open>2 ^ 31\<close>.
\<close>

lemma extraction_copies_agree:
  assumes "unat (nav_gpsdir nav_message) < 2 ^ 31"
  shows "ip_extract_general = (extract_general :: 'u general \<Rightarrow> smap \<Rightarrow> smap)
    \<and> ip_extract_unidt = (extract_unidt :: 'u unidt \<Rightarrow> smap \<Rightarrow> smap)
    \<and> ip_extract_llsdt = (extract_llsdt :: 'u llsdt \<Rightarrow> smap \<Rightarrow> smap)
    \<and> ip_extract_nav nav_message = extract_nav nav_message"
  using ip_extract_nav_eq [OF assms] by (simp add: ip_extract_general_eq ip_extract_unidt_eq ip_extract_llsdt_eq)

section \<open>The generated messages\<close>


text \<open>
  \<^verbatim>\<open>Clear\<close> makes a general, navigation or fuel message equal to a new one, when the fields whose
  has-bit is not set hold their default values: it only resets the fields that are marked as set.
\<close>

lemma clear_gives_new:
  assumes "gen_wf gen" and "nav_wf nav" and "lls_wf lls"
  shows "gen_clear rt gen = gen_new (rt_unknown_empty rt) \<and> nav_clear rt nav = nav_new (rt_unknown_empty rt)
    \<and> lls_clear rt lls = lls_new (rt_unknown_empty rt)"
  using gen_clear_fresh [OF assms(1)] nav_clear_fresh [OF assms(2)] lls_clear_fresh [OF assms(3)] by blast

lemma clear_gives_new_witness:
  "gen_clear sample_runtime (gen_set_time 5 (gen_new ())) = gen_new (rt_unknown_empty sample_runtime)
    \<and> nav_clear sample_runtime (nav_set_lat 5 (nav_new ())) = nav_new (rt_unknown_empty sample_runtime)
    \<and> lls_clear sample_runtime (lls_set_clls1 5 (lls_new ())) = lls_new (rt_unknown_empty sample_runtime)"
proof (rule clear_gives_new)
  show "gen_wf (gen_set_time 5 (gen_new ()))" by (simp add: gen_wf_def gen_set_time_def gen_set_has_time_def gen_new_def gen_has_time_def)
  show "nav_wf (nav_set_lat 5 (nav_new ()))" by (simp add: nav_wf_def nav_set_lat_def nav_set_has_lat_def nav_new_def nav_has_lat_def)
  show "lls_wf (lls_set_clls1 5 (lls_new ()))" by (simp add: lls_wf_def lls_set_clls1_def lls_set_has_clls1_def lls_new_def lls_has_clls1_def)
qed

section \<open>The storage\<close>

text \<open>
  C35. No message is duplicated, reordered or forgotten inside the storage queue: in every run of
  the thread and its callers, for every storage, the messages accepted are, in order, those that
  were stored or lost so far, then those the thread still has at hand, then the queue.
\<close>

theorem queue_conserves_messages:
  assumes "run (backend_step st) b evs b'"
  shows "at_hand b @ be_messages b @ concat (map accepted evs) =
    concat (map settled evs) @ at_hand b' @ be_messages b'"
  using run_conserves [OF assms] by (simp add: conserves_def)

theorem queue_conserves_messages_witness:
  "at_hand sample_backend @ be_messages sample_backend @ concat (map accepted ([] @ [Queued ''m''])) =
    concat (map settled ([] @ [Queued ''m''])) @ at_hand (fst (add_message ''m'' sample_backend))
      @ be_messages (fst (add_message ''m'' sample_backend))"
proof (rule queue_conserves_messages)
  have "add_message ''m'' sample_backend = (fst (add_message ''m'' sample_backend), Return 1)"
    by (simp add: add_message_def)
  then show "run (backend_step sample_storage) sample_backend ([] @ [Queued ''m'']) (fst (add_message ''m'' sample_backend))"
    by (intro run.step [OF run.stay] backend_step.thread thread_step.queue)
qed



text \<open>
  C37. An interruption that arrives while a batch is being saved does not stop the thread: it is
  raised inside the loop's own handler, the rest of the batch is lost, the request is used up, and
  from then on no run without another request ends the thread, so the \<^verbatim>\<open>join\<close> of \<^verbatim>\<open>stop\<close> never
  returns.
\<close>

theorem interruption_in_batch_is_swallowed:
  assumes "bk_thread b = Some (Saved rest)" and "bk_interrupt b" and "work_step st b = Some (evs, b1)"
    and "run (thread_step st) b1 evs' b2"
  shows "evs = [Lost rest] \<and> stop_join b2 = None"
proof -
  have b1: "evs = [Lost rest]" "\<not> bk_interrupt b1" "bk_thread b1 \<notin> {None, Some Ended}"
    using assms(1-3) by (auto simp: work_step_def)
  have "bk_thread b2 \<notin> {None, Some Ended}" using run_uninterrupted [OF assms(4) b1(2,3)] by simp
  with b1(1) stop_join_blocked show ?thesis by blast
qed

theorem interruption_in_batch_is_swallowed_witness:
  "[Lost [''m'']] = [Lost [''m'']]
    \<and> stop_join (sample_backend\<lparr>bk_interrupt := False, bk_thread := Some Asleep\<rparr>) = None"
proof (rule interruption_in_batch_is_swallowed)
  let ?b = "sample_backend\<lparr>bk_interrupt := True, bk_thread := Some (Saved [''m''])\<rparr>"
  show "bk_thread ?b = Some (Saved [''m''])" "bk_interrupt ?b" by simp_all
  show "work_step sample_storage ?b =
      Some ([Lost [''m'']], sample_backend\<lparr>bk_interrupt := False, bk_thread := Some Asleep\<rparr>)"
    by (simp add: work_step_def)
  show "run (thread_step sample_storage) (sample_backend\<lparr>bk_interrupt := False, bk_thread := Some Asleep\<rparr>) []
      (sample_backend\<lparr>bk_interrupt := False, bk_thread := Some Asleep\<rparr>)"
    by (rule run.stay)
qed

text \<open>
  An interruption that arrives while the queue is empty and nothing is being saved ends the
  thread: within four of its steps it is at the end of \<^verbatim>\<open>work_proc\<close>, for every storage whose calls
  return or throw.
\<close>

lemma interruption_when_idle_ends:
  assumes "storage_defined st" and "bk_interrupt b" and "be_messages b = []"
    and "bk_thread b \<in> {Some Asleep, Some Begin, Some Take, Some (Save [])}"
  shows "ends_within 4 st b"
  using assms ends_asleep [of b st] ends_begin [of st b] ends_take [of st b] ends_save [of st b]
  by (auto intro: ends_within_mono)

lemma interruption_when_idle_ends_witness: "ends_within 4 sample_storage (stop_interrupt sample_backend)"
  by (rule interruption_when_idle_ends)
    (simp_all add: storage_defined_def sample_storage_def base_begin_batch_def base_end_batch_def stop_interrupt_def)

text \<open>
  The queue never holds more than its capacity, in no run of the thread and its callers; a
  message beyond it is refused with the exception the code throws and changes nothing.
\<close>

lemma queue_capacity:
  assumes "run (backend_step st) b evs b'" and "within_capacity b"
  shows "within_capacity b'
    \<and> (length (be_messages b') = be_max_messages b' \<longrightarrow>
        add_message msg b' = (b', Throw (Overflow_error ''Message buffer capacity exceeded'')))"
  using run_capacity [OF assms] by (simp add: add_message_def)



text \<open>
  \<^verbatim>\<open>open_connection\<close> either returns with an open connection or throws a \<^verbatim>\<open>runtime_error\<close> and leaves
  none, so that the next batch connects again; no other exception of the client gets out of it.
\<close>

lemma open_connection_contract:
  assumes "open_connection oc s = (s', r)"
  shows "(r = Return () \<longrightarrow> or_connection s' \<noteq> None)
    \<and> (\<forall>e. r = Throw e \<longrightarrow> or_connection s' = None \<and> (\<exists>w. e = Runtime_error w))"
  using assms open_connection_Return [of oc s s'] open_connection_Throw [of oc s s'] by blast

lemma open_connection_contract_witness:
  "or_connection ((fst (oracle_new sample_occi sample_options False []))\<lparr>or_connection := Some 1\<rparr>) \<noteq> None"
proof (rule open_connection_contract [THEN conjunct1, THEN mp, OF _ refl])
  show "open_connection sample_occi (fst (oracle_new sample_occi sample_options False [])) =
      ((fst (oracle_new sample_occi sample_options False []))\<lparr>or_connection := Some 1\<rparr>, Return ())"
    by (simp add: open_connection_def ensure_connection_def check_connection_def oracle_new_def sample_occi_def)
qed

text \<open>
  The factory makes a storage for exactly the two kinds that are compiled in; every other kind,
  also \<^verbatim>\<open>mongo\<close>, is refused with the exception the code throws, before anything is connected.
\<close>

lemma factory_kinds:
  "(so_kind options = ''rabbit'' \<longrightarrow> factory_create oc options d = Return (Rabbitmq (rabbitmq_new options)))
   \<and> (so_kind options = ''oracle'' \<longrightarrow> factory_create oc options d = create_oracle oc options d)
   \<and> (so_kind options \<notin> {''rabbit'', ''oracle''} \<longrightarrow>
        factory_create oc options d = Throw (Invalid_argument ''Specified storage backend not supported''))"
  by (simp add: factory_create_def backends_def create_rabbitmq_def)

lemma factory_kinds_witness:
  "factory_create sample_occi (sample_options\<lparr>so_kind := ''mongo''\<rparr>) [] =
    Throw (Invalid_argument ''Specified storage backend not supported'')"
  by (rule factory_kinds [THEN conjunct2, THEN conjunct2, THEN mp]) simp

section \<open>The settings\<close>

text \<open>
  C39. \<^verbatim>\<open>read_settings_from_file\<close> is all or nothing: it returns with one entry per section of the file,
  in order, each with all its required options found; or it throws a \<^verbatim>\<open>runtime_error\<close> and leaves the
  options as they were.
\<close>

theorem settings_all_or_nothing:
  assumes "read_settings_from_file path file options = (options', r)" and "r \<noteq> Undefined"
  shows "(\<exists>config. r = Return () \<and> file = File_read config \<and> map op_name options' = cf_names config
      \<and> (\<forall>name \<in> set (cf_names config). list_all (path_found config name) required_paths))
    \<or> (\<exists>w. r = Throw (Runtime_error w)) \<and> options' = options"
proof (cases "file")
  case (File_read config)
  show ?thesis
  proof (cases "parse_all config (cf_names config)")
    case (Return os)
    with File_read assms parse_all_names [OF Return] parse_all_found [OF Return] show ?thesis
      by (simp add: read_settings_from_file_def)
  next
    case (Throw e)
    with File_read assms show ?thesis by (cases e) (auto simp: read_settings_from_file_def)
  next
    case Undefined
    with File_read assms show ?thesis by (simp add: read_settings_from_file_def)
  qed
qed (use assms in \<open>auto simp: read_settings_from_file_def\<close>)

theorem settings_all_or_nothing_witness:
  "map op_name (fst (read_settings_from_file ''communicator.conf'' (File_read sample_config) [])) = [''omnicomm_profi'']"
proof -
  obtain os where rd: "read_settings_from_file ''communicator.conf'' (File_read sample_config) [] = (os, Return ())"
    by (simp add: read_settings_from_file_def sample_config_def parse_settings_def fetch_string_def fetch_unsigned_def
        fetch_settings1_def fetch_as_def)
  from settings_all_or_nothing [OF rd] rd show ?thesis by (auto simp: sample_config_def)
qed

text \<open>
  The program runs as a daemon exactly when its first argument is one of the ten keywords; any
  other first argument is an error and the configuration file is not read.
\<close>

lemma daemon_argument:
  "(\<exists>w. 1 < length argv \<and> argv ! 1 \<notin> set daemon_keywords \<and>
      get_settings argv file options mode = ((options, mode), Throw (Runtime_error w)))
   \<or> (length argv \<le> 1 \<or> argv ! 1 \<in> set daemon_keywords)
      \<and> snd (fst (get_settings argv file options mode)) = (mode \<or> 1 < length argv)
      \<and> snd (get_settings argv file options mode) = snd (read_settings_from_file ''communicator.conf'' file options)"
  by (auto simp: get_settings_def split: prod.split)

section \<open>The server\<close>

text \<open>
  C40. The server keeps serving: when the constructor returns, and after any sequence of completions
  that boost.asio can deliver from then on, an accept and the timer are pending and every open
  connection is waiting for data.
\<close>

theorem server_keeps_serving:
  assumes "server_new oc options d failure now e = Return v" and "server_run pf v es v'"
  shows "sv_accepting v' \<noteq> None \<and> sv_timer v' \<noteq> None \<and> (\<forall>c \<in> set (sv_clients v'). se_open c \<longrightarrow> cl_reading c)"
  using server_run_serving [OF assms(2) server_new_serving [OF assms(1)]]
  by (auto simp: serving_def waiting_if_open_def list_all_iff)

theorem server_keeps_serving_witness:
  "sv_accepting (handle_accept Success (Some ''peer'') (client_create (protocol_create sample_env)) sample_server) \<noteq> None"
proof (rule server_keeps_serving [OF sample_server_new, THEN conjunct1])
  have "sv_accepting sample_server = Some (client_create (protocol_create sample_env))" "sv_running sample_server"
    by (simp_all add: sample_server_def start_accept_def bind_signals_def server_init_def)
  then show "server_run sample_platform sample_server ([] @ [Accepted Success (Some ''peer'')])
      (handle_accept Success (Some ''peer'') (client_create (protocol_create sample_env)) sample_server)"
    by (intro server_run.event [OF server_run.idle]) simp_all
qed

text \<open>
  No exception of the protocol gets out of \<^verbatim>\<open>handle_read\<close>; and a read that fills the whole
  buffer of 8192 bytes is taken for an error: the connection is closed and its bytes are dropped.
\<close>

lemma full_read_closes:
  "(snd (handle_read pf error data c) = Return () \<or> snd (handle_read pf error data c) = Undefined)
    \<and> (length data = async_buffer_size \<longrightarrow>
        handle_read pf Success data c = (client_close (c\<lparr>cl_reading := False\<rparr>), Return ()))"
proof -
  obtain c' r where h: "handle_read pf error data c = (c', r)" by fastforce
  from handle_read_outcome(1) [OF h] h show ?thesis by (simp add: handle_read_def Let_def)
qed

text \<open>
  A completed read changes the connection it belongs to and the shared environment; every other
  connection of the list stays as it is, and the timer drops exactly the closed ones, in order.
\<close>

lemma reads_are_isolated:
  assumes "client_read pf i error data v = (v', r)"
  shows "(\<forall>j. j \<noteq> i \<longrightarrow> sv_clients v' ! j = sv_clients v ! j)
    \<and> sv_clients (drop_unused_clients v') = filter se_open (sv_clients v')"
  using client_read_others [OF assms] by (simp add: drop_unused_clients_def)

lemma reads_are_isolated_witness:
  "sv_clients (drop_unused_clients (fst (client_read sample_platform 0 Success [] (sample_server\<lparr>sv_clients := [client_create (protocol_create sample_env)]\<rparr>)))) =
      filter se_open (sv_clients (fst (client_read sample_platform 0 Success [] (sample_server\<lparr>sv_clients := [client_create (protocol_create sample_env)]\<rparr>))))"
  by (rule reads_are_isolated [OF surjective_pairing, THEN conjunct2])

end
